(* ===== verification/Db_Enums.thy ===== *)
theory Db_Enums
  imports Main
begin

text \<open>
  The enumerations of \<open>ledgerloop/db/enums.py\<close>: one datatype per \<open>StrEnum\<close>, the string each
  member stands for, and the reading of a string back (\<open>IngestSource(value)\<close>, which raises on an
  unknown one). \<open>match_layer\<close> is ordered as it is declared, which is the order PostgreSQL gives a
  native enum and the order the matcher runs its layers in.
\<close>

datatype ingest_source = GATEWAY | LEDGER

datatype account_kind = REAL | DEMO

datatype recon_status =
    MATCHED
  | UNMATCHED_GATEWAY_ONLY
  | UNMATCHED_LEDGER_ONLY
  | DUPLICATE
  | AMOUNT_DRIFT
  | TIME_DRIFT

datatype match_layer =
    L_EXACT
  | L_TIME_DRIFT
  | L_AMOUNT_DRIFT
  | L_DUPLICATE
  | L_UNMATCHED_SWEEP

datatype webhook_provider = STRIPE | RAZORPAY | CUSTOM

datatype webhook_delivery_status = OK | INVALID_SIGNATURE | INVALID_PAYLOAD

subsection \<open>Values on the wire\<close>

fun ingest_source_value :: "ingest_source \<Rightarrow> string" where
  "ingest_source_value GATEWAY = ''gateway''"
| "ingest_source_value LEDGER = ''ledger''"

definition ingest_source_of :: "string \<Rightarrow> ingest_source option" where
  "ingest_source_of s =
     (if s = ''gateway'' then Some GATEWAY else if s = ''ledger'' then Some LEDGER else None)"

lemma ingest_source_of_value [simp]: "ingest_source_of (ingest_source_value x) = Some x"
  by (cases x) (simp_all add: ingest_source_of_def)

fun recon_status_value :: "recon_status \<Rightarrow> string" where
  "recon_status_value MATCHED = ''matched''"
| "recon_status_value UNMATCHED_GATEWAY_ONLY = ''unmatched_gateway_only''"
| "recon_status_value UNMATCHED_LEDGER_ONLY = ''unmatched_ledger_only''"
| "recon_status_value DUPLICATE = ''duplicate''"
| "recon_status_value AMOUNT_DRIFT = ''amount_drift''"
| "recon_status_value TIME_DRIFT = ''time_drift''"

fun match_layer_value :: "match_layer \<Rightarrow> string" where
  "match_layer_value L_EXACT = ''exact''"
| "match_layer_value L_TIME_DRIFT = ''time_drift''"
| "match_layer_value L_AMOUNT_DRIFT = ''amount_drift''"
| "match_layer_value L_DUPLICATE = ''duplicate''"
| "match_layer_value L_UNMATCHED_SWEEP = ''unmatched_sweep''"

fun account_kind_value :: "account_kind \<Rightarrow> string" where
  "account_kind_value REAL = ''real''"
| "account_kind_value DEMO = ''demo''"

fun webhook_provider_value :: "webhook_provider \<Rightarrow> string" where
  "webhook_provider_value STRIPE = ''stripe''"
| "webhook_provider_value RAZORPAY = ''razorpay''"
| "webhook_provider_value CUSTOM = ''custom''"

subsection \<open>Status sets\<close>

text \<open>\<open>EXCEPTION_STATUSES\<close> and \<open>SUPPRESSED_STATUSES\<close>.\<close>

definition exception_statuses :: "recon_status set" where
  "exception_statuses = {AMOUNT_DRIFT, UNMATCHED_GATEWAY_ONLY, UNMATCHED_LEDGER_ONLY}"

definition suppressed_statuses :: "recon_status set" where
  "suppressed_statuses = {DUPLICATE}"

subsection \<open>The order of the layers\<close>

fun layer_position :: "match_layer \<Rightarrow> nat" where
  "layer_position L_EXACT = 0"
| "layer_position L_TIME_DRIFT = 1"
| "layer_position L_AMOUNT_DRIFT = 2"
| "layer_position L_DUPLICATE = 3"
| "layer_position L_UNMATCHED_SWEEP = 4"

lemma layer_position_inject: "layer_position x = layer_position y \<longleftrightarrow> x = y"
  by (cases x; cases y) simp_all

instantiation match_layer :: linorder
begin

definition less_eq_match_layer :: "match_layer \<Rightarrow> match_layer \<Rightarrow> bool" where
  "less_eq_match_layer x y \<longleftrightarrow> layer_position x \<le> layer_position y"

definition less_match_layer :: "match_layer \<Rightarrow> match_layer \<Rightarrow> bool" where
  "less_match_layer x y \<longleftrightarrow> layer_position x < layer_position y"

instance
  by standard (auto simp: less_eq_match_layer_def less_match_layer_def layer_position_inject)

end

end
