(* ===== verification/Prelude.thy ===== *)
theory Prelude
  imports Main "HOL-Library.Product_Lexorder"
begin

text \<open>
  What every component of the development shares: the names of the model's basic types, the
  collections of facts the component proofs draw on, and the list operations that stand for the
  four SQL statement shapes and the Python idioms the program is written in
  (\<open>INSERT .. ON CONFLICT DO NOTHING\<close>, \<open>UPDATE .. WHERE\<close>, \<open>min(.., key=..)\<close>,
  \<open>dict.setdefault\<close>), with the laws the components use.
\<close>

named_theorems table_simps \<open>how the list operations that stand for SQL statements compute\<close>
named_theorems inv_intros \<open>rules that establish parts of the database invariant\<close>

subsection \<open>Instants, durations and results\<close>

text \<open>
  A \<open>datetime\<close> of the program is always timezone-aware, so it is an instant: the number of
  microseconds since the epoch (Python's \<open>datetime\<close> and PostgreSQL's \<open>timestamptz\<close> both have
  microsecond resolution). A \<open>timedelta\<close> is a number of microseconds.
\<close>

type_synonym instant = int
type_synonym duration = int

definition seconds :: "int \<Rightarrow> duration" where
  "seconds s = s * 1000000"

text \<open>A fallible computation: \<open>Inl\<close> is the exception, \<open>Inr\<close> the result.\<close>

fun bind_result :: "'e + 'a \<Rightarrow> ('a \<Rightarrow> 'e + 'b) \<Rightarrow> 'e + 'b" where
  "bind_result (Inl e) f = Inl e"
| "bind_result (Inr x) f = f x"

lemma bind_result_Inr_iff:
  "bind_result r f = Inr y \<longleftrightarrow> (\<exists>x. r = Inr x \<and> f x = Inr y)"
  by (cases r) auto

subsection \<open>UPDATE .. WHERE\<close>

definition update_where :: "('r \<Rightarrow> bool) \<Rightarrow> ('r \<Rightarrow> 'r) \<Rightarrow> 'r list \<Rightarrow> 'r list" where
  "update_where p f rs = map (\<lambda>r. if p r then f r else r) rs"

lemma update_where_Nil [simp]: "update_where p f [] = []"
  by (simp add: update_where_def)

lemma update_where_Cons [table_simps]:
  "update_where p f (r # rs) = (if p r then f r else r) # update_where p f rs"
  by (simp add: update_where_def)

lemma update_where_append [table_simps]:
  "update_where p f (rs @ qs) = update_where p f rs @ update_where p f qs"
  by (simp add: update_where_def)

lemma length_update_where [simp]: "length (update_where p f rs) = length rs"
  by (simp add: update_where_def)

lemma set_update_where:
  "set (update_where p f rs) = (\<lambda>r. if p r then f r else r) ` set rs"
  by (simp add: update_where_def)

lemma map_update_where [table_simps]:
  "(\<And>r. g (f r) = g r) \<Longrightarrow> map g (update_where p f rs) = map g rs"
  by (simp add: update_where_def)

lemma update_where_id: "(\<And>r. r \<in> set rs \<Longrightarrow> \<not> p r) \<Longrightarrow> update_where p f rs = rs"
  by (simp add: update_where_def map_idI)

lemma filter_update_where:
  "(\<And>r. q (f r) = q r) \<Longrightarrow> filter q (update_where p f rs) = update_where p f (filter q rs)"
  by (induction rs) (auto simp: update_where_def)

subsection \<open>Looking a row up by a key that is unique\<close>

lemma find_append:
  "List.find p (xs @ ys) = (case List.find p xs of None \<Rightarrow> List.find p ys | Some x \<Rightarrow> Some x)"
  by (induction xs) auto

lemma find_SomeD: "List.find p xs = Some x \<Longrightarrow> x \<in> set xs \<and> p x"
  by (induction xs) (auto split: if_splits)

lemma find_None_iff': "List.find p xs = None \<longleftrightarrow> (\<forall>x \<in> set xs. \<not> p x)"
  by (induction xs) auto

lemma find_map_distinct:
  "distinct (map k xs) \<Longrightarrow> x \<in> set xs \<Longrightarrow> List.find (\<lambda>y. k y = k x) xs = Some x"
  by (induction xs) (auto simp: image_iff)

lemma distinct_map_eqD:
  "distinct (map k xs) \<Longrightarrow> x \<in> set xs \<Longrightarrow> y \<in> set xs \<Longrightarrow> k x = k y \<Longrightarrow> x = y"
  by (meson distinct_map inj_onD)

lemma filter_unique:
  "distinct (map k xs) \<Longrightarrow> x \<in> set xs \<Longrightarrow> filter (\<lambda>y. k y = k x) xs = [x]"
  by (induction xs) (auto simp: filter_empty_conv image_iff)

lemma distinct_map_filterI: "distinct (map k xs) \<Longrightarrow> distinct (map k (filter p xs))"
  by (rule distinct_map_filter)

subsection \<open>min(.., key=..)\<close>

text \<open>Python's \<open>min\<close> with a key returns the first of the smallest elements.\<close>

fun min_by :: "('a \<Rightarrow> 'k::linorder) \<Rightarrow> 'a \<Rightarrow> 'a list \<Rightarrow> 'a" where
  "min_by f b [] = b"
| "min_by f b (x # xs) = (if f x < f b then min_by f x xs else min_by f b xs)"

lemma min_by_in: "min_by f b xs \<in> set (b # xs)"
  by (induction xs arbitrary: b) (auto split: if_splits)

lemma min_by_le: "y \<in> set (b # xs) \<Longrightarrow> f (min_by f b xs) \<le> f y"
proof (induction xs arbitrary: b y)
  case Nil
  then show ?case by simp
next
  case (Cons x xs)
  have head: "f (min_by f x xs) \<le> f x" "f (min_by f b xs) \<le> f b"
    using Cons.IH [of x x] Cons.IH [of b b] by auto
  show ?case
  proof (cases "y = b \<or> y = x")
    case True
    with head show ?thesis by (auto simp: not_less intro: order_trans)
  next
    case False
    with Cons.prems have "y \<in> set xs" by auto
    then show ?thesis using Cons.IH [of y x] Cons.IH [of y b] by auto
  qed
qed

text \<open>When the keys are pairwise different, the minimum does not depend on the order.\<close>

lemma min_by_unique:
  assumes "set (b # xs) = set (c # ys)" and inj: "inj_on f (set (b # xs))"
  shows "min_by f b xs = min_by f c ys"
proof -
  have "f (min_by f b xs) \<le> f (min_by f c ys)"
    using assms(1) min_by_in [of f c ys] min_by_le [of "min_by f c ys" b xs f] by simp
  moreover have "f (min_by f c ys) \<le> f (min_by f b xs)"
    using assms(1) min_by_in [of f b xs] min_by_le [of "min_by f b xs" c ys f] by simp
  ultimately have "f (min_by f b xs) = f (min_by f c ys)" by simp
  then show ?thesis
    using inj min_by_in [of f b xs] min_by_in [of f c ys] assms(1) by (metis inj_onD)
qed

subsection \<open>dict.setdefault on an insertion-ordered dictionary\<close>

definition setdefault :: "'k \<Rightarrow> 'v \<Rightarrow> ('k \<times> 'v) list \<Rightarrow> ('k \<times> 'v) list" where
  "setdefault k v m = (if k \<in> fst ` set m then m else m @ [(k, v)])"

lemma map_of_setdefault:
  "map_of (setdefault k v m) =
     (case map_of m k of None \<Rightarrow> (map_of m)(k \<mapsto> v) | Some _ \<Rightarrow> map_of m)"
proof (cases "k \<in> fst ` set m")
  case True
  then show ?thesis by (auto simp: setdefault_def map_of_eq_None_iff split: option.splits)
next
  case False
  then have "map_of m k = None" by (simp add: map_of_eq_None_iff)
  with False show ?thesis
    by (auto simp: setdefault_def map_add_def fun_eq_iff split: option.splits)
qed

lemma keys_setdefault: "fst ` set (setdefault k v m) = insert k (fst ` set m)"
  by (auto simp: setdefault_def)

lemma distinct_keys_setdefault:
  "distinct (map fst m) \<Longrightarrow> distinct (map fst (setdefault k v m))"
  by (auto simp: setdefault_def)

subsection \<open>Unique indexes\<close>

text \<open>
  A (partial) unique index is given by the keys a row occupies in it: none when the row is
  outside the index's \<open>WHERE\<close>. Several indexes together are the concatenation of their keys,
  tagged so that they cannot clash. \<open>conflicts\<close> says that a new row hits an index,
  \<open>insert_unless_conflict\<close> is \<open>INSERT .. ON CONFLICT DO NOTHING\<close>.
\<close>

definition conflicts :: "('r \<Rightarrow> 'k list) \<Rightarrow> 'r list \<Rightarrow> 'r \<Rightarrow> bool" where
  "conflicts keys rs r = list_ex (\<lambda>q. list_ex (\<lambda>k. List.member (keys q) k) (keys r)) rs"

lemma conflicts_iff: "conflicts keys rs r \<longleftrightarrow> (\<exists>q \<in> set rs. set (keys r) \<inter> set (keys q) \<noteq> {})"
  by (auto simp: conflicts_def list_ex_iff)

definition insert_unless_conflict ::
  "('r \<Rightarrow> 'k list) \<Rightarrow> 'r \<Rightarrow> 'r list \<Rightarrow> 'r list \<times> bool" where
  "insert_unless_conflict keys r rs =
     (if conflicts keys rs r then (rs, False) else (rs @ [r], True))"

definition index_ok :: "('r \<Rightarrow> 'k list) \<Rightarrow> 'r list \<Rightarrow> bool" where
  "index_ok keys rs \<longleftrightarrow> distinct (concat (map keys rs))"

end
