(* ===== verification/Decimal_Model.thy ===== *)
theory Decimal_Model
  imports Complex_Main Prelude
begin

text \<open>
  Python's \<open>decimal.Decimal\<close>, as far as the program uses it: a finite decimal is a coefficient
  and an exponent, comparisons are exact, and every arithmetic operation rounds its exact result
  to the 28 significant digits of the default context, half to even. The rounding is kept because
  the amounts of the program are 18 digits long and the drift percentage is a free setting: the
  lemmas at the end give the bound under which nothing is rounded.
\<close>

datatype decimal = Dec (coeff: int) (expo: int)

definition dec_val :: "decimal \<Rightarrow> rat" where
  "dec_val d = of_int (coeff d) * 10 powi expo d"

lemma dec_val_code [code]:
  "dec_val (Dec c e) = (if 0 \<le> e then of_int (c * 10 ^ nat e) else of_int c / of_int (10 ^ nat (- e)))"
  by (auto simp: dec_val_def power_int_def field_simps power_inverse)

subsection \<open>Rounding to the context's precision\<close>

fun num_digits :: "nat \<Rightarrow> nat" where
  "num_digits n = (if n < 10 then 1 else Suc (num_digits (n div 10)))"

declare num_digits.simps [simp del]

lemma num_digits_eval:
  shows "n < 10 \<Longrightarrow> num_digits n = 1"
    and "10 \<le> n \<Longrightarrow> num_digits n = Suc (num_digits (n div 10))"
  by (subst num_digits.simps; simp)+

lemma num_digits_le_iff: "num_digits n \<le> Suc k \<longleftrightarrow> n < 10 ^ Suc k"
proof (induction k arbitrary: n)
  case 0
  have "1 \<le> num_digits m" for m by (subst num_digits.simps) auto
  then show ?case by (subst num_digits.simps) (auto simp: Suc_le_eq not_less)
next
  case (Suc k)
  have "num_digits (n div 10) \<le> Suc k \<longleftrightarrow> n div 10 < 10 ^ Suc k" by (rule Suc.IH)
  also have "\<dots> \<longleftrightarrow> n < 10 ^ Suc (Suc k)" by (simp add: div_less_iff_less_mult mult.commute)
  finally show ?case
    by (subst num_digits.simps) (auto simp: less_le_trans [of n 10] self_le_power)
qed

definition dec_prec :: nat where
  "dec_prec = 28"

text \<open>Round half to even, dropping \<open>k\<close> digits of a natural number.\<close>

definition drop_digits :: "nat \<Rightarrow> nat \<Rightarrow> nat" where
  "drop_digits k n =
     (let h = 10 ^ k; q = n div h; r = n mod h
      in if h < 2 * r \<or> (2 * r = h \<and> odd q) then q + 1 else q)"

definition dec_fix :: "decimal \<Rightarrow> decimal" where
  "dec_fix d =
     (let n = nat \<bar>coeff d\<bar>; w = num_digits n
      in if w \<le> dec_prec then d
         else let k = w - dec_prec; q = drop_digits k n
              in if q = 10 ^ dec_prec
                 then Dec (sgn (coeff d) * 10 ^ (dec_prec - 1)) (expo d + int k + 1)
                 else Dec (sgn (coeff d) * int q) (expo d + int k))"

lemma dec_fix_id: "\<bar>coeff d\<bar> < 10 ^ dec_prec \<Longrightarrow> dec_fix d = d"
proof -
  assume "\<bar>coeff d\<bar> < 10 ^ dec_prec"
  then have "nat \<bar>coeff d\<bar> < 10 ^ dec_prec"
    by (metis nat_less_iff abs_ge_zero of_nat_numeral of_nat_power)
  then have "num_digits (nat \<bar>coeff d\<bar>) \<le> dec_prec"
    using num_digits_le_iff [of "nat \<bar>coeff d\<bar>" 27] by (simp add: dec_prec_def)
  then show ?thesis by (simp add: dec_fix_def Let_def)
qed

lemma dec_fix_uminus:
  "dec_fix (Dec (- c) e) = Dec (- coeff (dec_fix (Dec c e))) (expo (dec_fix (Dec c e)))"
  by (simp add: dec_fix_def Let_def)

subsection \<open>Comparison and arithmetic\<close>

text \<open>Two coefficients at a common exponent.\<close>

definition align :: "decimal \<Rightarrow> decimal \<Rightarrow> int \<times> int \<times> int" where
  "align a b =
     (let m = min (expo a) (expo b)
      in (coeff a * 10 ^ nat (expo a - m), coeff b * 10 ^ nat (expo b - m), m))"

definition dec_le :: "decimal \<Rightarrow> decimal \<Rightarrow> bool" where
  "dec_le a b = (case align a b of (x, y, _) \<Rightarrow> x \<le> y)"

definition dec_eq :: "decimal \<Rightarrow> decimal \<Rightarrow> bool" where
  "dec_eq a b = (case align a b of (x, y, _) \<Rightarrow> x = y)"

definition dec_abs :: "decimal \<Rightarrow> decimal" where
  "dec_abs a = dec_fix (Dec \<bar>coeff a\<bar> (expo a))"

definition dec_sub :: "decimal \<Rightarrow> decimal \<Rightarrow> decimal" where
  "dec_sub a b = (case align a b of (x, y, m) \<Rightarrow> dec_fix (Dec (x - y) m))"

definition dec_mult :: "decimal \<Rightarrow> decimal \<Rightarrow> decimal" where
  "dec_mult a b = dec_fix (Dec (coeff a * coeff b) (expo a + expo b))"

text \<open>\<open>max(a, b)\<close> of the language: the first argument unless the second is greater.\<close>

definition dec_max :: "decimal \<Rightarrow> decimal \<Rightarrow> decimal" where
  "dec_max a b = (if dec_le b a then a else b)"

text \<open>\<open>Decimal.scaleb\<close>: a shift of the exponent.\<close>

definition dec_scaleb :: "decimal \<Rightarrow> int \<Rightarrow> decimal" where
  "dec_scaleb a k = dec_fix (Dec (coeff a) (expo a + k))"

text \<open>The equations that evaluate the operations on concrete decimals.\<close>

lemmas decimal_eval = dec_le_def dec_eq_def dec_abs_def dec_sub_def dec_mult_def dec_max_def
  align_def Let_def dec_fix_def drop_digits_def dec_prec_def num_digits_eval

subsection \<open>What the operations compute\<close>

lemma dec_val_align:
  assumes "align a b = (x, y, m)"
  shows "dec_val a = of_int x * 10 powi m" and "dec_val b = of_int y * 10 powi m"
proof -
  have shift: "of_int c * (10::rat) powi e = of_int (c * 10 ^ nat (e - m)) * 10 powi m"
    if "m \<le> e" for c e
  proof -
    have "(10::rat) powi e = 10 powi (int (nat (e - m)) + m)" using that by simp
    also have "\<dots> = 10 powi int (nat (e - m)) * 10 powi m"
      by (rule power_int_add) simp
    also have "\<dots> = 10 ^ nat (e - m) * 10 powi m"
      by (simp only: power_int_of_nat)
    finally show ?thesis by simp
  qed
  have "m = min (expo a) (expo b)" "x = coeff a * 10 ^ nat (expo a - m)"
    "y = coeff b * 10 ^ nat (expo b - m)"
    using assms by (auto simp: align_def Let_def)
  then show "dec_val a = of_int x * 10 powi m" "dec_val b = of_int y * 10 powi m"
    using shift [of "expo a" "coeff a"] shift [of "expo b" "coeff b"]
    by (auto simp: dec_val_def)
qed

lemma dec_le_iff: "dec_le a b \<longleftrightarrow> dec_val a \<le> dec_val b"
proof -
  obtain x y m where al: "align a b = (x, y, m)" by (metis prod_cases3)
  have "(0::rat) < 10 powi m" by (rule zero_less_power_int) simp
  then have "of_int x * 10 powi m \<le> of_int y * (10::rat) powi m \<longleftrightarrow> of_int x \<le> (of_int y :: rat)"
    by (rule mult_le_cancel_right_pos)
  then show ?thesis using dec_val_align [OF al] by (simp add: dec_le_def al)
qed

lemma dec_eq_iff: "dec_eq a b \<longleftrightarrow> dec_val a = dec_val b"
proof -
  obtain x y m where al: "align a b = (x, y, m)" by (metis prod_cases3)
  then show ?thesis using dec_val_align [OF al] by (simp add: dec_eq_def)
qed

lemma dec_val_fix_exact: "\<bar>coeff d\<bar> < 10 ^ dec_prec \<Longrightarrow> dec_val (dec_fix d) = dec_val d"
  by (simp add: dec_fix_id)

lemma dec_val_abs_exact: "\<bar>coeff a\<bar> < 10 ^ dec_prec \<Longrightarrow> dec_val (dec_abs a) = \<bar>dec_val a\<bar>"
  by (simp add: dec_abs_def dec_val_fix_exact) (simp add: dec_val_def abs_mult)

lemma dec_val_mult_exact:
  "\<bar>coeff a * coeff b\<bar> < 10 ^ dec_prec \<Longrightarrow> dec_val (dec_mult a b) = dec_val a * dec_val b"
  by (simp add: dec_mult_def dec_val_fix_exact) (simp add: dec_val_def power_int_add)

lemma dec_val_max: "dec_val (dec_max a b) = max (dec_val a) (dec_val b)"
  by (auto simp: dec_max_def dec_le_iff)

lemma dec_val_sub_exact:
  assumes "align a b = (x, y, m)" and "\<bar>x - y\<bar> < 10 ^ dec_prec"
  shows "dec_val (dec_sub a b) = dec_val a - dec_val b"
  using assms dec_val_align [OF assms(1)]
  by (simp add: dec_sub_def dec_val_fix_exact) (simp add: dec_val_def algebra_simps)

lemma dec_abs_sub_commute: "dec_abs (dec_sub a b) = dec_abs (dec_sub b a)"
proof -
  have flip: "align b a = (case align a b of (x, y, m) \<Rightarrow> (y, x, m))"
    by (simp add: align_def Let_def min.commute)
  have "dec_abs (dec_fix (Dec (x - y) m)) = dec_abs (dec_fix (Dec (y - x) m))" for x y m
    using dec_fix_uminus [of "x - y" m] by (simp add: dec_abs_def)
  then show ?thesis by (simp add: dec_sub_def flip split: prod.splits)
qed

subsection \<open>numeric(18,2)\<close>

text \<open>
  A money column: the stored value has two decimals. A value with more is rounded half away from
  zero, and one whose rounded absolute value does not fit 16 digits before the point is an error.
\<close>

definition numeric_18_2 :: "decimal \<Rightarrow> decimal option" where
  "numeric_18_2 d =
     (let c = (if -2 \<le> expo d then coeff d * 10 ^ nat (expo d + 2)
               else let h = 10 ^ nat (- 2 - expo d)
                    in sgn (coeff d) * ((2 * \<bar>coeff d\<bar> + h) div (2 * h)))
      in if \<bar>c\<bar> < 10 ^ 18 then Some (Dec c (-2)) else None)"

definition is_money :: "decimal \<Rightarrow> bool" where
  "is_money d \<longleftrightarrow> expo d = -2 \<and> \<bar>coeff d\<bar> < 10 ^ 18"

lemma numeric_18_2_money: "numeric_18_2 d = Some m \<Longrightarrow> is_money m"
  by (auto simp: numeric_18_2_def is_money_def Let_def split: if_splits)

lemma numeric_18_2_exact:
  assumes "-2 \<le> expo d" and "numeric_18_2 d = Some m"
  shows "dec_val m = dec_val d"
proof -
  have "m = Dec (coeff d * 10 ^ nat (expo d + 2)) (-2)"
    using assms by (auto simp: numeric_18_2_def Let_def split: if_splits)
  moreover have "(10::rat) powi expo d = 10 powi (int (nat (expo d + 2)) + (-2))"
    using assms(1) by simp
  moreover have "\<dots> = 10 ^ nat (expo d + 2) * 10 powi (-2)"
    by (subst power_int_add) (auto simp: power_int_def)
  ultimately show ?thesis by (simp add: dec_val_def)
qed

lemma numeric_18_2_id: "is_money d \<Longrightarrow> numeric_18_2 d = Some d"
  by (cases d) (auto simp: numeric_18_2_def is_money_def Let_def)

text \<open>On money values the operations of the matcher never round.\<close>

lemma money_small: "is_money a \<Longrightarrow> \<bar>coeff a\<bar> < 10 ^ dec_prec"
  by (auto simp: is_money_def dec_prec_def)

lemma dec_sub_money:
  assumes "is_money a" and "is_money b"
  shows "dec_sub a b = Dec (coeff a - coeff b) (-2)"
  using assms by (auto simp: dec_sub_def align_def is_money_def dec_fix_id dec_prec_def)

lemma dec_val_sub_money:
  "is_money a \<Longrightarrow> is_money b \<Longrightarrow> dec_val (dec_sub a b) = dec_val a - dec_val b"
  by (simp add: dec_sub_money) (simp add: dec_val_def is_money_def left_diff_distrib)

lemma dec_val_abs_sub_money:
  assumes "is_money a" and "is_money b"
  shows "dec_val (dec_abs (dec_sub a b)) = \<bar>dec_val a - dec_val b\<bar>"
proof -
  have "dec_val (dec_abs (dec_sub a b)) = \<bar>dec_val (dec_sub a b)\<bar>"
    using assms by (intro dec_val_abs_exact) (auto simp: dec_sub_money dec_prec_def is_money_def)
  then show ?thesis by (simp add: dec_val_sub_money assms)
qed

end
