(* ===== verification/Matching_Core.thy ===== *)
theory Matching_Core
  imports Db_Enums Settings "HOL-Library.Multiset"
begin

text \<open>
  \<open>ledgerloop/matching/core.py\<close>, the pure matcher: the facts of a row, the configuration, the
  classification of one pair (layers 0 to 3), the choice of the best counterparty, and the
  decisions of layers 4 and 5. The \<open>notes\<close> string of a decision is kept as its template with the
  values interpolated into it.
\<close>

subsection \<open>Data\<close>

record txn_facts =
  tf_side :: ingest_source
  tf_tenant_id :: int
  tf_row_id :: int
  tf_txn_id :: string
  tf_amount :: decimal
  tf_currency :: string
  tf_occurred_at :: instant
  tf_received_at :: instant

record match_config =
  mc_exact_window :: duration
  mc_drift_window :: duration
  mc_amount_drift_pct :: decimal
  mc_amount_drift_abs :: decimal

definition from_settings :: "settings \<Rightarrow> match_config" where
  "from_settings s =
     \<lparr> mc_exact_window = seconds (s_exact_window_s s),
       mc_drift_window = seconds (s_drift_window_s s),
       mc_amount_drift_pct = s_amount_drift_pct s,
       mc_amount_drift_abs = s_amount_drift_abs s \<rparr>"

text \<open>
  The four f-strings: the clock drift and the window; the signed difference, both amounts and the
  tolerance; the number of submissions; the time waited.
\<close>

datatype decision_note =
    ClockDrift duration duration
  | AmountDrift decimal decimal decimal decimal
  | SubmissionsOf int
  | NoCounterparty duration

record decision =
  dc_status :: recon_status
  dc_layer :: match_layer
  dc_gateway_row_id :: "int option"
  dc_ledger_row_id :: "int option"
  dc_notes :: "decision_note option"

definition opens_exception :: "decision \<Rightarrow> bool" where
  "opens_exception d \<longleftrightarrow>
     dc_status d \<in> {AMOUNT_DRIFT, UNMATCHED_GATEWAY_ONLY, UNMATCHED_LEDGER_ONLY}"

definition is_match :: "decision \<Rightarrow> bool" where
  "is_match d \<longleftrightarrow> dc_status d = MATCHED"

subsection \<open>Primitives\<close>

text \<open>\<open>_LAYER_RANK\<close>, a dictionary of the three layers that pair rows.\<close>

fun layer_rank :: "match_layer \<Rightarrow> int option" where
  "layer_rank L_EXACT = Some 0"
| "layer_rank L_TIME_DRIFT = Some 1"
| "layer_rank L_AMOUNT_DRIFT = Some 2"
| "layer_rank _ = None"

definition time_delta :: "txn_facts \<Rightarrow> txn_facts \<Rightarrow> duration" where
  "time_delta a b = \<bar>tf_occurred_at a - tf_occurred_at b\<bar>"

definition amount_tolerance :: "decimal \<Rightarrow> match_config \<Rightarrow> decimal" where
  "amount_tolerance reference config =
     dec_max (dec_mult (dec_abs reference) (mc_amount_drift_pct config)) (mc_amount_drift_abs config)"

definition gateway_and_ledger :: "txn_facts \<Rightarrow> txn_facts \<Rightarrow> txn_facts \<times> txn_facts" where
  "gateway_and_ledger a b = (if tf_side a = GATEWAY then (a, b) else (b, a))"

definition classify_pair ::
  "txn_facts \<Rightarrow> txn_facts \<Rightarrow> match_config \<Rightarrow> (recon_status \<times> match_layer) option" where
  "classify_pair candidate other config =
     (if tf_tenant_id candidate \<noteq> tf_tenant_id other then None
      else if tf_side candidate = tf_side other then None
      else if tf_txn_id candidate \<noteq> tf_txn_id other then None
      else if tf_currency candidate \<noteq> tf_currency other then None
      else
        let dt = time_delta candidate other;
            same_amount = dec_eq (tf_amount candidate) (tf_amount other)
        in
          if same_amount \<and> dt \<le> mc_exact_window config then Some (MATCHED, L_EXACT)
          else if same_amount \<and> dt \<le> mc_drift_window config then Some (MATCHED, L_TIME_DRIFT)
          else if \<not> same_amount \<and> dt \<le> mc_drift_window config then
            (case gateway_and_ledger candidate other of (gateway, ledger) \<Rightarrow>
              if dec_le (dec_abs (dec_sub (tf_amount gateway) (tf_amount ledger)))
                   (amount_tolerance (tf_amount gateway) config)
              then Some (AMOUNT_DRIFT, L_AMOUNT_DRIFT)
              else None)
          else None)"

subsection \<open>Choosing a counterparty\<close>

text \<open>
  \<open>_sort_key\<close>: a tuple compared lexicographically. Decimals compare by value, so the amount
  difference is that value. \<open>_LAYER_RANK[layer]\<close> would raise on a layer without a rank; layers
  that reach this point come from \<open>classify_pair\<close> and have one (lemma \<open>classify_pair_ranked\<close>).
\<close>

definition sort_key :: "txn_facts \<Rightarrow> txn_facts \<Rightarrow> match_layer \<Rightarrow> int \<times> duration \<times> rat \<times> int" where
  "sort_key candidate other layer =
     (the (layer_rank layer),
      time_delta candidate other,
      dec_val (dec_abs (dec_sub (tf_amount candidate) (tf_amount other))),
      tf_row_id other)"

type_synonym viable = "(int \<times> duration \<times> rat \<times> int) \<times> txn_facts \<times> recon_status \<times> match_layer"

text \<open>The loop of \<open>decide\<close> that collects the viable counterparties.\<close>

fun viable_of :: "txn_facts \<Rightarrow> match_config \<Rightarrow> txn_facts list \<Rightarrow> viable list" where
  "viable_of candidate config [] = []"
| "viable_of candidate config (other # others) =
     (case classify_pair candidate other config of
        None \<Rightarrow> viable_of candidate config others
      | Some (status, layer) \<Rightarrow>
          (sort_key candidate other layer, other, status, layer)
            # viable_of candidate config others)"

definition decision_notes ::
  "match_layer \<Rightarrow> txn_facts \<Rightarrow> txn_facts \<Rightarrow> txn_facts \<Rightarrow> txn_facts \<Rightarrow> match_config \<Rightarrow> decision_note option" where
  "decision_notes layer candidate best gateway ledger config =
     (if layer = L_TIME_DRIFT then
        Some (ClockDrift (time_delta candidate best) (mc_drift_window config))
      else if layer = L_AMOUNT_DRIFT then
        Some (AmountDrift (dec_sub (tf_amount gateway) (tf_amount ledger))
          (tf_amount gateway) (tf_amount ledger) (amount_tolerance (tf_amount gateway) config))
      else None)"

definition decide :: "txn_facts \<Rightarrow> txn_facts list \<Rightarrow> match_config \<Rightarrow> decision option" where
  "decide candidate counterparties config =
     (case viable_of candidate config counterparties of
        [] \<Rightarrow> None
      | v # vs \<Rightarrow>
          (case min_by fst v vs of (_, best, status, layer) \<Rightarrow>
            (case gateway_and_ledger candidate best of (gateway, ledger) \<Rightarrow>
              Some \<lparr> dc_status = status,
                     dc_layer = layer,
                     dc_gateway_row_id = Some (tf_row_id gateway),
                     dc_ledger_row_id = Some (tf_row_id ledger),
                     dc_notes = decision_notes layer candidate best gateway ledger config \<rparr>)))"

definition decide_duplicate :: "txn_facts \<Rightarrow> int \<Rightarrow> decision" where
  "decide_duplicate candidate submissions =
     \<lparr> dc_status = DUPLICATE,
       dc_layer = L_DUPLICATE,
       dc_gateway_row_id = (if tf_side candidate = GATEWAY then Some (tf_row_id candidate) else None),
       dc_ledger_row_id = (if tf_side candidate = LEDGER then Some (tf_row_id candidate) else None),
       dc_notes = Some (SubmissionsOf submissions) \<rparr>"

definition decide_unmatched :: "txn_facts \<Rightarrow> duration \<Rightarrow> decision" where
  "decide_unmatched candidate waited =
     (case (if tf_side candidate = GATEWAY
            then (UNMATCHED_GATEWAY_ONLY, Some (tf_row_id candidate), None)
            else (UNMATCHED_LEDGER_ONLY, None, Some (tf_row_id candidate))) of
        (status, gateway_row_id, ledger_row_id) \<Rightarrow>
          \<lparr> dc_status = status,
            dc_layer = L_UNMATCHED_SWEEP,
            dc_gateway_row_id = gateway_row_id,
            dc_ledger_row_id = ledger_row_id,
            dc_notes = Some (NoCounterparty waited) \<rparr>)"

subsection \<open>Well-formed decisions\<close>

text \<open>Status, layer and sides always agree: what every consumer of a decision relies on.\<close>

fun decision_shape :: "recon_status \<Rightarrow> match_layer \<Rightarrow> bool \<Rightarrow> bool \<Rightarrow> bool" where
  "decision_shape MATCHED l g e \<longleftrightarrow> l \<in> {L_EXACT, L_TIME_DRIFT} \<and> g \<and> e"
| "decision_shape AMOUNT_DRIFT l g e \<longleftrightarrow> l = L_AMOUNT_DRIFT \<and> g \<and> e"
| "decision_shape DUPLICATE l g e \<longleftrightarrow> l = L_DUPLICATE \<and> (g \<noteq> e)"
| "decision_shape UNMATCHED_GATEWAY_ONLY l g e \<longleftrightarrow> l = L_UNMATCHED_SWEEP \<and> g \<and> \<not> e"
| "decision_shape UNMATCHED_LEDGER_ONLY l g e \<longleftrightarrow> l = L_UNMATCHED_SWEEP \<and> \<not> g \<and> e"
| "decision_shape TIME_DRIFT l g e \<longleftrightarrow> False"

definition decision_wf :: "decision \<Rightarrow> bool" where
  "decision_wf d \<longleftrightarrow>
     decision_shape (dc_status d) (dc_layer d) (dc_gateway_row_id d \<noteq> None) (dc_ledger_row_id d \<noteq> None)"

lemma opens_exception_iff: "opens_exception d \<longleftrightarrow> dc_status d \<in> exception_statuses"
  by (simp add: opens_exception_def exception_statuses_def)

subsection \<open>Facts about one pair\<close>

lemma time_delta_commute: "time_delta a b = time_delta b a"
  by (simp add: time_delta_def abs_minus_commute)

lemma dec_eq_commute: "dec_eq a b = dec_eq b a"
  by (auto simp: dec_eq_iff)

lemma side_cases: "(x :: ingest_source) \<noteq> y \<longleftrightarrow> (x = GATEWAY \<and> y = LEDGER) \<or> (x = LEDGER \<and> y = GATEWAY)"
  by (cases x; cases y) auto

lemma gateway_and_ledger_commute:
  "tf_side a \<noteq> tf_side b \<Longrightarrow> gateway_and_ledger a b = gateway_and_ledger b a"
  by (auto simp: gateway_and_ledger_def side_cases)

lemma classify_pair_commute: "classify_pair a b config = classify_pair b a config"
proof (cases "tf_side a = tf_side b")
  case True
  then show ?thesis by (auto simp: classify_pair_def)
next
  case False
  then show ?thesis
    unfolding classify_pair_def Let_def gateway_and_ledger_commute [OF False]
      time_delta_commute [of a b] dec_eq_commute [of "tf_amount a" "tf_amount b"]
    by simp
qed

text \<open>What a verdict says about its pair.\<close>

lemma classify_pair_SomeD:
  assumes "classify_pair a b config = Some (s, l)"
  shows "tf_tenant_id a = tf_tenant_id b" and "tf_side a \<noteq> tf_side b"
    and "tf_txn_id a = tf_txn_id b" and "tf_currency a = tf_currency b"
    and "time_delta a b \<le> max (mc_exact_window config) (mc_drift_window config)"
    and "(s, l) \<in> {(MATCHED, L_EXACT), (MATCHED, L_TIME_DRIFT), (AMOUNT_DRIFT, L_AMOUNT_DRIFT)}"
  using assms by (auto simp: classify_pair_def Let_def split: if_splits prod.splits)

lemma classify_pair_matched_iff:
  "classify_pair a b config = Some (MATCHED, l) \<Longrightarrow> dec_eq (tf_amount a) (tf_amount b)"
  by (auto simp: classify_pair_def Let_def split: if_splits prod.splits)

lemma classify_pair_ranked:
  "classify_pair a b config = Some (s, l) \<Longrightarrow> layer_rank l = Some (int (layer_position l))"
  using classify_pair_SomeD(6) [of a b config s l] by auto

subsection \<open>The list of viable counterparties\<close>

lemma viable_of_def':
  "viable_of c config os =
     map (\<lambda>q. case the (classify_pair c q config) of (s, l) \<Rightarrow> (sort_key c q l, q, s, l))
       (filter (\<lambda>q. classify_pair c q config \<noteq> None) os)"
  by (induction os) (auto split: option.splits)

lemma in_viable_of:
  "(k, q, s, l) \<in> set (viable_of c config os) \<longleftrightarrow>
     q \<in> set os \<and> classify_pair c q config = Some (s, l) \<and> k = sort_key c q l"
  by (induction os) (auto split: option.splits)

lemma viable_of_Nil_iff: "viable_of c config os = [] \<longleftrightarrow> (\<forall>q \<in> set os. classify_pair c q config = None)"
  by (induction os) (auto split: option.splits)

lemma viable_of_filter:
  "(\<And>q. q \<in> set os \<Longrightarrow> classify_pair c q config \<noteq> None \<Longrightarrow> p q) \<Longrightarrow>
     viable_of c config (filter p os) = viable_of c config os"
  by (induction os) (auto split: option.splits)

lemma viable_keys_inj:
  assumes "distinct (map tf_row_id os)"
  shows "inj_on fst (set (viable_of c config os))"
proof (rule inj_onI)
  fix u v
  assume u: "u \<in> set (viable_of c config os)" and v: "v \<in> set (viable_of c config os)"
    and eq: "fst u = fst v"
  obtain k q s l where u': "u = (k, q, s, l)" by (metis prod_cases4)
  obtain k' q' s' l' where v': "v = (k', q', s', l')" by (metis prod_cases4)
  from u v u' v' have q: "q \<in> set os" "q' \<in> set os"
    and cl: "classify_pair c q config = Some (s, l)" "classify_pair c q' config = Some (s', l')"
    and k: "k = sort_key c q l" "k' = sort_key c q' l'"
    by (auto simp: in_viable_of)
  from eq u' v' k have "tf_row_id q = tf_row_id q'" by (auto simp: sort_key_def)
  with assms q have "q = q'" by (auto dest: distinct_map_eqD)
  with cl k u' v' show "u = v" by simp
qed

text \<open>One unfolding of \<open>decide\<close> that every proof below starts from.\<close>

lemma decide_cases:
  obtains (deferred) "decide c os config = None" "\<forall>q \<in> set os. classify_pair c q config = None"
  | (decided) best s l g e where
      "decide c os config = Some \<lparr> dc_status = s, dc_layer = l, dc_gateway_row_id = Some (tf_row_id g),
         dc_ledger_row_id = Some (tf_row_id e), dc_notes = decision_notes l c best g e config \<rparr>"
      "best \<in> set os" "classify_pair c best config = Some (s, l)"
      "gateway_and_ledger c best = (g, e)"
      "\<And>q s' l'. q \<in> set os \<Longrightarrow> classify_pair c q config = Some (s', l') \<Longrightarrow>
         sort_key c best l \<le> sort_key c q l'"
proof (cases "viable_of c config os")
  case Nil
  then have "\<forall>q \<in> set os. classify_pair c q config = None" by (simp add: viable_of_Nil_iff)
  moreover have "decide c os config = None" using Nil by (simp add: decide_def)
  ultimately show ?thesis by (rule deferred [rotated])
next
  case (Cons v vs)
  obtain k best s l where m: "min_by fst v vs = (k, best, s, l)" by (metis prod_cases4)
  obtain g e where ge: "gateway_and_ledger c best = (g, e)" by fastforce
  have "(k, best, s, l) \<in> set (viable_of c config os)"
    using min_by_in [of fst v vs] m Cons by simp
  then have best: "best \<in> set os" "classify_pair c best config = Some (s, l)" "k = sort_key c best l"
    by (auto simp: in_viable_of)
  have least: "sort_key c best l \<le> sort_key c q l'"
    if "q \<in> set os" "classify_pair c q config = Some (s', l')" for q s' l'
    using min_by_le [of "(sort_key c q l', q, s', l')" v vs fst] that m best(3) Cons
      in_viable_of [of "sort_key c q l'" q s' l' c config os] by simp
  show ?thesis
    by (rule decided [OF _ best(1,2) ge least]) (simp_all add: decide_def Cons m ge)
qed

lemma decide_None_iff: "decide c os config = None \<longleftrightarrow> (\<forall>q \<in> set os. classify_pair c q config = None)"
  by (cases rule: decide_cases [where c = c and os = os and config = config]) auto

lemma decide_wf: "decide c os config = Some d \<Longrightarrow> decision_wf d"
  by (cases rule: decide_cases [where c = c and os = os and config = config])
    (auto simp: decision_wf_def dest!: classify_pair_SomeD(6))

lemma decide_duplicate_wf: "decision_wf (decide_duplicate c n)"
  by (cases "tf_side c") (simp_all add: decision_wf_def decide_duplicate_def)

lemma decide_unmatched_wf: "decision_wf (decide_unmatched c w)"
  by (cases "tf_side c") (simp_all add: decision_wf_def decide_unmatched_def)

text \<open>A decided pair: the candidate and one of the counterparties, on opposite sides.\<close>

lemma decide_SomeD:
  assumes "decide c os config = Some d"
  shows "\<exists>best \<in> set os. classify_pair c best config = Some (dc_status d, dc_layer d) \<and>
    (if tf_side c = GATEWAY
     then dc_gateway_row_id d = Some (tf_row_id c) \<and> dc_ledger_row_id d = Some (tf_row_id best)
     else dc_gateway_row_id d = Some (tf_row_id best) \<and> dc_ledger_row_id d = Some (tf_row_id c))"
  using assms
  by (cases rule: decide_cases [where c = c and os = os and config = config]) (auto simp: gateway_and_ledger_def split: if_splits)

lemma decide_viable_cong: "viable_of c config os = viable_of c config os' \<Longrightarrow> decide c os config = decide c os' config"
  by (simp add: decide_def)

lemma decide_set_cong:
  assumes "distinct (map tf_row_id os)" and "set os' = set os" and "distinct (map tf_row_id os')"
  shows "decide c os config = decide c os' config"
proof -
  have sets: "set (viable_of c config os') = set (viable_of c config os)"
    using assms(2) by (auto simp: in_viable_of)
  show ?thesis
  proof (cases "viable_of c config os")
    case Nil
    with sets have "viable_of c config os' = []" by simp
    with Nil show ?thesis by (simp add: decide_def)
  next
    case (Cons v vs)
    with sets obtain w ws where w: "viable_of c config os' = w # ws"
      by (cases "viable_of c config os'") auto
    have "min_by fst v vs = min_by fst w ws"
      using viable_keys_inj [OF assms(1), of c config] sets Cons w
      by (intro min_by_unique) auto
    with Cons w show ?thesis by (simp add: decide_def)
  qed
qed

subsection \<open>Layer 3 in exact arithmetic\<close>

text \<open>
  The specification of the README, over rationals: the layers of one pair whose ids, currencies
  and tenants agree and whose sides differ.
\<close>

definition spec_classify ::
  "rat \<Rightarrow> rat \<Rightarrow> duration \<Rightarrow> match_config \<Rightarrow> (recon_status \<times> match_layer) option" where
  "spec_classify gateway ledger dt config =
     (if gateway = ledger then
        (if dt \<le> mc_exact_window config then Some (MATCHED, L_EXACT)
         else if dt \<le> mc_drift_window config then Some (MATCHED, L_TIME_DRIFT) else None)
      else if dt \<le> mc_drift_window config \<and>
          (\<bar>gateway - ledger\<bar> \<le> \<bar>gateway\<bar> * dec_val (mc_amount_drift_pct config) \<or>
           \<bar>gateway - ledger\<bar> \<le> dec_val (mc_amount_drift_abs config))
        then Some (AMOUNT_DRIFT, L_AMOUNT_DRIFT)
        else None)"

lemma amount_tolerance_val:
  assumes "is_money a" and "\<bar>coeff (mc_amount_drift_pct config)\<bar> \<le> 10 ^ 10"
  shows "dec_val (amount_tolerance a config) =
    max (\<bar>dec_val a\<bar> * dec_val (mc_amount_drift_pct config)) (dec_val (mc_amount_drift_abs config))"
proof -
  have a: "\<bar>coeff a\<bar> < 10 ^ 18" using assms(1) by (simp add: is_money_def)
  have abs: "dec_abs a = Dec \<bar>coeff a\<bar> (expo a)"
    using a by (simp add: dec_abs_def dec_fix_id dec_prec_def)
  have "\<bar>coeff a * coeff (mc_amount_drift_pct config)\<bar> \<le> \<bar>coeff a\<bar> * 10 ^ 10"
    using assms(2) by (simp add: abs_mult mult_left_mono)
  also have "\<dots> < 10 ^ dec_prec" using a by (simp add: dec_prec_def)
  finally have "dec_val (dec_mult (dec_abs a) (mc_amount_drift_pct config)) =
      dec_val (dec_abs a) * dec_val (mc_amount_drift_pct config)"
    by (intro dec_val_mult_exact) (simp add: abs abs_mult)
  moreover have "dec_val (dec_abs a) = \<bar>dec_val a\<bar>"
    using money_small [OF assms(1)] by (rule dec_val_abs_exact)
  ultimately show ?thesis by (simp add: amount_tolerance_def dec_val_max)
qed

lemma layer3_exact:
  assumes "is_money a" and "is_money b" and "\<bar>coeff (mc_amount_drift_pct config)\<bar> \<le> 10 ^ 10"
  shows "dec_le (dec_abs (dec_sub a b)) (amount_tolerance a config) \<longleftrightarrow>
    \<bar>dec_val a - dec_val b\<bar> \<le> max (\<bar>dec_val a\<bar> * dec_val (mc_amount_drift_pct config))
      (dec_val (mc_amount_drift_abs config))"
  using assms by (simp add: dec_le_iff dec_val_abs_sub_money amount_tolerance_val)

subsection \<open>The properties of the matcher\<close>

text \<open>
  C31. The decision is a function of the set of available rows: whatever order the database
  returns the counterparties in (the query has no \<open>ORDER BY\<close>), \<open>decide\<close> reaches the same
  decision, so two workers racing on the same transaction agree.
\<close>

theorem decide_order_independent:
  assumes "distinct (map tf_row_id os)" and "mset os' = mset os"
  shows "decide c os' config = decide c os config"
proof -
  have "distinct (map tf_row_id os')"
    using assms mset_eq_imp_distinct_iff [of "map tf_row_id os'" "map tf_row_id os"] by simp
  moreover have "set os' = set os" using assms(2) by (rule mset_eq_setD)
  ultimately show ?thesis using assms(1) by (intro decide_set_cong [symmetric])
qed

text \<open>A gateway row and two ledger rows used by the witnesses.\<close>

definition gateway_example :: txn_facts where
  "gateway_example =
     \<lparr> tf_side = GATEWAY, tf_tenant_id = 1, tf_row_id = 10, tf_txn_id = ''TXN-1'',
       tf_amount = Dec 100000 (-2), tf_currency = ''INR'',
       tf_occurred_at = 0, tf_received_at = 5000000 \<rparr>"

definition ledger_example :: "int \<Rightarrow> int \<Rightarrow> instant \<Rightarrow> txn_facts" where
  "ledger_example i amt t =
     \<lparr> tf_side = LEDGER, tf_tenant_id = 1, tf_row_id = i, tf_txn_id = ''TXN-1'',
       tf_amount = Dec amt (-2), tf_currency = ''INR'',
       tf_occurred_at = t, tf_received_at = 6000000 \<rparr>"

theorem decide_order_independent_witness:
  "decide gateway_example [ledger_example 2 100000 1, ledger_example 1 100000 1]
       (from_settings default_settings) =
     decide gateway_example [ledger_example 1 100000 1, ledger_example 2 100000 1]
       (from_settings default_settings)"
  by (rule decide_order_independent) (simp_all add: ledger_example_def add_mset_commute)

text \<open>
  C32. What a decision of layers 1 to 3 stands for: it pairs the candidate with a counterparty it
  was handed, of the same tenant, transaction id and currency and of the other side; each id is
  recorded on its own side; and the pair is the best one available: no other viable counterparty
  has a stronger layer, nor the same layer and a smaller distance in time.
\<close>

theorem decide_best_counterparty:
  assumes "decide c os config = Some d"
  shows "\<exists>best \<in> set os.
    classify_pair c best config = Some (dc_status d, dc_layer d) \<and>
    tf_tenant_id best = tf_tenant_id c \<and> tf_txn_id best = tf_txn_id c \<and>
    tf_currency best = tf_currency c \<and> tf_side best \<noteq> tf_side c \<and>
    {(GATEWAY, dc_gateway_row_id d), (LEDGER, dc_ledger_row_id d)} =
      {(tf_side c, Some (tf_row_id c)), (tf_side best, Some (tf_row_id best))} \<and>
    (\<forall>q \<in> set os. \<forall>s l. classify_pair c q config = Some (s, l) \<longrightarrow>
       dc_layer d \<le> l \<and> (l = dc_layer d \<longrightarrow> time_delta c best \<le> time_delta c q))"
  using assms
proof (cases rule: decide_cases [where c = c and os = os and config = config])
  case deferred
  with assms show ?thesis by simp
next
  case (decided best s l g e)
  have d: "dc_status d = s" "dc_layer d = l" "dc_gateway_row_id d = Some (tf_row_id g)"
    "dc_ledger_row_id d = Some (tf_row_id e)"
    using assms decided(1) by auto
  have rank: "the (layer_rank m) = int (layer_position m)"
    if "classify_pair c q config = Some (t, m)" for q t m
    using classify_pair_ranked [OF that] by simp
  have least: "l \<le> m \<and> (m = l \<longrightarrow> time_delta c best \<le> time_delta c q)"
    if "q \<in> set os" "classify_pair c q config = Some (t, m)" for q t m
    using decided(5) [OF that] rank [OF decided(3)] rank [OF that(2)]
    by (auto simp: sort_key_def less_eq_prod_def less_prod_def less_eq_match_layer_def)
  have ids: "{(GATEWAY, dc_gateway_row_id d), (LEDGER, dc_ledger_row_id d)} =
      {(tf_side c, Some (tf_row_id c)), (tf_side best, Some (tf_row_id best))}"
    using decided(4) classify_pair_SomeD(2) [OF decided(3)] d
    by (auto simp: gateway_and_ledger_def side_cases split: if_splits)
  show ?thesis
    using classify_pair_SomeD(1-4) [OF decided(3)] ids decided(2,3) least
    by (intro bexI [of _ best]) (auto simp: d)
qed

theorem decide_best_counterparty_witness:
  "\<exists>best \<in> set [ledger_example 2 100100 1, ledger_example 1 100000 30000000].
    classify_pair gateway_example best (from_settings default_settings) = Some (MATCHED, L_TIME_DRIFT)"
proof -
  let ?os = "[ledger_example 2 100100 1, ledger_example 1 100000 30000000]"
  let ?d = "\<lparr> dc_status = MATCHED, dc_layer = L_TIME_DRIFT, dc_gateway_row_id = Some 10,
    dc_ledger_row_id = Some 1, dc_notes = Some (ClockDrift 30000000 60000000) \<rparr>"
  have v: "classify_pair gateway_example (ledger_example 2 100100 1) (from_settings default_settings) =
      Some (AMOUNT_DRIFT, L_AMOUNT_DRIFT)"
    "classify_pair gateway_example (ledger_example 1 100000 30000000) (from_settings default_settings) =
      Some (MATCHED, L_TIME_DRIFT)"
    by (simp_all add: classify_pair_def time_delta_def gateway_and_ledger_def
      gateway_example_def ledger_example_def from_settings_def default_settings_def seconds_def
      layer3_exact is_money_def dec_eq_iff dec_val_code Let_def)
  have "decide gateway_example ?os (from_settings default_settings) = Some ?d"
    by (simp add: decide_def v sort_key_def decision_notes_def gateway_and_ledger_def)
      (simp add: gateway_example_def ledger_example_def time_delta_def from_settings_def
        default_settings_def seconds_def)
  from decide_best_counterparty [OF this] show ?thesis by auto
qed

text \<open>
  A pair is judged the same from both sides: whichever of the two rows is the candidate, the
  decision (status, layer, both ids and the note) is identical, so the matcher and the sweeper, or
  two workers holding the two messages of one pair, write the same result.
\<close>

theorem decide_symmetric: "decide a [b] config = decide b [a] config"
proof (cases "classify_pair a b config")
  case None
  then have "decide a [b] config = None" "decide b [a] config = None"
    by (simp_all add: decide_None_iff classify_pair_commute [of b a])
  then show ?thesis by simp
next
  case (Some sl)
  obtain s l where sl: "sl = (s, l)" by fastforce
  have other: "classify_pair b a config = Some (s, l)"
    using Some sl by (simp add: classify_pair_commute)
  have "tf_side a \<noteq> tf_side b" using Some sl by (auto dest: classify_pair_SomeD(2))
  then have "gateway_and_ledger b a = gateway_and_ledger a b"
    by (simp add: gateway_and_ledger_commute)
  with Some sl other show ?thesis
    by (simp add: decide_def decision_notes_def time_delta_commute [of b a] split: prod.split)
qed

text \<open>
  The three predicates of the counterparty query (tenant, transaction id, the drift window)
  and the choice of the other table remove only rows the matcher would refuse: on any set of rows,
  filtered or not, the decision is the same. Either guard can be dropped and no cross-tenant pair
  appears. The query window is the drift window, so this needs the exact window not to exceed it.
\<close>

theorem decide_ignores_unmatchable:
  assumes "mc_exact_window config \<le> mc_drift_window config"
  shows "decide c (filter (\<lambda>q. tf_side q \<noteq> tf_side c \<and> tf_tenant_id q = tf_tenant_id c \<and>
      tf_txn_id q = tf_txn_id c \<and>
      tf_occurred_at c - mc_drift_window config \<le> tf_occurred_at q \<and>
      tf_occurred_at q \<le> tf_occurred_at c + mc_drift_window config) os) config =
    decide c os config"
proof (rule decide_viable_cong, rule viable_of_filter)
  fix q
  assume "classify_pair c q config \<noteq> None"
  then obtain s l where "classify_pair c q config = Some (s, l)" by auto
  note pair = classify_pair_SomeD [OF this]
  show "tf_side q \<noteq> tf_side c \<and> tf_tenant_id q = tf_tenant_id c \<and> tf_txn_id q = tf_txn_id c \<and>
      tf_occurred_at c - mc_drift_window config \<le> tf_occurred_at q \<and>
      tf_occurred_at q \<le> tf_occurred_at c + mc_drift_window config"
    using pair assms by (auto simp: time_delta_def)
qed

theorem decide_ignores_unmatchable_witness:
  "mc_exact_window (from_settings default_settings) \<le> mc_drift_window (from_settings default_settings) \<and>
   decide gateway_example
     (filter (\<lambda>q. tf_side q \<noteq> tf_side gateway_example \<and> tf_tenant_id q = tf_tenant_id gateway_example \<and>
        tf_txn_id q = tf_txn_id gateway_example \<and>
        tf_occurred_at gateway_example - mc_drift_window (from_settings default_settings) \<le> tf_occurred_at q \<and>
        tf_occurred_at q \<le> tf_occurred_at gateway_example + mc_drift_window (from_settings default_settings))
       [gateway_example, ledger_example 1 100000 1])
     (from_settings default_settings) =
   decide gateway_example [gateway_example, ledger_example 1 100000 1] (from_settings default_settings)"
proof
  show w: "mc_exact_window (from_settings default_settings) \<le> mc_drift_window (from_settings default_settings)"
    by (simp add: from_settings_def default_settings_def seconds_def)
  show "decide gateway_example
     (filter (\<lambda>q. tf_side q \<noteq> tf_side gateway_example \<and> tf_tenant_id q = tf_tenant_id gateway_example \<and>
        tf_txn_id q = tf_txn_id gateway_example \<and>
        tf_occurred_at gateway_example - mc_drift_window (from_settings default_settings) \<le> tf_occurred_at q \<and>
        tf_occurred_at q \<le> tf_occurred_at gateway_example + mc_drift_window (from_settings default_settings))
       [gateway_example, ledger_example 1 100000 1])
     (from_settings default_settings) =
   decide gateway_example [gateway_example, ledger_example 1 100000 1] (from_settings default_settings)"
    by (rule decide_ignores_unmatchable [OF w])
qed

text \<open>
  C33. On amounts as the database stores them, layers 1 to 3 decide exactly what the README says
  over real numbers: the decimal arithmetic of \<open>classify_pair\<close> refines \<open>spec_classify\<close>, with no
  rounding anywhere, as long as the drift percentage has at most ten significant digits (the
  default has one).
\<close>

theorem classify_pair_refines_spec:
  assumes "is_money (tf_amount a)" and "is_money (tf_amount b)"
    and "\<bar>coeff (mc_amount_drift_pct config)\<bar> \<le> 10 ^ 10"
    and "tf_side a = GATEWAY" and "tf_side b = LEDGER"
  shows "classify_pair a b config =
    (if tf_tenant_id a = tf_tenant_id b \<and> tf_txn_id a = tf_txn_id b \<and> tf_currency a = tf_currency b
     then spec_classify (dec_val (tf_amount a)) (dec_val (tf_amount b)) (time_delta a b) config
     else None)"
  using assms
  by (simp add: classify_pair_def spec_classify_def Let_def gateway_and_ledger_def dec_eq_iff
    layer3_exact le_max_iff_disj)

theorem classify_pair_refines_spec_witness:
  "classify_pair gateway_example (ledger_example 1 101000 1) (from_settings default_settings) =
     spec_classify 1000 1010 1 (from_settings default_settings)"
proof -
  have h: "is_money (tf_amount gateway_example)" "is_money (tf_amount (ledger_example 1 101000 1))"
    "\<bar>coeff (mc_amount_drift_pct (from_settings default_settings))\<bar> \<le> 10 ^ 10"
    "tf_side gateway_example = GATEWAY" "tf_side (ledger_example 1 101000 1) = LEDGER"
    by (simp_all add: is_money_def gateway_example_def ledger_example_def from_settings_def default_settings_def)
  have "dec_val (tf_amount gateway_example) = 1000" "dec_val (tf_amount (ledger_example 1 101000 1)) = 1010"
    by (simp_all add: dec_val_code gateway_example_def ledger_example_def)
  then show ?thesis
    using classify_pair_refines_spec [OF h]
    by (simp add: gateway_example_def ledger_example_def time_delta_def)
qed

text \<open>
  The bound of the previous property is needed: \<open>amount_tolerance\<close> does round. With a drift
  percentage of eleven significant digits and a gateway amount of eighteen, the product has
  twenty-nine digits, the default decimal context keeps twenty-eight, and the allowance is not the
  percentage of the amount.
\<close>

theorem amount_tolerance_can_round:
  "\<exists>amount config.
     is_money amount \<and> 0 < coeff (mc_amount_drift_pct config) \<and>
     dec_val (mc_amount_drift_abs config) < \<bar>dec_val amount\<bar> * dec_val (mc_amount_drift_pct config) \<and>
     dec_val (amount_tolerance amount config) \<noteq> \<bar>dec_val amount\<bar> * dec_val (mc_amount_drift_pct config)"
proof (intro exI conjI)
  let ?a = "Dec 999999999999999999 (-2)"
  let ?c = "from_settings (default_settings \<lparr> s_amount_drift_pct := Dec 12345678901 (-12) \<rparr>)"
  show "is_money ?a" by (simp add: is_money_def)
  show "0 < coeff (mc_amount_drift_pct ?c)" by (simp add: from_settings_def)
  show "dec_val (mc_amount_drift_abs ?c) < \<bar>dec_val ?a\<bar> * dec_val (mc_amount_drift_pct ?c)"
    by (simp add: from_settings_def default_settings_def dec_val_code)
  have t: "amount_tolerance ?a ?c = Dec 1234567890099999998765432110 (-13)"
    by (simp add: amount_tolerance_def from_settings_def default_settings_def decimal_eval)
  show "dec_val (amount_tolerance ?a ?c) \<noteq> \<bar>dec_val ?a\<bar> * dec_val (mc_amount_drift_pct ?c)"
    unfolding t by (simp add: from_settings_def dec_val_code)
qed

text \<open>
  C39. Every decision the three deciders make is well-formed: status, layer and the sides it names
  agree, the reserved status is never produced, and it is exactly one of a match, a break that
  opens an exception, and a suppressed duplicate.
\<close>

theorem decisions_well_formed:
  assumes "decide c os config = Some d \<or> d = decide_duplicate c n \<or> d = decide_unmatched c w"
  shows "decision_wf d \<and> dc_status d \<noteq> TIME_DRIFT \<and>
    is_match d \<noteq> (opens_exception d \<or> dc_status d \<in> suppressed_statuses) \<and>
    \<not> (opens_exception d \<and> dc_status d \<in> suppressed_statuses)"
proof -
  have wf: "decision_wf d"
    using assms by (auto intro: decide_wf decide_duplicate_wf decide_unmatched_wf)
  then show ?thesis by (cases "dc_status d")
      (auto simp: decision_wf_def is_match_def opens_exception_def suppressed_statuses_def)
qed

theorem decisions_well_formed_witness:
  "decision_wf (decide_unmatched gateway_example 300000000)"
  using decisions_well_formed [of gateway_example "[]" "from_settings default_settings"
    "decide_unmatched gateway_example 300000000" 1 300000000] by simp

end
