(* ===== verification/Json_Model.thy ===== *)
theory Json_Model
  imports Complex_Main
begin

text \<open>
  Parsed JSON, as \<open>json.loads\<close> returns it and as a \<open>jsonb\<close> column stores it: Python's \<open>None\<close>,
  booleans, unbounded integers, floats (a finite value, an infinity or a NaN), strings, lists and
  insertion-ordered dictionaries with string keys.
\<close>

datatype py_float = Finite rat | Infinite bool | NaN

datatype json =
    JNull
  | JBool bool
  | JInt int
  | JFloat py_float
  | JStr string
  | JArr "json list"
  | JObj "(string \<times> json) list"

text \<open>\<open>dict.get(key)\<close>, with \<open>None\<close> for a missing key and for a value that is not a dictionary.\<close>

definition json_get :: "json \<Rightarrow> string \<Rightarrow> json option" where
  "json_get j k = (case j of JObj m \<Rightarrow> map_of m k | _ \<Rightarrow> None)"

lemma json_get_JObj [simp]: "json_get (JObj m) k = map_of m k"
  by (simp add: json_get_def)

text \<open>Truthiness, as \<open>bool(x)\<close> and \<open>x or y\<close> read it.\<close>

fun truthy :: "json \<Rightarrow> bool" where
  "truthy JNull = False"
| "truthy (JBool b) = b"
| "truthy (JInt i) = (i \<noteq> 0)"
| "truthy (JFloat (Finite q)) = (q \<noteq> 0)"
| "truthy (JFloat _) = True"
| "truthy (JStr s) = (s \<noteq> [])"
| "truthy (JArr xs) = (xs \<noteq> [])"
| "truthy (JObj m) = (m \<noteq> [])"

end
