(* ===== verification/Unique_Index.thy ===== *)
theory Unique_Index
  imports Prelude
begin

text \<open>
  The interface every idempotent write of the program rests on: a table with unique indexes and
  \<open>INSERT .. ON CONFLICT DO NOTHING\<close>. The locale's one law says that a row does not collide with
  itself; its lemmas are the guarantees of the database that the code relies on (at most one row
  per key, a second insert of the same key writes nothing, updates and deletes that leave the
  keys alone keep the index). Each table of \<open>db/models.py\<close> interprets it in the theory
  \<open>Db_Models\<close> on the keys its indexes declare.
\<close>

locale unique_index =
  fixes keys :: "'r \<Rightarrow> 'k list"
  assumes keys_distinct: "distinct (keys r)"
begin

lemma index_ok_Nil: "index_ok keys []"
  by (simp add: index_ok_def)

lemma index_ok_append1:
  "index_ok keys (rs @ [r]) \<longleftrightarrow> index_ok keys rs \<and> \<not> conflicts keys rs r"
  by (auto simp: index_ok_def conflicts_iff keys_distinct)

lemma index_ok_insert:
  "index_ok keys rs \<Longrightarrow> index_ok keys (fst (insert_unless_conflict keys r rs))"
  by (simp add: insert_unless_conflict_def index_ok_append1)

lemma insert_again_noop:
  assumes "keys r \<noteq> []" and "keys q = keys r"
  shows "insert_unless_conflict keys q (fst (insert_unless_conflict keys r rs)) =
    (fst (insert_unless_conflict keys r rs), False)"
proof -
  have "conflicts keys (fst (insert_unless_conflict keys r rs)) q"
  proof (cases "conflicts keys rs r")
    case True
    then show ?thesis using assms by (simp add: insert_unless_conflict_def conflicts_iff)
  next
    case False
    then show ?thesis using assms by (auto simp: insert_unless_conflict_def conflicts_iff)
  qed
  then show ?thesis by (simp add: insert_unless_conflict_def)
qed

lemma index_ok_keeps_keys:
  "(\<And>r. r \<in> set rs \<Longrightarrow> keys (f r) = keys r) \<Longrightarrow> index_ok keys (map f rs) = index_ok keys rs"
  unfolding index_ok_def by (simp add: comp_def cong: map_cong)

lemma index_ok_update:
  "(\<And>r. keys (f r) = keys r) \<Longrightarrow> index_ok keys (update_where p f rs) = index_ok keys rs"
  unfolding update_where_def by (rule index_ok_keeps_keys) simp

lemma index_ok_filter: "index_ok keys rs \<Longrightarrow> index_ok keys (filter p rs)"
proof (induction rs)
  case Nil
  then show ?case by simp
next
  case (Cons r rs)
  then have "distinct (concat (map keys (filter p rs)))"
    and "set (keys r) \<inter> set (concat (map keys rs)) = {}"
    by (auto simp: index_ok_def)
  then show ?case by (auto simp: index_ok_def keys_distinct)
qed

text \<open>The row that holds a key is the only one.\<close>

lemma index_ok_unique:
  "index_ok keys rs \<Longrightarrow> r \<in> set rs \<Longrightarrow> q \<in> set rs \<Longrightarrow> k \<in> set (keys r) \<Longrightarrow> k \<in> set (keys q)
    \<Longrightarrow> r = q"
  by (induction rs) (auto simp: index_ok_def)

lemma index_ok_count_le_1:
  "index_ok keys rs \<Longrightarrow> length (filter (\<lambda>r. k \<in> set (keys r)) rs) \<le> 1"
proof (induction rs)
  case Nil
  then show ?case by simp
next
  case (Cons r rs)
  then have "k \<in> set (keys r) \<Longrightarrow> filter (\<lambda>r. k \<in> set (keys r)) rs = []"
    by (auto simp: index_ok_def filter_empty_conv)
  moreover have "index_ok keys rs" using Cons.prems by (simp add: index_ok_def)
  ultimately show ?case using Cons.IH by auto
qed

end

end
