(* ===== verification/Db_Models.thy ===== *)
theory Db_Models
  imports Matching_Core Json_Model Unique_Index "HOL-Library.Char_ord"
begin

text \<open>
  \<open>ledgerloop/db/models.py\<close>: one record per table, the tables of the database with their identity
  sequences, the keys of every unique index (partial ones occupy a key only under their
  \<open>WHERE\<close>), and the checks an inserted row passes (column lengths, \<open>CHECK\<close> constraints, the
  width of an \<open>Integer\<close> column). The two raw tables share their columns: \<open>gateway_transaction\<close>
  and \<open>ledger_entry\<close> extend \<open>raw_txn\<close>, so what the code writes once for both (\<open>_MODEL[side]\<close>) is
  written once here. A \<open>relationship\<close> and an index that is not unique have no state of their own.
\<close>

subsection \<open>Rows\<close>

record account =
  ac_id :: int
  ac_name :: string
  ac_kind :: account_kind
  ac_created_at :: instant
  ac_last_seen_at :: instant

record api_key =
  ak_id :: int
  ak_account_id :: int
  ak_key_hash :: string
  ak_prefix :: string
  ak_label :: string
  ak_created_at :: instant
  ak_revoked_at :: "instant option"

record webhook_source =
  ws_id :: int
  ws_account_id :: int
  ws_provider :: webhook_provider
  ws_source_token :: string
  ws_signing_secret :: string
  ws_label :: string
  ws_last_event_at :: "instant option"
  ws_last_delivery_status :: "webhook_delivery_status option"
  ws_created_at :: instant
  ws_revoked_at :: "instant option"

record raw_txn =
  rt_id :: int
  rt_tenant_id :: int
  rt_txn_id :: string
  rt_amount :: decimal
  rt_currency :: string
  rt_occurred_at :: instant
  rt_raw_payload :: json
  rt_idempotency_key :: string
  rt_duplicate_count :: int
  rt_received_at :: instant
  rt_reconciled_at :: "instant option"

record gateway_transaction = raw_txn +
  gt_gateway_ref :: string

record ledger_entry = raw_txn +
  le_entry_id :: string

record outbox_event =
  ob_id :: int
  ob_source :: ingest_source
  ob_row_id :: int
  ob_payload :: json
  ob_created_at :: instant
  ob_published_at :: "instant option"
  ob_attempts :: int

record reconciliation_result =
  rr_id :: int
  rr_tenant_id :: int
  rr_gateway_txn_id :: "int option"
  rr_ledger_entry_id :: "int option"
  rr_status :: recon_status
  rr_match_layer :: match_layer
  rr_resolved_at :: instant
  rr_notes :: "decision_note option"
  rr_match_latency_ms :: "int option"
  rr_source_message_id :: "string option"

text \<open>\<open>Exception_\<close>, the exception queue.\<close>

record exception_row =
  ex_id :: int
  ex_tenant_id :: int
  ex_reconciliation_result_id :: int
  ex_opened_at :: instant
  ex_closed_at :: "instant option"
  ex_resolution_notes :: "string option"

subsection \<open>The database\<close>

datatype table =
    T_accounts
  | T_api_keys
  | T_webhook_sources
  | T_gateway_transactions
  | T_ledger_entries
  | T_outbox_events
  | T_reconciliation_results
  | T_exceptions

record db =
  db_accounts :: "account list"
  db_api_keys :: "api_key list"
  db_webhook_sources :: "webhook_source list"
  db_gateway_transactions :: "gateway_transaction list"
  db_ledger_entries :: "ledger_entry list"
  db_outbox_events :: "outbox_event list"
  db_reconciliation_results :: "reconciliation_result list"
  db_exceptions :: "exception_row list"
  db_next :: "table \<Rightarrow> int"

definition empty_db :: db where
  "empty_db =
     \<lparr> db_accounts = [], db_api_keys = [], db_webhook_sources = [],
       db_gateway_transactions = [], db_ledger_entries = [], db_outbox_events = [],
       db_reconciliation_results = [], db_exceptions = [], db_next = (\<lambda>_. 1) \<rparr>"

text \<open>\<open>Identity()\<close>: the next value of a table's sequence, which a conflicting insert uses up too.\<close>

definition nextval :: "table \<Rightarrow> db \<Rightarrow> int \<times> db" where
  "nextval t d = (db_next d t, d\<lparr> db_next := (db_next d)(t := db_next d t + 1) \<rparr>)"

text \<open>What a statement can raise.\<close>

datatype db_error =
    ForeignKeyViolation
  | UniqueViolation
  | CheckViolation
  | StringDataRightTruncation
  | NumericValueOutOfRange
  | NoResultFound
  | MultipleResultsFound
  | KeyError

subsection \<open>Unique indexes\<close>

definition raw_keys :: "'a raw_txn_scheme \<Rightarrow> (int \<times> string) list" where
  "raw_keys r = [(rt_tenant_id r, rt_idempotency_key r)]"

definition account_keys :: "account \<Rightarrow> string list" where
  "account_keys a = [ac_name a]"

definition api_key_keys :: "api_key \<Rightarrow> string list" where
  "api_key_keys k = [ak_key_hash k]"

definition webhook_source_keys :: "webhook_source \<Rightarrow> string list" where
  "webhook_source_keys s = [ws_source_token s]"

definition exception_keys :: "exception_row \<Rightarrow> int list" where
  "exception_keys e = [ex_reconciliation_result_id e]"

text \<open>The four partial unique indexes of \<open>reconciliation_results\<close>.\<close>

datatype result_key =
    GatewayActive int int
  | LedgerActive int int
  | GatewayDuplicate int int
  | LedgerDuplicate int int

definition result_keys :: "reconciliation_result \<Rightarrow> result_key list" where
  "result_keys r =
     (case rr_gateway_txn_id r of
        None \<Rightarrow> []
      | Some g \<Rightarrow>
          [if rr_status r \<noteq> DUPLICATE then GatewayActive (rr_tenant_id r) g
           else GatewayDuplicate (rr_tenant_id r) g]) @
     (case rr_ledger_entry_id r of
        None \<Rightarrow> []
      | Some e \<Rightarrow>
          [if rr_status r \<noteq> DUPLICATE then LedgerActive (rr_tenant_id r) e
           else LedgerDuplicate (rr_tenant_id r) e])"

interpretation raw_index: unique_index raw_keys
  by unfold_locales (simp add: raw_keys_def)

interpretation account_index: unique_index account_keys
  by unfold_locales (simp add: account_keys_def)

interpretation api_key_index: unique_index api_key_keys
  by unfold_locales (simp add: api_key_keys_def)

interpretation source_index: unique_index webhook_source_keys
  by unfold_locales (simp add: webhook_source_keys_def)

interpretation exception_index: unique_index exception_keys
  by unfold_locales (simp add: exception_keys_def)

interpretation result_index: unique_index result_keys
  by unfold_locales (auto simp: result_keys_def split: option.splits)

subsection \<open>Column and table checks\<close>

text \<open>\<open>currency ~ '^[A-Z]{3}$'\<close>.\<close>

definition iso4217 :: "string \<Rightarrow> bool" where
  "iso4217 s \<longleftrightarrow> length s = 3 \<and> list_all (\<lambda>c. CHR ''A'' \<le> c \<and> c \<le> CHR ''Z'') s"

text \<open>The largest value of an \<open>Integer\<close> column (four bytes, signed).\<close>

definition int4_max :: int where
  "int4_max = 2 ^ 31 - 1"

definition int4_ok :: "int \<Rightarrow> bool" where
  "int4_ok i \<longleftrightarrow> - (2 ^ 31) \<le> i \<and> i \<le> int4_max"

text \<open>A new raw row: \<open>String(n)\<close> lengths, then the two \<open>CHECK\<close> constraints.\<close>

definition raw_row_error :: "'a raw_txn_scheme \<Rightarrow> db_error option" where
  "raw_row_error r =
     (if 128 < length (rt_txn_id r) \<or> 3 < length (rt_currency r) \<or> 255 < length (rt_idempotency_key r)
      then Some StringDataRightTruncation
      else if \<not> iso4217 (rt_currency r) \<or> rt_duplicate_count r < 0 then Some CheckViolation
      else None)"

text \<open>A new result: the width of \<open>match_latency_ms\<close>, then the two \<open>CHECK\<close> constraints.\<close>

definition result_row_error :: "reconciliation_result \<Rightarrow> db_error option" where
  "result_row_error r =
     (case rr_match_latency_ms r of
        None \<Rightarrow> if rr_gateway_txn_id r = None \<and> rr_ledger_entry_id r = None then Some CheckViolation else None
      | Some l \<Rightarrow>
          if \<not> int4_ok l then Some NumericValueOutOfRange
          else if rr_gateway_txn_id r = None \<and> rr_ledger_entry_id r = None then Some CheckViolation
          else if l < 0 then Some CheckViolation else None)"

text \<open>Foreign keys: the referenced row exists.\<close>

definition has_account :: "db \<Rightarrow> int \<Rightarrow> bool" where
  "has_account d i = list_ex (\<lambda>a. ac_id a = i) (db_accounts d)"

definition has_gateway :: "db \<Rightarrow> int \<Rightarrow> bool" where
  "has_gateway d i = list_ex (\<lambda>r. rt_id r = i) (db_gateway_transactions d)"

definition has_ledger :: "db \<Rightarrow> int \<Rightarrow> bool" where
  "has_ledger d i = list_ex (\<lambda>r. rt_id r = i) (db_ledger_entries d)"

definition result_fk_ok :: "db \<Rightarrow> reconciliation_result \<Rightarrow> bool" where
  "result_fk_ok d r \<longleftrightarrow>
     has_account d (rr_tenant_id r) \<and>
     (case rr_gateway_txn_id r of None \<Rightarrow> True | Some g \<Rightarrow> has_gateway d g) \<and>
     (case rr_ledger_entry_id r of None \<Rightarrow> True | Some e \<Rightarrow> has_ledger d e)"

end
