(* ===== verification/Float_Model.thy ===== *)
theory Float_Model
  imports Complex_Main
begin

text \<open>
  The float arithmetic the program's results depend on: \<open>timedelta.total_seconds()\<close> is the integer
  number of microseconds divided by \<open>10 ** 6\<close> as a correctly rounded binary64, and
  \<open>int(.. * 1000)\<close> multiplies it, rounds again and truncates. A non-negative binary64 is a
  significand and a binary exponent. The magnitudes here (a \<open>timedelta\<close> has at most \<open>2 ^ 60\<close>
  microseconds) are far from the limits of the exponent, so there is no overflow and no subnormal.
\<close>

type_synonym dyadic = "int \<times> int"

definition float_val :: "dyadic \<Rightarrow> rat" where
  "float_val x = of_int (fst x) * 2 powi (snd x)"

fun bit_length :: "nat \<Rightarrow> nat" where
  "bit_length n = (if n = 0 then 0 else Suc (bit_length (n div 2)))"

declare bit_length.simps [simp del]

text \<open>The quotient of two non-negative integers, rounded half to even.\<close>

definition div_half_even :: "int \<Rightarrow> int \<Rightarrow> int" where
  "div_half_even n d =
     (let q = n div d; r = n mod d in if 2 * r < d \<or> (2 * r = d \<and> even q) then q else q + 1)"

text \<open>\<open>n / d / 2 ^ e\<close> as a fraction of integers.\<close>

definition scaled :: "int \<Rightarrow> int \<Rightarrow> int \<Rightarrow> int \<times> int" where
  "scaled n d e = (if 0 \<le> e then (n, d * 2 ^ nat e) else (n * 2 ^ nat (- e), d))"

text \<open>The exponent that leaves 53 bits before the binary point.\<close>

definition quot_exponent :: "int \<Rightarrow> int \<Rightarrow> int" where
  "quot_exponent n d =
     (let e = int (bit_length (nat n)) - int (bit_length (nat d)) - 53
      in case scaled n d e of (a, b) \<Rightarrow> if a < 2 ^ 53 * b then e else e + 1)"

text \<open>The same on integers, so that the model runs on large numbers.\<close>

fun bit_len_int :: "int \<Rightarrow> nat" where
  "bit_len_int i = (if i \<le> 0 then 0 else Suc (bit_len_int (i div 2)))"

declare bit_len_int.simps [simp del]

lemma bit_length_int: "bit_length (nat i) = bit_len_int i"
proof (induction i rule: bit_len_int.induct)
  case (1 i)
  show ?case
  proof (cases "i \<le> 0")
    case True
    then show ?thesis by (simp add: bit_length.simps [of 0] bit_len_int.simps [of i])
  next
    case False
    then have "nat i div 2 = nat (i div 2)" by (simp add: nat_div_distrib)
    then show ?thesis using 1 False by (simp add: bit_length.simps [of "nat i"] bit_len_int.simps [of i])
  qed
qed

lemma quot_exponent_code [code]:
  "quot_exponent n d =
     (let e = int (bit_len_int n) - int (bit_len_int d) - 53
      in case scaled n d e of (a, b) \<Rightarrow> if a < 2 ^ 53 * b then e else e + 1)"
  by (simp add: quot_exponent_def bit_length_int)
text \<open>Python's \<open>/\<close> on two integers: the nearest binary64.\<close>

definition float_div :: "int \<Rightarrow> int \<Rightarrow> dyadic" where
  "float_div n d =
     (if n = 0 then (0, 0)
      else case scaled n d (quot_exponent n d) of (a, b) \<Rightarrow> (div_half_even a b, quot_exponent n d))"

text \<open>\<open>x * 1000\<close> and \<open>int(x)\<close>.\<close>

definition float_times_int :: "dyadic \<Rightarrow> int \<Rightarrow> dyadic" where
  "float_times_int x k = (case float_div (fst x * k) 1 of (m, e) \<Rightarrow> (m, e + snd x))"

definition float_trunc :: "dyadic \<Rightarrow> int" where
  "float_trunc x = (if 0 \<le> snd x then fst x * 2 ^ nat (snd x) else fst x div 2 ^ nat (- snd x))"

subsection \<open>Accuracy\<close>

lemma bit_length_bounds:
  "0 < n \<Longrightarrow> 2 ^ (bit_length n - 1) \<le> n \<and> n < 2 ^ bit_length n \<and> 0 < bit_length n"
proof (induction n rule: bit_length.induct)
  case (1 n)
  show ?case
  proof (cases "n div 2 = 0")
    case True
    then have "n = 1" using "1.prems" by linarith
    then show ?thesis by (simp add: bit_length.simps [of "Suc 0"] bit_length.simps [of 0])
  next
    case False
    then have IH: "2 ^ (bit_length (n div 2) - 1) \<le> n div 2" "n div 2 < 2 ^ bit_length (n div 2)"
      "0 < bit_length (n div 2)" using 1 by auto
    obtain b where b: "bit_length (n div 2) = Suc b" using IH(3) by (cases "bit_length (n div 2)") auto
    have "bit_length n = Suc (Suc b)" using "1.prems" b by (simp add: bit_length.simps [of n])
    then show ?thesis using IH b by auto
  qed
qed

lemma scaled_val:
  assumes "scaled n d e = (a, b)" and "0 < d"
  shows "0 < b" and "of_int a / of_int b = (of_int n / of_int d :: rat) / 2 powi e"
proof -
  show "0 < b" using assms by (auto simp: scaled_def split: if_splits)
  show "of_int a / of_int b = (of_int n / of_int d :: rat) / 2 powi e"
  proof (cases "0 \<le> e")
    case True
    then show ?thesis using assms by (auto simp: scaled_def power_int_def)
  next
    case False
    then show ?thesis using assms by (auto simp: scaled_def power_int_def field_simps)
  qed
qed

lemma div_half_even_error:
  assumes "0 < d"
  shows "\<bar>of_int (div_half_even n d) - of_int n / of_int d :: rat\<bar> \<le> 1 / 2"
proof -
  have n: "(of_int n :: rat) = of_int (n div d) * of_int d + of_int (n mod d)"
    by (metis div_mult_mod_eq of_int_add of_int_mult)
  have d: "(0 :: rat) < of_int d" using assms by simp
  have r: "0 \<le> n mod d" "n mod d < d" using assms by simp_all
  define q where "q = (of_int (n div d) :: rat)"
  define s where "s = (of_int (n mod d) / of_int d :: rat)"
  have quot: "of_int n / of_int d = q + s" using d n by (simp add: q_def s_def field_simps)
  have s: "0 \<le> s" "s < 1" using r d by (simp_all add: s_def)
  have le: "2 * s \<le> 1 \<longleftrightarrow> 2 * (n mod d) \<le> d"
  proof -
    have "2 * s \<le> 1 \<longleftrightarrow> (of_int (2 * (n mod d)) :: rat) \<le> of_int d" using d by (simp add: s_def field_simps)
    then show ?thesis by (simp only: of_int_le_iff)
  qed
  have ge: "1 \<le> 2 * s \<longleftrightarrow> d \<le> 2 * (n mod d)"
  proof -
    have "1 \<le> 2 * s \<longleftrightarrow> (of_int d :: rat) \<le> of_int (2 * (n mod d))" using d by (simp add: s_def field_simps)
    then show ?thesis by (simp only: of_int_le_iff)
  qed
  show ?thesis
  proof (cases "2 * (n mod d) < d \<or> (2 * (n mod d) = d \<and> even (n div d))")
    case True
    then have "of_int (div_half_even n d) = q" by (auto simp: div_half_even_def Let_def q_def)
    moreover have "2 * s \<le> 1" using True le by auto
    ultimately show ?thesis using quot s by simp
  next
    case False
    then have "of_int (div_half_even n d) = q + 1" by (auto simp: div_half_even_def Let_def q_def)
    moreover have "1 \<le> 2 * s" using False ge by auto
    ultimately show ?thesis using quot s by simp
  qed
qed

lemma divide_swap: "0 < p \<Longrightarrow> 0 < c \<Longrightarrow> c \<le> x / p \<longleftrightarrow> p \<le> x / (c :: rat)"
  by (simp add: field_simps)

lemma quot_exponent_bound:
  assumes "0 < n" and "0 < d"
  shows "2 ^ 52 \<le> (of_int n / of_int d :: rat) / 2 powi (quot_exponent n d)"
proof -
  define e where "e = int (bit_length (nat n)) - int (bit_length (nat d)) - 53"
  obtain a b where ab: "scaled n d e = (a, b)" by fastforce
  note v = scaled_val [OF ab assms(2)]
  show ?thesis
  proof (cases "a < 2 ^ 53 * b")
    case True
    then have e: "quot_exponent n d = e" using ab by (simp add: quot_exponent_def e_def Let_def)
    have bn: "2 ^ (bit_length (nat n) - 1) \<le> nat n" "0 < bit_length (nat n)"
      and bd: "nat d < 2 ^ bit_length (nat d)"
      using bit_length_bounds [of "nat n"] bit_length_bounds [of "nat d"] assms by auto
    have "(2 :: int) ^ (bit_length (nat n) - 1) \<le> n"
      using bn(1) assms(1) by (metis int_nat_eq less_imp_le nat_le_iff of_nat_numeral of_nat_power of_nat_le_iff)
    then have n: "(2 :: rat) ^ (bit_length (nat n) - 1) \<le> of_int n"
      by (metis of_int_le_iff of_int_numeral of_int_power)
    have "d < (2 :: int) ^ bit_length (nat d)"
      using bd assms(2) by (metis int_nat_eq less_imp_le of_nat_less_iff of_nat_numeral of_nat_power)
    then have d: "(of_int d :: rat) \<le> 2 ^ bit_length (nat d)"
      by (metis less_imp_le of_int_le_iff of_int_numeral of_int_power)
    have "(2 :: rat) powi (e + 52) = 2 ^ (bit_length (nat n) - 1) / 2 ^ bit_length (nat d)"
    proof -
      have "e + 52 = int (bit_length (nat n) - 1) - int (bit_length (nat d))" using bn(2) by (simp add: e_def)
      then show ?thesis by (simp add: power_int_diff)
    qed
    also have "\<dots> \<le> of_int n / of_int d"
      using n d assms by (intro frac_le) simp_all
    finally have "2 ^ 52 * 2 powi e \<le> (of_int n / of_int d :: rat)"
      using power_int_add [of "2 :: rat" e 52] by simp
    then show ?thesis unfolding e by (subst pos_le_divide_eq) auto
  next
    case False
    then have e: "quot_exponent n d = e + 1" using ab by (simp add: quot_exponent_def e_def Let_def)
    have "(of_int (2 ^ 53 * b) :: rat) \<le> of_int a" using False by (simp only: of_int_le_iff)
    then have ge: "2 ^ 53 \<le> (of_int n / of_int d :: rat) / 2 powi e"
      unfolding v(2) [symmetric] using v(1) by (simp add: field_simps)
    have half: "(of_int n / of_int d :: rat) / 2 powi (e + 1) = (of_int n / of_int d) / 2 powi e / 2"
      by (simp add: power_int_add)
    have "2 ^ 53 \<le> y \<Longrightarrow> 2 ^ 52 \<le> y / 2" for y :: rat by simp
    then show ?thesis unfolding e half using ge by blast
  qed
qed

lemma float_div_error:
  assumes "0 \<le> n" and "0 < d"
  shows "\<bar>float_val (float_div n d) - of_int n / of_int d\<bar> \<le> of_int n / of_int d / 2 ^ 53"
proof (cases "n = 0")
  case True
  then show ?thesis by (simp add: float_div_def float_val_def)
next
  case False
  then have n: "0 < n" using assms(1) by simp
  let ?e = "quot_exponent n d" and ?x = "of_int n / of_int d :: rat"
  obtain a b where ab: "scaled n d ?e = (a, b)" by fastforce
  note v = scaled_val [OF ab assms(2)]
  have p: "(0 :: rat) < 2 powi ?e" by simp
  have "float_val (float_div n d) - ?x = (of_int (div_half_even a b) - ?x / 2 powi ?e) * 2 powi ?e"
    using n ab p by (simp add: float_div_def float_val_def field_simps)
  moreover have "\<bar>of_int (div_half_even a b) - ?x / 2 powi ?e\<bar> \<le> 1 / 2"
    using div_half_even_error [OF v(1), of a] by (simp add: v(2))
  ultimately have "\<bar>float_val (float_div n d) - ?x\<bar> \<le> 1 / 2 * 2 powi ?e"
    using p by (simp add: abs_mult mult_right_mono)
  also have "2 powi ?e \<le> ?x / 2 ^ 52"
    using quot_exponent_bound [OF n assms(2)] by (subst (asm) divide_swap [OF p]) simp_all
  finally show ?thesis by simp
qed

lemma div_half_even_nonneg: "0 \<le> n \<Longrightarrow> 0 < d \<Longrightarrow> 0 \<le> div_half_even n d"
  by (simp add: div_half_even_def Let_def pos_imp_zdiv_nonneg_iff)

lemma float_div_nonneg: "0 \<le> n \<Longrightarrow> 0 < d \<Longrightarrow> 0 \<le> fst (float_div n d)"
  using scaled_val(1) [of n d "quot_exponent n d"]
  by (auto simp: float_div_def scaled_def intro!: div_half_even_nonneg split: if_splits)

lemma float_times_int_error:
  assumes "0 \<le> fst x" and "0 \<le> k"
  shows "\<bar>float_val (float_times_int x k) - float_val x * of_int k\<bar> \<le> float_val x * of_int k / 2 ^ 53"
proof -
  obtain m e where me: "float_div (fst x * k) 1 = (m, e)" by fastforce
  have "\<bar>float_val (m, e) - of_int (fst x * k)\<bar> \<le> of_int (fst x * k) / 2 ^ 53"
    using float_div_error [of "fst x * k" 1] assms me by simp
  then have le: "\<bar>float_val (m, e) - of_int (fst x * k)\<bar> * 2 powi snd x \<le> of_int (fst x * k) / 2 ^ 53 * 2 powi snd x"
    by (rule mult_right_mono) simp
  have v: "float_val x * of_int k = of_int (fst x * k) * 2 powi snd x"
    by (simp add: float_val_def)
  have "float_val (float_times_int x k) - float_val x * of_int k =
      (float_val (m, e) - of_int (fst x * k)) * 2 powi snd x"
    unfolding v by (simp add: float_times_int_def me float_val_def power_int_add left_diff_distrib)
  then have "\<bar>float_val (float_times_int x k) - float_val x * of_int k\<bar> =
      \<bar>float_val (m, e) - of_int (fst x * k)\<bar> * 2 powi snd x"
    by (simp only: abs_mult) simp
  also note le
  also have "of_int (fst x * k) / 2 ^ 53 * 2 powi snd x = float_val x * of_int k / 2 ^ 53"
    unfolding v by simp
  finally show ?thesis .
qed

lemma float_trunc_floor:
  assumes "0 \<le> fst x"
  shows "float_trunc x = \<lfloor>float_val x\<rfloor>"
proof (cases "0 \<le> snd x")
  case True
  then have "float_val x = of_int (fst x * 2 ^ nat (snd x))"
    by (simp add: float_val_def power_int_def)
  then show ?thesis using True by (simp only: floor_of_int) (simp add: float_trunc_def)
next
  case False
  then have "float_val x = of_int (fst x) / of_int (2 ^ nat (- snd x))"
    by (simp add: float_val_def power_int_def field_simps)
  then show ?thesis using False by (simp only: floor_divide_of_int_eq) (simp add: float_trunc_def)
qed

subsection \<open>Milliseconds of a duration\<close>

text \<open>\<open>int(delta.total_seconds() * 1000)\<close>; truncation is towards zero.\<close>

definition duration_ms :: "int \<Rightarrow> int" where
  "duration_ms us = sgn us * float_trunc (float_times_int (float_div \<bar>us\<bar> 1000000) 1000)"

text \<open>Two roundings move the result by less than a millisecond, in either direction.\<close>

lemma duration_ms_bounds:
  assumes "0 \<le> us" and "us < 10 ^ 18"
  shows "us - 2000 < 1000 * duration_ms us" and "1000 * duration_ms us \<le> us + 1000"
    and "0 \<le> duration_ms us"
proof -
  define y where "y = float_div us 1000000"
  define z where "z = float_times_int y 1000"
  define x where "x = (of_int us / 1000000 :: rat)"
  have x: "0 \<le> x" "x < 1000000000000" using assms by (simp_all add: x_def)
  have y0: "0 \<le> fst y" using assms by (simp add: y_def float_div_nonneg)
  have z0: "0 \<le> fst z" using float_div_nonneg [of "fst y * 1000" 1] y0
    by (auto simp: z_def float_times_int_def split: prod.splits)
  have ey: "\<bar>float_val y - x\<bar> \<le> x / 2 ^ 53"
    using float_div_error [of us 1000000] assms by (simp add: y_def x_def)
  have ez: "\<bar>float_val z - float_val y * 1000\<bar> \<le> float_val y * 1000 / 2 ^ 53"
    using float_times_int_error [OF y0, of 1000] by (simp add: z_def)
  have z: "\<bar>float_val z - x * 1000\<bar> < 1"
  proof -
    have "float_val y - x \<le> x / 9007199254740992" "x - float_val y \<le> x / 9007199254740992"
      using ey unfolding abs_le_iff power_numeral by simp_all
    moreover have "float_val z - float_val y * 1000 \<le> float_val y * 1000 / 9007199254740992"
      "float_val y * 1000 - float_val z \<le> float_val y * 1000 / 9007199254740992"
      using ez unfolding abs_le_iff power_numeral by simp_all
    ultimately have "float_val z - x * 1000 < 1" "x * 1000 - float_val z < 1" using x by linarith+
    then show ?thesis by (simp add: abs_less_iff)
  qed
  have ms: "duration_ms us = \<lfloor>float_val z\<rfloor>"
  proof (cases "us = 0")
    case True
    then show ?thesis by (simp add: duration_ms_def z_def y_def float_div_def float_times_int_def float_val_def)
  next
    case False
    then show ?thesis using assms z0 by (simp add: duration_ms_def flip: y_def z_def) (simp add: float_trunc_floor)
  qed
  have "of_int (duration_ms us) \<le> float_val z" "float_val z < of_int (duration_ms us) + 1"
    unfolding ms by linarith+
  then have b: "of_int (duration_ms us) < x * 1000 + 1" "x * 1000 - 2 < of_int (duration_ms us)"
    using z by linarith+
  have "(of_int (1000 * duration_ms us) :: rat) < of_int (us + 1000)"
    and "(of_int (us - 2000) :: rat) < of_int (1000 * duration_ms us)"
    using b by (simp_all add: x_def field_simps)
  then show "us - 2000 < 1000 * duration_ms us" and "1000 * duration_ms us \<le> us + 1000"
    by (simp_all only: of_int_less_iff)
  show "0 \<le> duration_ms us" unfolding ms using z0 by (simp add: float_val_def)
qed

lemma duration_ms_nonpos: "us \<le> 0 \<Longrightarrow> duration_ms us \<le> 0"
proof -
  assume us: "us \<le> 0"
  define y where "y = float_div \<bar>us\<bar> 1000000"
  have "0 \<le> fst y" by (simp add: y_def float_div_nonneg)
  then have "0 \<le> fst (float_times_int y 1000)"
    using float_div_nonneg [of "fst y * 1000" 1] by (auto simp: float_times_int_def \<open>0 \<le> fst y\<close> split: prod.splits)
  then have "0 \<le> float_trunc (float_times_int y 1000)"
    by (auto simp: float_trunc_def pos_imp_zdiv_nonneg_iff)
  then show ?thesis using us by (auto simp: duration_ms_def y_def sgn_if)
qed

end
