(* ===== verification/Worker_Persist.thy ===== *)
theory Worker_Persist
  imports Db_Models Float_Model
begin

text \<open>
  \<open>ledgerloop/worker/persist.py\<close>: the reads and the one write of the matcher. \<open>now\<close> is the
  reading of the clock (\<open>datetime.now(UTC)\<close>) the call works with; \<open>tx_now\<close> is the transaction's
  time, the \<open>server_default\<close> of the instants an \<open>INSERT\<close> does not name.
\<close>

subsection \<open>Reading rows\<close>

fun other_side :: "ingest_source \<Rightarrow> ingest_source" where
  "other_side GATEWAY = LEDGER"
| "other_side LEDGER = GATEWAY"

text \<open>\<open>_MODEL[side]\<close>: the table of a side, with the columns the two share.\<close>

definition model_rows :: "ingest_source \<Rightarrow> db \<Rightarrow> raw_txn list" where
  "model_rows side d =
     (case side of
        GATEWAY \<Rightarrow> map raw_txn.truncate (db_gateway_transactions d)
      | LEDGER \<Rightarrow> map raw_txn.truncate (db_ledger_entries d))"

definition facts_of :: "ingest_source \<Rightarrow> raw_txn \<Rightarrow> txn_facts" where
  "facts_of side row =
     \<lparr> tf_side = side, tf_tenant_id = rt_tenant_id row, tf_row_id = rt_id row,
       tf_txn_id = rt_txn_id row, tf_amount = rt_amount row, tf_currency = rt_currency row,
       tf_occurred_at = rt_occurred_at row, tf_received_at = rt_received_at row \<rparr>"

definition load_facts :: "db \<Rightarrow> ingest_source \<Rightarrow> int \<Rightarrow> db_error + txn_facts option" where
  "load_facts d source row_id =
     (case filter (\<lambda>r. rt_id r = row_id) (model_rows source d) of
        [] \<Rightarrow> Inr None
      | [row] \<Rightarrow> Inr (Some (facts_of source row))
      | _ \<Rightarrow> Inl MultipleResultsFound)"

definition find_counterparties :: "db \<Rightarrow> txn_facts \<Rightarrow> match_config \<Rightarrow> txn_facts list" where
  "find_counterparties d candidate config =
     (let side = other_side (tf_side candidate);
          low = tf_occurred_at candidate - mc_drift_window config;
          high = tf_occurred_at candidate + mc_drift_window config
      in map (facts_of side)
           (filter (\<lambda>r. rt_tenant_id r = tf_tenant_id candidate \<and> rt_txn_id r = tf_txn_id candidate \<and>
               low \<le> rt_occurred_at r \<and> rt_occurred_at r \<le> high \<and> rt_reconciled_at r = None)
             (model_rows side d)))"

text \<open>
  \<open>ORDER BY received_at LIMIT n\<close>. Rows received in the same microsecond come in table order here;
  the database may return them in any order.
\<close>

definition find_stale_pending ::
  "db \<Rightarrow> instant \<Rightarrow> ingest_source \<Rightarrow> duration \<Rightarrow> nat \<Rightarrow> txn_facts list" where
  "find_stale_pending d now source older_than limit =
     (let cutoff = now - older_than
      in map (facts_of source)
           (take limit
             (linorder_class.sort_key rt_received_at
               (filter (\<lambda>r. rt_reconciled_at r = None \<and> rt_received_at r < cutoff)
                 (model_rows source d)))))"

subsection \<open>Latency\<close>

fun latest :: "txn_facts \<Rightarrow> txn_facts list \<Rightarrow> instant" where
  "latest f [] = tf_received_at f"
| "latest f (g # gs) = max (tf_received_at f) (latest g gs)"

definition compute_latency_ms :: "decision \<Rightarrow> txn_facts list \<Rightarrow> instant \<Rightarrow> int" where
  "compute_latency_ms decision sides now =
     (case sides of [] \<Rightarrow> 0 | f # fs \<Rightarrow> max (duration_ms (now - latest f fs)) 0)"

subsection \<open>Writing a decision\<close>

record persist_result =
  pr_written :: bool
  pr_result_id :: "int option"
  pr_exception_opened :: bool

definition reconcile :: "instant \<Rightarrow> 'a raw_txn_scheme \<Rightarrow> 'a raw_txn_scheme" where
  "reconcile now r = r\<lparr> rt_reconciled_at := Some now \<rparr>"

definition reconcile_row :: "instant \<Rightarrow> int option \<Rightarrow> 'a raw_txn_scheme list \<Rightarrow> 'a raw_txn_scheme list" where
  "reconcile_row now row_id rows =
     (case row_id of
        None \<Rightarrow> rows
      | Some i \<Rightarrow> update_where (\<lambda>r. rt_id r = i \<and> rt_reconciled_at r = None) (reconcile now) rows)"

definition mark_reconciled :: "instant \<Rightarrow> decision \<Rightarrow> db \<Rightarrow> db" where
  "mark_reconciled now dec d =
     d\<lparr> db_gateway_transactions := reconcile_row now (dc_gateway_row_id dec) (db_gateway_transactions d),
        db_ledger_entries := reconcile_row now (dc_ledger_row_id dec) (db_ledger_entries d) \<rparr>"

text \<open>The values of the result's \<open>INSERT\<close>.\<close>

definition result_of ::
  "int \<Rightarrow> instant \<Rightarrow> decision \<Rightarrow> int \<Rightarrow> int option \<Rightarrow> string option \<Rightarrow> reconciliation_result" where
  "result_of i tx_now dec tenant_id latency_ms message_id =
     \<lparr> rr_id = i, rr_tenant_id = tenant_id, rr_gateway_txn_id = dc_gateway_row_id dec,
       rr_ledger_entry_id = dc_ledger_row_id dec, rr_status = dc_status dec,
       rr_match_layer = dc_layer dec, rr_resolved_at = tx_now, rr_notes = dc_notes dec,
       rr_match_latency_ms = latency_ms, rr_source_message_id = message_id \<rparr>"

text \<open>The exception's \<open>INSERT .. ON CONFLICT (reconciliation_result_id) DO NOTHING\<close>.\<close>

definition open_exception :: "instant \<Rightarrow> int \<Rightarrow> int \<Rightarrow> db \<Rightarrow> db \<times> bool" where
  "open_exception tx_now tenant_id result_id d =
     (case nextval T_exceptions d of
        (i, d1) \<Rightarrow>
     (case insert_unless_conflict exception_keys
             \<lparr> ex_id = i, ex_tenant_id = tenant_id, ex_reconciliation_result_id = result_id,
               ex_opened_at = tx_now, ex_closed_at = None, ex_resolution_notes = None \<rparr>
             (db_exceptions d1) of
        (rows, opened) \<Rightarrow> (d1\<lparr> db_exceptions := rows \<rparr>, opened)))"

text \<open>
  \<open>apply_decision\<close>. A row that fails a check raises before the conflict is looked at, a row whose
  foreign keys fail raises only if it went in. On an error the caller's transaction rolls back.
\<close>

definition apply_decision ::
  "instant \<Rightarrow> instant \<Rightarrow> decision \<Rightarrow> int \<Rightarrow> int option \<Rightarrow> string option \<Rightarrow> db \<Rightarrow> db_error + db \<times> persist_result" where
  "apply_decision tx_now now dec tenant_id latency_ms message_id d =
     (case nextval T_reconciliation_results d of
        (i, d1) \<Rightarrow>
     (let row = result_of i tx_now dec tenant_id latency_ms message_id in
     (case result_row_error row of
        Some e \<Rightarrow> Inl e
      | None \<Rightarrow>
     (case insert_unless_conflict result_keys row (db_reconciliation_results d1) of
        (rows, False) \<Rightarrow>
          Inr (d1, \<lparr> pr_written = False, pr_result_id = None, pr_exception_opened = False \<rparr>)
      | (rows, True) \<Rightarrow>
          if \<not> result_fk_ok d1 row then Inl ForeignKeyViolation
          else
            let d2 = d1\<lparr> db_reconciliation_results := rows \<rparr>;
                d3 = (if dc_status dec \<noteq> DUPLICATE then mark_reconciled now dec d2 else d2)
            in
            (case (if opens_exception dec then open_exception tx_now tenant_id i d3 else (d3, False)) of
               (d4, opened) \<Rightarrow>
                 Inr (d4, \<lparr> pr_written = True, pr_result_id = Some i, pr_exception_opened = opened \<rparr>))))))"

end
