(* ===== verification/Queue_Messages.thy ===== *)
theory Queue_Messages
  imports Db_Enums Json_Model
begin

text \<open>
  \<open>ledgerloop/queue/messages.py\<close>: the message between ingestion and the matcher, its JSON body
  and the reading of a body back. \<open>to_fields\<close> puts the text of that body in one stream field;
  the text form is \<open>json.dumps\<close>, which is a parameter where it is used.
\<close>

record ingest_message =
  im_source :: ingest_source
  im_row_id :: int
  im_txn_id :: string
  im_is_duplicate :: bool
  im_submissions :: int

text \<open>What reading a malformed body raises.\<close>

datatype message_error = MissingKey string | BadValue string | BadType string

definition to_payload :: "ingest_message \<Rightarrow> json" where
  "to_payload m =
     JObj [(''source'', JStr (ingest_source_value (im_source m))),
           (''row_id'', JInt (im_row_id m)),
           (''txn_id'', JStr (im_txn_id m)),
           (''is_duplicate'', JBool (im_is_duplicate m)),
           (''submissions'', JInt (im_submissions m))]"

text \<open>
  \<open>int(x)\<close> on the JSON values ingestion writes: an integer or a boolean. Reading any other value
  as a row id is an error of the model (\<open>int\<close> of a numeric string or of a float is never written).
\<close>

fun json_int :: "string \<Rightarrow> json \<Rightarrow> message_error + int" where
  "json_int k (JInt i) = Inr i"
| "json_int k (JBool b) = Inr (if b then 1 else 0)"
| "json_int k _ = Inl (BadType k)"

definition from_payload :: "json \<Rightarrow> message_error + ingest_message" where
  "from_payload body =
     (case json_get body ''source'' of
        None \<Rightarrow> Inl (MissingKey ''source'')
      | Some src \<Rightarrow>
     (case (case src of JStr s \<Rightarrow> ingest_source_of s | _ \<Rightarrow> None) of
        None \<Rightarrow> Inl (BadValue ''source'')
      | Some source \<Rightarrow>
     (case json_get body ''row_id'' of
        None \<Rightarrow> Inl (MissingKey ''row_id'')
      | Some rid \<Rightarrow>
     (case json_int ''row_id'' rid of
        Inl e \<Rightarrow> Inl e
      | Inr row_id \<Rightarrow>
     (case json_get body ''txn_id'' of
        None \<Rightarrow> Inl (MissingKey ''txn_id'')
      | Some tid \<Rightarrow>
     (case tid of
        JStr txn_id \<Rightarrow>
          (case json_int ''submissions''
                  (case json_get body ''submissions'' of None \<Rightarrow> JInt 1 | Some x \<Rightarrow> x) of
             Inl e \<Rightarrow> Inl e
           | Inr submissions \<Rightarrow>
               Inr \<lparr> im_source = source, im_row_id = row_id, im_txn_id = txn_id,
                     im_is_duplicate = (case json_get body ''is_duplicate'' of
                        None \<Rightarrow> False | Some x \<Rightarrow> truthy x),
                     im_submissions = submissions \<rparr>)
      | _ \<Rightarrow> Inl (BadType ''txn_id'')))))))"

lemma from_to_payload [simp]: "from_payload (to_payload m) = Inr m"
  by (simp add: from_payload_def to_payload_def)

lemma to_payload_inject [simp]: "to_payload m = to_payload m' \<longleftrightarrow> m = m'"
  by (metis from_to_payload sum.inject(2))

end
