(* ===== verification/Worker_Loop.thy ===== *)
theory Worker_Loop
  imports Worker_Persist Queue_Messages
begin

text \<open>
  \<open>ledgerloop/worker/loop.py\<close>: \<open>MatcherWorker.process\<close>, the handling of one message, and the batch
  loop of \<open>run\<close> around it. The timings, the log lines and the counters of \<open>process\<close> carry no state
  of the program; \<open>po_latency_ms\<close> is kept because the outcome returns it.
\<close>

record process_outcome =
  po_decision :: "decision option"
  po_written :: bool
  po_latency_ms :: "int option"

definition deferred :: process_outcome where
  "deferred = \<lparr> po_decision = None, po_written = False, po_latency_ms = None \<rparr>"

text \<open>\<open>ProcessOutcome.label\<close>.\<close>

definition outcome_label :: "process_outcome \<Rightarrow> string \<times> string" where
  "outcome_label out =
     (case po_decision out of
        None \<Rightarrow> (''deferred'', ''deferred'')
      | Some dec \<Rightarrow> (recon_status_value (dc_status dec), match_layer_value (dc_layer dec)))"

text \<open>The counterparty's id in a decision, and the sides whose arrival the latency counts from.\<close>

definition partner_id :: "ingest_source \<Rightarrow> decision \<Rightarrow> int option" where
  "partner_id side dec = (if side = GATEWAY then dc_ledger_row_id dec else dc_gateway_row_id dec)"

definition sides_of :: "txn_facts \<Rightarrow> txn_facts list \<Rightarrow> decision \<Rightarrow> txn_facts list" where
  "sides_of candidate counterparties dec =
     candidate # filter (\<lambda>f. Some (tf_row_id f) = partner_id (tf_side candidate) dec) counterparties"

text \<open>What \<open>process\<close> decides for a candidate, with the sides it measures from.\<close>

definition decide_message ::
  "match_config \<Rightarrow> ingest_message \<Rightarrow> txn_facts \<Rightarrow> db \<Rightarrow> decision option \<times> txn_facts list" where
  "decide_message config message candidate d =
     (if im_is_duplicate message
      then (Some (decide_duplicate candidate (im_submissions message)), [candidate])
      else
        let counterparties = find_counterparties d candidate config in
        (case decide candidate counterparties config of
           None \<Rightarrow> (None, [candidate])
         | Some dec \<Rightarrow> (Some dec, sides_of candidate counterparties dec)))"

definition process ::
  "match_config \<Rightarrow> instant \<Rightarrow> instant \<Rightarrow> ingest_message \<Rightarrow> string option \<Rightarrow> db \<Rightarrow> db_error + db \<times> process_outcome" where
  "process config tx_now now message message_id d =
     (case load_facts d (im_source message) (im_row_id message) of
        Inl e \<Rightarrow> Inl e
      | Inr None \<Rightarrow> Inr (d, deferred)
      | Inr (Some candidate) \<Rightarrow>
          (case decide_message config message candidate d of
             (None, sides) \<Rightarrow> Inr (d, deferred)
           | (Some dec, sides) \<Rightarrow>
               let latency_ms = compute_latency_ms dec sides now in
               (case apply_decision tx_now now dec (tf_tenant_id candidate) (Some latency_ms) message_id d of
                  Inl e \<Rightarrow> Inl e
                | Inr (d', persisted) \<Rightarrow>
                    Inr (d', \<lparr> po_decision = Some dec, po_written = pr_written persisted,
                               po_latency_ms = Some latency_ms \<rparr>))))"

text \<open>
  The \<open>for\<close> of \<open>run\<close>: process, then acknowledge; an exception leaves the entry and the rest of the
  batch unacknowledged, and \<open>stop\<close> ends the batch after the entry in hand. The result is the state
  and the acknowledged entry ids; \<open>clock\<close> gives the readings for an entry and \<open>stop\<close> whether the
  event is set after it.
\<close>

fun run_batch ::
  "match_config \<Rightarrow> (string \<Rightarrow> instant \<times> instant) \<Rightarrow> (string \<Rightarrow> bool) \<Rightarrow> (string \<times> ingest_message) list \<Rightarrow> db \<Rightarrow>
     db \<times> string list \<times> db_error option" where
  "run_batch config clock stop [] d = (d, [], None)"
| "run_batch config clock stop ((entry_id, message) # entries) d =
     (case process config (fst (clock entry_id)) (snd (clock entry_id)) message (Some entry_id) d of
        Inl e \<Rightarrow> (d, [], Some e)
      | Inr (d', _) \<Rightarrow>
          if stop entry_id then (d', [entry_id], None)
          else
            (case run_batch config clock stop entries d' of
               (d'', acked, err) \<Rightarrow> (d'', entry_id # acked, err)))"

end
