(* ===== verification/Worker_Sweeper.thy ===== *)
theory Worker_Sweeper
  imports Worker_Loop
begin

text \<open>
  \<open>ledgerloop/worker/sweeper.py\<close> and \<open>ledgerloop/worker/sweep.py\<close>: the unmatched sweep, one
  transaction per row, the retention of demo tenants, and the draining loop of the cron form.
  \<open>clock\<close> is the reading of the clock while a row is handled.
\<close>

subsection \<open>The unmatched sweep\<close>

definition sweep_decision ::
  "match_config \<Rightarrow> instant \<Rightarrow> txn_facts \<Rightarrow> db \<Rightarrow> decision \<times> txn_facts list" where
  "sweep_decision config now candidate d =
     (let counterparties = find_counterparties d candidate config in
      (case decide candidate counterparties config of
         Some dec \<Rightarrow> (dec, sides_of candidate counterparties dec)
       | None \<Rightarrow> (decide_unmatched candidate (now - tf_received_at candidate), [candidate])))"

definition sweep_row ::
  "match_config \<Rightarrow> (txn_facts \<Rightarrow> instant) \<Rightarrow> txn_facts \<Rightarrow> db \<Rightarrow> db_error + db \<times> bool" where
  "sweep_row config clock candidate d =
     (let now = clock candidate in
      (case sweep_decision config now candidate d of
         (dec, sides) \<Rightarrow>
           (case apply_decision now now dec (tf_tenant_id candidate)
                   (Some (compute_latency_ms dec sides now)) None d of
              Inl e \<Rightarrow> Inl e
            | Inr (d', persisted) \<Rightarrow> Inr (d', pr_written persisted))))"

text \<open>
  The rows of one side, one committed transaction each: an exception ends the pass, the rows before
  it stay written.
\<close>

fun sweep_rows ::
  "match_config \<Rightarrow> (txn_facts \<Rightarrow> instant) \<Rightarrow> txn_facts list \<Rightarrow> nat \<Rightarrow> db \<Rightarrow> db \<times> (db_error + nat)" where
  "sweep_rows config clock [] resolved d = (d, Inr resolved)"
| "sweep_rows config clock (candidate # stale) resolved d =
     (case sweep_row config clock candidate d of
        Inl e \<Rightarrow> (d, Inl e)
      | Inr (d', written) \<Rightarrow>
          sweep_rows config clock stale (if written then resolved + 1 else resolved) d')"

fun sweep_sides ::
  "settings \<Rightarrow> nat \<Rightarrow> instant \<Rightarrow> (txn_facts \<Rightarrow> instant) \<Rightarrow> ingest_source list \<Rightarrow> nat \<Rightarrow> db \<Rightarrow>
     db \<times> (db_error + nat)" where
  "sweep_sides s limit now clock [] resolved d = (d, Inr resolved)"
| "sweep_sides s limit now clock (source # sources) resolved d =
     (case sweep_rows (from_settings s) clock
             (find_stale_pending d now source (seconds (s_unmatched_after_s s)) limit) resolved d of
        (d', Inl e) \<Rightarrow> (d', Inl e)
      | (d', Inr resolved') \<Rightarrow> sweep_sides s limit now clock sources resolved' d')"

subsection \<open>Retention of demo tenants\<close>

text \<open>
  The five \<open>DELETE\<close>s of one account, in the code's order, each with what its foreign keys do: an
  exception goes with its result (\<open>CASCADE\<close>), a raw row that a result still references and an account
  that a row still references cannot go (\<open>RESTRICT\<close>), keys and webhook sources go with their account
  (\<open>CASCADE\<close>).
\<close>

definition delete_exceptions :: "int \<Rightarrow> db \<Rightarrow> db_error + db" where
  "delete_exceptions a d = Inr (d\<lparr> db_exceptions := filter (\<lambda>x. ex_tenant_id x \<noteq> a) (db_exceptions d) \<rparr>)"

definition delete_results :: "int \<Rightarrow> db \<Rightarrow> db_error + db" where
  "delete_results a d =
     (let gone = filter (\<lambda>r. rr_tenant_id r = a) (db_reconciliation_results d) in
      Inr (d\<lparr> db_reconciliation_results := filter (\<lambda>r. rr_tenant_id r \<noteq> a) (db_reconciliation_results d),
              db_exceptions := filter (\<lambda>x. ex_reconciliation_result_id x \<notin> rr_id ` set gone) (db_exceptions d) \<rparr>))"

definition delete_gateway_rows :: "int \<Rightarrow> db \<Rightarrow> db_error + db" where
  "delete_gateway_rows a d =
     (let gone = filter (\<lambda>r. rt_tenant_id r = a) (db_gateway_transactions d) in
      if list_ex (\<lambda>r. rr_gateway_txn_id r \<in> Some ` rt_id ` set gone) (db_reconciliation_results d)
      then Inl ForeignKeyViolation
      else Inr (d\<lparr> db_gateway_transactions := filter (\<lambda>r. rt_tenant_id r \<noteq> a) (db_gateway_transactions d) \<rparr>))"

definition delete_ledger_rows :: "int \<Rightarrow> db \<Rightarrow> db_error + db" where
  "delete_ledger_rows a d =
     (let gone = filter (\<lambda>r. rt_tenant_id r = a) (db_ledger_entries d) in
      if list_ex (\<lambda>r. rr_ledger_entry_id r \<in> Some ` rt_id ` set gone) (db_reconciliation_results d)
      then Inl ForeignKeyViolation
      else Inr (d\<lparr> db_ledger_entries := filter (\<lambda>r. rt_tenant_id r \<noteq> a) (db_ledger_entries d) \<rparr>))"

definition delete_account_row :: "int \<Rightarrow> db \<Rightarrow> db_error + db" where
  "delete_account_row a d =
     (if list_ex (\<lambda>r. rt_tenant_id r = a) (db_gateway_transactions d) \<or>
         list_ex (\<lambda>r. rt_tenant_id r = a) (db_ledger_entries d) \<or>
         list_ex (\<lambda>r. rr_tenant_id r = a) (db_reconciliation_results d) \<or>
         list_ex (\<lambda>x. ex_tenant_id x = a) (db_exceptions d)
      then Inl ForeignKeyViolation
      else Inr (d\<lparr> db_accounts := filter (\<lambda>r. ac_id r \<noteq> a) (db_accounts d),
                  db_api_keys := filter (\<lambda>k. ak_account_id k \<noteq> a) (db_api_keys d),
                  db_webhook_sources := filter (\<lambda>s. ws_account_id s \<noteq> a) (db_webhook_sources d) \<rparr>))"

definition delete_demo_account :: "int \<Rightarrow> db \<Rightarrow> db_error + db" where
  "delete_demo_account a d =
     bind_result (delete_exceptions a d) (\<lambda>d1.
     bind_result (delete_results a d1) (\<lambda>d2.
     bind_result (delete_gateway_rows a d2) (\<lambda>d3.
     bind_result (delete_ledger_rows a d3) (\<lambda>d4.
       delete_account_row a d4))))"

definition stale_demo_accounts :: "settings \<Rightarrow> nat \<Rightarrow> instant \<Rightarrow> db \<Rightarrow> int list" where
  "stale_demo_accounts s limit now d =
     (let cutoff = now - seconds (3600 * s_demo_retention_hours s)
      in map ac_id
           (take limit
             (linorder_class.sort_key ac_last_seen_at
               (filter (\<lambda>a. ac_kind a = DEMO \<and> ac_last_seen_at a < cutoff) (db_accounts d)))))"

fun delete_accounts :: "int list \<Rightarrow> nat \<Rightarrow> db \<Rightarrow> db \<times> (db_error + nat)" where
  "delete_accounts [] deleted d = (d, Inr deleted)"
| "delete_accounts (a # as) deleted d =
     (case delete_demo_account a d of
        Inl e \<Rightarrow> (d, Inl e)
      | Inr d' \<Rightarrow> delete_accounts as (deleted + 1) d')"

definition sweep_demo_accounts :: "settings \<Rightarrow> nat \<Rightarrow> instant \<Rightarrow> db \<Rightarrow> db \<times> (db_error + nat)" where
  "sweep_demo_accounts s limit now d = delete_accounts (stale_demo_accounts s limit now d) 0 d"

text \<open>
  \<open>_maybe_sweep_demo_accounts\<close>: at most once per interval of the monotonic clock (in seconds, as an
  exact number here), and an error of it is swallowed.
\<close>

definition maybe_sweep_demo_accounts ::
  "settings \<Rightarrow> nat \<Rightarrow> instant \<Rightarrow> duration \<Rightarrow> duration \<Rightarrow> db \<Rightarrow> db \<times> duration" where
  "maybe_sweep_demo_accounts s limit now ticks last_sweep d =
     (if ticks - last_sweep < seconds (s_demo_sweep_interval_s s) then (d, last_sweep)
      else (fst (sweep_demo_accounts s limit now d), ticks))"

subsection \<open>One pass, and the cron form\<close>

text \<open>
  \<open>sweep_once\<close>: both sides, then retention; an exception of the sweep is raised past it. The state
  of the sweeper besides the database is \<open>_last_demo_sweep\<close>.
\<close>

definition sweep_once ::
  "settings \<Rightarrow> nat \<Rightarrow> instant \<Rightarrow> (txn_facts \<Rightarrow> instant) \<Rightarrow> duration \<Rightarrow> db \<times> duration \<Rightarrow>
     (db \<times> duration) \<times> (db_error + nat)" where
  "sweep_once s limit now clock ticks st =
     (case sweep_sides s limit now clock [GATEWAY, LEDGER] 0 (fst st) of
        (d', Inl e) \<Rightarrow> ((d', snd st), Inl e)
      | (d', Inr resolved) \<Rightarrow> (maybe_sweep_demo_accounts s limit now ticks (snd st) d', Inr resolved))"

text \<open>
  The \<open>while\<close> of \<open>sweep.py\<close>: passes until one resolves nothing or the budget is spent. The result is
  the total, the number of passes and whether the backlog was drained. \<open>readings\<close> gives the clocks of
  the \<open>n\<close>-th pass.
\<close>

fun sweep_drain ::
  "settings \<Rightarrow> nat \<Rightarrow> (nat \<Rightarrow> instant \<times> (txn_facts \<Rightarrow> instant) \<times> duration) \<Rightarrow> nat \<Rightarrow> nat \<Rightarrow> nat \<Rightarrow> db \<times> duration \<Rightarrow>
     (db \<times> duration) \<times> (db_error + nat \<times> nat \<times> bool)" where
  "sweep_drain s limit readings 0 passes total_resolved st = (st, Inr (total_resolved, passes, False))"
| "sweep_drain s limit readings (Suc budget) passes total_resolved st =
     (case readings passes of (now, clock, ticks) \<Rightarrow>
     (case sweep_once s limit now clock ticks st of
        (st', Inl e) \<Rightarrow> (st', Inl e)
      | (st', Inr resolved) \<Rightarrow>
          if resolved = 0 then (st', Inr (total_resolved, passes + 1, True))
          else sweep_drain s limit readings budget (passes + 1) (total_resolved + resolved) st'))"

end
