(* ===== verification/Queue_Relay.thy ===== *)
theory Queue_Relay
  imports Db_Models Queue_Messages
begin

text \<open>
  \<open>ledgerloop/queue/relay.py\<close>: \<open>OutboxRelay.drain_once\<close>. The rows another relay has locked are a
  parameter (\<open>SKIP LOCKED\<close> steps over them), and so is what Redis does with the pipeline: how many of
  the messages it took and whether the call returned.
\<close>

datatype relay_error = BadPayload message_error | PublishFailed

definition claimed :: "nat \<Rightarrow> int set \<Rightarrow> db \<Rightarrow> outbox_event list" where
  "claimed batch_size locked d =
     take batch_size
       (linorder_class.sort_key ob_id
         (filter (\<lambda>e. ob_published_at e = None \<and> ob_id e \<notin> locked) (db_outbox_events d)))"

fun messages_of :: "outbox_event list \<Rightarrow> message_error + ingest_message list" where
  "messages_of [] = Inr []"
| "messages_of (e # es) =
     (case from_payload (ob_payload e) of
        Inl err \<Rightarrow> Inl err
      | Inr m \<Rightarrow> (case messages_of es of Inl err \<Rightarrow> Inl err | Inr ms \<Rightarrow> Inr (m # ms)))"

definition publish_event :: "instant \<Rightarrow> outbox_event \<Rightarrow> outbox_event" where
  "publish_event now e = e\<lparr> ob_published_at := Some now, ob_attempts := ob_attempts e + 1 \<rparr>"

text \<open>
  One batch: the state, the messages that reached the stream, and the number published or the
  error. \<open>publish\<close> tells, for a list of messages, how many Redis took and whether the pipeline
  returned; when it did not, or when the process dies before the commit (\<open>committed = False\<close>), the
  rows stay unpublished though the stream has the messages.
\<close>

definition drain_once ::
  "settings \<Rightarrow> instant \<Rightarrow> int set \<Rightarrow> (ingest_message list \<Rightarrow> nat \<times> bool) \<Rightarrow> bool \<Rightarrow> db \<Rightarrow>
     db \<times> ingest_message list \<times> (relay_error + nat)" where
  "drain_once s now locked publish committed d =
     (let rows = claimed (s_outbox_batch_size s) locked d in
      if rows = [] then (d, [], Inr 0)
      else
        (case messages_of rows of
           Inl err \<Rightarrow> (d, [], Inl (BadPayload err))
         | Inr messages \<Rightarrow>
             (case publish messages of
                (taken, returned) \<Rightarrow>
                  if returned \<and> committed
                  then (d\<lparr> db_outbox_events := update_where (\<lambda>e. ob_id e \<in> ob_id ` set rows) (publish_event now)
                              (db_outbox_events d) \<rparr>, messages, Inr (length rows))
                  else (d, take taken messages, Inl PublishFailed))))"

end
