(* ===== verification/Api_Schemas.thy ===== *)
theory Api_Schemas
  imports Db_Models
begin

text \<open>
  \<open>ledgerloop/api/schemas.py\<close>, the request models of ingestion: the fields of a validated
  payload, and the constraints the field annotations declare. Validation itself is pydantic's; a
  component that receives a payload takes it as a value that satisfies these constraints.
\<close>

text \<open>
  \<open>MoneyField\<close>: at most two decimal places and eighteen digits, trailing zeros aside; so the
  value is a whole number of hundredths below \<open>10 ^ 18\<close>.
\<close>

definition money_field :: "decimal \<Rightarrow> bool" where
  "money_field d \<longleftrightarrow>
     (if -2 \<le> expo d then \<bar>coeff d * 10 ^ nat (expo d + 2)\<bar> < 10 ^ 18
      else 10 ^ nat (- 2 - expo d) dvd coeff d \<and>
           \<bar>coeff d div 10 ^ nat (- 2 - expo d)\<bar> < 10 ^ 18)"

definition short_id_field :: "string \<Rightarrow> bool" where
  "short_id_field s \<longleftrightarrow> 1 \<le> length s \<and> length s \<le> 128"

definition idem_key_field :: "string \<Rightarrow> bool" where
  "idem_key_field s \<longleftrightarrow> 1 \<le> length s \<and> length s \<le> 255"

record gateway_webhook_in =
  gw_txn_id :: string
  gw_amount :: decimal
  gw_currency :: string
  gw_occurred_at :: instant
  gw_gateway_ref :: string

record ledger_entry_in =
  li_entry_id :: string
  li_txn_id :: string
  li_amount :: decimal
  li_currency :: string
  li_occurred_at :: instant
  li_idempotency_key :: string

definition gateway_webhook_ok :: "gateway_webhook_in \<Rightarrow> bool" where
  "gateway_webhook_ok p \<longleftrightarrow>
     short_id_field (gw_txn_id p) \<and> money_field (gw_amount p) \<and> coeff (gw_amount p) \<noteq> 0 \<and>
     iso4217 (gw_currency p) \<and> short_id_field (gw_gateway_ref p)"

definition ledger_entry_ok :: "ledger_entry_in \<Rightarrow> bool" where
  "ledger_entry_ok p \<longleftrightarrow>
     short_id_field (li_entry_id p) \<and> short_id_field (li_txn_id p) \<and>
     money_field (li_amount p) \<and> coeff (li_amount p) \<noteq> 0 \<and> iso4217 (li_currency p) \<and>
     idem_key_field (li_idempotency_key p)"

definition ledger_sync_ok :: "ledger_entry_in list \<Rightarrow> bool" where
  "ledger_sync_ok entries \<longleftrightarrow>
     1 \<le> length entries \<and> length entries \<le> 1000 \<and> list_all ledger_entry_ok entries"

text \<open>A validated amount fits the column and is stored without rounding.\<close>

lemma money_field_stored:
  assumes "money_field d"
  shows "\<exists>m. numeric_18_2 d = Some m \<and> is_money m \<and> dec_val m = dec_val d"
proof (cases "-2 \<le> expo d")
  case True
  then obtain m where "numeric_18_2 d = Some m"
    using assms by (auto simp: money_field_def numeric_18_2_def Let_def)
  then show ?thesis using numeric_18_2_exact [OF True] numeric_18_2_money by blast
next
  case False
  define h where "h = (10::int) ^ nat (- 2 - expo d)"
  from False assms have "h dvd coeff d" and small: "\<bar>coeff d div h\<bar> < 10 ^ 18"
    by (simp_all add: money_field_def h_def)
  then obtain k where k: "coeff d = h * k" by (auto simp: dvd_def)
  have h0: "0 < h" by (simp add: h_def)
  have "(2 * \<bar>coeff d\<bar> + h) div (2 * h) = \<bar>k\<bar>"
  proof -
    have "2 * \<bar>coeff d\<bar> + h = h + (2 * h) * \<bar>k\<bar>" using h0 by (simp add: k abs_mult)
    then show ?thesis using h0 by (simp only: div_mult_self2) simp
  qed
  moreover have "sgn (coeff d) * \<bar>k\<bar> = k"
    using h0 by (simp add: k sgn_mult mult_sgn_abs)
  moreover have "\<bar>k\<bar> < 10 ^ 18" using small h0 by (simp add: k)
  ultimately have st: "numeric_18_2 d = Some (Dec k (-2))"
    using False by (simp add: numeric_18_2_def Let_def h_def [symmetric])
  have "(10::rat) powi (-2) = 10 powi (int (nat (- 2 - expo d)) + expo d)" using False by simp
  also have "\<dots> = 10 powi int (nat (- 2 - expo d)) * 10 powi expo d"
    by (rule power_int_add) simp
  also have "\<dots> = of_int h * 10 powi expo d"
    by (simp only: power_int_of_nat) (simp add: h_def)
  finally have p: "(10::rat) powi (-2) = of_int h * 10 powi expo d" .
  have "dec_val (Dec k (-2)) = of_int k * 10 powi (-2)" by (simp add: dec_val_def)
  also have "\<dots> = dec_val d" unfolding p by (simp add: dec_val_def k)
  finally show ?thesis using st numeric_18_2_money by blast
qed

end
