(* ===== verification/Py_Strings.thy ===== *)
theory Py_Strings
  imports Main "HOL-Library.Char_ord"
begin

text \<open>
  The methods of Python's \<open>str\<close> that the program parses headers, tokens and cursors with. A header
  value is decoded as Latin-1 by the server, so its characters are exactly the 256 of HOL's \<open>char\<close>.
\<close>

text \<open>\<open>str.isspace\<close> on Latin-1.\<close>

definition py_space :: "char \<Rightarrow> bool" where
  "py_space c \<longleftrightarrow> of_char c \<in> {9, 10, 11, 12, 13, 28, 29, 30, 31, 32, 133, 160 :: nat}"

definition py_strip :: "string \<Rightarrow> string" where
  "py_strip s = rev (dropWhile py_space (rev (dropWhile py_space s)))"

text \<open>\<open>str.partition(sep)\<close> with a one-character separator: before, whether it was found, after.\<close>

fun py_partition :: "char \<Rightarrow> string \<Rightarrow> string \<times> bool \<times> string" where
  "py_partition c [] = ([], False, [])"
| "py_partition c (x # xs) =
     (if x = c then ([], True, xs)
      else (case py_partition c xs of (before, found, rest) \<Rightarrow> (x # before, found, rest)))"

text \<open>\<open>str.split(sep)\<close>.\<close>

fun py_split :: "char \<Rightarrow> string \<Rightarrow> string list" where
  "py_split c [] = [[]]"
| "py_split c (x # xs) =
     (if x = c then [] # py_split c xs
      else (case py_split c xs of [] \<Rightarrow> [[x]] | p # ps \<Rightarrow> (x # p) # ps))"

text \<open>\<open>str.lower\<close> and \<open>str.upper\<close>, on the letters of ASCII and of Latin-1.\<close>

definition py_lower :: "string \<Rightarrow> string" where
  "py_lower = List.map (\<lambda>c. let n = of_char c :: nat in
     if (65 \<le> n \<and> n \<le> 90) \<or> (192 \<le> n \<and> n \<le> 222 \<and> n \<noteq> 215) then char_of (n + 32) else c)"

definition py_upper_ascii :: "string \<Rightarrow> string" where
  "py_upper_ascii = List.map (\<lambda>c. let n = of_char c :: nat in if 97 \<le> n \<and> n \<le> 122 then char_of (n - 32) else c)"

fun py_startswith :: "string \<Rightarrow> string \<Rightarrow> bool" where
  "py_startswith s [] = True"
| "py_startswith [] (p # ps) = False"
| "py_startswith (x # xs) (p # ps) \<longleftrightarrow> x = p \<and> py_startswith xs ps"

text \<open>
  \<open>int(s, base)\<close> on a digit string: digits with single underscores between them.
\<close>

definition digit_val :: "int \<Rightarrow> char \<Rightarrow> int option" where
  "digit_val base c =
     (let n = of_char c :: nat;
          v = (if 48 \<le> n \<and> n \<le> 57 then n - 48
               else if 97 \<le> n \<and> n \<le> 122 then n - 87
               else if 65 \<le> n \<and> n \<le> 90 then n - 55 else 99)
      in if int v < base then Some (int v) else None)"

fun digits_int :: "int \<Rightarrow> int \<Rightarrow> bool \<Rightarrow> string \<Rightarrow> int option" where
  "digits_int base acc after_digit [] = (if after_digit then Some acc else None)"
| "digits_int base acc after_digit (c # cs) =
     (if c = CHR ''_'' then (if after_digit then digits_int base acc False cs else None)
      else (case digit_val base c of
              None \<Rightarrow> None
            | Some v \<Rightarrow> digits_int base (acc * base + v) True cs))"

text \<open>
  \<open>int(s)\<close>: surrounding whitespace, an optional sign, decimal digits, of which the interpreter reads at
  most 4300.
\<close>

definition py_int :: "string \<Rightarrow> int option" where
  "py_int s =
     (if 4300 < length (filter (\<lambda>c. digit_val 10 c \<noteq> None) s) then None
      else
      case py_strip s of
        [] \<Rightarrow> None
      | c # cs \<Rightarrow>
          if c = CHR ''-'' then map_option uminus (digits_int 10 0 False cs)
          else if c = CHR ''+'' then digits_int 10 0 False cs
          else digits_int 10 0 False (c # cs))"

text \<open>\<open>str(i)\<close>.\<close>

definition digit_char :: "nat \<Rightarrow> char" where
  "digit_char d = ''0123456789'' ! d"

fun nat_digits :: "nat \<Rightarrow> string" where
  "nat_digits n =
     (if n < 10 then [digit_char n] else nat_digits (n div 10) @ [digit_char (n mod 10)])"

declare nat_digits.simps [simp del]

definition py_str_int :: "int \<Rightarrow> string" where
  "py_str_int i = (if i < 0 then CHR ''-'' # nat_digits (nat (- i)) else nat_digits (nat i))"

subsection \<open>Reading back what was written\<close>

lemma below_10: "d < 10 \<longleftrightarrow> d \<in> {0, 1, 2, 3, 4, 5, 6, 7, 8, 9 :: nat}"
  by auto

lemma digit_val_char: "d < 10 \<Longrightarrow> digit_val 10 (digit_char d) = Some (int d)"
  unfolding below_10 by (elim insertE emptyE) (simp_all add: digit_val_def digit_char_def Let_def)

text \<open>A digit is none of the characters that delimit something.\<close>

lemma digit_char_plain:
  "d < 10 \<Longrightarrow> digit_char d \<notin> {CHR ''_'', CHR ''-'', CHR ''+'', CHR '','', CHR ''='', CHR '':''} \<and>
     \<not> py_space (digit_char d)"
  unfolding below_10 by (elim insertE emptyE) (simp_all add: py_space_def digit_char_def)

lemma nat_digits_plain:
  "c \<in> set (nat_digits n) \<Longrightarrow>
     c \<notin> {CHR ''_'', CHR ''-'', CHR ''+'', CHR '','', CHR ''='', CHR '':''} \<and> \<not> py_space c"
proof (induction n rule: nat_digits.induct)
  case (1 n)
  then show ?case
    using digit_char_plain [of n] digit_char_plain [of "n mod 10"]
    by (subst (asm) nat_digits.simps) (auto split: if_splits)
qed

lemma nat_digits_nonempty [simp]: "nat_digits n \<noteq> []"
  by (simp add: nat_digits.simps [of n])

lemma digits_int_nat_digits:
  "digits_int 10 a b (nat_digits n @ ys) = digits_int 10 (a * 10 ^ length (nat_digits n) + int n) True ys"
proof (induction n arbitrary: a b ys rule: nat_digits.induct)
  case (1 n)
  have d: "n mod 10 < 10" by simp
  show ?case
  proof (cases "n < 10")
    case True
    then show ?thesis
      using digit_val_char [OF True] digit_char_plain [OF True] by (simp add: nat_digits.simps [of n])
  next
    case False
    then show ?thesis
      using 1 [OF False, of a b "digit_char (n mod 10) # ys"] digit_val_char [OF d] digit_char_plain [OF d]
      by (simp add: nat_digits.simps [of n] algebra_simps) (simp add: zdiv_int zmod_int flip: of_nat_add)
  qed
qed

text \<open>A number is its digits, and \<open>str\<close> of an integer is the integer's own.\<close>

lemma nat_digits_inject [simp]: "nat_digits m = nat_digits n \<longleftrightarrow> m = n"
proof
  assume eq: "nat_digits m = nat_digits n"
  have "digits_int 10 0 False (nat_digits k) = Some (int k)" for k
    using digits_int_nat_digits [of 0 False k "[]"] by simp
  from this [of m] this [of n] show "m = n" unfolding eq by simp
qed simp

lemma py_str_int_inject [simp]: "py_str_int i = py_str_int j \<longleftrightarrow> i = j"
proof
  assume same: "py_str_int i = py_str_int j"
  have sign: "nat_digits n \<noteq> CHR ''-'' # cs" for n cs
    using nat_digits_plain [of "CHR ''-''" n] by auto
  show "i = j" using same sign sign [symmetric] by (auto simp: py_str_int_def split: if_splits)
qed simp

text \<open>Splitting at a character.\<close>

lemma py_split_plain: "c \<notin> set s \<Longrightarrow> py_split c s = [s]"
  by (induction s) auto

lemma py_split_append: "c \<notin> set s \<Longrightarrow> py_split c (s @ c # t) = s # py_split c t"
  by (induction s) auto

lemma py_strip_id:
  "s \<noteq> [] \<Longrightarrow> \<not> py_space (hd s) \<Longrightarrow> \<not> py_space (last s) \<Longrightarrow> py_strip s = s"
proof -
  assume s: "s \<noteq> []" "\<not> py_space (hd s)" "\<not> py_space (last s)"
  then have "dropWhile py_space s = s" by (cases s) auto
  moreover have "dropWhile py_space (rev s) = rev s"
    using s by (cases "rev s") (auto simp: hd_rev [symmetric])
  ultimately show ?thesis by (simp add: py_strip_def)
qed

text \<open>\<open>int(str(n)) == n\<close>, for numbers of at most twenty digits.\<close>

lemma length_nat_digits: "n < 10 ^ k \<Longrightarrow> 0 < k \<Longrightarrow> length (nat_digits n) \<le> k"
proof (induction n arbitrary: k rule: nat_digits.induct)
  case (1 n)
  show ?case
  proof (cases "n < 10")
    case True
    then show ?thesis using 1(3) by (simp add: nat_digits.simps [of n])
  next
    case False
    then obtain j where k: "k = Suc j" "0 < j" using 1(2,3) by (cases k; cases "k - 1") auto
    then have "n div 10 < 10 ^ j" using 1(2) by (simp add: less_mult_imp_div_less mult.commute)
    from 1(1) [OF False this k(2)] show ?thesis using False k(1) by (simp add: nat_digits.simps [of n])
  qed
qed

lemma py_int_str:
  assumes "\<bar>n\<bar> < 10 ^ 20"
  shows "py_int (py_str_int n) = Some n"
proof -
  let ?s = "nat_digits (nat \<bar>n\<bar>)"
  have plain: "c \<notin> {CHR ''_'', CHR ''-'', CHR ''+'', CHR '','', CHR ''='', CHR '':''} \<and> \<not> py_space c"
    if "c \<in> set ?s" for c
    using nat_digits_plain that by blast
  have "nat \<bar>n\<bar> < 10 ^ 20" using assms by (simp add: nat_less_iff)
  then have "length ?s \<le> 20" by (intro length_nat_digits) simp_all
  then have few: "length (filter p ?s) \<le> 20" for p using order_trans [OF length_filter_le] by blast
  have digits: "digits_int 10 0 False ?s = Some \<bar>n\<bar>"
    using digits_int_nat_digits [of 0 False "nat \<bar>n\<bar>" "[]"] by simp
  obtain c cs where c: "?s = c # cs" by (cases ?s) simp_all
  then have sign: "c \<noteq> CHR ''-''" "c \<noteq> CHR ''+''" using plain [of c] by auto
  show ?thesis
  proof (cases "n < 0")
    case True
    then have str: "py_str_int n = CHR ''-'' # ?s" by (simp add: py_str_int_def)
    have "py_strip (CHR ''-'' # ?s) = CHR ''-'' # ?s"
      using plain by (intro py_strip_id) (simp_all add: py_space_def)
    then show ?thesis
      unfolding py_int_def str using few [of "\<lambda>c. digit_val 10 c \<noteq> None"] digits True by (simp add: digit_val_def)
  next
    case False
    then have str: "py_str_int n = ?s" by (simp add: py_str_int_def)
    have strip: "py_strip ?s = ?s" using plain by (intro py_strip_id) simp_all
    show ?thesis
      unfolding py_int_def str strip
      using few [of "\<lambda>c. digit_val 10 c \<noteq> None"] digits False sign c
      by (simp split: list.split)
  qed
qed

end
