(* ===== verification/Sha256.thy ===== *)
theory Sha256
  imports Py_Strings "HOL-Library.Word"
begin

unbundle bit_operations_syntax

text \<open>
  The three functions of Python's standard library the program authenticates with:
  \<open>str.encode()\<close>, \<open>hashlib.sha256(..).hexdigest()\<close> and \<open>hmac.new(.., .., hashlib.sha256).hexdigest()\<close>
  (FIPS 180-4 and RFC 2104), on bytes as characters.
\<close>

subsection \<open>Encoding\<close>

text \<open>UTF-8 of the characters of a Latin-1 string.\<close>

definition utf8_char :: "char \<Rightarrow> string" where
  "utf8_char c =
     (let n = of_char c :: nat in
      if n < 128 then [c] else [char_of (192 + n div 64), char_of (128 + n mod 64)])"

definition py_encode :: "string \<Rightarrow> string" where
  "py_encode s = concat (map utf8_char s)"

subsection \<open>SHA-256\<close>

type_synonym w32 = "32 word"

text \<open>The working variables \<open>a\<close> to \<open>h\<close>.\<close>

type_synonym chain = "w32 \<times> w32 \<times> w32 \<times> w32 \<times> w32 \<times> w32 \<times> w32 \<times> w32"

definition ch32 :: "w32 \<Rightarrow> w32 \<Rightarrow> w32 \<Rightarrow> w32" where
  "ch32 x y z = (x AND y) XOR (NOT x AND z)"

definition maj32 :: "w32 \<Rightarrow> w32 \<Rightarrow> w32 \<Rightarrow> w32" where
  "maj32 x y z = (x AND y) XOR (x AND z) XOR (y AND z)"

definition big_sigma0 :: "w32 \<Rightarrow> w32" where
  "big_sigma0 x = word_rotr 2 x XOR word_rotr 13 x XOR word_rotr 22 x"

definition big_sigma1 :: "w32 \<Rightarrow> w32" where
  "big_sigma1 x = word_rotr 6 x XOR word_rotr 11 x XOR word_rotr 25 x"

definition small_sigma0 :: "w32 \<Rightarrow> w32" where
  "small_sigma0 x = word_rotr 7 x XOR word_rotr 18 x XOR drop_bit 3 x"

definition small_sigma1 :: "w32 \<Rightarrow> w32" where
  "small_sigma1 x = word_rotr 17 x XOR word_rotr 19 x XOR drop_bit 10 x"

definition round_constants :: "w32 list" where
  "round_constants =
     [1116352408, 1899447441, 3049323471, 3921009573, 961987163, 1508970993, 2453635748, 2870763221,
      3624381080, 310598401, 607225278, 1426881987, 1925078388, 2162078206, 2614888103, 3248222580,
      3835390401, 4022224774, 264347078, 604807628, 770255983, 1249150122, 1555081692, 1996064986,
      2554220882, 2821834349, 2952996808, 3210313671, 3336571891, 3584528711, 113926993, 338241895,
      666307205, 773529912, 1294757372, 1396182291, 1695183700, 1986661051, 2177026350, 2456956037,
      2730485921, 2820302411, 3259730800, 3345764771, 3516065817, 3600352804, 4094571909, 275423344,
      430227734, 506948616, 659060556, 883997877, 958139571, 1322822218, 1537002063, 1747873779,
      1955562222, 2024104815, 2227730452, 2361852424, 2428436474, 2756734187, 3204031479, 3329325298]"

definition initial_hash :: chain where
  "initial_hash =
     (1779033703, 3144134277, 1013904242, 2773480762, 1359893119, 2600822924, 528734635, 1541459225)"

text \<open>Padding to a multiple of 64 bytes: one bit, zeros, the length in bits in eight bytes.\<close>

fun be_bytes :: "nat \<Rightarrow> int \<Rightarrow> int list" where
  "be_bytes 0 n = []"
| "be_bytes (Suc w) n = be_bytes w (n div 256) @ [n mod 256]"

definition pad :: "int list \<Rightarrow> int list" where
  "pad m = m @ [128] @ replicate ((119 - length m mod 64) mod 64) 0 @ be_bytes 8 (8 * int (length m))"

fun words_of :: "int list \<Rightarrow> w32 list" where
  "words_of (a # b # c # d # rest) = word_of_int (((a * 256 + b) * 256 + c) * 256 + d) # words_of rest"
| "words_of _ = []"

text \<open>The message schedule, newest word first; \<open>k\<close> words are still to be added.\<close>

fun schedule :: "nat \<Rightarrow> w32 list \<Rightarrow> w32 list" where
  "schedule 0 ws = ws"
| "schedule (Suc k) ws =
     schedule k ((small_sigma1 (ws ! 1) + ws ! 6 + small_sigma0 (ws ! 14) + ws ! 15) # ws)"

definition sha_round :: "chain \<Rightarrow> w32 \<times> w32 \<Rightarrow> chain" where
  "sha_round vars kw =
     (case vars of (a, b, c, d, e, f, g, h) \<Rightarrow>
        let t1 = h + big_sigma1 e + ch32 e f g + fst kw + snd kw;
            t2 = big_sigma0 a + maj32 a b c
        in (t1 + t2, a, b, c, d + t1, e, f, g))"

definition chain_add :: "chain \<Rightarrow> chain \<Rightarrow> chain" where
  "chain_add x y =
     (case x of (a, b, c, d, e, f, g, h) \<Rightarrow> case y of (a', b', c', d', e', f', g', h') \<Rightarrow>
        (a + a', b + b', c + c', d + d', e + e', f + f', g + g', h + h'))"

definition compress :: "chain \<Rightarrow> w32 list \<Rightarrow> chain" where
  "compress hash block =
     chain_add hash (foldl sha_round hash (zip round_constants (rev (schedule 48 (rev block)))))"

fun blocks :: "nat \<Rightarrow> w32 list \<Rightarrow> w32 list list" where
  "blocks 0 ws = []"
| "blocks (Suc n) ws = take 16 ws # blocks n (drop 16 ws)"

definition byte_val :: "char \<Rightarrow> int" where
  "byte_val c = of_char c"

definition sha256_chain :: "string \<Rightarrow> chain" where
  "sha256_chain m =
     (let ws = words_of (pad (map byte_val m)) in foldl compress initial_hash (blocks (length ws div 16) ws))"

definition sha256 :: "string \<Rightarrow> string" where
  "sha256 m =
     (case sha256_chain m of (a, b, c, d, e, f, g, h) \<Rightarrow>
        map char_of (concat (map (\<lambda>w. be_bytes 4 (uint w)) [a, b, c, d, e, f, g, h])))"

subsection \<open>Digests as text\<close>

definition hex_char :: "nat \<Rightarrow> char" where
  "hex_char d = ''0123456789abcdef'' ! d"

definition hex_text :: "string \<Rightarrow> string" where
  "hex_text bytes = concat (map (\<lambda>c. [hex_char (nat (byte_val c div 16)), hex_char (nat (byte_val c mod 16))]) bytes)"

definition sha256_hexdigest :: "string \<Rightarrow> string" where
  "sha256_hexdigest m = hex_text (sha256 m)"

subsection \<open>HMAC\<close>

definition xor_byte :: "int \<Rightarrow> char \<Rightarrow> char" where
  "xor_byte p c = char_of (byte_val c XOR p)"

definition hmac_key :: "string \<Rightarrow> string" where
  "hmac_key key =
     (let k = (if 64 < length key then sha256 key else key) in k @ replicate (64 - length k) (char_of (0 :: nat)))"

definition hmac_sha256 :: "string \<Rightarrow> string \<Rightarrow> string" where
  "hmac_sha256 key m =
     (let k = hmac_key key in sha256 (map (xor_byte 92) k @ sha256 (map (xor_byte 54) k @ m)))"

definition hmac_hexdigest :: "string \<Rightarrow> string \<Rightarrow> string" where
  "hmac_hexdigest key m = hex_text (hmac_sha256 key m)"

subsection \<open>The published test vector of one block\<close>

lemma sha256_abc:
  "sha256_hexdigest ''abc'' = ''ba7816bf8f01cfea414140de5dae2223b00361a396177a9cb410ff61f20015ad''"
  by code_simp

subsection \<open>Shape of a digest\<close>

lemma length_be_bytes [simp]: "length (be_bytes w n) = w"
  by (induction w n rule: be_bytes.induct) simp_all

lemma length_sha256 [simp]: "length (sha256 m) = 32"
  by (simp add: sha256_def split: prod.split)

text \<open>The characters of a digest: what a header's parser must not trip over.\<close>

definition hex_chars :: "char set" where
  "hex_chars = set ''0123456789abcdef''"

lemma below_16: "d < 16 \<longleftrightarrow> d \<in> {0, 1, 2, 3, 4, 5, 6, 7, 8, 9, 10, 11, 12, 13, 14, 15 :: nat}"
  by (simp; presburger)

lemma hex_char_in: "d < 16 \<Longrightarrow> hex_char d \<in> hex_chars"
  unfolding below_16 by (elim insertE emptyE) (simp_all add: hex_char_def hex_chars_def)

lemma byte_val_bounds: "0 \<le> byte_val c" "byte_val c < 256"
proof -
  have "byte_val c = int (of_char c)" by (simp add: byte_val_def of_char_def)
  moreover have "(of_char c :: nat) < 256" by (rule nat_of_char_less_256)
  ultimately show "0 \<le> byte_val c" "byte_val c < 256" by simp_all
qed

lemma length_hex_text [simp]: "length (hex_text bytes) = 2 * length bytes"
  by (induction bytes) (simp_all add: hex_text_def)

lemma hex_text_chars: "set (hex_text bytes) \<subseteq> hex_chars"
proof -
  have "hex_char (nat (byte_val c div 16)) \<in> hex_chars \<and> hex_char (nat (byte_val c mod 16)) \<in> hex_chars" for c
    using byte_val_bounds [of c] by (auto intro!: hex_char_in)
  then show ?thesis by (auto simp: hex_text_def)
qed

lemma hex_chars_plain:
  "c \<in> hex_chars \<Longrightarrow> \<not> py_space c \<and> c \<noteq> CHR '','' \<and> c \<noteq> CHR ''='' \<and> (of_char c :: nat) < 128"
  by (auto simp: hex_chars_def py_space_def)

lemma sha256_hexdigest_shape: "length (sha256_hexdigest m) = 64 \<and> set (sha256_hexdigest m) \<subseteq> hex_chars"
  using hex_text_chars by (simp add: sha256_hexdigest_def)

lemma hmac_hexdigest_shape: "length (hmac_hexdigest k m) = 64 \<and> set (hmac_hexdigest k m) \<subseteq> hex_chars"
  using hex_text_chars by (simp add: hmac_hexdigest_def hmac_sha256_def Let_def)

end
