(* ===== verification/Tenancy.thy ===== *)
theory Tenancy
  imports Db_Models Sha256
begin

text \<open>
  \<open>ledgerloop/services/tenancy.py\<close>: the owner of a request. The random bytes of a new key are an
  argument (\<open>token\<close>, what \<open>secrets.token_urlsafe\<close> returned); everything else of the module is
  defined. \<open>now\<close> is the transaction's time, \<open>clock\<close> the reading of \<open>datetime.now(UTC)\<close>.
\<close>

record tenant =
  tn_account_id :: int
  tn_name :: string
  tn_kind :: account_kind

definition is_demo :: "tenant \<Rightarrow> bool" where
  "is_demo t \<longleftrightarrow> tn_kind t = DEMO"

definition tenant_of :: "account \<Rightarrow> tenant" where
  "tenant_of a = \<lparr> tn_account_id = ac_id a, tn_name = ac_name a, tn_kind = ac_kind a \<rparr>"

definition default_account_name :: string where
  "default_account_name = ''default''"

subsection \<open>API keys\<close>

definition KEY_PREFIX :: string where
  "KEY_PREFIX = ''llk_''"

definition generate_key :: "string \<Rightarrow> string" where
  "generate_key token = KEY_PREFIX @ token"

definition hash_key :: "string \<Rightarrow> string" where
  "hash_key raw = sha256_hexdigest (py_encode raw)"

definition key_prefix :: "string \<Rightarrow> string" where
  "key_prefix raw = take 12 raw"

definition parse_bearer :: "string \<Rightarrow> string option" where
  "parse_bearer header =
     (case py_partition (CHR '' '') header of
        (scheme, found, credential) \<Rightarrow>
          if \<not> found \<or> py_lower scheme \<noteq> ''bearer'' then None
          else (case py_strip credential of [] \<Rightarrow> None | c \<Rightarrow> Some c))"

text \<open>
  The join of a key with its account. The unique index gives at most one row; \<open>.first()\<close> takes it.
  \<open>compare_digest\<close> of the fetched hash with the digest it was looked up by is kept as written.
\<close>

definition resolve_api_key :: "db \<Rightarrow> string \<Rightarrow> tenant option" where
  "resolve_api_key d raw_key =
     (if \<not> py_startswith raw_key KEY_PREFIX then None
      else
        let digest = hash_key raw_key in
        (case [(k, a). k \<leftarrow> db_api_keys d, ak_key_hash k = digest, a \<leftarrow> db_accounts d, ac_id a = ak_account_id k] of
           [] \<Rightarrow> None
         | (k, a) # _ \<Rightarrow>
             if ak_key_hash k \<noteq> digest then None
             else if ak_revoked_at k \<noteq> None then None
             else Some (tenant_of a)))"

subsection \<open>Accounts\<close>

text \<open>\<open>_upsert_account\<close>: \<open>INSERT .. ON CONFLICT (name) DO NOTHING RETURNING\<close>, else the row that is there.\<close>

definition upsert_account :: "instant \<Rightarrow> string \<Rightarrow> account_kind \<Rightarrow> db \<Rightarrow> db_error + db \<times> tenant" where
  "upsert_account now name kind d =
     (if 255 < length name then Inl StringDataRightTruncation
      else
     (case nextval T_accounts d of
        (i, d1) \<Rightarrow>
     (let row = \<lparr> ac_id = i, ac_name = name, ac_kind = kind, ac_created_at = now, ac_last_seen_at = now \<rparr> in
     (case insert_unless_conflict account_keys row (db_accounts d1) of
        (rows, True) \<Rightarrow> Inr (d1\<lparr> db_accounts := rows \<rparr>, tenant_of row)
      | (rows, False) \<Rightarrow>
          (case filter (\<lambda>a. ac_name a = name) (db_accounts d1) of
             [] \<Rightarrow> Inl NoResultFound
           | [a] \<Rightarrow> Inr (d1, tenant_of a)
           | _ \<Rightarrow> Inl MultipleResultsFound)))))"

text \<open>What \<open>issue_api_key\<close> raises besides a database error: the name is a demo tenant's.\<close>

datatype issue_error = NameTaken | IssueDb db_error

definition issue_api_key ::
  "instant \<Rightarrow> string \<Rightarrow> string \<Rightarrow> string \<Rightarrow> db \<Rightarrow> issue_error + db \<times> string \<times> tenant" where
  "issue_api_key now token account_name label d =
     (case upsert_account now account_name REAL d of
        Inl e \<Rightarrow> Inl (IssueDb e)
      | Inr (d1, account) \<Rightarrow>
     if tn_kind account \<noteq> REAL then Inl NameTaken
     else
     (let raw = generate_key token in
     (case nextval T_api_keys d1 of
        (i, d2) \<Rightarrow>
     (let row = \<lparr> ak_id = i, ak_account_id = tn_account_id account, ak_key_hash = hash_key raw,
                  ak_prefix = key_prefix raw, ak_label = label, ak_created_at = now, ak_revoked_at = None \<rparr> in
      if 64 < length (hash_key raw) \<or> 255 < length label then Inl (IssueDb StringDataRightTruncation)
      else if conflicts api_key_keys (db_api_keys d2) row then Inl (IssueDb UniqueViolation)
      else if \<not> has_account d2 (tn_account_id account) then Inl (IssueDb ForeignKeyViolation)
      else Inr (d2\<lparr> db_api_keys := db_api_keys d2 @ [row] \<rparr>, raw, account)))))"

subsection \<open>Demo tenancy\<close>

text \<open>
  \<open>uuid.UUID(s)\<close>: \<open>urn:\<close> and \<open>uuid:\<close> removed, braces stripped, hyphens removed, then exactly 32
  characters that \<open>int(.., 16)\<close> reads (so a sign, an \<open>0x\<close>, blanks and underscores count among the 32).
\<close>

fun remove_all :: "string \<Rightarrow> string \<Rightarrow> string" where
  "remove_all pat [] = []"
| "remove_all pat (x # xs) =
     (if pat \<noteq> [] \<and> py_startswith (x # xs) pat then remove_all pat (drop (length pat) (x # xs))
      else x # remove_all pat xs)"

definition strip_braces :: "string \<Rightarrow> string" where
  "strip_braces s =
     (let b = (\<lambda>c. c = CHR ''{'' \<or> c = CHR ''}'') in rev (dropWhile b (rev (dropWhile b s))))"

definition hex_int :: "string \<Rightarrow> int option" where
  "hex_int s =
     (let t = py_strip s;
          (neg, u) = (case t of
             c # cs \<Rightarrow> if c = CHR ''-'' then (True, cs) else if c = CHR ''+'' then (False, cs) else (False, t)
           | [] \<Rightarrow> (False, []));
          v = (if py_startswith u ''0x'' \<or> py_startswith u ''0X''
               then (case drop 2 u of
                       c # cs \<Rightarrow> digits_int 16 0 False (if c = CHR ''_'' then cs else c # cs)
                     | [] \<Rightarrow> None)
               else digits_int 16 0 False u)
      in map_option (\<lambda>n. if neg then - n else n) v)"

definition parse_uuid :: "string \<Rightarrow> int option" where
  "parse_uuid s =
     (let h = remove_all ''-'' (strip_braces (remove_all ''uuid:'' (remove_all ''urn:'' s)))
      in if length h \<noteq> 32 then None
         else (case hex_int h of
                 None \<Rightarrow> None
               | Some n \<Rightarrow> if 0 \<le> n \<and> n < 2 ^ 128 then Some n else None))"

text \<open>\<open>str(uuid)\<close>: 32 lower-case hexadecimal digits in groups of 8, 4, 4, 4 and 12.\<close>

fun hex_digits :: "nat \<Rightarrow> nat \<Rightarrow> string" where
  "hex_digits 0 n = []"
| "hex_digits (Suc w) n = hex_digits w (n div 16) @ [hex_char (n mod 16)]"

definition uuid_str :: "int \<Rightarrow> string" where
  "uuid_str n =
     (let h = hex_digits 32 (nat n) in
      take 8 h @ ''-'' @ take 4 (drop 8 h) @ ''-'' @ take 4 (drop 12 h) @ ''-'' @
      take 4 (drop 16 h) @ ''-'' @ drop 20 h)"

definition demo_account_name :: "string \<Rightarrow> string option" where
  "demo_account_name session_id = map_option (\<lambda>n. ''demo:'' @ uuid_str n) (parse_uuid session_id)"

definition resolve_demo_account :: "instant \<Rightarrow> string \<Rightarrow> db \<Rightarrow> db_error + db \<times> tenant" where
  "resolve_demo_account now name d = upsert_account now name DEMO d"

definition touch_account :: "instant \<Rightarrow> instant \<Rightarrow> tenant \<Rightarrow> int \<Rightarrow> db \<Rightarrow> db" where
  "touch_account now clock t refresh_after_s d =
     d\<lparr> db_accounts := update_where
          (\<lambda>a. ac_id a = tn_account_id t \<and> ac_last_seen_at a < clock - seconds refresh_after_s)
          (\<lambda>a. a\<lparr> ac_last_seen_at := now \<rparr>) (db_accounts d) \<rparr>"

end
