(* ===== verification/Ingest.thy ===== *)
theory Ingest
  imports Api_Schemas Queue_Messages Tenancy
begin

text \<open>
  \<open>ledgerloop/services/ingest.py\<close>: the only writer of the raw tables. A call is one transaction
  on the database: it returns the committed state and its outcome, or the exception that rolls it
  back. \<open>now\<close> is the transaction's time (the \<open>server_default\<close> of the instants it writes).
\<close>

record ingest_outcome =
  io_row_id :: int
  io_txn_id :: string
  io_duplicate :: bool
  io_submissions :: int

subsection \<open>One row\<close>

text \<open>
  \<open>INSERT .. ON CONFLICT (tenant_id, idempotency_key) DO NOTHING\<close> into a raw table: the checks of
  the row, the conflict, the foreign key of a row that goes in. The flag tells whether it did.
\<close>

definition raw_insert ::
  "db \<Rightarrow> 'a raw_txn_scheme \<Rightarrow> 'a raw_txn_scheme list \<Rightarrow> db_error + 'a raw_txn_scheme list \<times> bool" where
  "raw_insert d row rows =
     (case raw_row_error row of
        Some e \<Rightarrow> Inl e
      | None \<Rightarrow>
          (case insert_unless_conflict raw_keys row rows of
             (rows', inserted) \<Rightarrow>
               if inserted \<and> \<not> has_account d (rt_tenant_id row) then Inl ForeignKeyViolation
               else Inr (rows', inserted)))"

text \<open>The row an \<open>UPDATE\<close> or \<open>SELECT\<close> addresses by tenant and key.\<close>

definition holds_key :: "int \<Rightarrow> string \<Rightarrow> 'a raw_txn_scheme \<Rightarrow> bool" where
  "holds_key t k r \<longleftrightarrow> rt_tenant_id r = t \<and> rt_idempotency_key r = k"

definition bump :: "int \<Rightarrow> 'a raw_txn_scheme \<Rightarrow> 'a raw_txn_scheme" where
  "bump delta r = r\<lparr> rt_duplicate_count := rt_duplicate_count r + delta \<rparr>"

text \<open>\<open>_enqueue\<close>: one outbox row per outcome, in the same transaction.\<close>

fun enqueue :: "instant \<Rightarrow> ingest_source \<Rightarrow> ingest_outcome list \<Rightarrow> db \<Rightarrow> db" where
  "enqueue now source [] d = d"
| "enqueue now source (out # outs) d =
     (case nextval T_outbox_events d of
        (i, d1) \<Rightarrow>
          enqueue now source outs
            (d1\<lparr> db_outbox_events := db_outbox_events d1 @
               [\<lparr> ob_id = i, ob_source = source, ob_row_id = io_row_id out,
                  ob_payload = to_payload
                    \<lparr> im_source = source, im_row_id = io_row_id out, im_txn_id = io_txn_id out,
                      im_is_duplicate = io_duplicate out, im_submissions = io_submissions out \<rparr>,
                  ob_created_at = now, ob_published_at = None, ob_attempts = 0 \<rparr>] \<rparr>))"

subsection \<open>The gateway side\<close>

text \<open>The values of the \<open>INSERT\<close>; the columns it does not name take their defaults.\<close>

definition gateway_row ::
  "int \<Rightarrow> instant \<Rightarrow> tenant \<Rightarrow> gateway_webhook_in \<Rightarrow> decimal \<Rightarrow> string \<Rightarrow> json \<Rightarrow> gateway_transaction" where
  "gateway_row i now tenant payload amount idempotency_key raw_body =
     \<lparr> rt_id = i, rt_tenant_id = tn_account_id tenant, rt_txn_id = gw_txn_id payload,
       rt_amount = amount, rt_currency = gw_currency payload,
       rt_occurred_at = gw_occurred_at payload, rt_raw_payload = raw_body,
       rt_idempotency_key = idempotency_key, rt_duplicate_count = 0,
       rt_received_at = now, rt_reconciled_at = None,
       gt_gateway_ref = gw_gateway_ref payload \<rparr>"

definition ingest_gateway ::
  "instant \<Rightarrow> tenant \<Rightarrow> gateway_webhook_in \<Rightarrow> string \<Rightarrow> json \<Rightarrow> db \<Rightarrow> db_error + db \<times> ingest_outcome" where
  "ingest_gateway now tenant payload idempotency_key raw_body d =
     (case numeric_18_2 (gw_amount payload) of
        None \<Rightarrow> Inl NumericValueOutOfRange
      | Some amount \<Rightarrow>
     if 128 < length (gw_gateway_ref payload) then Inl StringDataRightTruncation
     else
     (case nextval T_gateway_transactions d of
        (i, d1) \<Rightarrow>
     (case raw_insert d1 (gateway_row i now tenant payload amount idempotency_key raw_body)
             (db_gateway_transactions d1) of
        Inl e \<Rightarrow> Inl e
      | Inr (rows, True) \<Rightarrow>
          let outcome = \<lparr> io_row_id = i, io_txn_id = gw_txn_id payload,
                io_duplicate = False, io_submissions = 1 \<rparr>
          in Inr (enqueue now GATEWAY [outcome] (d1\<lparr> db_gateway_transactions := rows \<rparr>), outcome)
      | Inr (rows, False) \<Rightarrow>
          let mine = holds_key (tn_account_id tenant) idempotency_key;
              rows' = update_where mine (bump 1) rows
          in
          (case filter mine rows' of
             [] \<Rightarrow> Inl NoResultFound
           | [existing] \<Rightarrow>
               let outcome = \<lparr> io_row_id = rt_id existing, io_txn_id = gw_txn_id payload,
                     io_duplicate = True, io_submissions = rt_duplicate_count existing + 1 \<rparr>
               in Inr (enqueue now GATEWAY [outcome] (d1\<lparr> db_gateway_transactions := rows' \<rparr>), outcome)
           | _ \<Rightarrow> Inl MultipleResultsFound))))"

subsection \<open>The ledger side: a batch in two statements\<close>

text \<open>\<open>first_by_key\<close>, an insertion-ordered dictionary, and \<open>Counter\<close> over the same keys.\<close>

definition first_by_key :: "ledger_entry_in list \<Rightarrow> (string \<times> ledger_entry_in) list" where
  "first_by_key entries = fold (\<lambda>e. setdefault (li_idempotency_key e) e) entries []"

definition submissions_per_key :: "ledger_entry_in list \<Rightarrow> string \<Rightarrow> int" where
  "submissions_per_key entries k = int (count_list (map li_idempotency_key entries) k)"

definition ledger_row ::
  "(ledger_entry_in \<Rightarrow> json) \<Rightarrow> int \<Rightarrow> instant \<Rightarrow> int \<Rightarrow> ledger_entry_in \<Rightarrow> decimal \<Rightarrow> ledger_entry" where
  "ledger_row dump i now t e amount =
     \<lparr> rt_id = i, rt_tenant_id = t, rt_txn_id = li_txn_id e,
       rt_amount = amount, rt_currency = li_currency e,
       rt_occurred_at = li_occurred_at e, rt_raw_payload = dump e,
       rt_idempotency_key = li_idempotency_key e, rt_duplicate_count = 0,
       rt_received_at = now, rt_reconciled_at = None,
       le_entry_id = li_entry_id e \<rparr>"

text \<open>
  The multi-row \<open>INSERT .. ON CONFLICT DO NOTHING RETURNING id, idempotency_key\<close>; one bad row fails
  the statement. \<open>dump\<close> is pydantic's \<open>model_dump(mode="json")\<close>.
\<close>

fun insert_entries ::
  "(ledger_entry_in \<Rightarrow> json) \<Rightarrow> instant \<Rightarrow> int \<Rightarrow> ledger_entry_in list \<Rightarrow> db \<Rightarrow>
     db_error + db \<times> (string \<times> int) list" where
  "insert_entries dump now t [] d = Inr (d, [])"
| "insert_entries dump now t (e # es) d =
     (case numeric_18_2 (li_amount e) of
        None \<Rightarrow> Inl NumericValueOutOfRange
      | Some amount \<Rightarrow>
     if 128 < length (li_entry_id e) then Inl StringDataRightTruncation
     else
     (case nextval T_ledger_entries d of
        (i, d1) \<Rightarrow>
     (case raw_insert d1 (ledger_row dump i now t e amount) (db_ledger_entries d1) of
        Inl err \<Rightarrow> Inl err
      | Inr (rows, inserted) \<Rightarrow>
     (case insert_entries dump now t es (d1\<lparr> db_ledger_entries := rows \<rparr>) of
        Inl err \<Rightarrow> Inl err
      | Inr (d2, returned) \<Rightarrow>
          Inr (d2, (if inserted then [(li_idempotency_key e, i)] else []) @ returned)))))"

text \<open>
  \<open>increments\<close>: every key not inserted, and every key submitted more than once, with the amount its
  counter moves by.
\<close>

definition increments ::
  "ledger_entry_in list \<Rightarrow> (string \<times> int) list \<Rightarrow> (string \<times> int) list" where
  "increments entries inserted =
     filter (\<lambda>(k, delta). 0 < delta)
       (map (\<lambda>(k, _). (k, submissions_per_key entries k - (if k \<in> fst ` set inserted then 1 else 0)))
          (first_by_key entries))"

fun bump_entries :: "int \<Rightarrow> (string \<times> int) list \<Rightarrow> ledger_entry list \<Rightarrow> ledger_entry list" where
  "bump_entries t [] rows = rows"
| "bump_entries t ((k, delta) # incs) rows =
     bump_entries t incs (update_where (holds_key t k) (bump delta) rows)"

text \<open>\<open>outcomes\<close>: \<open>inserted[key]\<close> and \<open>counts_by_key.get(key, 0)\<close> for every distinct key.\<close>

fun batch_outcomes ::
  "(string \<times> int) list \<Rightarrow> (string \<times> int) list \<Rightarrow> (string \<times> int) list \<Rightarrow>
     (string \<times> ledger_entry_in) list \<Rightarrow> db_error + ingest_outcome list" where
  "batch_outcomes inserted incs counts [] = Inr []"
| "batch_outcomes inserted incs counts ((k, e) # rest) =
     (case map_of inserted k of
        None \<Rightarrow> Inl KeyError
      | Some i \<Rightarrow>
     (case batch_outcomes inserted incs counts rest of
        Inl err \<Rightarrow> Inl err
      | Inr outs \<Rightarrow>
          Inr (\<lparr> io_row_id = i, io_txn_id = li_txn_id e, io_duplicate = (k \<in> fst ` set incs),
                 io_submissions = (case map_of counts k of None \<Rightarrow> 0 | Some c \<Rightarrow> c) + 1 \<rparr> # outs)))"

text \<open>The response: \<open>by_key[inserted[entry.idempotency_key]]\<close> for every entry, in request order.\<close>

fun in_request_order ::
  "(string \<times> int) list \<Rightarrow> ingest_outcome list \<Rightarrow> ledger_entry_in list \<Rightarrow>
     db_error + ingest_outcome list" where
  "in_request_order inserted outcomes [] = Inr []"
| "in_request_order inserted outcomes (e # es) =
     (case map_of inserted (li_idempotency_key e) of
        None \<Rightarrow> Inl KeyError
      | Some i \<Rightarrow>
     (case List.find (\<lambda>out. io_row_id out = i) (rev outcomes) of
        None \<Rightarrow> Inl KeyError
      | Some out \<Rightarrow>
     (case in_request_order inserted outcomes es of
        Inl err \<Rightarrow> Inl err
      | Inr outs \<Rightarrow> Inr (out # outs))))"

definition ingest_ledger_batch ::
  "(ledger_entry_in \<Rightarrow> json) \<Rightarrow> instant \<Rightarrow> tenant \<Rightarrow> ledger_entry_in list \<Rightarrow> db \<Rightarrow>
     db_error + db \<times> ingest_outcome list" where
  "ingest_ledger_batch dump now tenant entries d =
     (if entries = [] then Inr (d, [])
      else
      (case insert_entries dump now (tn_account_id tenant) (map snd (first_by_key entries)) d of
         Inl e \<Rightarrow> Inl e
       | Inr (d1, returned) \<Rightarrow>
           let incs = increments entries returned;
               rows = bump_entries (tn_account_id tenant) incs (db_ledger_entries d1);
               selected = filter (\<lambda>r. rt_tenant_id r = tn_account_id tenant \<and>
                            rt_idempotency_key r \<in> fst ` set incs) rows;
               inserted = fold (\<lambda>r. setdefault (rt_idempotency_key r) (rt_id r)) selected returned;
               counts = rev (map (\<lambda>r. (rt_idempotency_key r, rt_duplicate_count r)) selected)
           in
           (case batch_outcomes inserted incs counts (first_by_key entries) of
              Inl e \<Rightarrow> Inl e
            | Inr outcomes \<Rightarrow>
           (case in_request_order inserted outcomes entries of
              Inl e \<Rightarrow> Inl e
            | Inr response \<Rightarrow>
                Inr (enqueue now LEDGER outcomes (d1\<lparr> db_ledger_entries := rows \<rparr>), response)))))"

subsection \<open>Frames\<close>

lemma nextval_sel [table_simps]:
  "nextval t d = (i, d1) \<longleftrightarrow> i = db_next d t \<and> d1 = d\<lparr> db_next := (db_next d)(t := db_next d t + 1) \<rparr>"
  by (auto simp: nextval_def)

lemma enqueue_frame [simp]:
  "db_accounts (enqueue now src outs d) = db_accounts d"
  "db_api_keys (enqueue now src outs d) = db_api_keys d"
  "db_webhook_sources (enqueue now src outs d) = db_webhook_sources d"
  "db_gateway_transactions (enqueue now src outs d) = db_gateway_transactions d"
  "db_ledger_entries (enqueue now src outs d) = db_ledger_entries d"
  "db_reconciliation_results (enqueue now src outs d) = db_reconciliation_results d"
  "db_exceptions (enqueue now src outs d) = db_exceptions d"
  by (induction now src outs d rule: enqueue.induct) (simp_all add: nextval_def)

lemma enqueue_next: "t \<noteq> T_outbox_events \<Longrightarrow> db_next (enqueue now src outs d) t = db_next d t"
  by (induction now src outs d rule: enqueue.induct) (simp_all add: nextval_def)

lemma enqueue_next_outbox:
  "db_next (enqueue now src outs d) T_outbox_events = db_next d T_outbox_events + int (length outs)"
  by (induction now src outs d rule: enqueue.induct) (simp_all add: nextval_def)

text \<open>What \<open>_enqueue\<close> appends: one unpublished event per outcome, in order, pointing at its row.\<close>

definition message_of :: "ingest_source \<Rightarrow> ingest_outcome \<Rightarrow> ingest_message" where
  "message_of src out =
     \<lparr> im_source = src, im_row_id = io_row_id out, im_txn_id = io_txn_id out,
       im_is_duplicate = io_duplicate out, im_submissions = io_submissions out \<rparr>"

lemma enqueue_outbox:
  "\<exists>evs. db_outbox_events (enqueue now src outs d) = db_outbox_events d @ evs \<and>
     map ob_id evs = map (\<lambda>j. db_next d T_outbox_events + int j) [0..<length outs] \<and>
     list_all2 (\<lambda>ev out. ob_source ev = src \<and> ob_row_id ev = io_row_id out \<and>
       ob_payload ev = to_payload (message_of src out) \<and> ob_published_at ev = None) evs outs"
proof (induction now src outs d rule: enqueue.induct)
  case (1 now source d)
  then show ?case by simp
next
  case (2 now source out outs d)
  let ?i = "db_next d T_outbox_events"
  let ?ev = "\<lparr> ob_id = ?i, ob_source = source, ob_row_id = io_row_id out,
    ob_payload = to_payload (message_of source out), ob_created_at = now,
    ob_published_at = None, ob_attempts = 0 \<rparr>"
  let ?d = "d\<lparr> db_next := (db_next d)(T_outbox_events := ?i + 1),
    db_outbox_events := db_outbox_events d @ [?ev] \<rparr>"
  have eq: "enqueue now source (out # outs) d = enqueue now source outs ?d"
    by (simp add: nextval_def message_of_def)
  obtain evs where evs: "db_outbox_events (enqueue now source outs ?d) = db_outbox_events ?d @ evs"
    "map ob_id evs = map (\<lambda>j. db_next ?d T_outbox_events + int j) [0..<length outs]"
    "list_all2 (\<lambda>ev out. ob_source ev = source \<and> ob_row_id ev = io_row_id out \<and>
       ob_payload ev = to_payload (message_of source out) \<and> ob_published_at ev = None) evs outs"
    using "2.IH" [of ?i "d\<lparr> db_next := (db_next d)(T_outbox_events := ?i + 1) \<rparr>"]
    by (auto simp: nextval_def message_of_def)
  have "map (\<lambda>j. ?i + int j) [0..<length (out # outs)] =
      ?i # map (\<lambda>j. ?i + 1 + int j) [0..<length outs]"
    by (simp add: upt_conv_Cons map_Suc_upt [symmetric] comp_def del: upt_Suc)
  with evs show ?case
    unfolding eq by (intro exI [of _ "?ev # evs"]) simp
qed

subsection \<open>The row that holds a key\<close>

lemma raw_conflicts_iff:
  "conflicts raw_keys rows r \<longleftrightarrow> (\<exists>q \<in> set rows. holds_key (rt_tenant_id r) (rt_idempotency_key r) q)"
  by (auto simp: conflicts_iff raw_keys_def holds_key_def)

lemma holds_key_unique:
  "index_ok raw_keys rows \<Longrightarrow> r \<in> set rows \<Longrightarrow> q \<in> set rows \<Longrightarrow> holds_key t k r \<Longrightarrow> holds_key t k q
    \<Longrightarrow> r = q"
  using raw_index.index_ok_unique [of rows r q "(t, k)"] by (simp add: raw_keys_def holds_key_def)

lemma holds_key_bump [simp]: "holds_key t k (bump n r) = holds_key t k r"
  by (simp add: holds_key_def bump_def)

lemma bump_sel [simp]:
  "rt_id (bump n r) = rt_id r" "rt_tenant_id (bump n r) = rt_tenant_id r"
  "rt_idempotency_key (bump n r) = rt_idempotency_key r"
  "rt_duplicate_count (bump n r) = rt_duplicate_count r + n"
  "rt_reconciled_at (bump n r) = rt_reconciled_at r"
  "rt_txn_id (bump n r) = rt_txn_id r" "rt_amount (bump n r) = rt_amount r"
  "rt_currency (bump n r) = rt_currency r" "rt_occurred_at (bump n r) = rt_occurred_at r"
  "rt_received_at (bump n r) = rt_received_at r"
  "raw_keys (bump n r) = raw_keys r"
  by (simp_all add: bump_def raw_keys_def)

lemma filter_holds_key:
  assumes "index_ok raw_keys rows" and "r \<in> set rows" and "holds_key t k r"
  shows "filter (holds_key t k) rows = [r]"
proof -
  have "length (filter (\<lambda>q. (t, k) \<in> set (raw_keys q)) rows) \<le> 1"
    using assms(1) by (rule raw_index.index_ok_count_le_1)
  moreover have "(\<lambda>q. (t, k) \<in> set (raw_keys q)) = holds_key t k"
    by (auto simp: raw_keys_def holds_key_def)
  ultimately have len: "length (filter (holds_key t k) rows) \<le> 1" by metis
  have "r \<in> set (filter (holds_key t k) rows)" using assms(2,3) by simp
  with len show ?thesis by (cases "filter (holds_key t k) rows") auto
qed

lemma raw_insert_Inr:
  "raw_insert d row rows = Inr (rows', new) \<Longrightarrow>
     (if new then rows' = rows @ [row] \<and> \<not> conflicts raw_keys rows row \<and> has_account d (rt_tenant_id row)
      else rows' = rows \<and> conflicts raw_keys rows row)"
  by (auto simp: raw_insert_def insert_unless_conflict_def split: option.splits if_splits)

end
