(* ===== verification/Ingest_Laws.thy ===== *)
theory Ingest_Laws
  imports Ingest
begin

text \<open>
  What ingestion promises, proved over the operations of \<open>Ingest\<close>: the closed form of one
  submission and of a batch, the interface \<open>counted_submissions\<close> that both sides implement (the
  first receipt of a key is the record, every later one only counts), and the properties that
  follow from it.
\<close>

subsection \<open>A raw table is well-formed\<close>

definition raw_table_ok :: "int \<Rightarrow> 'a raw_txn_scheme list \<Rightarrow> bool" where
  "raw_table_ok next_id rows \<longleftrightarrow>
     index_ok raw_keys rows \<and> distinct (map rt_id rows) \<and> (\<forall>r \<in> set rows. rt_id r < next_id)"

lemma raw_table_okD:
  assumes "raw_table_ok n rows"
  shows "index_ok raw_keys rows" "distinct (map rt_id rows)" "\<And>r. r \<in> set rows \<Longrightarrow> rt_id r < n"
  using assms by (auto simp: raw_table_ok_def)

lemma raw_table_ok_mono: "raw_table_ok n rows \<Longrightarrow> n \<le> m \<Longrightarrow> raw_table_ok m rows"
  by (auto simp: raw_table_ok_def)

lemma raw_table_ok_map:
  fixes f :: "'a raw_txn_scheme \<Rightarrow> 'a raw_txn_scheme"
  assumes "\<And>r. r \<in> set rows \<Longrightarrow> rt_id (f r) = rt_id r"
    and "\<And>r. r \<in> set rows \<Longrightarrow> raw_keys (f r) = raw_keys r"
  shows "raw_table_ok n (map f rows) = raw_table_ok n rows"
proof -
  have ids: "map (rt_id \<circ> f) rows = map rt_id rows" using assms(1) by simp
  show ?thesis
    using assms(1) raw_index.index_ok_keeps_keys [of rows f] assms(2)
    unfolding raw_table_ok_def map_map ids by simp
qed

lemma raw_table_ok_update:
  assumes "\<And>r. rt_id (f r) = rt_id r" and "\<And>r. raw_keys (f r) = raw_keys r"
  shows "raw_table_ok n (update_where p f rows) = raw_table_ok n rows"
  unfolding update_where_def by (rule raw_table_ok_map) (simp_all add: assms)

lemma raw_table_ok_filter: "raw_table_ok n rows \<Longrightarrow> raw_table_ok n (filter p rows)"
  by (auto simp: raw_table_ok_def raw_index.index_ok_filter distinct_map_filterI)

lemma raw_table_ok_append1:
  "raw_table_ok n rows \<Longrightarrow> rt_id r = n \<Longrightarrow> \<not> conflicts raw_keys rows r \<Longrightarrow> raw_table_ok (n + 1) (rows @ [r])"
  by (force simp: raw_table_ok_def raw_index.index_ok_append1)

subsection \<open>The rows a key leads to\<close>

text \<open>The table read as a dictionary from tenant and key to a row.\<close>

definition row_of_key :: "'a raw_txn_scheme list \<Rightarrow> int \<times> string \<Rightarrow> 'a raw_txn_scheme option" where
  "row_of_key rows tk = List.find (holds_key (fst tk) (snd tk)) rows"

lemma row_of_key_append:
  "row_of_key (rows @ rows') tk =
     (case row_of_key rows tk of None \<Rightarrow> row_of_key rows' tk | Some r \<Rightarrow> Some r)"
  by (simp add: row_of_key_def find_append split: option.split)

lemma row_of_key_map:
  fixes f :: "'a raw_txn_scheme \<Rightarrow> 'a raw_txn_scheme"
  assumes "\<And>r. r \<in> set rows \<Longrightarrow> raw_keys (f r) = raw_keys r"
  shows "row_of_key (map f rows) tk = map_option f (row_of_key rows tk)"
  using assms by (induction rows) (auto simp: row_of_key_def holds_key_def raw_keys_def)

lemma row_of_key_update:
  "(\<And>r. raw_keys (f r) = raw_keys r) \<Longrightarrow>
     row_of_key (update_where p f rows) tk = map_option (\<lambda>r. if p r then f r else r) (row_of_key rows tk)"
  unfolding update_where_def by (rule row_of_key_map) simp

lemma row_of_key_SomeD:
  "row_of_key rows (t, k) = Some r \<Longrightarrow> r \<in> set rows \<and> holds_key t k r"
  by (auto simp: row_of_key_def dest: find_SomeD)

lemma row_of_key_None_iff: "row_of_key rows (t, k) = None \<longleftrightarrow> (\<forall>r \<in> set rows. \<not> holds_key t k r)"
  by (simp add: row_of_key_def find_None_iff')

lemma row_of_key_eq:
  "index_ok raw_keys rows \<Longrightarrow> r \<in> set rows \<Longrightarrow> holds_key t k r \<Longrightarrow> row_of_key rows (t, k) = Some r"
  using holds_key_unique row_of_key_SomeD row_of_key_None_iff
  by (metis option.exhaust)

lemma conflicts_row_of_key:
  "conflicts raw_keys rows r \<longleftrightarrow> row_of_key rows (rt_tenant_id r, rt_idempotency_key r) \<noteq> None"
  by (simp add: raw_conflicts_iff row_of_key_None_iff)

subsection \<open>One gateway submission\<close>

text \<open>The checks a validated payload passes in the database.\<close>

definition gateway_storable :: "gateway_webhook_in \<Rightarrow> string \<Rightarrow> bool" where
  "gateway_storable p k \<longleftrightarrow>
     numeric_18_2 (gw_amount p) \<noteq> None \<and> length (gw_txn_id p) \<le> 128 \<and>
     length (gw_gateway_ref p) \<le> 128 \<and> iso4217 (gw_currency p) \<and> length k \<le> 255"

lemma gateway_storableI: "gateway_webhook_ok p \<Longrightarrow> idem_key_field k \<Longrightarrow> gateway_storable p k"
  using money_field_stored
  by (fastforce simp: gateway_storable_def gateway_webhook_ok_def short_id_field_def idem_key_field_def)

lemma gateway_row_sel [simp]:
  "rt_id (gateway_row i now tn p a k body) = i"
  "rt_tenant_id (gateway_row i now tn p a k body) = tn_account_id tn"
  "rt_idempotency_key (gateway_row i now tn p a k body) = k"
  "rt_duplicate_count (gateway_row i now tn p a k body) = 0"
  "rt_reconciled_at (gateway_row i now tn p a k body) = None"
  "rt_txn_id (gateway_row i now tn p a k body) = gw_txn_id p"
  "rt_currency (gateway_row i now tn p a k body) = gw_currency p"
  by (simp_all add: gateway_row_def)

lemma gateway_row_no_error:
  "gateway_storable p k \<Longrightarrow> raw_row_error (gateway_row i now tn p a k body) = None"
  by (simp add: raw_row_error_def gateway_storable_def iso4217_def)

text \<open>The two outcomes of a submission, in closed form.\<close>

lemma ingest_gateway_fresh:
  assumes "gateway_storable p k" and "numeric_18_2 (gw_amount p) = Some a"
    and "has_account d (tn_account_id tn)"
    and "row_of_key (db_gateway_transactions d) (tn_account_id tn, k) = None"
  defines "i \<equiv> db_next d T_gateway_transactions"
  defines "out \<equiv> \<lparr> io_row_id = i, io_txn_id = gw_txn_id p, io_duplicate = False, io_submissions = 1 \<rparr>"
  shows "ingest_gateway now tn p k body d =
    Inr (enqueue now GATEWAY [out]
           (d\<lparr> db_next := (db_next d)(T_gateway_transactions := i + 1),
               db_gateway_transactions := db_gateway_transactions d @ [gateway_row i now tn p a k body] \<rparr>), out)"
proof -
  have len: "\<not> 128 < length (gw_gateway_ref p)" using assms(1) by (simp add: gateway_storable_def)
  have "\<not> conflicts raw_keys (db_gateway_transactions d) (gateway_row i now tn p a k body)"
    using assms(4) by (simp add: conflicts_row_of_key)
  moreover have "has_account (d\<lparr> db_next := nx \<rparr>) (tn_account_id tn)" for nx
    using assms(3) by (simp add: has_account_def)
  ultimately show ?thesis
    using len assms(2) gateway_row_no_error [OF assms(1)]
    by (simp add: ingest_gateway_def nextval_def raw_insert_def insert_unless_conflict_def
      i_def out_def Let_def del: enqueue.simps)
qed

lemma ingest_gateway_again:
  assumes "gateway_storable p k" and "index_ok raw_keys (db_gateway_transactions d)"
    and "row_of_key (db_gateway_transactions d) (tn_account_id tn, k) = Some r"
  defines "i \<equiv> db_next d T_gateway_transactions"
  defines "out \<equiv> \<lparr> io_row_id = rt_id r, io_txn_id = gw_txn_id p, io_duplicate = True,
                   io_submissions = rt_duplicate_count r + 2 \<rparr>"
  shows "ingest_gateway now tn p k body d =
    Inr (enqueue now GATEWAY [out]
           (d\<lparr> db_next := (db_next d)(T_gateway_transactions := i + 1),
               db_gateway_transactions :=
                 update_where (holds_key (tn_account_id tn) k) (bump 1) (db_gateway_transactions d) \<rparr>), out)"
proof -
  let ?mine = "holds_key (tn_account_id tn) k" and ?rows = "db_gateway_transactions d"
  obtain a where a: "numeric_18_2 (gw_amount p) = Some a"
    and len: "\<not> 128 < length (gw_gateway_ref p)"
    using assms(1) by (auto simp: gateway_storable_def)
  have r: "r \<in> set ?rows" "?mine r" using row_of_key_SomeD [OF assms(3)] by auto
  have c: "conflicts raw_keys ?rows (gateway_row i now tn p a k body)"
    using assms(3) by (simp add: conflicts_row_of_key)
  have "filter ?mine (update_where ?mine (bump 1) ?rows) = update_where ?mine (bump 1) [r]"
    using filter_holds_key [OF assms(2) r] by (simp add: filter_update_where)
  then have f: "filter ?mine (update_where ?mine (bump 1) ?rows) = [bump 1 r]"
    using r by (simp add: table_simps)
  show ?thesis
    using len a c f gateway_row_no_error [OF assms(1)]
    by (simp add: ingest_gateway_def nextval_def raw_insert_def insert_unless_conflict_def
      i_def out_def Let_def add.commute del: enqueue.simps)
qed

subsection \<open>One ledger batch\<close>

definition ledger_storable :: "ledger_entry_in \<Rightarrow> bool" where
  "ledger_storable e \<longleftrightarrow>
     numeric_18_2 (li_amount e) \<noteq> None \<and> length (li_txn_id e) \<le> 128 \<and>
     length (li_entry_id e) \<le> 128 \<and> iso4217 (li_currency e) \<and> length (li_idempotency_key e) \<le> 255"

lemma ledger_storableI: "ledger_entry_ok e \<Longrightarrow> ledger_storable e"
  using money_field_stored
  by (fastforce simp: ledger_storable_def ledger_entry_ok_def short_id_field_def idem_key_field_def)

lemma ledger_row_sel [simp]:
  "rt_id (ledger_row dump i now t e a) = i"
  "rt_tenant_id (ledger_row dump i now t e a) = t"
  "rt_idempotency_key (ledger_row dump i now t e a) = li_idempotency_key e"
  "rt_duplicate_count (ledger_row dump i now t e a) = 0"
  "rt_reconciled_at (ledger_row dump i now t e a) = None"
  "rt_txn_id (ledger_row dump i now t e a) = li_txn_id e"
  "rt_currency (ledger_row dump i now t e a) = li_currency e"
  by (simp_all add: ledger_row_def)

lemma ledger_row_no_error:
  "ledger_storable e \<Longrightarrow> raw_row_error (ledger_row dump i now t e a) = None"
  by (simp add: raw_row_error_def ledger_storable_def iso4217_def)

text \<open>The rows a batch adds: those whose key the tenant does not hold yet.\<close>

fun fresh_rows ::
  "(ledger_entry_in \<Rightarrow> json) \<Rightarrow> int \<Rightarrow> instant \<Rightarrow> int \<Rightarrow> ledger_entry list \<Rightarrow> ledger_entry_in list \<Rightarrow>
     ledger_entry list" where
  "fresh_rows dump i now t rows [] = []"
| "fresh_rows dump i now t rows (e # es) =
     (if row_of_key rows (t, li_idempotency_key e) = None
      then [ledger_row dump i now t e (the (numeric_18_2 (li_amount e)))] else []) @
     fresh_rows dump (i + 1) now t rows es"

lemma fresh_rows_cong:
  "(\<And>e. e \<in> set es \<Longrightarrow> (row_of_key rows (t, li_idempotency_key e) = None) =
       (row_of_key rows' (t, li_idempotency_key e) = None)) \<Longrightarrow>
     fresh_rows dump i now t rows es = fresh_rows dump i now t rows' es"
  by (induction es arbitrary: i) auto

lemma in_fresh_rows:
  "r \<in> set (fresh_rows dump i now t rows es) \<Longrightarrow>
     \<exists>e \<in> set es. \<exists>j \<ge> i. j < i + int (length es) \<and> row_of_key rows (t, li_idempotency_key e) = None \<and>
       r = ledger_row dump j now t e (the (numeric_18_2 (li_amount e)))"
proof (induction es arbitrary: i)
  case Nil
  then show ?case by simp
next
  case (Cons e es)
  show ?case
  proof (cases "r \<in> set (fresh_rows dump (i + 1) now t rows es)")
    case True
    from Cons.IH [OF this] obtain e' j where "e' \<in> set es" "i + 1 \<le> j" "j < i + 1 + int (length es)"
      "row_of_key rows (t, li_idempotency_key e') = None"
      "r = ledger_row dump j now t e' (the (numeric_18_2 (li_amount e')))" by blast
    then show ?thesis by (intro bexI [of _ e'] exI [of _ j]) simp_all
  next
    case False
    with Cons.prems have "row_of_key rows (t, li_idempotency_key e) = None"
      "r = ledger_row dump i now t e (the (numeric_18_2 (li_amount e)))"
      by (simp_all split: if_splits)
    then show ?thesis by (intro bexI [of _ e] exI [of _ i]) simp_all
  qed
qed

lemma fresh_rows_ids:
  "distinct (map rt_id (fresh_rows dump i now t rows es))"
proof (induction es arbitrary: i)
  case Nil
  then show ?case by simp
next
  case (Cons e es)
  have "rt_id r \<noteq> i" if "r \<in> set (fresh_rows dump (i + 1) now t rows es)" for r
    using in_fresh_rows [OF that] by auto
  with Cons show ?case by auto
qed

lemma insert_entries_eq:
  assumes "list_all ledger_storable es" and "distinct (map li_idempotency_key es)" and "has_account d t"
  shows "insert_entries dump now t es d =
    Inr (d\<lparr> db_next := (db_next d)(T_ledger_entries := db_next d T_ledger_entries + int (length es)),
            db_ledger_entries := db_ledger_entries d @
              fresh_rows dump (db_next d T_ledger_entries) now t (db_ledger_entries d) es \<rparr>,
         map (\<lambda>r. (rt_idempotency_key r, rt_id r))
           (fresh_rows dump (db_next d T_ledger_entries) now t (db_ledger_entries d) es))"
  using assms
proof (induction es arbitrary: d)
  case Nil
  then show ?case by simp
next
  case (Cons e es)
  let ?i = "db_next d T_ledger_entries" and ?rows = "db_ledger_entries d"
  obtain a where a: "numeric_18_2 (li_amount e) = Some a" and len: "\<not> 128 < length (li_entry_id e)"
    using Cons.prems(1) by (auto simp: ledger_storable_def)
  let ?r = "ledger_row dump ?i now t e a"
  let ?held = "row_of_key ?rows (t, li_idempotency_key e) \<noteq> None"
  let ?rows' = "if ?held then ?rows else ?rows @ [?r]"
  let ?d = "d\<lparr> db_next := (db_next d)(T_ledger_entries := ?i + 1), db_ledger_entries := ?rows' \<rparr>"
  have "raw_row_error ?r = None" using Cons.prems(1) by (simp add: ledger_row_no_error)
  moreover have "has_account (d\<lparr> db_next := nx \<rparr>) t" for nx
    using Cons.prems(3) by (simp add: has_account_def)
  ultimately have ins: "raw_insert (d\<lparr> db_next := (db_next d)(T_ledger_entries := ?i + 1) \<rparr>) ?r ?rows =
      Inr (?rows', \<not> ?held)"
    by (simp add: raw_insert_def insert_unless_conflict_def conflicts_row_of_key)
  have IH: "insert_entries dump now t es ?d =
    Inr (?d\<lparr> db_next := (db_next ?d)(T_ledger_entries := db_next ?d T_ledger_entries + int (length es)),
            db_ledger_entries := db_ledger_entries ?d @
              fresh_rows dump (db_next ?d T_ledger_entries) now t (db_ledger_entries ?d) es \<rparr>,
         map (\<lambda>r. (rt_idempotency_key r, rt_id r))
           (fresh_rows dump (db_next ?d T_ledger_entries) now t (db_ledger_entries ?d) es))"
    using Cons.prems by (intro Cons.IH) (auto simp: has_account_def)
  have "fresh_rows dump (?i + 1) now t ?rows' es = fresh_rows dump (?i + 1) now t ?rows es"
    using Cons.prems(2)
    by (intro fresh_rows_cong) (auto simp: row_of_key_def find_None_iff' holds_key_def)
  then show ?case
    using a len ins IH by (auto simp: nextval_def algebra_simps fun_upd_def cong: if_cong)
qed

text \<open>\<open>first_by_key\<close>: the distinct keys, each with the first entry that carries it.\<close>

lemma first_by_key_gen:
  "map_of (fold (\<lambda>e. setdefault (li_idempotency_key e) e) es m) k =
     (case map_of m k of None \<Rightarrow> List.find (\<lambda>e. li_idempotency_key e = k) es | Some e \<Rightarrow> Some e)"
  by (induction es arbitrary: m) (auto simp: map_of_setdefault split: option.splits)

lemma first_by_key_map_of:
  "map_of (first_by_key es) k = List.find (\<lambda>e. li_idempotency_key e = k) es"
  by (simp add: first_by_key_def first_by_key_gen)

lemma first_by_key_distinct: "distinct (map fst (first_by_key es))"
proof -
  have "distinct (map fst m) \<Longrightarrow>
      distinct (map fst (fold (\<lambda>e. setdefault (li_idempotency_key e) e) es m))" for m
    by (induction es arbitrary: m) (simp_all add: distinct_keys_setdefault)
  then show ?thesis by (simp add: first_by_key_def)
qed

lemma first_by_keyD:
  assumes "(k, e) \<in> set (first_by_key es)"
  shows "e \<in> set es" and "li_idempotency_key e = k" and "List.find (\<lambda>e. li_idempotency_key e = k) es = Some e"
proof -
  have "map_of (first_by_key es) k = Some e"
    using assms first_by_key_distinct by (simp add: map_of_eq_Some_iff)
  then show f: "List.find (\<lambda>e. li_idempotency_key e = k) es = Some e" by (simp add: first_by_key_map_of)
  from find_SomeD [OF f] show "e \<in> set es" and "li_idempotency_key e = k" by auto
qed

lemma first_by_key_keys: "fst ` set (first_by_key es) = li_idempotency_key ` set es"
proof -
  have "k \<in> fst ` set (first_by_key es) \<longleftrightarrow> k \<in> li_idempotency_key ` set es" for k
    using first_by_key_map_of [of es k] map_of_eq_None_iff [of "first_by_key es" k]
      find_None_iff' [of "\<lambda>e. li_idempotency_key e = k" es] by auto
  then show ?thesis by blast
qed

lemma first_by_key_fst: "map li_idempotency_key (map snd (first_by_key es)) = map fst (first_by_key es)"
  using first_by_keyD(2) by (auto intro!: map_cong)

lemma submissions_per_key_iff:
  "0 < submissions_per_key es k \<longleftrightarrow> k \<in> li_idempotency_key ` set es"
  by (simp add: submissions_per_key_def count_list_0_iff zero_less_iff_neq_zero)

lemma submissions_per_key_0: "k \<notin> li_idempotency_key ` set es \<Longrightarrow> submissions_per_key es k = 0"
  by (simp add: submissions_per_key_def)

text \<open>How far the batch moves the counter of a key; \<open>fresh\<close> are the keys it inserted.\<close>

definition batch_delta :: "ledger_entry_in list \<Rightarrow> string set \<Rightarrow> string \<Rightarrow> int" where
  "batch_delta es fresh k = submissions_per_key es k - (if k \<in> fresh then 1 else 0)"

lemma map_of_increments:
  "map_of (increments es ins) k =
     (if k \<in> li_idempotency_key ` set es \<and> 0 < batch_delta es (fst ` set ins) k
      then Some (batch_delta es (fst ` set ins) k) else None)"
proof -
  have *: "map_of (filter (\<lambda>(k, delta). 0 < delta) (map (\<lambda>(k, _). (k, f k)) m)) k =
      (if k \<in> fst ` set m \<and> 0 < f k then Some (f k) else None)" for f :: "string \<Rightarrow> int" and m :: "(string \<times> ledger_entry_in) list"
    by (induction m) auto
  show ?thesis
    unfolding increments_def * first_by_key_keys by (simp add: batch_delta_def)
qed

lemma increments_distinct: "distinct (map fst (increments es ins))"
proof -
  have "map fst (map (\<lambda>(k, _). (k, f k)) m) = map fst m" for f :: "string \<Rightarrow> int" and m :: "(string \<times> ledger_entry_in) list"
    by (induction m) auto
  then show ?thesis
    unfolding increments_def using first_by_key_distinct by (intro distinct_map_filter) metis
qed

lemma bump_entries_eq:
  "distinct (map fst incs) \<Longrightarrow>
   bump_entries t incs rows =
     map (\<lambda>r. if rt_tenant_id r = t then
           (case map_of incs (rt_idempotency_key r) of None \<Rightarrow> r | Some x \<Rightarrow> bump x r) else r) rows"
proof (induction t incs rows rule: bump_entries.induct)
  case (1 t rows)
  then show ?case by (simp cong: if_cong)
next
  case (2 t k delta incs rows)
  have "map_of incs k = None" using 2(2) by (simp add: map_of_eq_None_iff)
  then show ?case
    using 2 by (auto simp: update_where_def holds_key_def bump_def)
qed

lemma bump_zero [simp]: "bump 0 r = r"
  by (simp add: bump_def)

text \<open>The ledger table after the batch.\<close>

definition settle :: "int \<Rightarrow> ledger_entry_in list \<Rightarrow> string set \<Rightarrow> ledger_entry \<Rightarrow> ledger_entry" where
  "settle t es fresh r =
     (if rt_tenant_id r = t then bump (batch_delta es fresh (rt_idempotency_key r)) r else r)"

lemma settle_sel [simp]:
  "rt_id (settle t es fresh r) = rt_id r" "raw_keys (settle t es fresh r) = raw_keys r"
  "rt_tenant_id (settle t es fresh r) = rt_tenant_id r"
  "rt_idempotency_key (settle t es fresh r) = rt_idempotency_key r"
  "rt_reconciled_at (settle t es fresh r) = rt_reconciled_at r"
  "holds_key t' k (settle t es fresh r) = holds_key t' k r"
  by (simp_all add: settle_def)

lemma bump_entries_settle:
  assumes "fst ` set ins \<subseteq> li_idempotency_key ` set es"
  shows "bump_entries t (increments es ins) rows = map (settle t es (fst ` set ins)) rows"
proof -
  have zero: "batch_delta es (fst ` set ins) k = 0"
    if "\<not> (k \<in> li_idempotency_key ` set es \<and> 0 < batch_delta es (fst ` set ins) k)" for k
  proof (cases "k \<in> li_idempotency_key ` set es")
    case True
    then have "0 < submissions_per_key es k" by (simp add: submissions_per_key_iff)
    with True that show ?thesis by (auto simp: batch_delta_def split: if_splits)
  next
    case False
    with assms have "k \<notin> fst ` set ins" by blast
    with False show ?thesis by (simp add: batch_delta_def submissions_per_key_0)
  qed
  have "bump (batch_delta es (fst ` set ins) k) r = r"
    if "\<not> (k \<in> li_idempotency_key ` set es \<and> 0 < batch_delta es (fst ` set ins) k)" for k and r :: ledger_entry
    using zero [OF that] by simp
  then show ?thesis
    unfolding bump_entries_eq [OF increments_distinct] map_of_increments
    by (intro map_cong refl) (simp add: settle_def)
qed

text \<open>The outcome the batch reports for a key.\<close>

definition outcome_of_key ::
  "ledger_entry_in list \<Rightarrow> string set \<Rightarrow> ledger_entry list \<Rightarrow> int \<Rightarrow> string \<Rightarrow> ledger_entry_in \<Rightarrow> ingest_outcome" where
  "outcome_of_key es fresh rows t k e =
     (let r = the (row_of_key rows (t, k)) in
       \<lparr> io_row_id = rt_id r, io_txn_id = li_txn_id e, io_duplicate = (0 < batch_delta es fresh k),
         io_submissions = rt_duplicate_count r + 1 \<rparr>)"

lemma batch_outcomes_eq:
  assumes "\<And>k e. (k, e) \<in> set fbk \<Longrightarrow> map_of inserted k = Some (f k)"
  shows "batch_outcomes inserted incs counts fbk =
    Inr (map (\<lambda>(k, e). \<lparr> io_row_id = f k, io_txn_id = li_txn_id e, io_duplicate = (k \<in> fst ` set incs),
                 io_submissions = (case map_of counts k of None \<Rightarrow> 0 | Some c \<Rightarrow> c) + 1 \<rparr>) fbk)"
  using assms by (induction fbk) (auto, force)

lemma find_id_map:
  assumes "(k, e) \<in> set m" and "distinct (map fst m)"
    and "inj_on f (fst ` set m)"
  shows "List.find (\<lambda>out. io_row_id out = f k)
    (map (\<lambda>(k, e). \<lparr> io_row_id = f k, io_txn_id = x k e, io_duplicate = y k, io_submissions = z k \<rparr>) m) =
    Some \<lparr> io_row_id = f k, io_txn_id = x k e, io_duplicate = y k, io_submissions = z k \<rparr>"
  using assms
proof (induction m)
  case Nil
  then show ?case by simp
next
  case (Cons p m)
  obtain k' e' where p: "p = (k', e')" by fastforce
  show ?case
  proof (cases "f k' = f k")
    case True
    then have "k' = k" using Cons.prems p by (auto dest!: inj_onD [of f _ k' k] intro: rev_image_eqI)
    moreover from this have "e' = e" using Cons.prems p by (force simp: image_iff)
    ultimately show ?thesis by (simp add: p)
  next
    case False
    then have "(k, e) \<in> set m" using Cons.prems(1) p by auto
    then show ?thesis using Cons False by (auto simp: p intro: inj_on_subset)
  qed
qed

lemma in_request_order_eq:
  assumes "\<And>e. e \<in> set es \<Longrightarrow> map_of inserted (li_idempotency_key e) = Some (f (li_idempotency_key e))"
    and "\<And>e. e \<in> set es \<Longrightarrow>
      List.find (\<lambda>out. io_row_id out = f (li_idempotency_key e)) (rev outs) = Some (g e)"
  shows "in_request_order inserted outs es = Inr (map g es)"
  using assms by (induction es) auto

text \<open>\<open>inserted.setdefault(row.idempotency_key, row.id)\<close> and \<open>counts_by_key\<close> over the selected rows.\<close>

lemma setdefault_fold_map_of:
  "map_of (fold (\<lambda>r. setdefault (rt_idempotency_key r) (rt_id r)) rs m) k =
     (case map_of m k of
        None \<Rightarrow> map_option rt_id (List.find (\<lambda>r. rt_idempotency_key r = k) rs)
      | Some i \<Rightarrow> Some i)"
  by (induction rs arbitrary: m) (auto simp: map_of_setdefault split: option.splits)

lemma find_rev_unique:
  assumes "\<And>x y. x \<in> set xs \<Longrightarrow> y \<in> set xs \<Longrightarrow> p x \<Longrightarrow> p y \<Longrightarrow> x = y"
  shows "List.find p (rev xs) = List.find p xs"
proof (cases "List.find p xs")
  case None
  then have "List.find p (rev xs) = None" unfolding find_None_iff' by simp
  with None show ?thesis by simp
next
  case (Some x)
  note x = find_SomeD [OF Some]
  then obtain y where y: "List.find p (rev xs) = Some y"
    by (metis find_None_iff' not_Some_eq set_rev)
  from find_SomeD [OF y] x assms [of x y] y Some show ?thesis by simp
qed

lemma map_of_keyed_rows:
  "map_of (map (\<lambda>r. (rt_idempotency_key r, g r)) rs) k =
     map_option g (List.find (\<lambda>r. rt_idempotency_key r = k) rs)"
  by (induction rs) auto

lemma list_all2_map_self: "(\<And>x. x \<in> set xs \<Longrightarrow> P x (f x)) \<Longrightarrow> list_all2 P xs (map f xs)"
  by (induction xs) auto

lemma find_filter:
  "List.find p (filter q xs) = List.find (\<lambda>x. q x \<and> p x) xs"
  by (induction xs) auto

subsection \<open>The batch in closed form\<close>

text \<open>The keys of a batch the tenant does not hold before it.\<close>

definition fresh_keys :: "int \<Rightarrow> ledger_entry list \<Rightarrow> ledger_entry_in list \<Rightarrow> string set" where
  "fresh_keys t rows es = {k \<in> li_idempotency_key ` set es. row_of_key rows (t, k) = None}"

lemma fresh_rows_keys:
  "rt_idempotency_key ` set (fresh_rows dump i now t rows es) = fresh_keys t rows es"
  by (induction es arbitrary: i) (auto simp: fresh_keys_def)

lemma fresh_keys_cong: "li_idempotency_key ` set es = li_idempotency_key ` set es' \<Longrightarrow>
    fresh_keys t rows es = fresh_keys t rows es'"
  by (simp add: fresh_keys_def)

text \<open>The whole ledger table after the batch, and its response.\<close>

definition batch_rows ::
  "(ledger_entry_in \<Rightarrow> json) \<Rightarrow> instant \<Rightarrow> int \<Rightarrow> ledger_entry_in list \<Rightarrow> db \<Rightarrow> ledger_entry list" where
  "batch_rows dump now t es d =
     map (settle t es (fresh_keys t (db_ledger_entries d) es))
       (db_ledger_entries d @
        fresh_rows dump (db_next d T_ledger_entries) now t (db_ledger_entries d) (map snd (first_by_key es)))"

definition batch_response ::
  "(ledger_entry_in \<Rightarrow> json) \<Rightarrow> instant \<Rightarrow> int \<Rightarrow> ledger_entry_in list \<Rightarrow> db \<Rightarrow> string \<Rightarrow> ingest_outcome" where
  "batch_response dump now t es d k =
     outcome_of_key es (fresh_keys t (db_ledger_entries d) es) (batch_rows dump now t es d) t k
       (the (List.find (\<lambda>e. li_idempotency_key e = k) es))"

lemma fresh_rows_table_ok:
  assumes "raw_table_ok n rows" and "distinct (map li_idempotency_key es)"
  shows "raw_table_ok (n + int (length es)) (rows @ fresh_rows dump n now t rows es)"
proof -
  have "\<forall>r \<in> set (fresh_rows dump i now t rows es). n \<le> i \<longrightarrow>
      i \<le> rt_id r \<and> rt_id r < i + int (length es)" for i
    by (auto dest!: in_fresh_rows)
  then have ids: "n \<le> rt_id r \<and> rt_id r < n + int (length es)"
    if "r \<in> set (fresh_rows dump n now t rows es)" for r
    using that by blast
  have keys: "distinct (map rt_idempotency_key (fresh_rows dump i now t rows es))" for i
    using assms(2)
  proof (induction es arbitrary: i)
    case (Cons e es)
    have "li_idempotency_key e \<notin> rt_idempotency_key ` set (fresh_rows dump (i + 1) now t rows es)"
      unfolding fresh_rows_keys using Cons.prems by (simp add: fresh_keys_def)
    with Cons show ?case by auto
  qed simp
  have "index_ok raw_keys (fresh_rows dump n now t rows es)"
  proof -
    have "concat (map raw_keys rs) = map (Pair t) (map rt_idempotency_key rs)"
      if "\<forall>r \<in> set rs. raw_keys r = [(t, rt_idempotency_key r)]" for rs
      using that by (induction rs) auto
    moreover have "\<forall>r \<in> set (fresh_rows dump n now t rows es). raw_keys r = [(t, rt_idempotency_key r)]"
      using in_fresh_rows by (fastforce simp: raw_keys_def)
    ultimately have "concat (map raw_keys (fresh_rows dump n now t rows es)) =
        map (Pair t) (map rt_idempotency_key (fresh_rows dump n now t rows es))" by blast
    then show ?thesis
      unfolding index_ok_def using keys [of n] by (simp add: distinct_map inj_on_def)
  qed
  moreover have "raw_keys r \<noteq> raw_keys q"
    if "r \<in> set rows" and "q \<in> set (fresh_rows dump n now t rows es)" for r q
    using that(1) in_fresh_rows [OF that(2)]
    by (auto simp: row_of_key_None_iff raw_keys_def holds_key_def)
  then have "set (concat (map raw_keys rows)) \<inter>
      set (concat (map raw_keys (fresh_rows dump n now t rows es))) = {}"
    by (fastforce simp: raw_keys_def)
  ultimately have "index_ok raw_keys (rows @ fresh_rows dump n now t rows es)"
    using raw_table_okD(1) [OF assms(1)] by (simp add: index_ok_def)
  moreover have "distinct (map rt_id (rows @ fresh_rows dump n now t rows es))"
    using raw_table_okD(2,3) [OF assms(1)] fresh_rows_ids ids by fastforce
  ultimately show ?thesis
    using raw_table_okD(3) [OF assms(1)] ids by (fastforce simp: raw_table_ok_def)
qed

lemma batch_rows_ok:
  assumes "raw_table_ok (db_next d T_ledger_entries) (db_ledger_entries d)"
  shows "raw_table_ok (db_next d T_ledger_entries + int (length (first_by_key es)))
    (batch_rows dump now t es d)"
proof -
  have "distinct (map li_idempotency_key (map snd (first_by_key es)))"
    unfolding first_by_key_fst by (rule first_by_key_distinct)
  from fresh_rows_table_ok [OF assms this] show ?thesis
    unfolding batch_rows_def by (subst raw_table_ok_map) simp_all
qed

lemma batch_rows_hold:
  assumes "k \<in> li_idempotency_key ` set es"
  shows "\<exists>r. row_of_key (batch_rows dump now t es d) (t, k) = Some r"
proof -
  let ?fbk = "first_by_key es" and ?old = "db_ledger_entries d"
  let ?new = "fresh_rows dump (db_next d T_ledger_entries) now t ?old (map snd ?fbk)"
  have "row_of_key (?old @ ?new) (t, k) \<noteq> None"
  proof (cases "row_of_key ?old (t, k)")
    case None
    have "li_idempotency_key ` set (map snd ?fbk) = li_idempotency_key ` set es"
      using first_by_key_keys [of es] first_by_key_fst [of es] by (metis set_map)
    with None assms have "k \<in> fresh_keys t ?old (map snd ?fbk)" by (simp add: fresh_keys_def)
    then have "k \<in> rt_idempotency_key ` set ?new" by (simp only: fresh_rows_keys)
    then obtain r where r: "r \<in> set ?new" "rt_idempotency_key r = k" by blast
    then have "holds_key t k r" using in_fresh_rows [OF r(1)] by (auto simp: holds_key_def)
    with r(1) show ?thesis by (auto simp: row_of_key_None_iff)
  qed (simp add: row_of_key_append)
  then show ?thesis unfolding batch_rows_def by (subst row_of_key_map) auto
qed

text \<open>
  The batch never fails on storable entries of an existing account, and its effect is
  \<open>batch_rows\<close>, \<open>batch_response\<close> in request order and one outbox event per distinct key.
\<close>

lemma ingest_ledger_batch_eq:
  assumes "es \<noteq> []" and "list_all ledger_storable es" and "has_account d (tn_account_id tn)"
    and "raw_table_ok (db_next d T_ledger_entries) (db_ledger_entries d)"
  defines "t \<equiv> tn_account_id tn" and "fbk \<equiv> first_by_key es" and "n \<equiv> db_next d T_ledger_entries"
  shows "ingest_ledger_batch dump now tn es d =
    Inr (enqueue now LEDGER (map (\<lambda>(k, e). batch_response dump now t es d k) fbk)
           (d\<lparr> db_next := (db_next d)(T_ledger_entries := n + int (length fbk)),
               db_ledger_entries := batch_rows dump now t es d \<rparr>),
         map (\<lambda>e. batch_response dump now t es d (li_idempotency_key e)) es)"
proof -
  let ?old = "db_ledger_entries d" and ?rows = "batch_rows dump now t es d"
  let ?fresh = "fresh_keys t ?old es"
  let ?new = "fresh_rows dump n now t ?old (map snd fbk)"
  let ?d1 = "d\<lparr> db_next := (db_next d)(T_ledger_entries := n + int (length fbk)),
    db_ledger_entries := ?old @ ?new \<rparr>"
  let ?ret = "map (\<lambda>r. (rt_idempotency_key r, rt_id r)) ?new"
  let ?row = "\<lambda>k. the (row_of_key ?rows (t, k))"
  have keys: "li_idempotency_key ` set (map snd fbk) = li_idempotency_key ` set es"
    unfolding fbk_def using first_by_key_keys [of es] first_by_key_fst [of es] by (metis set_map)
  have "list_all ledger_storable (map snd fbk)"
    using assms(2) first_by_keyD(1) by (fastforce simp: list_all_iff fbk_def)
  moreover have "distinct (map li_idempotency_key (map snd fbk))"
    unfolding fbk_def first_by_key_fst by (rule first_by_key_distinct)
  ultimately have ins: "insert_entries dump now t (map snd fbk) d = Inr (?d1, ?ret)"
    using assms(3) insert_entries_eq [of "map snd fbk" d t dump now] by (simp add: t_def n_def)
  have fresh: "fst ` set ?ret = ?fresh"
    using fresh_rows_keys [of dump n now t ?old "map snd fbk"] fresh_keys_cong [OF keys]
    by (simp add: image_image)
  then have rows: "bump_entries t (increments es ?ret) (?old @ ?new) = ?rows"
    by (subst bump_entries_settle) (auto simp: fresh_keys_def batch_rows_def fbk_def n_def)
  define incs where "incs = increments es ?ret"
  have incs: "k \<in> fst ` set incs \<longleftrightarrow> k \<in> li_idempotency_key ` set es \<and> 0 < batch_delta es ?fresh k" for k
    using map_of_increments [of es ?ret k] map_of_eq_None_iff [of incs k]
    unfolding fresh incs_def by (simp split: if_splits)
  let ?sel = "filter (\<lambda>r. rt_tenant_id r = t \<and> rt_idempotency_key r \<in> fst ` set incs) ?rows"
  let ?ins = "fold (\<lambda>r. setdefault (rt_idempotency_key r) (rt_id r)) ?sel ?ret"
  let ?counts = "rev (map (\<lambda>r. (rt_idempotency_key r, rt_duplicate_count r)) ?sel)"
  have ok: "raw_table_ok (n + int (length fbk)) ?rows"
    unfolding n_def fbk_def using assms(4) by (rule batch_rows_ok)
  have row: "row_of_key ?rows (t, k) = Some (?row k)" if "k \<in> li_idempotency_key ` set es" for k
    using batch_rows_hold [OF that, of dump now t d] by auto
  have sel: "List.find (\<lambda>r. rt_idempotency_key r = k) ?sel =
      (if k \<in> fst ` set incs then Some (?row k) else None)" for k
  proof (cases "k \<in> fst ` set incs")
    case True
    then have "k \<in> li_idempotency_key ` set es" using incs by blast
    then have "List.find (holds_key t k) ?rows = Some (?row k)"
      using row by (simp add: row_of_key_def)
    moreover have "List.find (\<lambda>r. (rt_tenant_id r = t \<and> rt_idempotency_key r \<in> fst ` set incs) \<and>
        rt_idempotency_key r = k) ?rows = List.find (holds_key t k) ?rows"
      using True by (intro arg_cong2 [where f = List.find]) (auto simp: holds_key_def fun_eq_iff image_iff)
    ultimately show ?thesis using True by (simp add: find_filter)
  qed (auto simp: find_None_iff')
  have new_row: "map_of ?ret k = Some (rt_id (?row k)) \<and> rt_duplicate_count (?row k) = batch_delta es ?fresh k"
    if k: "k \<in> ?fresh" for k
  proof -
    obtain r where r: "r \<in> set ?new" "rt_idempotency_key r = k" "map_of ?ret k = Some (rt_id r)"
      using k fresh map_of_keyed_rows [of rt_id ?new k] map_of_eq_None_iff [of ?ret k]
      by (cases "List.find (\<lambda>r. rt_idempotency_key r = k) ?new") (auto dest: find_SomeD)
    have t: "rt_tenant_id r = t" "rt_duplicate_count r = 0" using in_fresh_rows [OF r(1)] by auto
    have "settle t es ?fresh r \<in> set ?rows"
      using r(1) by (simp add: batch_rows_def fbk_def n_def)
    moreover have "holds_key t k (settle t es ?fresh r)"
      using t r(2) by (simp add: holds_key_def)
    ultimately have "row_of_key ?rows (t, k) = Some (settle t es ?fresh r)"
      by (rule row_of_key_eq [OF raw_table_okD(1) [OF ok]])
    then show ?thesis using r(2,3) t by (simp add: settle_def)
  qed
  have new_id: "map_of ?ret k = (if k \<in> ?fresh then Some (rt_id (?row k)) else None)" for k
    using new_row [of k] fresh map_of_eq_None_iff [of ?ret k] by auto
  have not_bumped: "k \<in> ?fresh \<and> batch_delta es ?fresh k = 0"
    if "k \<in> li_idempotency_key ` set es" and "k \<notin> fst ` set incs" for k
  proof -
    have "0 < submissions_per_key es k" using that(1) by (simp add: submissions_per_key_iff)
    then show ?thesis using that by (auto simp: incs batch_delta_def split: if_splits)
  qed
  have id: "map_of ?ins k = Some (rt_id (?row k))" if "k \<in> li_idempotency_key ` set es" for k
    using not_bumped [OF that] unfolding setdefault_fold_map_of new_id sel by auto
  have cnt: "(case map_of ?counts k of None \<Rightarrow> 0 | Some c \<Rightarrow> c) = rt_duplicate_count (?row k)"
    if "k \<in> li_idempotency_key ` set es" for k
  proof -
    have "List.find (\<lambda>r. rt_idempotency_key r = k) (rev ?sel) = List.find (\<lambda>r. rt_idempotency_key r = k) ?sel"
      by (rule find_rev_unique)
        (auto intro: holds_key_unique [OF raw_table_okD(1) [OF ok], of _ _ t k] simp: holds_key_def)
    then show ?thesis
      using not_bumped [OF that] new_row [of k]
      unfolding rev_map map_of_keyed_rows sel by auto
  qed
  let ?out = "\<lambda>(k, e). batch_response dump now t es d k"
  have resp: "batch_response dump now t es d k = \<lparr> io_row_id = rt_id (?row k), io_txn_id = li_txn_id e,
      io_duplicate = (k \<in> fst ` set incs), io_submissions = rt_duplicate_count (?row k) + 1 \<rparr>"
    if "(k, e) \<in> set fbk" for k e
    using first_by_keyD [of k e es] that
    by (auto simp: batch_response_def outcome_of_key_def Let_def incs fbk_def)
  have mem: "k \<in> li_idempotency_key ` set es" if "(k, e) \<in> set fbk" for k e
    using first_by_keyD [of k e es] that by (auto simp: fbk_def)
  have outs: "batch_outcomes ?ins incs ?counts fbk = Inr (map ?out fbk)"
    by (subst batch_outcomes_eq [where f = "\<lambda>k. rt_id (?row k)"])
      (use id mem cnt resp in \<open>auto intro!: map_cong\<close>)
  have inj: "inj_on (\<lambda>k. rt_id (?row k)) (fst ` set fbk)"
  proof (rule inj_onI)
    fix k k'
    assume k: "k \<in> fst ` set fbk" "k' \<in> fst ` set fbk" and eq: "rt_id (?row k) = rt_id (?row k')"
    then have r: "row_of_key ?rows (t, k) = Some (?row k)" "row_of_key ?rows (t, k') = Some (?row k')"
      using row mem by auto
    have "?row k = ?row k'"
      using distinct_map_eqD [OF raw_table_okD(2) [OF ok] _ _ eq] row_of_key_SomeD [OF r(1)]
        row_of_key_SomeD [OF r(2)] by blast
    then show "k = k'" using row_of_key_SomeD [OF r(1)] row_of_key_SomeD [OF r(2)] by (simp add: holds_key_def)
  qed
  have found: "List.find (\<lambda>out. io_row_id out = rt_id (?row (li_idempotency_key e))) (rev (map ?out fbk)) =
      Some (batch_response dump now t es d (li_idempotency_key e))" if "e \<in> set es" for e
  proof -
    let ?k = "li_idempotency_key e"
    have "?k \<in> fst ` set fbk" using that by (simp add: fbk_def first_by_key_keys)
    then obtain e' where e': "(?k, e') \<in> set fbk" by auto
    have outs_eq: "map ?out fbk = map (\<lambda>(k, e). \<lparr> io_row_id = rt_id (?row k), io_txn_id = li_txn_id e,
        io_duplicate = (k \<in> fst ` set incs), io_submissions = rt_duplicate_count (?row k) + 1 \<rparr>) fbk"
      using resp by auto
    have dist: "distinct (map fst fbk)" by (simp add: fbk_def first_by_key_distinct)
    show ?thesis
      unfolding outs_eq resp [OF e'] rev_map
      by (rule find_id_map) (use e' dist inj in \<open>simp_all flip: rev_map\<close>)
  qed
  have "in_request_order ?ins (map ?out fbk) es =
      Inr (map (\<lambda>e. batch_response dump now t es d (li_idempotency_key e)) es)"
    by (rule in_request_order_eq [where f = "\<lambda>k. rt_id (?row k)"]) (use id found in auto)
  then show ?thesis
    using assms(1) ins outs rows
    by (simp add: ingest_ledger_batch_def Let_def incs_def fbk_def t_def n_def fun_upd_def
      del: insert_entries.simps enqueue.simps)
qed

subsection \<open>The interface: submissions that are counted\<close>

text \<open>
  What a key leads to after the submissions \<open>xs\<close> for it, given what it led to before: the first
  receipt is the record, and every later one moves the counter by one.
\<close>

fun counted :: "('x \<Rightarrow> 'c) \<Rightarrow> ('c \<times> int) option \<Rightarrow> 'x list \<Rightarrow> ('c \<times> int) option" where
  "counted receipt (Some (c, n)) xs = Some (c, n + int (length xs))"
| "counted receipt None [] = None"
| "counted receipt None (x # xs) = Some (receipt x, int (length xs))"

lemma counted_Nil [simp]: "counted receipt v [] = v"
  by (cases v) auto

lemma counted_append: "counted receipt v (xs @ ys) = counted receipt (counted receipt v xs) ys"
proof (cases v)
  case None
  then show ?thesis by (cases xs) auto
next
  case (Some cn)
  then show ?thesis by (cases cn) auto
qed

text \<open>Operations one after the other, each on the state the one before it committed.\<close>

fun run_all :: "('x \<Rightarrow> 's \<Rightarrow> 'e + 's \<times> 'o) \<Rightarrow> 'x list \<Rightarrow> 's \<Rightarrow> 'e + 's \<times> 'o list" where
  "run_all f [] s = Inr (s, [])"
| "run_all f (x # xs) s =
     (case f x s of
        Inl e \<Rightarrow> Inl e
      | Inr (s1, out) \<Rightarrow>
          (case run_all f xs s1 of Inl e \<Rightarrow> Inl e | Inr (s2, outs) \<Rightarrow> Inr (s2, out # outs)))"

locale counted_submissions =
  fixes submit :: "'x \<Rightarrow> 's \<Rightarrow> 'e + 's \<times> 'o"
    and view :: "'s \<Rightarrow> 'k \<Rightarrow> ('c \<times> int) option"
    and key :: "'x \<Rightarrow> 'k"
    and receipt :: "'x \<Rightarrow> 'c"
    and ok :: "'s \<Rightarrow> bool"
    and storable :: "'s \<Rightarrow> 'x \<Rightarrow> bool"
  assumes submit_law: "ok s \<Longrightarrow> storable s x \<Longrightarrow>
    \<exists>s' out. submit x s = Inr (s', out) \<and> ok s' \<and> (\<forall>y. storable s y \<longrightarrow> storable s' y) \<and>
      view s' = (view s)(key x := counted receipt (view s (key x)) [x])"
begin

lemma run_law:
  assumes "ok s" and "\<forall>x \<in> set xs. storable s x"
  shows "\<exists>s' outs. run_all submit xs s = Inr (s', outs) \<and> ok s' \<and> length outs = length xs \<and>
    (\<forall>k. view s' k = counted receipt (view s k) (filter (\<lambda>x. key x = k) xs))"
  using assms
proof (induction xs arbitrary: s)
  case Nil
  then show ?case by simp
next
  case (Cons x xs)
  obtain s1 out where s1: "submit x s = Inr (s1, out)" "ok s1" "\<forall>y. storable s y \<longrightarrow> storable s1 y"
    "view s1 = (view s)(key x := counted receipt (view s (key x)) [x])"
    using submit_law [of s x] Cons.prems by auto
  then obtain s' outs where s': "run_all submit xs s1 = Inr (s', outs)" "ok s'" "length outs = length xs"
    "\<And>k. view s' k = counted receipt (view s1 k) (filter (\<lambda>x. key x = k) xs)"
    using Cons.IH [of s1] Cons.prems by auto
  have "view s' k = counted receipt (view s k) (filter (\<lambda>x. key x = k) (x # xs))" for k
    using counted_append [of receipt "view s k" "[x]" "filter (\<lambda>x. key x = k) xs"]
    by (simp add: s'(4) s1(4))
  with s1 s' show ?case by auto
qed

text \<open>Only the order of the submissions of one and the same key matters.\<close>

lemma run_interleaving:
  assumes "ok s" and "\<forall>x \<in> set xs. storable s x" and "\<forall>x \<in> set ys. storable s x"
    and "\<And>k. filter (\<lambda>x. key x = k) xs = filter (\<lambda>x. key x = k) ys"
    and "run_all submit xs s = Inr (s1, outs1)" and "run_all submit ys s = Inr (s2, outs2)"
  shows "view s1 = view s2"
  using run_law [OF assms(1,2)] run_law [OF assms(1,3)] assms(4-) by (auto simp: fun_eq_iff)

end

subsection \<open>Both sides implement it\<close>

text \<open>What a raw row records of its first receipt: all but its id, its counter and its state.\<close>

definition recorded :: "'a raw_txn_scheme \<Rightarrow> 'a raw_txn_scheme" where
  "recorded r = r\<lparr> rt_id := 0, rt_duplicate_count := 0, rt_reconciled_at := None \<rparr>"

definition receipts :: "'a raw_txn_scheme list \<Rightarrow> int \<times> string \<Rightarrow> ('a raw_txn_scheme \<times> int) option" where
  "receipts rows tk = map_option (\<lambda>r. (recorded r, rt_duplicate_count r)) (row_of_key rows tk)"

lemma row_of_key_single: "row_of_key [r] (t, k) = (if holds_key t k r then Some r else None)"
  by (simp add: row_of_key_def)

lemma receipts_append:
  assumes "row_of_key rows (t, k) = None" and "holds_key t k r"
  shows "receipts (rows @ [r]) = (receipts rows)((t, k) := Some (recorded r, rt_duplicate_count r))"
proof
  fix tk :: "int \<times> string"
  obtain t' k' where tk: "tk = (t', k')" by fastforce
  show "receipts (rows @ [r]) tk = ((receipts rows)((t, k) := Some (recorded r, rt_duplicate_count r))) tk"
  proof (cases "(t', k') = (t, k)")
    case True
    with assms show ?thesis by (simp add: tk receipts_def row_of_key_append row_of_key_single)
  next
    case False
    then have "\<not> holds_key t' k' r" using assms(2) by (auto simp: holds_key_def)
    with False show ?thesis
      by (auto simp: tk receipts_def row_of_key_append row_of_key_single split: option.split)
  qed
qed

lemma recorded_bump [simp]: "recorded (bump n r) = recorded r"
  by (simp add: recorded_def bump_def)

lemma receipts_bump:
  assumes "row_of_key rows (t, k) = Some r"
  shows "receipts (update_where (holds_key t k) (bump n) rows) =
    (receipts rows)((t, k) := Some (recorded r, rt_duplicate_count r + n))"
proof
  fix tk :: "int \<times> string"
  obtain t' k' where tk: "tk = (t', k')" by fastforce
  show "receipts (update_where (holds_key t k) (bump n) rows) tk =
    ((receipts rows)((t, k) := Some (recorded r, rt_duplicate_count r + n))) tk"
  proof (cases "row_of_key rows (t', k')")
    case None
    with assms show ?thesis by (auto simp: tk receipts_def row_of_key_update)
  next
    case (Some q)
    then have "holds_key t' k' q" by (simp add: row_of_key_SomeD)
    then show ?thesis
      using Some assms by (auto simp: tk receipts_def row_of_key_update holds_key_def)
  qed
qed

type_synonym gateway_submission = "instant \<times> tenant \<times> gateway_webhook_in \<times> string \<times> json"

fun submit_gateway :: "gateway_submission \<Rightarrow> db \<Rightarrow> db_error + db \<times> ingest_outcome" where
  "submit_gateway (now, tn, p, k, body) d = ingest_gateway now tn p k body d"

fun gateway_key :: "gateway_submission \<Rightarrow> int \<times> string" where
  "gateway_key (now, tn, p, k, body) = (tn_account_id tn, k)"

fun gateway_receipt :: "gateway_submission \<Rightarrow> gateway_transaction" where
  "gateway_receipt (now, tn, p, k, body) = gateway_row 0 now tn p (the (numeric_18_2 (gw_amount p))) k body"

fun gateway_submittable :: "db \<Rightarrow> gateway_submission \<Rightarrow> bool" where
  "gateway_submittable d (now, tn, p, k, body) \<longleftrightarrow> gateway_storable p k \<and> has_account d (tn_account_id tn)"

definition gateway_table_ok :: "db \<Rightarrow> bool" where
  "gateway_table_ok d \<longleftrightarrow> raw_table_ok (db_next d T_gateway_transactions) (db_gateway_transactions d)"

definition ledger_table_ok :: "db \<Rightarrow> bool" where
  "ledger_table_ok d \<longleftrightarrow> raw_table_ok (db_next d T_ledger_entries) (db_ledger_entries d)"

lemma has_account_frame [simp]:
  "has_account (enqueue now src outs d) i = has_account d i"
  "has_account (d\<lparr> db_next := n, db_gateway_transactions := gs \<rparr>) i = has_account d i"
  "has_account (d\<lparr> db_next := n, db_ledger_entries := es \<rparr>) i = has_account d i"
  by (simp_all add: has_account_def)

lemma gateway_submittable_frame:
  "gateway_submittable (enqueue now src outs (d\<lparr> db_next := n, db_gateway_transactions := gs \<rparr>)) x =
     gateway_submittable d x"
  by (cases x) simp

lemma gateway_submit_law:
  assumes "gateway_table_ok d" and "gateway_submittable d x"
  shows "\<exists>d' out. submit_gateway x d = Inr (d', out) \<and> gateway_table_ok d' \<and>
      (\<forall>y. gateway_submittable d y \<longrightarrow> gateway_submittable d' y) \<and>
      receipts (db_gateway_transactions d') =
        (receipts (db_gateway_transactions d))
          (gateway_key x := counted gateway_receipt (receipts (db_gateway_transactions d) (gateway_key x)) [x])"
proof -
  obtain now tn p k body where x: "x = (now, tn, p, k, body)" by (metis prod_cases5)
  let ?t = "tn_account_id tn" and ?rows = "db_gateway_transactions d"
  have st: "gateway_storable p k" and acc: "has_account d ?t"
    and ok: "raw_table_ok (db_next d T_gateway_transactions) ?rows"
    using assms by (simp_all add: x gateway_table_ok_def)
  obtain a where a: "numeric_18_2 (gw_amount p) = Some a" using st by (auto simp: gateway_storable_def)
  show ?thesis
  proof (cases "row_of_key ?rows (?t, k)")
    case None
    let ?row = "gateway_row (db_next d T_gateway_transactions) now tn p a k body"
    have tab: "raw_table_ok (db_next d T_gateway_transactions + 1) (?rows @ [?row])"
      using ok None by (intro raw_table_ok_append1) (simp_all add: conflicts_row_of_key)
    have "recorded ?row = gateway_row 0 now tn p a k body"
      by (simp add: recorded_def gateway_row_def)
    then have view: "receipts (?rows @ [?row]) = (receipts ?rows)((?t, k) := Some (gateway_row 0 now tn p a k body, 0))"
      using receipts_append [OF None, of ?row] by (simp add: holds_key_def)
    have "receipts ?rows (?t, k) = None" using None by (simp add: receipts_def)
    then show ?thesis
      unfolding x submit_gateway.simps ingest_gateway_fresh [OF st a acc None]
      using view tab a by (auto simp: gateway_table_ok_def enqueue_next gateway_submittable_frame
          simp del: enqueue.simps)
  next
    case (Some r)
    let ?rows' = "update_where (holds_key ?t k) (bump 1) ?rows"
    have tab: "raw_table_ok (db_next d T_gateway_transactions + 1) ?rows'"
      using raw_table_ok_mono [OF ok] by (simp add: raw_table_ok_update)
    have "receipts ?rows (?t, k) = Some (recorded r, rt_duplicate_count r)"
      using Some by (simp add: receipts_def)
    then show ?thesis
      unfolding x submit_gateway.simps ingest_gateway_again [OF st raw_table_okD(1) [OF ok] Some]
      using receipts_bump [OF Some] tab
      by (auto simp: gateway_table_ok_def enqueue_next gateway_submittable_frame simp del: enqueue.simps)
  qed
qed

interpretation gateway_counted: counted_submissions submit_gateway
  "\<lambda>d. receipts (db_gateway_transactions d)" gateway_key gateway_receipt gateway_table_ok gateway_submittable
  by unfold_locales (rule gateway_submit_law)

text \<open>The record of a key after a batch, in terms of the record before it.\<close>

fun ledger_receipt :: "(ledger_entry_in \<Rightarrow> json) \<Rightarrow> instant \<times> tenant \<times> ledger_entry_in \<Rightarrow> ledger_entry" where
  "ledger_receipt dump (now, tn, e) =
     ledger_row dump 0 now (tn_account_id tn) e (the (numeric_18_2 (li_amount e)))"

lemma recorded_settle [simp]: "recorded (settle t es fresh r) = recorded r"
  by (simp add: settle_def)

lemma recorded_ledger_row: "recorded (ledger_row dump i now t e a) = ledger_row dump 0 now t e a"
  by (simp add: recorded_def ledger_row_def)

lemma find_hd_filter: "List.find p xs = (case filter p xs of [] \<Rightarrow> None | x # _ \<Rightarrow> Some x)"
  by (induction xs) auto

lemma submissions_per_key_length:
  "submissions_per_key es k = int (length (filter (\<lambda>e. li_idempotency_key e = k) es))"
  by (induction es) (auto simp: submissions_per_key_def)

lemma batch_receipts:
  assumes "list_all ledger_storable es"
  shows "receipts (batch_rows dump now t es d) (t', k) =
    (if t' = t
     then counted (\<lambda>e. ledger_row dump 0 now t e (the (numeric_18_2 (li_amount e))))
            (receipts (db_ledger_entries d) (t, k)) (filter (\<lambda>e. li_idempotency_key e = k) es)
     else receipts (db_ledger_entries d) (t', k))"
proof -
  let ?old = "db_ledger_entries d" and ?fbk = "first_by_key es"
  let ?new = "fresh_rows dump (db_next d T_ledger_entries) now t ?old (map snd ?fbk)"
  let ?fresh = "fresh_keys t ?old es"
  have row: "row_of_key (batch_rows dump now t es d) (t', k) =
      map_option (settle t es ?fresh) (case row_of_key ?old (t', k) of
        None \<Rightarrow> row_of_key ?new (t', k) | Some r \<Rightarrow> Some r)"
    unfolding batch_rows_def by (subst row_of_key_map) (simp_all add: row_of_key_append)
  show ?thesis
  proof (cases "row_of_key ?old (t', k)")
    case (Some r)
    then have r: "rt_tenant_id r = t'" "rt_idempotency_key r = k"
      by (auto simp: holds_key_def dest!: row_of_key_SomeD)
    have "k \<notin> ?fresh" if "t' = t" using that Some by (simp add: fresh_keys_def)
    then show ?thesis
      using Some r by (auto simp: receipts_def row settle_def batch_delta_def submissions_per_key_length)
  next
    case None
    show ?thesis
    proof (cases "\<exists>r. row_of_key ?new (t', k) = Some r")
      case True
      then obtain r where r: "row_of_key ?new (t', k) = Some r" by blast
      from row_of_key_SomeD [OF r] in_fresh_rows obtain e j where e: "e \<in> set (map snd ?fbk)"
        "r = ledger_row dump j now t e (the (numeric_18_2 (li_amount e)))" "holds_key t' k r" by metis
      then have tk: "t' = t" "li_idempotency_key e = k" by (auto simp: holds_key_def)
      from e(1) tk(2) have "(k, e) \<in> set ?fbk" using first_by_keyD(2) by fastforce
      from first_by_keyD(1,3) [OF this] obtain rest where
        f: "filter (\<lambda>e. li_idempotency_key e = k) es = e # rest" and mem: "e \<in> set es"
        by (auto simp: find_hd_filter split: list.splits)
      have "k \<in> ?fresh" using None tk mem by (auto simp: fresh_keys_def)
      then show ?thesis
        unfolding receipts_def row using None r e(2) tk f
        by (simp add: settle_def batch_delta_def submissions_per_key_length recorded_ledger_row)
    next
      case False
      then have no: "row_of_key ?new (t', k) = None" by auto
      have "filter (\<lambda>e. li_idempotency_key e = k) es = []" if "t' = t"
      proof (rule ccontr)
        assume "filter (\<lambda>e. li_idempotency_key e = k) es \<noteq> []"
        then have "k \<in> li_idempotency_key ` set es" by (auto simp: filter_empty_conv)
        from batch_rows_hold [OF this, of dump now t d] no None that row show False by auto
      qed
      with None no show ?thesis by (auto simp: receipts_def row)
    qed
  qed
qed

type_synonym ledger_submission = "instant \<times> tenant \<times> ledger_entry_in"

fun submit_ledger ::
  "(ledger_entry_in \<Rightarrow> json) \<Rightarrow> ledger_submission \<Rightarrow> db \<Rightarrow> db_error + db \<times> ingest_outcome list" where
  "submit_ledger dump (now, tn, e) d = ingest_ledger_batch dump now tn [e] d"

fun ledger_key :: "ledger_submission \<Rightarrow> int \<times> string" where
  "ledger_key (now, tn, e) = (tn_account_id tn, li_idempotency_key e)"

fun ledger_submittable :: "db \<Rightarrow> ledger_submission \<Rightarrow> bool" where
  "ledger_submittable d (now, tn, e) \<longleftrightarrow> ledger_storable e \<and> has_account d (tn_account_id tn)"

lemma ledger_submittable_frame:
  "ledger_submittable (enqueue now src outs (d\<lparr> db_next := n, db_ledger_entries := es \<rparr>)) x =
     ledger_submittable d x"
  by (cases x) simp

lemma ledger_submit_law:
  assumes "ledger_table_ok d" and "ledger_submittable d x"
  shows "\<exists>d' out. submit_ledger dump x d = Inr (d', out) \<and> ledger_table_ok d' \<and>
      (\<forall>y. ledger_submittable d y \<longrightarrow> ledger_submittable d' y) \<and>
      receipts (db_ledger_entries d') =
        (receipts (db_ledger_entries d))
          (ledger_key x := counted (ledger_receipt dump) (receipts (db_ledger_entries d) (ledger_key x)) [x])"
proof -
  obtain now tn e where x: "x = (now, tn, e)" by (metis prod_cases3)
  let ?t = "tn_account_id tn" and ?n = "db_next d T_ledger_entries"
  have st: "list_all ledger_storable [e]" and acc: "has_account d ?t"
    and ok: "raw_table_ok ?n (db_ledger_entries d)"
    using assms by (simp_all add: x ledger_table_ok_def)
  have "receipts (batch_rows dump now ?t [e] d) tk =
    ((receipts (db_ledger_entries d))
      (ledger_key x := counted (ledger_receipt dump) (receipts (db_ledger_entries d) (ledger_key x)) [x])) tk" for tk
  proof -
    obtain t' k' where tk: "tk = (t', k')" by fastforce
    have "counted f v [e] = counted (ledger_receipt dump) v [x]"
      if "f = (\<lambda>e. ledger_row dump 0 now ?t e (the (numeric_18_2 (li_amount e))))" for f v
      by (cases v) (auto simp: x that)
    then show ?thesis
      unfolding tk batch_receipts [OF st] by (auto simp: x)
  qed
  then have "receipts (batch_rows dump now ?t [e] d) =
    (receipts (db_ledger_entries d))
      (ledger_key x := counted (ledger_receipt dump) (receipts (db_ledger_entries d) (ledger_key x)) [x])"
    by blast
  then show ?thesis
    using batch_rows_ok [OF ok, of "[e]" dump now ?t] ingest_ledger_batch_eq [OF _ st acc ok, of dump now]
    unfolding x
    by (auto simp: ledger_table_ok_def enqueue_next ledger_submittable_frame simp del: enqueue.simps)
qed

interpretation ledger_counted: counted_submissions "submit_ledger dump"
  "\<lambda>d. receipts (db_ledger_entries d)" ledger_key "ledger_receipt dump" ledger_table_ok ledger_submittable
  for dump
  by unfold_locales (rule ledger_submit_law)

subsection \<open>The properties of ingestion\<close>

text \<open>A validated submission: what the route hands to \<open>ingest_gateway\<close> for an existing account.\<close>

fun gateway_submission_ok :: "db \<Rightarrow> gateway_submission \<Rightarrow> bool" where
  "gateway_submission_ok d (now, tn, p, k, body) \<longleftrightarrow>
     gateway_webhook_ok p \<and> idem_key_field k \<and> has_account d (tn_account_id tn)"

lemma gateway_submission_okD: "gateway_submission_ok d x \<Longrightarrow> gateway_submittable d x"
  by (cases x) (simp add: gateway_storableI)

definition example_account :: account where
  "example_account =
     \<lparr> ac_id = 1, ac_name = ''acme'', ac_kind = REAL, ac_created_at = 0, ac_last_seen_at = 0 \<rparr>"

definition example_db :: db where
  "example_db = empty_db\<lparr> db_accounts := [example_account], db_next := (\<lambda>_. 1)(T_accounts := 2) \<rparr>"

definition example_tenant :: tenant where
  "example_tenant = \<lparr> tn_account_id = 1, tn_name = ''acme'', tn_kind = REAL \<rparr>"

definition example_payload :: gateway_webhook_in where
  "example_payload = \<lparr> gw_txn_id = ''TXN-1'', gw_amount = Dec 125050 (-2), gw_currency = ''INR'',
     gw_occurred_at = 1000000, gw_gateway_ref = ''pay_1'' \<rparr>"

definition example_entry :: "string \<Rightarrow> ledger_entry_in" where
  "example_entry k = \<lparr> li_entry_id = ''LE-1'', li_txn_id = ''TXN-1'', li_amount = Dec 125050 (-2),
     li_currency = ''INR'', li_occurred_at = 2000000, li_idempotency_key = k \<rparr>"

lemmas example_defs =
  example_account_def example_db_def example_tenant_def example_payload_def example_entry_def empty_db_def

lemma example_entry_key: "li_idempotency_key (example_entry k) = k"
  by (simp add: example_entry_def)

lemma example_money: "numeric_18_2 (Dec 125050 (-2)) = Some (Dec 125050 (-2))"
  by (simp add: numeric_18_2_def)

lemma example_db_ok: "gateway_table_ok example_db" "ledger_table_ok example_db" "has_account example_db 1"
  by (simp_all add: example_defs gateway_table_ok_def ledger_table_ok_def raw_table_ok_def index_ok_def
    has_account_def)

lemma example_payload_ok: "gateway_webhook_ok example_payload"
  by (simp add: gateway_webhook_ok_def example_payload_def short_id_field_def money_field_def iso4217_def)

lemma example_entry_ok: "k \<noteq> [] \<Longrightarrow> length k \<le> 255 \<Longrightarrow> ledger_entry_ok (example_entry k)"
  by (cases k) (simp_all add: ledger_entry_ok_def example_entry_def short_id_field_def idem_key_field_def
    money_field_def iso4217_def)



text \<open>
  C10. The batched ledger sync is the one-by-one sync. For every validated batch of an existing
  account, \<open>ingest_ledger_batch\<close>, which collapses repeated keys and issues two statements for the
  whole batch, leaves the same records and counters under every (tenant, key) as submitting the
  entries one after the other.
\<close>

theorem batch_refines_single_entries:
  assumes "ledger_table_ok d" and "ledger_sync_ok es" and "has_account d (tn_account_id tn)"
  shows "\<exists>d1 outs1 d2 outs2.
    ingest_ledger_batch dump now tn es d = Inr (d1, outs1) \<and>
    run_all (submit_ledger dump) (map (\<lambda>e. (now, tn, e)) es) d = Inr (d2, outs2) \<and>
    receipts (db_ledger_entries d1) = receipts (db_ledger_entries d2)"
proof -
  let ?t = "tn_account_id tn" and ?xs = "map (\<lambda>e. (now, tn, e)) es"
  have es: "es \<noteq> []" and st: "list_all ledger_storable es"
    using assms(2) ledger_storableI by (auto simp: ledger_sync_ok_def list_all_iff)
  have "\<forall>x \<in> set ?xs. ledger_submittable d x" using st assms(3) by (auto simp: list_all_iff)
  then obtain d2 outs2 where d2: "run_all (submit_ledger dump) ?xs d = Inr (d2, outs2)"
    "\<And>tk. receipts (db_ledger_entries d2) tk =
      counted (ledger_receipt dump) (receipts (db_ledger_entries d) tk) (filter (\<lambda>x. ledger_key x = tk) ?xs)"
    using ledger_counted.run_law [OF assms(1), of ?xs dump] by blast
  have "receipts (batch_rows dump now ?t es d) (t', k') = receipts (db_ledger_entries d2) (t', k')" for t' k'
  proof -
    have f: "filter (\<lambda>x. ledger_key x = (t', k')) ?xs =
        (if t' = ?t then map (\<lambda>e. (now, tn, e)) (filter (\<lambda>e. li_idempotency_key e = k') es) else [])"
      by (induction es) auto
    have "counted (ledger_receipt dump) v (map (\<lambda>e. (now, tn, e)) ys) =
        counted (\<lambda>e. ledger_row dump 0 now ?t e (the (numeric_18_2 (li_amount e)))) v ys" for v ys
    proof (cases v)
      case None
      then show ?thesis by (cases ys) auto
    next
      case (Some cn)
      then show ?thesis by (cases cn) auto
    qed
    then show ?thesis unfolding d2(2) f batch_receipts [OF st] by auto
  qed
  then have "receipts (batch_rows dump now ?t es d) = receipts (db_ledger_entries d2)" by fastforce
  with d2(1) show ?thesis
    using ingest_ledger_batch_eq [OF es st assms(3) assms(1) [unfolded ledger_table_ok_def], of dump now]
    by (auto simp del: enqueue.simps)
qed

theorem batch_refines_single_entries_witness:
  "\<exists>d1 outs1 d2 outs2.
     ingest_ledger_batch (\<lambda>_. JNull) 5 example_tenant
       [example_entry ''k'', example_entry ''j'', example_entry ''k''] example_db = Inr (d1, outs1) \<and>
     run_all (submit_ledger (\<lambda>_. JNull)) (map (\<lambda>e. (5, example_tenant, e))
       [example_entry ''k'', example_entry ''j'', example_entry ''k'']) example_db = Inr (d2, outs2) \<and>
     receipts (db_ledger_entries d1) = receipts (db_ledger_entries d2)"
  by (rule batch_refines_single_entries)
    (use example_db_ok in \<open>simp_all add: ledger_sync_ok_def example_entry_ok example_tenant_def\<close>)

text \<open>What the response to a batch says of one of its keys.\<close>

lemma batch_response_sel:
  assumes "e \<in> set es"
  obtains r where "row_of_key (batch_rows dump now t es d) (t, li_idempotency_key e) = Some r"
    and "io_row_id (batch_response dump now t es d (li_idempotency_key e)) = rt_id r"
    and "io_submissions (batch_response dump now t es d (li_idempotency_key e)) = rt_duplicate_count r + 1"
    and "io_duplicate (batch_response dump now t es d (li_idempotency_key e)) \<longleftrightarrow>
      row_of_key (db_ledger_entries d) (t, li_idempotency_key e) \<noteq> None \<or>
      1 < submissions_per_key es (li_idempotency_key e)"
proof -
  let ?k = "li_idempotency_key e"
  have mem: "?k \<in> li_idempotency_key ` set es" using assms by simp
  obtain r where r: "row_of_key (batch_rows dump now t es d) (t, ?k) = Some r"
    using batch_rows_hold [OF mem] by blast
  have "0 < submissions_per_key es ?k" using mem by (simp only: submissions_per_key_iff)
  then have "0 < batch_delta es (fresh_keys t (db_ledger_entries d) es) ?k \<longleftrightarrow>
      row_of_key (db_ledger_entries d) (t, ?k) \<noteq> None \<or> 1 < submissions_per_key es ?k"
    using mem by (auto simp: batch_delta_def fresh_keys_def)
  with r show thesis by (intro that) (simp_all add: batch_response_def outcome_of_key_def Let_def)
qed

text \<open>
  The response of a batch. It has one outcome per entry, in request order; the outcome names the
  row that now holds the entry's key for this tenant and the true number of submissions of that key;
  it says \<open>duplicate\<close> exactly when the key was held before the batch or occurs more than once in it.
\<close>

theorem batch_response_in_request_order:
  assumes "ledger_table_ok d" and "ledger_sync_ok es" and "has_account d (tn_account_id tn)"
  shows "\<exists>d' outs. ingest_ledger_batch dump now tn es d = Inr (d', outs) \<and>
    list_all2 (\<lambda>e out. \<exists>r. row_of_key (db_ledger_entries d') (tn_account_id tn, li_idempotency_key e) = Some r \<and>
        io_row_id out = rt_id r \<and> io_submissions out = rt_duplicate_count r + 1 \<and>
        (io_duplicate out \<longleftrightarrow>
           row_of_key (db_ledger_entries d) (tn_account_id tn, li_idempotency_key e) \<noteq> None \<or>
           1 < submissions_per_key es (li_idempotency_key e)))
      es outs"
proof -
  have es: "es \<noteq> []" and st: "list_all ledger_storable es"
    using assms(2) ledger_storableI by (auto simp: ledger_sync_ok_def list_all_iff)
  have each: "\<exists>r. row_of_key (batch_rows dump now t es d) (t, li_idempotency_key e) = Some r \<and>
      io_row_id (batch_response dump now t es d (li_idempotency_key e)) = rt_id r \<and>
      io_submissions (batch_response dump now t es d (li_idempotency_key e)) = rt_duplicate_count r + 1 \<and>
      (io_duplicate (batch_response dump now t es d (li_idempotency_key e)) \<longleftrightarrow>
        row_of_key (db_ledger_entries d) (t, li_idempotency_key e) \<noteq> None \<or>
        1 < submissions_per_key es (li_idempotency_key e))" if "e \<in> set es" for e t
    by (rule batch_response_sel [OF that, of dump now t d]) blast
  show ?thesis
    unfolding ingest_ledger_batch_eq [OF es st assms(3) assms(1) [unfolded ledger_table_ok_def]]
    by (intro exI conjI, rule refl)
      (simp del: enqueue.simps, rule list_all2_map_self, rule each [simplified], assumption)
qed

theorem batch_response_in_request_order_witness:
  "\<exists>d' a b c. ingest_ledger_batch (\<lambda>_. JNull) 5 example_tenant
       [example_entry ''k'', example_entry ''j'', example_entry ''k''] example_db = Inr (d', [a, b, c]) \<and>
     io_duplicate a \<and> \<not> io_duplicate b \<and> io_duplicate c"
proof -
  let ?es = "[example_entry ''k'', example_entry ''j'', example_entry ''k'']"
  have old: "row_of_key (db_ledger_entries example_db) tk = None" for tk
    by (simp add: example_defs row_of_key_def)
  have h: "ledger_sync_ok ?es" "has_account example_db (tn_account_id example_tenant)"
    using example_db_ok by (simp_all add: ledger_sync_ok_def example_entry_ok example_tenant_def)
  show ?thesis
    using batch_response_in_request_order [OF example_db_ok(2) h, of "\<lambda>_. JNull" 5]
    unfolding old by (auto simp: list_all2_Cons1 submissions_per_key_def example_entry_def)
qed

text \<open>The events a statement appended, and the rows it wrote.\<close>

definition has_event :: "db \<Rightarrow> ingest_source \<Rightarrow> int \<Rightarrow> bool \<Rightarrow> bool" where
  "has_event d src i dup \<longleftrightarrow>
     (\<exists>ev \<in> set (db_outbox_events d). ob_source ev = src \<and> ob_row_id ev = i \<and> ob_published_at ev = None \<and>
        (\<exists>m. from_payload (ob_payload ev) = Inr m \<and> im_source m = src \<and> im_row_id m = i \<and> im_is_duplicate m = dup))"

lemma has_event_enqueue:
  assumes "out \<in> set outs"
  shows "has_event (enqueue now src outs d) src (io_row_id out) (io_duplicate out)"
proof -
  obtain evs where evs: "db_outbox_events (enqueue now src outs d) = db_outbox_events d @ evs"
    "list_all2 (\<lambda>ev out. ob_source ev = src \<and> ob_row_id ev = io_row_id out \<and>
       ob_payload ev = to_payload (message_of src out) \<and> ob_published_at ev = None) evs outs"
    using enqueue_outbox by blast
  from assms obtain i where "i < length outs" "outs ! i = out" by (auto simp: in_set_conv_nth)
  with evs(2) have "evs ! i \<in> set evs" "ob_source (evs ! i) = src" "ob_row_id (evs ! i) = io_row_id out"
    "ob_payload (evs ! i) = to_payload (message_of src out)" "ob_published_at (evs ! i) = None"
    by (auto simp: list_all2_conv_all_nth)
  then show ?thesis
    unfolding has_event_def evs(1)
    by (intro bexI [of _ "evs ! i"] conjI exI [of _ "message_of src out"])
      (simp_all add: from_to_payload message_of_def)
qed

lemma gateway_row_has_event:
  assumes "gateway_table_ok d" and "gateway_submission_ok d x"
  shows "\<exists>d1 out. submit_gateway x d = Inr (d1, out) \<and>
      (\<forall>r \<in> set (db_gateway_transactions d1). rt_id r \<in> rt_id ` set (db_gateway_transactions d) \<or>
         (\<exists>dup. has_event d1 GATEWAY (rt_id r) dup))"
proof -
  obtain now tn p k body where x: "x = (now, tn, p, k, body)" by (metis prod_cases5)
  have st: "gateway_storable p k" and acc: "has_account d (tn_account_id tn)"
    using assms(2) gateway_storableI by (auto simp: x)
  show ?thesis
  proof (cases "row_of_key (db_gateway_transactions d) (tn_account_id tn, k)")
    case None
    obtain a where a: "numeric_18_2 (gw_amount p) = Some a" using st by (auto simp: gateway_storable_def)
    let ?out = "\<lparr> io_row_id = db_next d T_gateway_transactions, io_txn_id = gw_txn_id p,
      io_duplicate = False, io_submissions = 1 \<rparr>"
    have "has_event (enqueue now GATEWAY [?out] d') GATEWAY (db_next d T_gateway_transactions) False" for d'
      using has_event_enqueue [of ?out "[?out]" now GATEWAY d'] by (simp del: enqueue.simps)
    then show ?thesis
      unfolding x submit_gateway.simps ingest_gateway_fresh [OF st a acc None]
      by (auto simp del: enqueue.simps)
  next
    case (Some r)
    show ?thesis
      unfolding x submit_gateway.simps
        ingest_gateway_again [OF st raw_table_okD(1) [OF assms(1) [unfolded gateway_table_ok_def]] Some]
      by (auto simp: set_update_where simp del: enqueue.simps)
  qed
qed

lemma batch_outcome_of_new_row:
  assumes "ledger_table_ok d"
    and "r \<in> set (fresh_rows dump (db_next d T_ledger_entries) now t (db_ledger_entries d) (map snd (first_by_key es)))"
  obtains k e where "(k, e) \<in> set (first_by_key es)" and "holds_key t k r"
    and "io_row_id (batch_response dump now t es d k) = rt_id r"
    and "io_duplicate (batch_response dump now t es d k) \<longleftrightarrow> 1 < submissions_per_key es k"
proof -
  let ?fresh = "fresh_keys t (db_ledger_entries d) es"
  have ok: "raw_table_ok (db_next d T_ledger_entries) (db_ledger_entries d)"
    using assms(1) by (simp add: ledger_table_ok_def)
  obtain k e j where ke: "(k, e) \<in> set (first_by_key es)"
    and re: "r = ledger_row dump j now t e (the (numeric_18_2 (li_amount e)))"
    and new: "row_of_key (db_ledger_entries d) (t, li_idempotency_key e) = None"
    using in_fresh_rows [OF assms(2)] by auto
  note e = first_by_keyD(1,2) [OF ke]
  have h: "holds_key t k r" using e(2) by (simp add: re holds_key_def)
  have "settle t es ?fresh r \<in> set (batch_rows dump now t es d)"
    using assms(2) by (simp add: batch_rows_def)
  moreover have "holds_key t k (settle t es ?fresh r)" using h by simp
  ultimately have "row_of_key (batch_rows dump now t es d) (t, k) = Some (settle t es ?fresh r)"
    by (rule row_of_key_eq [OF raw_table_okD(1) [OF batch_rows_ok [OF ok]]])
  then show thesis
    using batch_response_sel [OF e(1), of dump now t d] e(2) new by (intro that [OF ke h]) auto
qed

text \<open>The row of a key that was not held before has an id no earlier row has.\<close>

lemma new_row_id:
  assumes "raw_table_ok (db_next d T_ledger_entries) (db_ledger_entries d)"
    and "row_of_key (db_ledger_entries d) (t, k) = None"
    and "r \<in> set (batch_rows dump now t es d)" and "holds_key t k r"
  shows "rt_id r \<notin> rt_id ` set (db_ledger_entries d)"
proof -
  obtain q where q: "r = settle t es (fresh_keys t (db_ledger_entries d) es) q"
    "q \<in> set (db_ledger_entries d) \<or>
     q \<in> set (fresh_rows dump (db_next d T_ledger_entries) now t (db_ledger_entries d) (map snd (first_by_key es)))"
    using assms(3) by (auto simp: batch_rows_def)
  have "holds_key t k q" using assms(4) q(1) by simp
  then have "q \<notin> set (db_ledger_entries d)" using assms(2) by (auto simp: row_of_key_None_iff)
  with q(2) have "db_next d T_ledger_entries \<le> rt_id r"
    by (auto simp: q(1) dest!: in_fresh_rows)
  then show ?thesis using raw_table_okD(3) [OF assms(1)] by fastforce
qed

lemma batch_row_has_event:
  assumes "ledger_table_ok d" and "ledger_sync_ok es" and "has_account d (tn_account_id tn)"
  shows "\<exists>d2 outs. ingest_ledger_batch dump now tn es d = Inr (d2, outs) \<and>
      (\<forall>r \<in> set (db_ledger_entries d2). rt_id r \<in> rt_id ` set (db_ledger_entries d) \<or>
         has_event d2 LEDGER (rt_id r) (1 < submissions_per_key es (rt_idempotency_key r)))"
proof -
  let ?t = "tn_account_id tn"
  let ?new = "fresh_rows dump (db_next d T_ledger_entries) now ?t (db_ledger_entries d) (map snd (first_by_key es))"
  let ?outs = "map (\<lambda>(k, e). batch_response dump now ?t es d k) (first_by_key es)"
  have es: "es \<noteq> []" and st: "list_all ledger_storable es"
    using assms(2) ledger_storableI by (auto simp: ledger_sync_ok_def list_all_iff)
  have ok: "raw_table_ok (db_next d T_ledger_entries) (db_ledger_entries d)"
    using assms(1) by (simp add: ledger_table_ok_def)
  have event: "has_event (enqueue now LEDGER ?outs d') LEDGER (rt_id q) (1 < submissions_per_key es (rt_idempotency_key q))"
    if "q \<in> set ?new" for q d'
  proof (rule batch_outcome_of_new_row [OF assms(1) that])
    fix k e
    assume ke: "(k, e) \<in> set (first_by_key es)" and h: "holds_key ?t k q"
      and out: "io_row_id (batch_response dump now ?t es d k) = rt_id q"
        "io_duplicate (batch_response dump now ?t es d k) \<longleftrightarrow> 1 < submissions_per_key es k"
    have "batch_response dump now ?t es d k \<in> set ?outs" using ke by force
    from has_event_enqueue [OF this, of now LEDGER d'] show ?thesis
      unfolding out using h by (simp add: holds_key_def)
  qed
  show ?thesis
    unfolding ingest_ledger_batch_eq [OF es st assms(3) ok]
    using event by (auto simp: batch_rows_def image_iff simp del: enqueue.simps)
qed

text \<open>
  C18. The transactional outbox. Whenever either ingestion operation commits, every raw row it added
  has, in the same committed state, an unpublished outbox event whose payload reads back as a
  message for that row: no transaction is stored without its event.
\<close>

theorem no_row_without_event:
  assumes "gateway_table_ok d" and "ledger_table_ok d"
    and "gateway_submission_ok d x" and "ledger_sync_ok es" and "has_account d (tn_account_id tn)"
  shows "\<exists>d1 out d2 outs.
    submit_gateway x d = Inr (d1, out) \<and> ingest_ledger_batch dump now tn es d = Inr (d2, outs) \<and>
    (\<forall>r \<in> set (db_gateway_transactions d1). rt_id r \<in> rt_id ` set (db_gateway_transactions d) \<or>
       (\<exists>dup. has_event d1 GATEWAY (rt_id r) dup)) \<and>
    (\<forall>r \<in> set (db_ledger_entries d2). rt_id r \<in> rt_id ` set (db_ledger_entries d) \<or>
       (\<exists>dup. has_event d2 LEDGER (rt_id r) dup))"
  using gateway_row_has_event [OF assms(1,3)] batch_row_has_event [OF assms(2,4,5), of dump now] by blast

theorem no_row_without_event_witness:
  "\<exists>d1 out d2 outs.
     submit_gateway (5, example_tenant, example_payload, ''k'', JNull) example_db = Inr (d1, out) \<and>
     ingest_ledger_batch (\<lambda>_. JNull) 5 example_tenant [example_entry ''k''] example_db = Inr (d2, outs)"
  using no_row_without_event [OF example_db_ok(1,2), of "(5, example_tenant, example_payload, ''k'', JNull)"
      "[example_entry ''k'']" example_tenant "\<lambda>_. JNull" 5]
    example_db_ok(3) example_payload_ok
  by (force simp: idem_key_field_def example_tenant_def ledger_sync_ok_def example_entry_ok)

text \<open>
  A key that is new but repeated inside one batch. The row is stored for the first time, yet
  every outcome of the key says \<open>duplicate\<close>, so the response counts no accepted entry for it, and
  the only event of the row is a duplicate one: the matcher will record a duplicate marker and never
  attempt to pair the row, which is left to the sweeper.
\<close>

theorem repeated_new_key_reported_duplicate:
  assumes "ledger_table_ok d" and "ledger_sync_ok es" and "has_account d (tn_account_id tn)"
    and "row_of_key (db_ledger_entries d) (tn_account_id tn, k) = None"
    and "1 < submissions_per_key es k"
  shows "\<exists>d' outs r. ingest_ledger_batch dump now tn es d = Inr (d', outs) \<and>
    row_of_key (db_ledger_entries d') (tn_account_id tn, k) = Some r \<and>
    rt_id r \<notin> rt_id ` set (db_ledger_entries d) \<and>
    list_all2 (\<lambda>e out. li_idempotency_key e = k \<longrightarrow> io_duplicate out) es outs \<and>
    has_event d' LEDGER (rt_id r) True"
proof -
  let ?t = "tn_account_id tn"
  obtain d' outs where b: "ingest_ledger_batch dump now tn es d = Inr (d', outs)"
    "\<forall>r \<in> set (db_ledger_entries d'). rt_id r \<in> rt_id ` set (db_ledger_entries d) \<or>
         has_event d' LEDGER (rt_id r) (1 < submissions_per_key es (rt_idempotency_key r))"
    using batch_row_has_event [OF assms(1-3), of dump now] by auto
  have es: "es \<noteq> []" and st: "list_all ledger_storable es"
    using assms(2) ledger_storableI by (auto simp: ledger_sync_ok_def list_all_iff)
  have ok: "raw_table_ok (db_next d T_ledger_entries) (db_ledger_entries d)"
    using assms(1) by (simp add: ledger_table_ok_def)
  have d': "db_ledger_entries d' = batch_rows dump now ?t es d"
    and outs: "outs = map (\<lambda>e. batch_response dump now ?t es d (li_idempotency_key e)) es"
    using b(1) ingest_ledger_batch_eq [OF es st assms(3) ok, of dump now] by (auto simp del: enqueue.simps)
  have k: "k \<in> li_idempotency_key ` set es"
    using assms(5) by (intro submissions_per_key_iff [THEN iffD1]) simp
  then obtain r where r: "row_of_key (batch_rows dump now ?t es d) (?t, k) = Some r"
    using batch_rows_hold by blast
  note rD = row_of_key_SomeD [OF r]
  have new: "rt_id r \<notin> rt_id ` set (db_ledger_entries d)"
    using new_row_id [OF ok assms(4)] rD by blast
  have dup: "io_duplicate (batch_response dump now ?t es d (li_idempotency_key e))"
    if "e \<in> set es" "li_idempotency_key e = k" for e
    using batch_response_sel [OF that(1), of dump now ?t d] that(2) assms(5) by metis
  then have "list_all2 (\<lambda>e out. li_idempotency_key e = k \<longrightarrow> io_duplicate out) es outs"
    unfolding outs by (intro list_all2_map_self) blast
  moreover have "has_event d' LEDGER (rt_id r) True"
    using b(2) new rD assms(5) by (auto simp: d' holds_key_def)
  ultimately show ?thesis using b(1) r new d' by metis
qed

theorem repeated_new_key_reported_duplicate_witness:
  "\<exists>d' a b. ingest_ledger_batch (\<lambda>_. JNull) 5 example_tenant
       [example_entry ''k'', example_entry ''k''] example_db = Inr (d', [a, b]) \<and>
     io_duplicate a \<and> io_duplicate b"
proof -
  let ?es = "[example_entry ''k'', example_entry ''k'']"
  have h: "ledger_sync_ok ?es" "has_account example_db (tn_account_id example_tenant)"
    "row_of_key (db_ledger_entries example_db) (tn_account_id example_tenant, ''k'') = None"
    "1 < submissions_per_key ?es ''k''"
    using example_db_ok(3)
    by (simp_all add: ledger_sync_ok_def example_entry_ok example_tenant_def example_db_def empty_db_def
        row_of_key_def submissions_per_key_def example_entry_key)
  show ?thesis
    using repeated_new_key_reported_duplicate [OF example_db_ok(2) h, of "\<lambda>_. JNull" 5]
    by (auto simp: list_all2_Cons1 example_entry_key)
qed

end
