(* ===== verification/Db_Invariant.thy ===== *)
theory Db_Invariant
  imports Worker_Sweeper Queue_Relay Ingest_Laws
begin

text \<open>
  The invariant of the database that every component keeps: what the schema's constraints, the
  partial unique indexes and the order of the writes add up to. It is stated per side over
  \<open>model_rows\<close>, so each part is proved once for both raw tables.
\<close>

subsection \<open>The invariant\<close>

definition raw_table :: "ingest_source \<Rightarrow> table" where
  "raw_table side = (case side of GATEWAY \<Rightarrow> T_gateway_transactions | LEDGER \<Rightarrow> T_ledger_entries)"

definition side_id :: "ingest_source \<Rightarrow> reconciliation_result \<Rightarrow> int option" where
  "side_id side res = (case side of GATEWAY \<Rightarrow> rr_gateway_txn_id res | LEDGER \<Rightarrow> rr_ledger_entry_id res)"

definition active :: "reconciliation_result \<Rightarrow> bool" where
  "active res \<longleftrightarrow> rr_status res \<notin> suppressed_statuses"

text \<open>Rows: unique keys, distinct ids below the sequence, an owner that exists.\<close>

definition rows_inv :: "db \<Rightarrow> bool" where
  "rows_inv d \<longleftrightarrow>
     (\<forall>side. raw_table_ok (db_next d (raw_table side)) (model_rows side d) \<and>
        (\<forall>r \<in> set (model_rows side d). has_account d (rt_tenant_id r) \<and> 0 \<le> rt_duplicate_count r))"

text \<open>
  One result: status, layer and sides agree; it references existing rows of its own tenant; a
  duplicate marker stands for a row submitted more than once; a pair is one the matcher accepts.
\<close>

definition result_sound :: "match_config \<Rightarrow> db \<Rightarrow> reconciliation_result \<Rightarrow> bool" where
  "result_sound config d res \<longleftrightarrow>
     decision_shape (rr_status res) (rr_match_layer res) (rr_gateway_txn_id res \<noteq> None) (rr_ledger_entry_id res \<noteq> None) \<and>
     (\<forall>side i. side_id side res = Some i \<longrightarrow>
        (\<exists>r \<in> set (model_rows side d). rt_id r = i \<and> rt_tenant_id r = rr_tenant_id res \<and>
           (rr_status res = DUPLICATE \<longrightarrow> 0 < rt_duplicate_count r))) \<and>
     (\<forall>g \<in> set (model_rows GATEWAY d). \<forall>e \<in> set (model_rows LEDGER d).
        rr_gateway_txn_id res = Some (rt_id g) \<and> rr_ledger_entry_id res = Some (rt_id e) \<longrightarrow>
        classify_pair (facts_of GATEWAY g) (facts_of LEDGER e) config = Some (rr_status res, rr_match_layer res))"

definition results_inv :: "match_config \<Rightarrow> db \<Rightarrow> bool" where
  "results_inv config d \<longleftrightarrow>
     index_ok result_keys (db_reconciliation_results d) \<and>
     distinct (map rr_id (db_reconciliation_results d)) \<and>
     (\<forall>res \<in> set (db_reconciliation_results d).
        rr_id res < db_next d T_reconciliation_results \<and> result_sound config d res)"

text \<open>A row is reconciled exactly when an active result covers it.\<close>

definition reconciled_inv :: "db \<Rightarrow> bool" where
  "reconciled_inv d \<longleftrightarrow>
     (\<forall>side. \<forall>r \<in> set (model_rows side d).
        rt_reconciled_at r \<noteq> None \<longleftrightarrow>
        (\<exists>res \<in> set (db_reconciliation_results d). active res \<and> side_id side res = Some (rt_id r)))"

text \<open>Exceptions: one per result that needs a human, none for any other.\<close>

definition exceptions_inv :: "db \<Rightarrow> bool" where
  "exceptions_inv d \<longleftrightarrow>
     index_ok exception_keys (db_exceptions d) \<and>
     distinct (map ex_id (db_exceptions d)) \<and> (\<forall>x \<in> set (db_exceptions d). ex_id x < db_next d T_exceptions) \<and>
     (\<forall>x \<in> set (db_exceptions d). \<exists>res \<in> set (db_reconciliation_results d).
        rr_id res = ex_reconciliation_result_id x \<and> rr_tenant_id res = ex_tenant_id x \<and>
        rr_status res \<in> exception_statuses) \<and>
     (\<forall>res \<in> set (db_reconciliation_results d). rr_status res \<in> exception_statuses \<longrightarrow>
        (\<exists>x \<in> set (db_exceptions d). ex_reconciliation_result_id x = rr_id res))"

definition db_inv :: "match_config \<Rightarrow> db \<Rightarrow> bool" where
  "db_inv config d \<longleftrightarrow> rows_inv d \<and> results_inv config d \<and> reconciled_inv d \<and> exceptions_inv d"

lemma db_invI [inv_intros]:
  "rows_inv d \<Longrightarrow> results_inv config d \<Longrightarrow> reconciled_inv d \<Longrightarrow> exceptions_inv d \<Longrightarrow> db_inv config d"
  by (simp add: db_inv_def)

lemma db_invD:
  assumes "db_inv config d"
  shows "rows_inv d" "results_inv config d" "reconciled_inv d" "exceptions_inv d"
  using assms by (simp_all add: db_inv_def)

lemma rows_invD:
  assumes "rows_inv d"
  shows "raw_table_ok (db_next d (raw_table side)) (model_rows side d)"
    and "r \<in> set (model_rows side d) \<Longrightarrow> has_account d (rt_tenant_id r)"
    and "r \<in> set (model_rows side d) \<Longrightarrow> rt_id r < db_next d (raw_table side)"
    and "r \<in> set (model_rows side d) \<Longrightarrow> q \<in> set (model_rows side d) \<Longrightarrow> rt_id r = rt_id q \<Longrightarrow> r = q"
    and "r \<in> set (model_rows side d) \<Longrightarrow> 0 \<le> rt_duplicate_count r"
  using assms raw_table_okD [of "db_next d (raw_table side)" "model_rows side d"]
  by (auto simp: rows_inv_def intro: distinct_map_eqD)

lemma empty_db_inv: "db_inv config empty_db"
  by (auto simp: db_inv_def rows_inv_def results_inv_def reconciled_inv_def exceptions_inv_def
    empty_db_def model_rows_def raw_table_ok_def index_ok_def split: ingest_source.split)

subsection \<open>The shared columns of the two raw tables\<close>

lemma truncate_sel [simp]:
  "rt_id (raw_txn.truncate r) = rt_id r"
  "rt_tenant_id (raw_txn.truncate r) = rt_tenant_id r"
  "rt_txn_id (raw_txn.truncate r) = rt_txn_id r"
  "rt_amount (raw_txn.truncate r) = rt_amount r"
  "rt_currency (raw_txn.truncate r) = rt_currency r"
  "rt_occurred_at (raw_txn.truncate r) = rt_occurred_at r"
  "rt_idempotency_key (raw_txn.truncate r) = rt_idempotency_key r"
  "rt_duplicate_count (raw_txn.truncate r) = rt_duplicate_count r"
  "rt_received_at (raw_txn.truncate r) = rt_received_at r"
  "rt_reconciled_at (raw_txn.truncate r) = rt_reconciled_at r"
  "raw_keys (raw_txn.truncate r) = raw_keys r"
  by (simp_all add: raw_txn.defs raw_keys_def)

lemma truncate_update [simp]:
  "raw_txn.truncate (bump n r) = bump n (raw_txn.truncate r)"
  "raw_txn.truncate (reconcile now r) = reconcile now (raw_txn.truncate r)"
  by (simp_all add: raw_txn.defs bump_def reconcile_def)

lemma raw_table_ok_truncate: "raw_table_ok n (map raw_txn.truncate rows) = raw_table_ok n rows"
  by (simp add: raw_table_ok_def index_ok_def comp_def)

lemma table_ok_iff:
  "gateway_table_ok d \<longleftrightarrow> raw_table_ok (db_next d (raw_table GATEWAY)) (model_rows GATEWAY d)"
  "ledger_table_ok d \<longleftrightarrow> raw_table_ok (db_next d (raw_table LEDGER)) (model_rows LEDGER d)"
  by (simp_all add: gateway_table_ok_def ledger_table_ok_def raw_table_def model_rows_def raw_table_ok_truncate)

lemma reconcile_sel [simp]:
  "rt_id (reconcile now r) = rt_id r" "rt_tenant_id (reconcile now r) = rt_tenant_id r"
  "rt_duplicate_count (reconcile now r) = rt_duplicate_count r"
  "rt_reconciled_at (reconcile now r) = Some now" "raw_keys (reconcile now r) = raw_keys r"
  "facts_of side (reconcile now r) = facts_of side r"
  by (simp_all add: reconcile_def raw_keys_def facts_of_def)

lemma facts_of_sel [simp]:
  "tf_side (facts_of side r) = side" "tf_tenant_id (facts_of side r) = rt_tenant_id r"
  "tf_row_id (facts_of side r) = rt_id r" "tf_received_at (facts_of side r) = rt_received_at r"
  by (simp_all add: facts_of_def)

lemma facts_of_bump [simp]: "facts_of side (bump n r) = facts_of side r"
  by (simp add: facts_of_def)

lemma map_truncate_update_where:
  assumes "\<And>r. p (raw_txn.truncate r) = q r" and "\<And>r. raw_txn.truncate (f r) = g (raw_txn.truncate r)"
  shows "map raw_txn.truncate (update_where q f rows) = update_where p g (map raw_txn.truncate rows)"
  by (simp add: update_where_def assms comp_def if_distrib cong: if_cong)

text \<open>What the invariant does not look at.\<close>

lemma db_inv_frame:
  assumes "db_inv config d" and "\<And>i. has_account d i \<Longrightarrow> has_account d' i"
    and "\<And>side. model_rows side d' = model_rows side d"
    and "\<And>side. db_next d (raw_table side) \<le> db_next d' (raw_table side)"
    and "db_reconciliation_results d' = db_reconciliation_results d" and "db_exceptions d' = db_exceptions d"
    and "db_next d T_reconciliation_results \<le> db_next d' T_reconciliation_results"
    and "db_next d T_exceptions \<le> db_next d' T_exceptions"
  shows "db_inv config d'"
proof (rule db_invI)
  note inv = db_invD [OF assms(1)]
  show "rows_inv d'"
    using inv(1) raw_table_ok_mono [OF _ assms(4)] by (auto simp: rows_inv_def assms(2,3))
  have "result_sound config d' res = result_sound config d res" for res
    by (simp add: result_sound_def assms(3))
  then show "results_inv config d'" using inv(2) assms(7) by (force simp: results_inv_def assms(5))
  show "reconciled_inv d'" using inv(3) by (simp add: reconciled_inv_def assms(3,5))
  show "exceptions_inv d'" using inv(4) assms(8) by (force simp: exceptions_inv_def assms(5,6))
qed

subsection \<open>Facts read earlier\<close>

text \<open>
  A worker acts on facts it read in an earlier snapshot. What stays true of them, whatever commits in
  between: the id has been used, so no later row takes it, and a row that still has it has these facts.
\<close>

definition known :: "db \<Rightarrow> txn_facts \<Rightarrow> bool" where
  "known d c \<longleftrightarrow>
     tf_row_id c < db_next d (raw_table (tf_side c)) \<and>
     (\<forall>r \<in> set (model_rows (tf_side c) d). rt_id r = tf_row_id c \<longrightarrow> facts_of (tf_side c) r = c)"

lemma known_row: "rows_inv d \<Longrightarrow> r \<in> set (model_rows side d) \<Longrightarrow> known d (facts_of side r)"
  using rows_invD(3,4) by (fastforce simp: known_def)

lemma load_facts_known:
  "rows_inv d \<Longrightarrow> load_facts d source i = Inr (Some c) \<Longrightarrow>
     known d c \<and> tf_side c = source \<and> (\<exists>r \<in> set (model_rows source d). rt_id r = i \<and> c = facts_of source r)"
  by (auto simp: load_facts_def filter_eq_Cons_iff intro!: known_row split: list.splits)

lemma find_counterparties_known:
  "rows_inv d \<Longrightarrow> q \<in> set (find_counterparties d c config) \<Longrightarrow> known d q \<and> tf_side q = other_side (tf_side c)"
  by (auto simp: find_counterparties_def Let_def intro!: known_row)

lemma find_stale_known:
  "rows_inv d \<Longrightarrow> c \<in> set (find_stale_pending d now source w limit) \<Longrightarrow> known d c \<and> tf_side c = source"
  by (auto simp: find_stale_pending_def Let_def intro!: known_row dest: in_set_takeD)

subsection \<open>What every operation does to the raw tables\<close>

text \<open>
  Sequences only grow; a row of the new state is a row of the old one with the same facts and no
  smaller counter, or a row with an id never used before.
\<close>

definition evolves :: "db \<Rightarrow> db \<Rightarrow> bool" where
  "evolves d d' \<longleftrightarrow>
     (\<forall>side. db_next d (raw_table side) \<le> db_next d' (raw_table side) \<and>
        (\<forall>r' \<in> set (model_rows side d').
           (\<exists>r \<in> set (model_rows side d). facts_of side r' = facts_of side r \<and> rt_duplicate_count r \<le> rt_duplicate_count r') \<or>
           db_next d (raw_table side) \<le> rt_id r'))"

lemma evolves_sameI:
  assumes "\<And>side. db_next d' (raw_table side) = db_next d (raw_table side)"
    and "\<And>side r'. r' \<in> set (model_rows side d') \<Longrightarrow>
      \<exists>r \<in> set (model_rows side d). facts_of side r' = facts_of side r \<and> rt_duplicate_count r \<le> rt_duplicate_count r'"
  shows "evolves d d'"
  using assms by (simp add: evolves_def)

lemma facts_of_id: "facts_of side r' = facts_of side r \<Longrightarrow> rt_id r' = rt_id r \<and> rt_tenant_id r' = rt_tenant_id r"
  by (simp add: facts_of_def)

lemma known_evolves:
  assumes "known d c" and "evolves d d'"
  shows "known d' c"
  unfolding known_def
proof (intro conjI ballI impI)
  let ?side = "tf_side c"
  have e: "db_next d (raw_table ?side) \<le> db_next d' (raw_table ?side)"
    "\<And>r'. r' \<in> set (model_rows ?side d') \<Longrightarrow>
       (\<exists>r \<in> set (model_rows ?side d). facts_of ?side r' = facts_of ?side r) \<or> db_next d (raw_table ?side) \<le> rt_id r'"
    using assms(2) unfolding evolves_def by blast+
  show "tf_row_id c < db_next d' (raw_table ?side)" using assms(1) e(1) by (simp add: known_def)
  fix r'
  assume r': "r' \<in> set (model_rows ?side d')" and id: "rt_id r' = tf_row_id c"
  have "\<not> db_next d (raw_table ?side) \<le> rt_id r'" using assms(1) id by (simp add: known_def)
  with e(2) [OF r'] obtain r where r: "r \<in> set (model_rows ?side d)" "facts_of ?side r' = facts_of ?side r"
    by blast
  have "rt_id r = tf_row_id c" using facts_of_id [OF r(2)] id by simp
  then have "facts_of ?side r = c" using assms(1) r(1) by (simp add: known_def)
  with r(2) show "facts_of ?side r' = c" by (rule trans)
qed

subsection \<open>Decisions that may be written\<close>

text \<open>
  What a decision on its way to the database is worth, however old the snapshot it was made on: it
  is one of the three kinds, made of facts that are still known.
\<close>

definition submitted_again :: "db \<Rightarrow> txn_facts \<Rightarrow> bool" where
  "submitted_again d c \<longleftrightarrow>
     (\<forall>r \<in> set (model_rows (tf_side c) d). rt_id r = tf_row_id c \<longrightarrow> 0 < rt_duplicate_count r)"

inductive justified :: "match_config \<Rightarrow> db \<Rightarrow> int \<Rightarrow> decision \<Rightarrow> bool" for config d where
  unmatched: "known d c \<Longrightarrow> justified config d (tf_tenant_id c) (decide_unmatched c w)"
| duplicate: "known d c \<Longrightarrow> submitted_again d c \<Longrightarrow> justified config d (tf_tenant_id c) (decide_duplicate c n)"
| pair: "known d g \<Longrightarrow> known d e \<Longrightarrow> tf_side g = GATEWAY \<Longrightarrow> tf_side e = LEDGER \<Longrightarrow>
    classify_pair g e config = Some (dc_status dec, dc_layer dec) \<Longrightarrow>
    dc_gateway_row_id dec = Some (tf_row_id g) \<Longrightarrow> dc_ledger_row_id dec = Some (tf_row_id e) \<Longrightarrow>
    justified config d (tf_tenant_id g) dec"

lemma submitted_again_evolves:
  assumes "known d c" and "submitted_again d c" and "evolves d d'"
  shows "submitted_again d' c"
  unfolding submitted_again_def
proof (intro ballI impI)
  fix r'
  assume r': "r' \<in> set (model_rows (tf_side c) d')" "rt_id r' = tf_row_id c"
  then have "\<not> db_next d (raw_table (tf_side c)) \<le> rt_id r'" using assms(1) by (simp add: known_def)
  then obtain r where r: "r \<in> set (model_rows (tf_side c) d)" "facts_of (tf_side c) r' = facts_of (tf_side c) r"
    "rt_duplicate_count r \<le> rt_duplicate_count r'"
    using assms(3) r'(1) unfolding evolves_def by blast
  have "rt_id r = tf_row_id c" using facts_of_id [OF r(2)] r'(2) by simp
  then have "0 < rt_duplicate_count r" using assms(2) r(1) by (simp add: submitted_again_def)
  then show "0 < rt_duplicate_count r'" using r(3) by simp
qed

lemma justified_evolves:
  assumes "justified config d t dec" and "evolves d d'"
  shows "justified config d' t dec"
  using assms
proof cases
  case (unmatched c w)
  show ?thesis
    unfolding unmatched(1,2) by (rule justified.unmatched [OF known_evolves [OF unmatched(3) assms(2)]])
next
  case (duplicate c n)
  show ?thesis
    unfolding duplicate(1,2)
    by (rule justified.duplicate [OF known_evolves [OF duplicate(3) assms(2)]
          submitted_again_evolves [OF duplicate(3,4) assms(2)]])
next
  case (pair g e)
  show ?thesis
    unfolding pair(1)
    by (rule justified.pair [OF known_evolves [OF pair(2) assms(2)] known_evolves [OF pair(3) assms(2)] pair(4-)])
qed

lemma justified_decide:
  assumes "known d c" and "\<And>q. q \<in> set os \<Longrightarrow> known d q" and "decide c os config = Some dec"
  shows "justified config d (tf_tenant_id c) dec"
proof -
  obtain q where q: "q \<in> set os" "classify_pair c q config = Some (dc_status dec, dc_layer dec)"
    and ids: "if tf_side c = GATEWAY
      then dc_gateway_row_id dec = Some (tf_row_id c) \<and> dc_ledger_row_id dec = Some (tf_row_id q)
      else dc_gateway_row_id dec = Some (tf_row_id q) \<and> dc_ledger_row_id dec = Some (tf_row_id c)"
    using decide_SomeD [OF assms(3)] by blast
  note pair = classify_pair_SomeD [OF q(2)]
  have q': "classify_pair q c config = Some (dc_status dec, dc_layer dec)"
    using q(2) by (simp add: classify_pair_commute)
  show ?thesis
  proof (cases "tf_side c")
    case GATEWAY
    then have "tf_side q = LEDGER" using pair(2) by (simp add: side_cases)
    with GATEWAY ids show ?thesis
      by (intro justified.pair [OF assms(1) assms(2) [OF q(1)] _ _ q(2)]) simp_all
  next
    case LEDGER
    then have "tf_side q = GATEWAY" using pair(2) by (cases "tf_side q") simp_all
    with LEDGER ids show ?thesis
      unfolding pair(1) by (intro justified.pair [OF assms(2) [OF q(1)] assms(1) _ _ q']) simp_all
  qed
qed

lemma justified_wf: "justified config d t dec \<Longrightarrow> decision_wf dec"
proof (induction rule: justified.induct)
  case (pair g e dec)
  then show ?case using classify_pair_SomeD(6) [OF pair(5)] by (auto simp: decision_wf_def)
qed (simp_all add: decide_unmatched_wf decide_duplicate_wf)

definition decided_id :: "ingest_source \<Rightarrow> decision \<Rightarrow> int option" where
  "decided_id side dec = (case side of GATEWAY \<Rightarrow> dc_gateway_row_id dec | LEDGER \<Rightarrow> dc_ledger_row_id dec)"

lemma decided_id_unmatched:
  "decided_id side (decide_unmatched c w) = (if side = tf_side c then Some (tf_row_id c) else None)"
  by (cases side; cases "tf_side c") (simp_all add: decided_id_def decide_unmatched_def)

lemma decided_id_duplicate:
  "decided_id side (decide_duplicate c n) = (if side = tf_side c then Some (tf_row_id c) else None)"
  by (cases side; cases "tf_side c") (simp_all add: decided_id_def decide_duplicate_def)

lemma known_own:
  "known d c \<Longrightarrow> r \<in> set (model_rows (tf_side c) d) \<Longrightarrow> tf_row_id c = rt_id r \<Longrightarrow>
     rt_tenant_id r = tf_tenant_id c \<and> facts_of (tf_side c) r = c"
  by (metis facts_of_sel(2) known_def)

text \<open>A row a justified decision names is the candidate's tenant's own.\<close>

lemma justified_row:
  assumes "justified config d t dec" and "decided_id side dec = Some (rt_id r)"
    and "r \<in> set (model_rows side d)"
  shows "rt_tenant_id r = t \<and> (dc_status dec = DUPLICATE \<longrightarrow> 0 < rt_duplicate_count r)"
  using assms(1)
proof cases
  case (unmatched c w)
  have "dc_status dec \<noteq> DUPLICATE" unfolding unmatched(2) by (simp add: decide_unmatched_def)
  moreover have side: "side = tf_side c" "tf_row_id c = rt_id r"
    using assms(2) unfolding unmatched(2) decided_id_unmatched by (simp_all split: if_splits)
  ultimately show ?thesis using known_own [OF unmatched(3) assms(3) [unfolded side(1)] side(2)] unmatched(1) by simp
next
  case (duplicate c n)
  have side: "side = tf_side c" "tf_row_id c = rt_id r"
    using assms(2) unfolding duplicate(2) decided_id_duplicate by (simp_all split: if_splits)
  have "0 < rt_duplicate_count r"
    using duplicate(4) assms(3) side by (simp add: submitted_again_def)
  then show ?thesis using known_own [OF duplicate(3) assms(3) [unfolded side(1)] side(2)] duplicate(1) by simp
next
  case (pair g e)
  note p = classify_pair_SomeD [OF pair(6)]
  have "dc_status dec \<noteq> DUPLICATE" using p(6) by auto
  moreover have "rt_tenant_id r = t"
  proof (cases side)
    case GATEWAY
    then have "tf_row_id g = rt_id r" using assms(2) pair(7) by (simp add: decided_id_def)
    then show ?thesis using known_own [OF pair(2)] assms(3) GATEWAY pair(1,4) by simp
  next
    case LEDGER
    then have "tf_row_id e = rt_id r" using assms(2) pair(8) by (simp add: decided_id_def)
    then show ?thesis using known_own [OF pair(3)] assms(3) LEDGER pair(1,5) p(1) by simp
  qed
  ultimately show ?thesis by simp
qed

text \<open>And a pair it names is one the matcher accepts.\<close>

lemma justified_pair:
  assumes "justified config d t dec" and "g \<in> set (model_rows GATEWAY d)" and "e \<in> set (model_rows LEDGER d)"
    and "decided_id GATEWAY dec = Some (rt_id g)" and "decided_id LEDGER dec = Some (rt_id e)"
  shows "classify_pair (facts_of GATEWAY g) (facts_of LEDGER e) config = Some (dc_status dec, dc_layer dec)"
  using assms(1)
proof cases
  case (unmatched c w)
  show ?thesis using assms(4,5) unfolding unmatched(2) decided_id_unmatched by (simp split: if_splits)
next
  case (duplicate c n)
  show ?thesis using assms(4,5) unfolding duplicate(2) decided_id_duplicate by (simp split: if_splits)
next
  case (pair g' e')
  have "tf_row_id g' = rt_id g" "tf_row_id e' = rt_id e"
    using assms(4,5) pair(7,8) by (simp_all add: decided_id_def)
  then have "facts_of GATEWAY g = g'" "facts_of LEDGER e = e'"
    using known_own [OF pair(2)] known_own [OF pair(3)] assms(2,3) pair(4,5) by simp_all
  then show ?thesis using pair(6) by simp
qed

subsection \<open>Ingestion keeps the invariant\<close>

text \<open>What an ingestion changes: counters of old rows, and new rows that nothing refers to yet.\<close>

definition same_row :: "ingest_source \<Rightarrow> raw_txn \<Rightarrow> raw_txn \<Rightarrow> bool" where
  "same_row side r r' \<longleftrightarrow>
     facts_of side r' = facts_of side r \<and> rt_reconciled_at r' = rt_reconciled_at r \<and>
     rt_duplicate_count r \<le> rt_duplicate_count r'"

definition ingests :: "db \<Rightarrow> db \<Rightarrow> bool" where
  "ingests d d' \<longleftrightarrow>
     db_accounts d' = db_accounts d \<and> db_reconciliation_results d' = db_reconciliation_results d \<and>
     db_exceptions d' = db_exceptions d \<and>
     db_next d' T_reconciliation_results = db_next d T_reconciliation_results \<and>
     db_next d' T_exceptions = db_next d T_exceptions \<and>
     (\<forall>side. db_next d (raw_table side) \<le> db_next d' (raw_table side) \<and>
        raw_table_ok (db_next d' (raw_table side)) (model_rows side d') \<and>
        list_all2 (same_row side) (model_rows side d) (take (length (model_rows side d)) (model_rows side d')) \<and>
        (\<forall>r \<in> set (drop (length (model_rows side d)) (model_rows side d')).
           db_next d (raw_table side) \<le> rt_id r \<and> rt_reconciled_at r = None \<and> has_account d (rt_tenant_id r) \<and>
           0 \<le> rt_duplicate_count r))"

lemma list_all2_set1: "list_all2 P xs ys \<Longrightarrow> x \<in> set xs \<Longrightarrow> \<exists>y \<in> set ys. P x y"
  by (metis list_all2_conv_all_nth in_set_conv_nth)

lemma list_all2_set2: "list_all2 P xs ys \<Longrightarrow> y \<in> set ys \<Longrightarrow> \<exists>x \<in> set xs. P x y"
  by (metis list_all2_conv_all_nth in_set_conv_nth)

lemma ingests_new:
  assumes "ingests d d'" and "r' \<in> set (model_rows side d')"
  shows "(\<exists>r \<in> set (model_rows side d). same_row side r r') \<or>
    (db_next d (raw_table side) \<le> rt_id r' \<and> rt_reconciled_at r' = None \<and> has_account d (rt_tenant_id r') \<and>
     0 \<le> rt_duplicate_count r')"
proof -
  let ?n = "length (model_rows side d)"
  have "r' \<in> set (take ?n (model_rows side d')) \<or> r' \<in> set (drop ?n (model_rows side d'))"
    using assms(2) append_take_drop_id [of ?n "model_rows side d'"] by (metis Un_iff set_append)
  then show ?thesis using assms(1) list_all2_set2 unfolding ingests_def by metis
qed

lemma ingests_old:
  "ingests d d' \<Longrightarrow> r \<in> set (model_rows side d) \<Longrightarrow> \<exists>r' \<in> set (model_rows side d'). same_row side r r'"
  unfolding ingests_def by (meson in_set_takeD list_all2_set1)

lemma ingests_evolves: "ingests d d' \<Longrightarrow> evolves d d'"
  unfolding evolves_def using ingests_new by (fastforce simp: ingests_def same_row_def)

lemma same_row_id: "same_row side r r' \<Longrightarrow> rt_id r' = rt_id r \<and> rt_tenant_id r' = rt_tenant_id r"
  using facts_of_id [of side r' r] by (simp add: same_row_def)

lemma result_sound_ingests:
  assumes "ingests d d'" and "rows_inv d" and "result_sound config d res"
  shows "result_sound config d' res"
  unfolding result_sound_def
proof (intro conjI allI impI ballI)
  note s = assms(3) [unfolded result_sound_def]
  show "decision_shape (rr_status res) (rr_match_layer res) (rr_gateway_txn_id res \<noteq> None) (rr_ledger_entry_id res \<noteq> None)"
    using s by blast
  show "\<exists>r \<in> set (model_rows side d'). rt_id r = i \<and> rt_tenant_id r = rr_tenant_id res \<and>
      (rr_status res = DUPLICATE \<longrightarrow> 0 < rt_duplicate_count r)" if i: "side_id side res = Some i" for side i
  proof -
    obtain r where r: "r \<in> set (model_rows side d)" "rt_id r = i" "rt_tenant_id r = rr_tenant_id res"
      "rr_status res = DUPLICATE \<longrightarrow> 0 < rt_duplicate_count r" using s i by blast
    obtain r' where r': "r' \<in> set (model_rows side d')" "same_row side r r'" using ingests_old [OF assms(1) r(1)] by blast
    then show ?thesis
      using r same_row_id [OF r'(2)] by (intro bexI [of _ r']) (auto simp: same_row_def)
  qed
  fix g e
  assume ge: "g \<in> set (model_rows GATEWAY d')" "e \<in> set (model_rows LEDGER d')"
    and ids: "rr_gateway_txn_id res = Some (rt_id g) \<and> rr_ledger_entry_id res = Some (rt_id e)"
  have old: "\<exists>r \<in> set (model_rows side d). same_row side r r'"
    if r': "r' \<in> set (model_rows side d')" "side_id side res = Some (rt_id r')" for side r'
  proof -
    obtain r where "r \<in> set (model_rows side d)" "rt_id r = rt_id r'" using s r'(2) by blast
    then have "rt_id r' < db_next d (raw_table side)" using rows_invD(3) [OF assms(2)] by metis
    then show ?thesis using ingests_new [OF assms(1) r'(1)] by auto
  qed
  obtain g0 e0 where "g0 \<in> set (model_rows GATEWAY d)" "same_row GATEWAY g0 g"
    "e0 \<in> set (model_rows LEDGER d)" "same_row LEDGER e0 e"
    using old [OF ge(1)] old [OF ge(2)] ids by (auto simp: side_id_def)
  moreover from this have "rt_id g = rt_id g0" "rt_id e = rt_id e0" by (simp_all add: same_row_id)
  moreover from calculation have "classify_pair (facts_of GATEWAY g0) (facts_of LEDGER e0) config =
      Some (rr_status res, rr_match_layer res)"
    using s ids by simp
  ultimately show "classify_pair (facts_of GATEWAY g) (facts_of LEDGER e) config = Some (rr_status res, rr_match_layer res)"
    by (simp add: same_row_def)
qed

lemma rows_inv_ingests:
  assumes "rows_inv d" and "ingests d d'"
  shows "rows_inv d'"
  unfolding rows_inv_def
proof (intro allI conjI ballI)
  fix side
  show "raw_table_ok (db_next d' (raw_table side)) (model_rows side d')"
    using assms(2) by (simp add: ingests_def)
  have acc: "has_account d' i = has_account d i" for i
    using assms(2) by (simp add: has_account_def ingests_def)
  fix r' assume "r' \<in> set (model_rows side d')"
  note new = ingests_new [OF assms(2) this]
  from new show "has_account d' (rt_tenant_id r')"
    using rows_invD(2) [OF assms(1)] by (auto simp: acc dest!: same_row_id)
  from new show "0 \<le> rt_duplicate_count r'"
    using rows_invD(5) [OF assms(1)] by (force simp: same_row_def)
qed

lemma db_inv_ingests:
  assumes "db_inv config d" and "ingests d d'"
  shows "db_inv config d'"
proof (rule db_invI)
  note inv = db_invD [OF assms(1)]
  have frame: "db_accounts d' = db_accounts d" "db_reconciliation_results d' = db_reconciliation_results d"
    "db_exceptions d' = db_exceptions d" "db_next d' T_reconciliation_results = db_next d T_reconciliation_results"
    "db_next d' T_exceptions = db_next d T_exceptions"
    using assms(2) by (simp_all add: ingests_def)
  show "rows_inv d'" by (rule rows_inv_ingests [OF inv(1) assms(2)])
  show "results_inv config d'"
    using inv(2) result_sound_ingests [OF assms(2) inv(1)] by (simp add: results_inv_def frame)
  show "exceptions_inv d'" using inv(4) by (simp add: exceptions_inv_def frame)
  show "reconciled_inv d'"
    unfolding reconciled_inv_def frame
  proof (intro allI ballI)
    fix side r'
    assume r': "r' \<in> set (model_rows side d')"
    from ingests_new [OF assms(2) r']
    show "(rt_reconciled_at r' \<noteq> None) =
        (\<exists>res \<in> set (db_reconciliation_results d). active res \<and> side_id side res = Some (rt_id r'))"
    proof (elim disjE bexE conjE)
      fix r assume r: "r \<in> set (model_rows side d)" "same_row side r r'"
      have "rt_reconciled_at r' = rt_reconciled_at r" using r(2) by (simp add: same_row_def)
      then show ?thesis using inv(3) r(1) same_row_id [OF r(2)] by (simp add: reconciled_inv_def)
    next
      assume new: "db_next d (raw_table side) \<le> rt_id r'" "rt_reconciled_at r' = None"
      have "side_id side res \<noteq> Some (rt_id r')" if "res \<in> set (db_reconciliation_results d)" for res
        using that inv(2) rows_invD(3) [OF inv(1)] new(1)
        by (fastforce simp: results_inv_def result_sound_def)
      then show ?thesis using new(2) by blast
    qed
  qed
qed

text \<open>The two ingestion operations are such changes.\<close>

lemma same_row_refl [simp]: "same_row side r r"
  by (simp add: same_row_def)

lemma same_row_bump: "0 \<le> n \<Longrightarrow> same_row side r (bump n r)"
  by (simp add: same_row_def)

lemma appended:
  assumes "rows' = map f rows @ new" and "\<And>r. r \<in> set rows \<Longrightarrow> same_row side r (f r)"
  shows "list_all2 (same_row side) rows (take (length rows) rows') \<and> drop (length rows) rows' = new"
  using assms list_all2_map_self [of rows "same_row side" f] by simp

lemma all_sides: "(\<forall>side. P side) \<longleftrightarrow> P GATEWAY \<and> P LEDGER"
  by (metis ingest_source.exhaust)

lemma enqueue_model_rows [simp]: "model_rows side (enqueue now src outs d) = model_rows side d"
  by (cases side) (simp_all add: model_rows_def)

lemma raw_table_sel [simp]: "raw_table GATEWAY = T_gateway_transactions" "raw_table LEDGER = T_ledger_entries"
  by (simp_all add: raw_table_def)

lemma model_rows_sel:
  "model_rows GATEWAY d = map raw_txn.truncate (db_gateway_transactions d)"
  "model_rows LEDGER d = map raw_txn.truncate (db_ledger_entries d)"
  by (simp_all add: model_rows_def)

lemma ingestsI:
  assumes "db_accounts d' = db_accounts d" "db_reconciliation_results d' = db_reconciliation_results d"
    "db_exceptions d' = db_exceptions d" "db_next d' T_reconciliation_results = db_next d T_reconciliation_results"
    "db_next d' T_exceptions = db_next d T_exceptions"
    and "\<And>side. db_next d (raw_table side) \<le> db_next d' (raw_table side)"
    and "\<And>side. raw_table_ok (db_next d' (raw_table side)) (model_rows side d')"
    and "\<And>side. model_rows side d' = map (f side) (model_rows side d) @ new side"
    and "\<And>side r. r \<in> set (model_rows side d) \<Longrightarrow> same_row side r (f side r)"
    and "\<And>side r. r \<in> set (new side) \<Longrightarrow>
      db_next d (raw_table side) \<le> rt_id r \<and> rt_reconciled_at r = None \<and> has_account d (rt_tenant_id r) \<and>
      0 \<le> rt_duplicate_count r"
  shows "ingests d d'"
  unfolding ingests_def using assms(1-7,10) appended [OF assms(8,9)] by auto

lemma ingest_gateway_has_account:
  assumes "gateway_storable p k" and "row_of_key (db_gateway_transactions d) (tn_account_id tn, k) = None"
    and "ingest_gateway now tn p k body d = Inr (d', out)"
  shows "has_account d (tn_account_id tn)"
proof (rule ccontr)
  let ?n = "db_next d T_gateway_transactions"
  obtain a where a: "numeric_18_2 (gw_amount p) = Some a" using assms(1) by (auto simp: gateway_storable_def)
  assume "\<not> has_account d (tn_account_id tn)"
  moreover have "\<not> conflicts raw_keys (db_gateway_transactions d) (gateway_row ?n now tn p a k body)"
    using assms(2) by (simp add: conflicts_row_of_key)
  ultimately show False
    using assms(1,3) a gateway_row_no_error [OF assms(1)]
    by (simp add: ingest_gateway_def nextval_def raw_insert_def insert_unless_conflict_def has_account_def
        gateway_storable_def)
qed

lemma ingest_gateway_ingests:
  assumes "rows_inv d" and "gateway_storable p k" and "ingest_gateway now tn p k body d = Inr (d', out)"
  shows "ingests d d'"
proof -
  let ?t = "tn_account_id tn" and ?n = "db_next d T_gateway_transactions" and ?rows = "db_gateway_transactions d"
  have ok: "raw_table_ok ?n ?rows" and okl: "raw_table_ok (db_next d T_ledger_entries) (db_ledger_entries d)"
    using rows_invD(1) [OF assms(1), of GATEWAY] rows_invD(1) [OF assms(1), of LEDGER]
    by (simp_all add: model_rows_sel raw_table_ok_truncate)
  obtain a where a: "numeric_18_2 (gw_amount p) = Some a" using assms(2) by (auto simp: gateway_storable_def)
  show ?thesis
  proof (cases "row_of_key ?rows (?t, k)")
    case None
    let ?row = "gateway_row ?n now tn p a k body"
    have acc: "has_account d ?t" by (rule ingest_gateway_has_account [OF assms(2) None assms(3)])
    let ?d = "d\<lparr> db_next := (db_next d)(T_gateway_transactions := ?n + 1), db_gateway_transactions := ?rows @ [?row] \<rparr>"
    have d': "d' = enqueue now GATEWAY [out] ?d"
      using assms(3) unfolding ingest_gateway_fresh [OF assms(2) a acc None] by (auto simp del: enqueue.simps)
    have "raw_table_ok (?n + 1) (?rows @ [?row])"
      using ok None by (intro raw_table_ok_append1) (simp_all add: conflicts_row_of_key)
    then have "raw_table_ok (?n + 1) (map raw_txn.truncate ?rows @ [raw_txn.truncate ?row])"
      using raw_table_ok_truncate [of "?n + 1" "?rows @ [?row]"] by simp
    then show ?thesis
      unfolding d'
      by (intro ingestsI [where f = "\<lambda>_ r. r" and new = "\<lambda>side. if side = GATEWAY then [raw_txn.truncate ?row] else []"])
        (use okl acc in \<open>auto simp: raw_table_def enqueue_next model_rows_def raw_table_ok_truncate
            simp del: enqueue.simps split: ingest_source.splits if_splits\<close>)
  next
    case (Some r)
    let ?rows' = "update_where (holds_key ?t k) (bump 1) ?rows"
    let ?d = "d\<lparr> db_next := (db_next d)(T_gateway_transactions := ?n + 1), db_gateway_transactions := ?rows' \<rparr>"
    have d': "d' = enqueue now GATEWAY [out] ?d"
      using assms(3) unfolding ingest_gateway_again [OF assms(2) raw_table_okD(1) [OF ok] Some]
      by (auto simp del: enqueue.simps)
    have "raw_table_ok (?n + 1) (map raw_txn.truncate ?rows')"
      using raw_table_ok_mono [OF ok] by (simp add: raw_table_ok_update raw_table_ok_truncate)
    moreover have "map raw_txn.truncate ?rows' =
        map (\<lambda>r. if holds_key ?t k r then bump 1 r else r) (map raw_txn.truncate ?rows)"
      by (auto simp: update_where_def holds_key_def)
    ultimately show ?thesis
      unfolding d'
      by (intro ingestsI [where f = "\<lambda>side r. if side = GATEWAY \<and> holds_key ?t k r then bump 1 r else r" and new = "\<lambda>_. []"])
        (use okl in \<open>auto simp: raw_table_def enqueue_next model_rows_def raw_table_ok_truncate same_row_bump
            simp del: enqueue.simps split: ingest_source.splits if_splits\<close>)
  qed
qed

lemma truncate_settle:
  "raw_txn.truncate (settle t es fresh r) =
     (if rt_tenant_id r = t then bump (batch_delta es fresh (rt_idempotency_key r)) (raw_txn.truncate r)
      else raw_txn.truncate r)"
  by (simp add: settle_def)

lemma batch_delta_nonneg:
  assumes "fresh \<subseteq> li_idempotency_key ` set es"
  shows "0 \<le> batch_delta es fresh k"
proof (cases "k \<in> fresh")
  case True
  then have "0 < submissions_per_key es k" using assms by (simp add: submissions_per_key_iff subset_iff)
  with True show ?thesis by (simp add: batch_delta_def)
qed (simp add: batch_delta_def submissions_per_key_def)

lemma ingest_ledger_batch_ingests:
  assumes "rows_inv d" and "list_all ledger_storable es" and "has_account d (tn_account_id tn)"
    and "ingest_ledger_batch dump now tn es d = Inr (d', outs)"
  shows "ingests d d'"
proof (cases "es = []")
  case True
  then have "d' = d" using assms(4) by (simp add: ingest_ledger_batch_def)
  then show ?thesis
    by (intro ingestsI [where f = "\<lambda>_ r. r" and new = "\<lambda>_. []"])
      (use rows_invD(1) [OF assms(1)] in auto)
next
  case False
  let ?t = "tn_account_id tn" and ?n = "db_next d T_ledger_entries" and ?rows = "db_ledger_entries d"
  let ?fbk = "first_by_key es" and ?fresh = "fresh_keys (tn_account_id tn) (db_ledger_entries d) es"
  let ?new = "fresh_rows dump ?n now ?t ?rows (map snd ?fbk)"
  have ok: "raw_table_ok ?n ?rows" and okg: "raw_table_ok (db_next d T_gateway_transactions) (db_gateway_transactions d)"
    using rows_invD(1) [OF assms(1), of GATEWAY] rows_invD(1) [OF assms(1), of LEDGER]
    by (simp_all add: model_rows_sel raw_table_ok_truncate)
  let ?d = "d\<lparr> db_next := (db_next d)(T_ledger_entries := ?n + int (length ?fbk)),
    db_ledger_entries := batch_rows dump now ?t es d \<rparr>"
  let ?outs = "map (\<lambda>(k, e). batch_response dump now ?t es d k) ?fbk"
  have d': "d' = enqueue now LEDGER ?outs ?d"
    using assms(4) unfolding ingest_ledger_batch_eq [OF False assms(2,3) ok] by (auto simp del: enqueue.simps)
  have nonneg: "0 \<le> batch_delta es ?fresh k" for k
    by (rule batch_delta_nonneg) (auto simp: fresh_keys_def)
  let ?f = "\<lambda>r. if rt_tenant_id r = ?t then bump (batch_delta es ?fresh (rt_idempotency_key r)) r else r"
  have rows: "map raw_txn.truncate (batch_rows dump now ?t es d) =
      map ?f (map raw_txn.truncate ?rows) @ map (\<lambda>r. ?f (raw_txn.truncate r)) ?new"
    by (simp add: batch_rows_def truncate_settle cong: if_cong)
  have new: "?n \<le> rt_id r \<and> rt_reconciled_at r = None \<and> rt_tenant_id r = ?t \<and> rt_duplicate_count r = 0"
    if "r \<in> set ?new" for r
    using in_fresh_rows [OF that] by auto
  have tab: "raw_table_ok (?n + int (length ?fbk)) (map raw_txn.truncate (batch_rows dump now ?t es d))"
    using batch_rows_ok [OF ok] by (simp add: raw_table_ok_truncate)
  show ?thesis
    unfolding d'
    by (intro ingestsI [where f = "\<lambda>side r. if side = LEDGER then ?f r else r"
          and new = "\<lambda>side. if side = LEDGER then map (\<lambda>r. ?f (raw_txn.truncate r)) ?new else []"])
      (use okg assms(3) new nonneg tab in \<open>auto simp: raw_table_def enqueue_next model_rows_def rows same_row_bump
          raw_table_ok_truncate simp del: enqueue.simps split: ingest_source.splits if_splits\<close>)
qed

subsection \<open>Writing a decision\<close>

lemma side_id_result_of: "side_id side (result_of i tx dec t l m) = decided_id side dec"
  by (cases side) (simp_all add: side_id_def result_of_def decided_id_def)

lemma result_of_sel [simp]:
  "rr_id (result_of i tx dec t l m) = i" "rr_tenant_id (result_of i tx dec t l m) = t"
  "rr_status (result_of i tx dec t l m) = dc_status dec" "rr_match_layer (result_of i tx dec t l m) = dc_layer dec"
  "rr_gateway_txn_id (result_of i tx dec t l m) = dc_gateway_row_id dec"
  "rr_ledger_entry_id (result_of i tx dec t l m) = dc_ledger_row_id dec"
  "rr_match_latency_ms (result_of i tx dec t l m) = l"
  by (simp_all add: result_of_def)

text \<open>What a write of \<open>dec\<close> makes of a row of either side.\<close>

definition settled :: "instant \<Rightarrow> decision \<Rightarrow> ingest_source \<Rightarrow> raw_txn \<Rightarrow> raw_txn" where
  "settled now dec side r =
     (if dc_status dec \<noteq> DUPLICATE \<and> decided_id side dec = Some (rt_id r) \<and> rt_reconciled_at r = None
      then reconcile now r else r)"

lemma settled_sel [simp]:
  "rt_id (settled now dec side r) = rt_id r" "rt_tenant_id (settled now dec side r) = rt_tenant_id r"
  "rt_duplicate_count (settled now dec side r) = rt_duplicate_count r"
  "raw_keys (settled now dec side r) = raw_keys r"
  "facts_of side' (settled now dec side r) = facts_of side' r"
  by (simp_all add: settled_def)

lemma settled_reconciled:
  "rt_reconciled_at (settled now dec side r) \<noteq> None \<longleftrightarrow>
     rt_reconciled_at r \<noteq> None \<or> (dc_status dec \<noteq> DUPLICATE \<and> decided_id side dec = Some (rt_id r))"
  by (auto simp: settled_def)

lemma truncate_reconcile_row:
  "map raw_txn.truncate (reconcile_row now i rows) = reconcile_row now i (map raw_txn.truncate rows)"
  by (cases i) (auto simp: reconcile_row_def update_where_def)

lemma model_rows_mark:
  assumes "dc_status dec \<noteq> DUPLICATE"
  shows "model_rows side (mark_reconciled now dec d) = map (settled now dec side) (model_rows side d)"
proof -
  have "reconcile_row now i rows =
      map (\<lambda>r. if i = Some (rt_id r) \<and> rt_reconciled_at r = None then reconcile now r else r) rows"
    for i and rows :: "raw_txn list"
    by (cases i) (auto simp: reconcile_row_def update_where_def)
  then show ?thesis
    using assms by (cases side)
      (auto simp: model_rows_sel mark_reconciled_def truncate_reconcile_row settled_def decided_id_def)
qed

lemma has_rows_iff:
  "has_gateway d i \<longleftrightarrow> (\<exists>r \<in> set (model_rows GATEWAY d). rt_id r = i)"
  "has_ledger d i \<longleftrightarrow> (\<exists>r \<in> set (model_rows LEDGER d). rt_id r = i)"
  by (auto simp: has_gateway_def has_ledger_def list_ex_iff model_rows_sel)

lemma result_fk_ok_iff:
  "result_fk_ok d (result_of i tx dec t l m) \<longleftrightarrow>
     has_account d t \<and> (\<forall>side j. decided_id side dec = Some j \<longrightarrow> (\<exists>r \<in> set (model_rows side d). rt_id r = j))"
  by (auto simp: result_fk_ok_def all_sides has_rows_iff decided_id_def split: option.splits)

text \<open>The exception a written decision opens.\<close>

definition exception_of :: "int \<Rightarrow> instant \<Rightarrow> int \<Rightarrow> int \<Rightarrow> exception_row" where
  "exception_of i tx t rid =
     \<lparr> ex_id = i, ex_tenant_id = t, ex_reconciliation_result_id = rid,
       ex_opened_at = tx, ex_closed_at = None, ex_resolution_notes = None \<rparr>"

lemma open_exception_eq:
  "open_exception tx t rid d =
     (d\<lparr> db_next := (db_next d)(T_exceptions := db_next d T_exceptions + 1),
         db_exceptions := fst (insert_unless_conflict exception_keys
           (exception_of (db_next d T_exceptions) tx t rid) (db_exceptions d)) \<rparr>,
      snd (insert_unless_conflict exception_keys (exception_of (db_next d T_exceptions) tx t rid) (db_exceptions d)))"
  by (simp add: open_exception_def nextval_def exception_of_def split: prod.split)

text \<open>The two ways \<open>apply_decision\<close> returns: already decided, or written.\<close>

lemma apply_decision_cases:
  assumes "apply_decision tx now dec t l m d = Inr (d', pr)"
  obtains
    (taken) "conflicts result_keys (db_reconciliation_results d) (result_of (db_next d T_reconciliation_results) tx dec t l m)"
      "d' = d\<lparr> db_next := (db_next d)(T_reconciliation_results := db_next d T_reconciliation_results + 1) \<rparr>"
      "pr = \<lparr> pr_written = False, pr_result_id = None, pr_exception_opened = False \<rparr>"
  | (written) row where
      "row = result_of (db_next d T_reconciliation_results) tx dec t l m"
      "\<not> conflicts result_keys (db_reconciliation_results d) row" "result_fk_ok d row"
      "pr_written pr" "db_accounts d' = db_accounts d"
      "db_reconciliation_results d' = db_reconciliation_results d @ [row]"
      "db_next d' T_reconciliation_results = db_next d T_reconciliation_results + 1"
      "\<And>side. db_next d' (raw_table side) = db_next d (raw_table side)"
      "\<And>side. model_rows side d' = map (settled now dec side) (model_rows side d)"
      "db_exceptions d' = (if opens_exception dec
         then fst (insert_unless_conflict exception_keys
                (exception_of (db_next d T_exceptions) tx t (db_next d T_reconciliation_results)) (db_exceptions d))
         else db_exceptions d)"
      "db_outbox_events d' = db_outbox_events d"
      "db_next d' T_exceptions = (if opens_exception dec then db_next d T_exceptions + 1 else db_next d T_exceptions)"
proof -
  let ?i = "db_next d T_reconciliation_results"
  let ?row = "result_of ?i tx dec t l m"
  let ?d1 = "d\<lparr> db_next := (db_next d)(T_reconciliation_results := ?i + 1) \<rparr>"
  have err: "result_row_error ?row = None"
    using assms by (auto simp: apply_decision_def nextval_def Let_def split: option.splits)
  show thesis
  proof (cases "conflicts result_keys (db_reconciliation_results d) ?row")
    case True
    with assms err show thesis
      by (intro taken) (auto simp: apply_decision_def nextval_def Let_def insert_unless_conflict_def)
  next
    case False
    have fk1: "result_fk_ok ?d1 ?row \<longleftrightarrow> result_fk_ok d ?row"
      by (simp add: result_fk_ok_def has_account_def has_gateway_def has_ledger_def split: option.split)
    with False assms err have fk: "result_fk_ok d ?row"
      by (auto simp: apply_decision_def nextval_def Let_def insert_unless_conflict_def split: if_splits)
    let ?d2 = "?d1\<lparr> db_reconciliation_results := db_reconciliation_results d @ [?row] \<rparr>"
    let ?d3 = "if dc_status dec \<noteq> DUPLICATE then mark_reconciled now dec ?d2 else ?d2"
    have rows3: "model_rows side ?d3 = map (settled now dec side) (model_rows side d)" for side
    proof (cases "dc_status dec = DUPLICATE")
      case True
      then show ?thesis by (cases side) (simp_all add: model_rows_sel settled_def)
    next
      case False
      then have "model_rows side ?d3 = map (settled now dec side) (model_rows side ?d2)"
        by (simp add: model_rows_mark)
      then show ?thesis by (cases side) (simp_all add: model_rows_sel)
    qed
    have frame3: "db_accounts ?d3 = db_accounts d" "db_reconciliation_results ?d3 = db_reconciliation_results d @ [?row]"
      "db_exceptions ?d3 = db_exceptions d" "db_outbox_events ?d3 = db_outbox_events d" "db_next ?d3 = db_next ?d1"
      by (simp_all add: mark_reconciled_def)
    have eq: "(case (if opens_exception dec then open_exception tx t ?i ?d3 else (?d3, False)) of
        (d4, opened) \<Rightarrow> (d4, \<lparr> pr_written = True, pr_result_id = Some ?i, pr_exception_opened = opened \<rparr>)) = (d', pr)"
      using assms err False fk fk1
      by (auto simp: apply_decision_def nextval_def Let_def insert_unless_conflict_def split: prod.split_asm prod.split)
    define d3 where "d3 = ?d3"
    note d3 = rows3 [folded d3_def] frame3 [folded d3_def] eq [folded d3_def]
    show thesis
    proof (cases "opens_exception dec")
      case True
      have d': "d' = fst (open_exception tx t ?i d3)" and pr: "pr_written pr"
        using d3(7) True by (auto split: prod.splits)
      have "model_rows side d' = model_rows side d3" for side
        by (cases side) (simp_all add: d' open_exception_eq model_rows_sel)
      then show thesis
        using d3(1-6) False fk True pr by (intro written [of ?row]) (simp_all add: d' open_exception_eq raw_table_def split: ingest_source.split)
    next
      case no_exception: False
      then have d': "d' = d3" and pr: "pr_written pr" using d3(7) by auto
      show thesis
        using d3(1-6) False fk no_exception pr
        by (intro written [of ?row]) (simp_all add: d' raw_table_def split: ingest_source.split)
    qed
  qed
qed

lemma settled_known: "known d c \<Longrightarrow> (\<And>side. model_rows side d' = map (settled now dec side) (model_rows side d)) \<Longrightarrow>
    (\<And>side. db_next d' (raw_table side) = db_next d (raw_table side)) \<Longrightarrow> known d' c"
  by (auto simp: known_def)

lemma result_sound_settled:
  assumes "result_sound config d res" and "\<And>side. model_rows side d' = map (settled now dec side) (model_rows side d)"
  shows "result_sound config d' res"
  using assms(1) unfolding result_sound_def assms(2) by simp

lemma result_sound_new:
  assumes "justified config d t dec" and "result_fk_ok d (result_of i tx dec t l m)"
  shows "result_sound config d (result_of i tx dec t l m)"
  unfolding result_sound_def
proof (intro conjI allI impI ballI)
  show "decision_shape (rr_status (result_of i tx dec t l m)) (rr_match_layer (result_of i tx dec t l m))
      (rr_gateway_txn_id (result_of i tx dec t l m) \<noteq> None) (rr_ledger_entry_id (result_of i tx dec t l m) \<noteq> None)"
    using justified_wf [OF assms(1)] by (simp add: decision_wf_def)
  fix side j
  assume "side_id side (result_of i tx dec t l m) = Some j"
  then have j: "decided_id side dec = Some j" by (simp add: side_id_result_of)
  then obtain r where r: "r \<in> set (model_rows side d)" "rt_id r = j"
    using assms(2) unfolding result_fk_ok_iff by blast
  then show "\<exists>r \<in> set (model_rows side d). rt_id r = j \<and>
      rt_tenant_id r = rr_tenant_id (result_of i tx dec t l m) \<and>
      (rr_status (result_of i tx dec t l m) = DUPLICATE \<longrightarrow> 0 < rt_duplicate_count r)"
    using justified_row [OF assms(1), of side r] j by auto
next
  fix g e
  assume "g \<in> set (model_rows GATEWAY d)" "e \<in> set (model_rows LEDGER d)"
    "rr_gateway_txn_id (result_of i tx dec t l m) = Some (rt_id g) \<and>
     rr_ledger_entry_id (result_of i tx dec t l m) = Some (rt_id e)"
  then show "classify_pair (facts_of GATEWAY g) (facts_of LEDGER e) config =
      Some (rr_status (result_of i tx dec t l m), rr_match_layer (result_of i tx dec t l m))"
    using justified_pair [OF assms(1)] by (simp add: decided_id_def)
qed

text \<open>The write keeps the invariant, however old the snapshot its decision was made on.\<close>

lemma db_inv_apply_decision:
  assumes "db_inv config d" and "justified config d t dec"
    and "apply_decision tx now dec t l m d = Inr (d', pr)"
  shows "db_inv config d'"
  using assms(3)
proof (cases rule: apply_decision_cases)
  case taken
  show ?thesis
    by (rule db_inv_frame [OF assms(1)]) (simp_all add: taken(2) has_account_def model_rows_def raw_table_def
        split: ingest_source.split)
next
  case (written row)
  note inv = db_invD [OF assms(1)]
  have acc: "has_account d' i = has_account d i" for i by (simp add: has_account_def written(5))
  have new_id: "rr_id res < db_next d T_reconciliation_results" if "res \<in> set (db_reconciliation_results d)" for res
    using inv(2) that by (simp add: results_inv_def)
  show ?thesis
  proof (rule db_invI)
    show "rows_inv d'"
      using inv(1) unfolding rows_inv_def written(8,9) acc
      by (subst raw_table_ok_map) auto
    have "result_sound config d row"
      using result_sound_new [OF assms(2)] written(1,3) by simp
    then show "results_inv config d'"
      using inv(2) new_id written(2) result_sound_settled [OF _ written(9)]
      by (force simp: results_inv_def written(1,6,7) result_index.index_ok_append1)
    show "reconciled_inv d'"
      unfolding reconciled_inv_def written(6,9)
    proof (intro allI ballI)
      fix side r'
      assume "r' \<in> set (map (settled now dec side) (model_rows side d))"
      then obtain r where r: "r \<in> set (model_rows side d)" "r' = settled now dec side r" by auto
      have "(rt_reconciled_at r \<noteq> None) =
          (\<exists>res \<in> set (db_reconciliation_results d). active res \<and> side_id side res = Some (rt_id r))"
        using inv(3) r(1) by (simp add: reconciled_inv_def)
      moreover have "active row \<and> side_id side row = Some (rt_id r) \<longleftrightarrow>
          dc_status dec \<noteq> DUPLICATE \<and> decided_id side dec = Some (rt_id r)"
        by (simp add: written(1) active_def suppressed_statuses_def side_id_result_of)
      ultimately show "(rt_reconciled_at r' \<noteq> None) =
          (\<exists>res \<in> set (db_reconciliation_results d @ [row]). active res \<and> side_id side res = Some (rt_id r'))"
        unfolding r(2) settled_reconciled by auto
    qed
    have no_exc: "ex_reconciliation_result_id x \<noteq> db_next d T_reconciliation_results"
      if "x \<in> set (db_exceptions d)" for x
      using inv(4) that new_id by (fastforce simp: exceptions_inv_def)
    let ?x = "exception_of (db_next d T_exceptions) tx t (db_next d T_reconciliation_results)"
    have "\<not> conflicts exception_keys (db_exceptions d) ?x"
      using no_exc by (auto simp: conflicts_iff exception_keys_def exception_of_def)
    moreover from this have "db_exceptions d' = (if opens_exception dec then db_exceptions d @ [?x] else db_exceptions d)"
      by (simp add: written(10) insert_unless_conflict_def)
    moreover have "opens_exception dec \<longleftrightarrow> rr_status row \<in> exception_statuses"
      by (simp add: opens_exception_iff written(1))
    moreover have "distinct (map ex_id (db_exceptions d @ [?x]))"
      using inv(4) by (fastforce simp: exceptions_inv_def exception_of_def)
    ultimately show "exceptions_inv d'"
      using inv(4) unfolding exceptions_inv_def written(6,12)
      by (auto simp: exception_index.index_ok_append1 exception_of_def written(1))
  qed
qed

lemma apply_decision_evolves:
  assumes "apply_decision tx now dec t l m d = Inr (d', pr)"
  shows "evolves d d'"
  using assms
proof (cases rule: apply_decision_cases)
  case taken
  have "model_rows side d' = model_rows side d" "db_next d' (raw_table side) = db_next d (raw_table side)" for side
    by (cases side; simp add: taken(2) model_rows_sel)+
  then show ?thesis by (intro evolves_sameI) auto
next
  case (written row)
  then show ?thesis by (intro evolves_sameI) auto
qed

subsection \<open>Deleting a tenant\<close>

text \<open>The state after the five statements, when none of them fails.\<close>

definition without_tenant :: "int \<Rightarrow> db \<Rightarrow> db" where
  "without_tenant a d =
     d\<lparr> db_exceptions := filter (\<lambda>x. ex_tenant_id x \<noteq> a \<and>
            ex_reconciliation_result_id x \<notin> rr_id ` {r \<in> set (db_reconciliation_results d). rr_tenant_id r = a})
          (db_exceptions d),
        db_reconciliation_results := filter (\<lambda>r. rr_tenant_id r \<noteq> a) (db_reconciliation_results d),
        db_gateway_transactions := filter (\<lambda>r. rt_tenant_id r \<noteq> a) (db_gateway_transactions d),
        db_ledger_entries := filter (\<lambda>r. rt_tenant_id r \<noteq> a) (db_ledger_entries d),
        db_accounts := filter (\<lambda>r. ac_id r \<noteq> a) (db_accounts d),
        db_api_keys := filter (\<lambda>k. ak_account_id k \<noteq> a) (db_api_keys d),
        db_webhook_sources := filter (\<lambda>s. ws_account_id s \<noteq> a) (db_webhook_sources d) \<rparr>"

lemma delete_demo_account_Inr:
  "delete_demo_account a d = Inr d' \<Longrightarrow> d' = without_tenant a d"
  by (auto simp: delete_demo_account_def delete_exceptions_def delete_results_def delete_gateway_rows_def
      delete_ledger_rows_def delete_account_row_def without_tenant_def Let_def conj_commute
      split: if_splits)

lemma without_tenant_rows: "model_rows side (without_tenant a d) = filter (\<lambda>r. rt_tenant_id r \<noteq> a) (model_rows side d)"
  by (cases side) (simp_all add: model_rows_sel without_tenant_def filter_map comp_def)

lemma without_tenant_sel [simp]:
  "db_next (without_tenant a d) = db_next d"
  "db_reconciliation_results (without_tenant a d) = filter (\<lambda>r. rr_tenant_id r \<noteq> a) (db_reconciliation_results d)"
  "has_account (without_tenant a d) i \<longleftrightarrow> has_account d i \<and> i \<noteq> a"
  by (auto simp: without_tenant_def has_account_def list_ex_iff)

lemma without_tenant_evolves: "evolves d (without_tenant a d)"
  by (rule evolves_sameI) (auto simp: without_tenant_rows)

text \<open>A result that references a row of a tenant is that tenant's.\<close>

lemma result_tenant:
  assumes "db_inv config d" and "res \<in> set (db_reconciliation_results d)"
    and "r \<in> set (model_rows side d)" and "side_id side res = Some (rt_id r)"
  shows "rr_tenant_id res = rt_tenant_id r"
proof -
  note inv = db_invD [OF assms(1)]
  have "result_sound config d res" using inv(2) assms(2) by (simp add: results_inv_def)
  then obtain q where q: "q \<in> set (model_rows side d)" "rt_id q = rt_id r" "rt_tenant_id q = rr_tenant_id res"
    using assms(4) unfolding result_sound_def by blast
  have "q = r" by (rule rows_invD(4) [OF inv(1) q(1) assms(3) q(2)])
  with q(3) show ?thesis by simp
qed

lemma delete_demo_account_succeeds:
  assumes "db_inv config d"
  shows "delete_demo_account a d = Inr (without_tenant a d)"
proof -
  let ?rest = "filter (\<lambda>r. rr_tenant_id r \<noteq> a) (db_reconciliation_results d)"
  have gw: "\<not> list_ex (\<lambda>r. rr_gateway_txn_id r \<in> Some ` rt_id ` set (filter (\<lambda>r. rt_tenant_id r = a) (db_gateway_transactions d))) ?rest"
    using result_tenant [OF assms, where side = GATEWAY]
    by (fastforce simp: list_ex_iff side_id_def model_rows_sel)
  have le: "\<not> list_ex (\<lambda>r. rr_ledger_entry_id r \<in> Some ` rt_id ` set (filter (\<lambda>r. rt_tenant_id r = a) (db_ledger_entries d))) ?rest"
    using result_tenant [OF assms, where side = LEDGER]
    by (fastforce simp: list_ex_iff side_id_def model_rows_sel)
  have "\<exists>d'. delete_demo_account a d = Inr d'"
    using gw le
    by (auto simp: delete_demo_account_def delete_exceptions_def delete_results_def delete_gateway_rows_def
      delete_ledger_rows_def delete_account_row_def Let_def list_ex_iff)
  then show ?thesis using delete_demo_account_Inr by fastforce
qed

text \<open>The cascade from the results deletes no exception of another tenant.\<close>

lemma without_tenant_exceptions:
  assumes "db_inv config d"
  shows "db_exceptions (without_tenant a d) = filter (\<lambda>x. ex_tenant_id x \<noteq> a) (db_exceptions d)"
  unfolding without_tenant_def
proof (simp, rule filter_cong [OF refl])
  note inv = db_invD [OF assms]
  fix x
  assume x: "x \<in> set (db_exceptions d)"
  then obtain res where res: "res \<in> set (db_reconciliation_results d)"
    "rr_id res = ex_reconciliation_result_id x" "rr_tenant_id res = ex_tenant_id x"
    using inv(4) by (auto simp: exceptions_inv_def)
  have "q = res" if "q \<in> set (db_reconciliation_results d)" "rr_id q = ex_reconciliation_result_id x" for q
    using inv(2) that res(1,2) distinct_map_eqD by (fastforce simp: results_inv_def)
  then show "(ex_tenant_id x \<noteq> a \<and> ex_reconciliation_result_id x \<notin>
      rr_id ` {r \<in> set (db_reconciliation_results d). rr_tenant_id r = a}) = (ex_tenant_id x \<noteq> a)"
    using res(3) by force
qed

lemma db_inv_without_tenant:
  assumes "db_inv config d"
  shows "db_inv config (without_tenant a d)"
proof (rule db_invI)
  note inv = db_invD [OF assms]
  show "rows_inv (without_tenant a d)"
    using inv(1) by (auto simp: rows_inv_def without_tenant_rows raw_table_ok_filter)
  show "results_inv config (without_tenant a d)"
    using inv(2)
    by (auto simp: results_inv_def result_index.index_ok_filter distinct_map_filterI result_sound_def
        without_tenant_rows) metis
  show "reconciled_inv (without_tenant a d)"
    unfolding reconciled_inv_def
  proof (intro allI ballI)
    fix side r
    assume r: "r \<in> set (model_rows side (without_tenant a d))"
    then have "r \<in> set (model_rows side d)" "rt_tenant_id r \<noteq> a" by (simp_all add: without_tenant_rows)
    then show "(rt_reconciled_at r \<noteq> None) =
        (\<exists>res \<in> set (db_reconciliation_results (without_tenant a d)). active res \<and> side_id side res = Some (rt_id r))"
      using inv(3) result_tenant [OF assms, of _ r side] by (fastforce simp: reconciled_inv_def)
  qed
  note exc = without_tenant_exceptions [OF assms]
  show "exceptions_inv (without_tenant a d)"
    unfolding exceptions_inv_def exc
  proof (intro conjI ballI impI)
    show "index_ok exception_keys (filter (\<lambda>x. ex_tenant_id x \<noteq> a) (db_exceptions d))"
      using inv(4) by (simp add: exceptions_inv_def exception_index.index_ok_filter)
    show "distinct (map ex_id (filter (\<lambda>x. ex_tenant_id x \<noteq> a) (db_exceptions d)))"
      using inv(4) by (simp add: exceptions_inv_def distinct_map_filterI)
    show "ex_id x < db_next (without_tenant a d) T_exceptions"
      if "x \<in> set (filter (\<lambda>x. ex_tenant_id x \<noteq> a) (db_exceptions d))" for x
      using that inv(4) by (simp add: exceptions_inv_def)
    show "\<exists>res \<in> set (db_reconciliation_results (without_tenant a d)). rr_id res = ex_reconciliation_result_id x \<and>
        rr_tenant_id res = ex_tenant_id x \<and> rr_status res \<in> exception_statuses"
      if "x \<in> set (filter (\<lambda>x. ex_tenant_id x \<noteq> a) (db_exceptions d))" for x
      using that inv(4) by (fastforce simp: exceptions_inv_def)
    show "\<exists>x \<in> set (filter (\<lambda>x. ex_tenant_id x \<noteq> a) (db_exceptions d)). ex_reconciliation_result_id x = rr_id res"
      if res: "res \<in> set (db_reconciliation_results (without_tenant a d))" "rr_status res \<in> exception_statuses" for res
    proof -
      obtain x where x: "x \<in> set (db_exceptions d)" "ex_reconciliation_result_id x = rr_id res"
        using inv(4) res by (auto simp: exceptions_inv_def)
      then obtain q where q: "q \<in> set (db_reconciliation_results d)" "rr_id q = rr_id res" "rr_tenant_id q = ex_tenant_id x"
        using inv(4) by (auto simp: exceptions_inv_def)
      have "q = res" using inv(2) q(1,2) res(1) distinct_map_eqD by (fastforce simp: results_inv_def)
      with q(3) res(1) x show ?thesis by auto
    qed
  qed
qed

end
