(* ===== verification/Worker_Laws.thy ===== *)
theory Worker_Laws
  imports Db_Invariant
begin

text \<open>
  How the worker and the sweeper behave on a database that satisfies the invariant: they do not fail,
  a message that has been acted on changes nothing, and a pass of the sweep leaves no stale row.
\<close>

subsection \<open>Latencies\<close>

text \<open>The longest wait, in microseconds, whose milliseconds surely fit the \<open>Integer\<close> column: 24.8 days.\<close>

definition max_wait :: duration where
  "max_wait = 2147483646000"

lemma latest_ge: "f \<in> set (g # gs) \<Longrightarrow> tf_received_at f \<le> latest g gs"
  by (induction g gs rule: latest.induct) auto

lemma latest_in: "\<exists>f \<in> set (g # gs). latest g gs = tf_received_at f"
  by (induction g gs rule: latest.induct) (auto simp: max_def)

lemma latency_nonneg: "0 \<le> compute_latency_ms dec sides now"
  by (simp add: compute_latency_ms_def split: list.split)

lemma latency_int4:
  assumes "c \<in> set sides" and "now - tf_received_at c \<le> max_wait"
  shows "int4_ok (compute_latency_ms dec sides now)"
proof -
  obtain f fs where sides: "sides = f # fs" using assms(1) by (cases sides) auto
  let ?w = "now - latest f fs"
  have w: "?w \<le> max_wait" using latest_ge [of c f fs] assms by (simp add: sides)
  have "max (duration_ms ?w) 0 \<le> int4_max"
  proof (cases "?w \<le> 0")
    case True
    then show ?thesis using duration_ms_nonpos [OF True] by (simp add: int4_max_def)
  next
    case False
    then have "1000 * duration_ms ?w \<le> ?w + 1000" using w by (intro duration_ms_bounds) (simp_all add: max_wait_def)
    then show ?thesis using w by (simp add: max_wait_def int4_max_def)
  qed
  then show ?thesis by (simp add: compute_latency_ms_def sides int4_ok_def)
qed

subsection \<open>Writing a decision that is in time\<close>

fun side_key :: "ingest_source \<Rightarrow> bool \<Rightarrow> int \<Rightarrow> int \<Rightarrow> result_key" where
  "side_key GATEWAY dup t i = (if dup then GatewayDuplicate t i else GatewayActive t i)"
| "side_key LEDGER dup t i = (if dup then LedgerDuplicate t i else LedgerActive t i)"

lemma side_key_in:
  "side_id side res = Some i \<Longrightarrow> side_key side (rr_status res = DUPLICATE) (rr_tenant_id res) i \<in> set (result_keys res)"
  by (cases side) (auto simp: side_id_def result_keys_def)

lemma length_filter_imp: "(\<And>x. x \<in> set xs \<Longrightarrow> p x \<Longrightarrow> q x) \<Longrightarrow> length (filter p xs) \<le> length (filter q xs)"
  by (induction xs) auto

lemma active_iff: "active res \<longleftrightarrow> rr_status res \<noteq> DUPLICATE"
  by (simp add: active_def suppressed_statuses_def)

lemma result_conflict:
  assumes "res \<in> set rows" and "side_id side res = Some i" and "decided_id side dec = Some i"
    and "rr_tenant_id res = t" and "rr_status res = DUPLICATE \<longleftrightarrow> dc_status dec = DUPLICATE"
  shows "conflicts result_keys rows (result_of n tx dec t l m)"
proof -
  have "side_key side (dc_status dec = DUPLICATE) t i \<in> set (result_keys (result_of n tx dec t l m))"
    using side_key_in [of side "result_of n tx dec t l m" i] assms(3) by (simp add: side_id_result_of)
  moreover have "side_key side (dc_status dec = DUPLICATE) t i \<in> set (result_keys res)"
    using side_key_in [OF assms(2)] assms(4,5) by simp
  ultimately show ?thesis using assms(1) by (auto simp: conflicts_iff)
qed

lemma result_conflictD:
  assumes "conflicts result_keys rows (result_of n tx dec t l m)"
  shows "\<exists>res \<in> set rows. \<exists>side i. side_id side res = Some i \<and> decided_id side dec = Some i \<and> rr_tenant_id res = t \<and>
    (rr_status res = DUPLICATE \<longleftrightarrow> dc_status dec = DUPLICATE)"
proof -
  have "\<exists>side i. side_id side r = Some i \<and> k = side_key side (rr_status r = DUPLICATE) (rr_tenant_id r) i"
    if "k \<in> set (result_keys r)" for k r
  proof -
    from that have "(\<exists>i. side_id GATEWAY r = Some i \<and> k = side_key GATEWAY (rr_status r = DUPLICATE) (rr_tenant_id r) i) \<or>
        (\<exists>i. side_id LEDGER r = Some i \<and> k = side_key LEDGER (rr_status r = DUPLICATE) (rr_tenant_id r) i)"
      by (auto simp: result_keys_def side_id_def split: option.splits if_splits)
    then show ?thesis by blast
  qed
  note key = this
  obtain res k where k: "res \<in> set rows" "k \<in> set (result_keys res)" "k \<in> set (result_keys (result_of n tx dec t l m))"
    using assms by (auto simp: conflicts_iff)
  obtain side i where a: "side_id side res = Some i" "k = side_key side (rr_status res = DUPLICATE) (rr_tenant_id res) i"
    using key [OF k(2)] by blast
  obtain side' i' where b: "side_id side' (result_of n tx dec t l m) = Some i'"
    "k = side_key side' (dc_status dec = DUPLICATE) t i'"
    using key [OF k(3)] by auto
  have "side' = side \<and> i' = i \<and> rr_tenant_id res = t \<and> (rr_status res = DUPLICATE \<longleftrightarrow> dc_status dec = DUPLICATE)"
    using a(2) b(2) by (cases side; cases side') (auto split: if_splits)
  then show ?thesis using k(1) a(1) b(1) unfolding side_id_result_of by blast
qed

lemma result_in_range:
  assumes "decision_wf dec" and "int4_ok l" and "0 \<le> l"
  shows "result_row_error (result_of n tx dec t (Some l) m) = None"
proof -
  have "\<not> (dc_gateway_row_id dec = None \<and> dc_ledger_row_id dec = None)"
    using assms(1) by (cases "dc_status dec") (auto simp: decision_wf_def)
  then show ?thesis using assms(2,3) by (auto simp: result_row_error_def)
qed

lemma apply_decision_taken:
  assumes "conflicts result_keys (db_reconciliation_results d) (result_of (db_next d T_reconciliation_results) tx dec t (Some l) m)"
    and "decision_wf dec" and "int4_ok l" and "0 \<le> l"
  shows "apply_decision tx now dec t (Some l) m d =
    Inr (d\<lparr> db_next := (db_next d)(T_reconciliation_results := db_next d T_reconciliation_results + 1) \<rparr>,
         \<lparr> pr_written = False, pr_result_id = None, pr_exception_opened = False \<rparr>)"
  using assms(1) result_in_range [OF assms(2-4)]
  by (simp add: apply_decision_def nextval_def Let_def insert_unless_conflict_def)

lemma result_fk_ok_frame: "result_fk_ok (d\<lparr> db_next := f \<rparr>) r = result_fk_ok d r"
  by (simp add: result_fk_ok_def has_account_def has_gateway_def has_ledger_def split: option.split)

lemma apply_decision_fresh:
  assumes "\<not> conflicts result_keys (db_reconciliation_results d) (result_of (db_next d T_reconciliation_results) tx dec t (Some l) m)"
    and "decision_wf dec" and "int4_ok l" and "0 \<le> l"
    and "has_account d t" and "\<And>side j. decided_id side dec = Some j \<Longrightarrow> \<exists>r \<in> set (model_rows side d). rt_id r = j"
  obtains d' pr where "apply_decision tx now dec t (Some l) m d = Inr (d', pr)" "pr_written pr"
proof -
  let ?n = "db_next d T_reconciliation_results"
  have "result_fk_ok d (result_of ?n tx dec t (Some l) m)" using assms(5,6) by (simp add: result_fk_ok_iff)
  then have "result_fk_ok (d\<lparr> db_next := f \<rparr>) (result_of ?n tx dec t (Some l) m)" for f
    by (simp add: result_fk_ok_frame)
  then show thesis
    using assms(1) result_in_range [OF assms(2-4)]
    by (intro that [of "fst (projr (apply_decision tx now dec t (Some l) m d))" "snd (projr (apply_decision tx now dec t (Some l) m d))"])
      (simp_all add: apply_decision_def nextval_def Let_def insert_unless_conflict_def split: prod.split)
qed

subsection \<open>A message acted on before\<close>

lemma load_facts_row:
  assumes "rows_inv d" and "r \<in> set (model_rows src d)"
  shows "load_facts d src (rt_id r) = Inr (Some (facts_of src r))"
proof -
  have "distinct (map rt_id (model_rows src d))"
    using rows_invD(1) [OF assms(1), of src] by (simp add: raw_table_ok_def)
  from filter_unique [OF this assms(2)] show ?thesis by (simp add: load_facts_def)
qed

lemma decide_message_shape:
  assumes "decide_message config m c d = (Some dec, sides)"
  shows "decision_wf dec" and "c \<in> set sides" and "decided_id (tf_side c) dec = Some (tf_row_id c)"
    and "dc_status dec = DUPLICATE \<longleftrightarrow> im_is_duplicate m"
proof -
  have "decision_wf dec \<and> c \<in> set sides \<and> decided_id (tf_side c) dec = Some (tf_row_id c) \<and>
      (dc_status dec = DUPLICATE \<longleftrightarrow> im_is_duplicate m)"
  proof (cases "im_is_duplicate m")
    case True
    then show ?thesis
      using assms decide_duplicate_wf [of c "im_submissions m"]
      by (auto simp: decide_message_def decided_id_duplicate) (simp add: decide_duplicate_def)
  next
    case False
    then have dec: "decide c (find_counterparties d c config) config = Some dec" "c \<in> set sides"
      using assms by (auto simp: decide_message_def Let_def sides_of_def split: option.splits)
    have "dc_status dec \<noteq> DUPLICATE" using decide_SomeD [OF dec(1)] classify_pair_SomeD(6) by fastforce
    moreover have "decided_id (tf_side c) dec = Some (tf_row_id c)"
      using decide_SomeD [OF dec(1)] by (cases "tf_side c") (auto simp: decided_id_def)
    ultimately show ?thesis using False dec decide_wf [OF dec(1)] by blast
  qed
  then show "decision_wf dec" "c \<in> set sides" "decided_id (tf_side c) dec = Some (tf_row_id c)"
    "dc_status dec = DUPLICATE \<longleftrightarrow> im_is_duplicate m" by blast+
qed

text \<open>
  What has been acted on: a duplicate message once its marker is written, any other message once its
  row has an outcome.
\<close>

definition acted_on :: "db \<Rightarrow> ingest_message \<Rightarrow> raw_txn \<Rightarrow> bool" where
  "acted_on d m r \<longleftrightarrow>
     r \<in> set (model_rows (im_source m) d) \<and> rt_id r = im_row_id m \<and>
     (\<exists>res \<in> set (db_reconciliation_results d). side_id (im_source m) res = Some (im_row_id m) \<and>
        (rr_status res = DUPLICATE \<longleftrightarrow> im_is_duplicate m))"

lemma process_acted_on:
  assumes "db_inv config d" and "acted_on d m r" and "now - rt_received_at r \<le> max_wait"
  shows "\<exists>n out. process config tx now m mid d = Inr (d\<lparr> db_next := (db_next d)(T_reconciliation_results := n) \<rparr>, out) \<and>
    \<not> po_written out"
proof -
  let ?src = "im_source m"
  let ?c = "facts_of ?src r"
  have r: "r \<in> set (model_rows ?src d)" "rt_id r = im_row_id m" using assms(2) by (simp_all add: acted_on_def)
  obtain res where res: "res \<in> set (db_reconciliation_results d)" "side_id ?src res = Some (rt_id r)"
    "rr_status res = DUPLICATE \<longleftrightarrow> im_is_duplicate m" using assms(2) r(2) by (auto simp: acted_on_def)
  have loaded: "load_facts d ?src (im_row_id m) = Inr (Some ?c)"
    using load_facts_row [OF db_invD(1) [OF assms(1)] r(1)] r(2) by simp
  obtain found sides where dm: "decide_message config m ?c d = (found, sides)" by fastforce
  show ?thesis
  proof (cases found)
    case None
    have "d = d\<lparr> db_next := (db_next d)(T_reconciliation_results := db_next d T_reconciliation_results) \<rparr>" by simp
    then show ?thesis
      using None dm by (intro exI [of _ "db_next d T_reconciliation_results"] exI [of _ deferred])
        (simp add: process_def loaded deferred_def)
  next
    case (Some dec)
    note shape = decide_message_shape [OF dm [unfolded Some]]
    let ?l = "compute_latency_ms dec sides now"
    have "conflicts result_keys (db_reconciliation_results d)
        (result_of (db_next d T_reconciliation_results) tx dec (rt_tenant_id r) (Some ?l) mid)"
      using shape(3,4) res result_tenant [OF assms(1) res(1) r(1) res(2)]
      by (intro result_conflict [OF res(1,2)]) simp_all
    from apply_decision_taken [OF this shape(1) latency_int4 [OF shape(2)] latency_nonneg]
    show ?thesis using assms(3) dm Some by (auto simp: process_def loaded)
  qed
qed

subsection \<open>The sweep\<close>

text \<open>
  What a sweep does to the rows of a side: the same rows, in the same order, with the same facts, and
  what is reconciled stays so.
\<close>

definition progress :: "db \<Rightarrow> db \<Rightarrow> bool" where
  "progress d d' \<longleftrightarrow>
     (\<forall>side. list_all2 (\<lambda>r r'. facts_of side r' = facts_of side r \<and>
        (rt_reconciled_at r = None \<or> rt_reconciled_at r' = rt_reconciled_at r)) (model_rows side d) (model_rows side d'))"

lemma progress_refl [simp]: "progress d d"
  by (simp add: progress_def list_all2_same)

lemma progress_trans: "progress d d1 \<Longrightarrow> progress d1 d2 \<Longrightarrow> progress d d2"
  unfolding progress_def
  by (rule allI, rule list_all2_trans [rotated], erule spec, erule spec) auto

lemma progress_row:
  assumes "progress d d'" and "r \<in> set (model_rows side d)"
  shows "\<exists>r' \<in> set (model_rows side d'). facts_of side r' = facts_of side r \<and>
    (rt_reconciled_at r = None \<or> rt_reconciled_at r' = rt_reconciled_at r)"
  using assms list_all2_set1 unfolding progress_def by fast

lemma progress_row_back:
  assumes "progress d d'" and "r' \<in> set (model_rows side d')"
  shows "\<exists>r \<in> set (model_rows side d). facts_of side r' = facts_of side r \<and>
    (rt_reconciled_at r = None \<or> rt_reconciled_at r' = rt_reconciled_at r)"
  using assms list_all2_set2 unfolding progress_def by fast

text \<open>The rows still waiting, on both sides together.\<close>

definition waiting :: "raw_txn list \<Rightarrow> nat" where
  "waiting rows = length (filter (\<lambda>r. rt_reconciled_at r = None) rows)"

definition backlog :: "db \<Rightarrow> nat" where
  "backlog d = waiting (model_rows GATEWAY d) + waiting (model_rows LEDGER d)"

lemma waiting_mono:
  assumes "list_all2 (\<lambda>r r'. facts_of side r' = facts_of side r \<and>
    (rt_reconciled_at r = None \<or> rt_reconciled_at r' = rt_reconciled_at r)) rows rows'"
  shows "waiting rows' \<le> waiting rows"
    and "i < length rows \<Longrightarrow> rt_reconciled_at (rows ! i) = None \<Longrightarrow> rt_reconciled_at (rows' ! i) \<noteq> None \<Longrightarrow>
      waiting rows' < waiting rows"
proof -
  have le: "waiting qs' \<le> waiting qs"
    if "list_all2 (\<lambda>r r'. facts_of side r' = facts_of side r \<and>
      (rt_reconciled_at r = None \<or> rt_reconciled_at r' = rt_reconciled_at r)) qs qs'" for qs qs'
    using that by (induction rule: list_all2_induct) (auto simp: waiting_def)
  show "waiting rows' \<le> waiting rows" by (rule le [OF assms])
  show "waiting rows' < waiting rows"
    if "i < length rows" "rt_reconciled_at (rows ! i) = None" "rt_reconciled_at (rows' ! i) \<noteq> None"
    using assms that
  proof (induction arbitrary: i rule: list_all2_induct)
    case (Cons r qs r' qs')
    from le [OF Cons.hyps(2)] have "waiting qs' \<le> waiting qs" .
    then show ?case using Cons by (cases i) (fastforce simp: waiting_def)+
  qed simp
qed

lemma backlog_mono: "progress d d' \<Longrightarrow> backlog d' \<le> backlog d"
  unfolding backlog_def progress_def by (intro add_mono) (blast intro: waiting_mono(1))+

lemma progress_apply_decision:
  assumes "apply_decision tx now dec t l m d = Inr (d', pr)"
  shows "progress d d'"
  using assms
proof (cases rule: apply_decision_cases)
  case taken
  have "model_rows side d' = model_rows side d" for side by (cases side) (simp_all add: taken(2) model_rows_sel)
  then show ?thesis by (simp add: progress_def list_all2_same)
next
  case (written row)
  show ?thesis
    unfolding progress_def written(9)
    by (intro allI list_all2_map_self) (auto simp: settled_def)
qed

lemma sweep_decision_shape:
  assumes "sweep_decision config now c d = (dec, sides)"
  shows "decision_wf dec" and "c \<in> set sides" and "decided_id (tf_side c) dec = Some (tf_row_id c)"
    and "dc_status dec \<noteq> DUPLICATE"
    and "decided_id (other_side (tf_side c)) dec = Some j \<Longrightarrow>
      \<exists>q \<in> set (model_rows (other_side (tf_side c)) d). rt_id q = j \<and> rt_reconciled_at q = None"
proof -
  have "decision_wf dec \<and> c \<in> set sides \<and> decided_id (tf_side c) dec = Some (tf_row_id c) \<and>
      dc_status dec \<noteq> DUPLICATE \<and> (decided_id (other_side (tf_side c)) dec = Some j \<longrightarrow>
        (\<exists>q \<in> set (model_rows (other_side (tf_side c)) d). rt_id q = j \<and> rt_reconciled_at q = None))"
  proof (cases "decide c (find_counterparties d c config) config")
    case None
    then have "dec = decide_unmatched c (now - tf_received_at c)" "sides = [c]"
      using assms by (simp_all add: sweep_decision_def)
    moreover have "dc_status dec \<noteq> DUPLICATE" unfolding calculation(1) by (simp add: decide_unmatched_def)
    ultimately show ?thesis
      by (cases "tf_side c") (simp_all add: decide_unmatched_wf decided_id_unmatched)
  next
    case (Some dec')
    then have dec: "decide c (find_counterparties d c config) config = Some dec" "c \<in> set sides"
      using assms by (auto simp: sweep_decision_def sides_of_def)
    obtain q where q: "q \<in> set (find_counterparties d c config)"
      and cl: "classify_pair c q config = Some (dc_status dec, dc_layer dec)"
      and ids: "if tf_side c = GATEWAY
        then dc_gateway_row_id dec = Some (tf_row_id c) \<and> dc_ledger_row_id dec = Some (tf_row_id q)
        else dc_gateway_row_id dec = Some (tf_row_id q) \<and> dc_ledger_row_id dec = Some (tf_row_id c)"
      using decide_SomeD [OF dec(1)] by blast
    have "dc_status dec \<noteq> DUPLICATE" using classify_pair_SomeD(6) [OF cl] by auto
    moreover have "decided_id (tf_side c) dec = Some (tf_row_id c)"
      "decided_id (other_side (tf_side c)) dec = Some (tf_row_id q)"
      using ids by (cases "tf_side c"; simp add: decided_id_def)+
    moreover have "\<exists>r \<in> set (model_rows (other_side (tf_side c)) d). rt_id r = tf_row_id q \<and> rt_reconciled_at r = None"
      using q by (auto simp: find_counterparties_def Let_def)
    ultimately show ?thesis using dec decide_wf [OF dec(1)] by auto
  qed
  then show "decision_wf dec" "c \<in> set sides" "decided_id (tf_side c) dec = Some (tf_row_id c)"
    "dc_status dec \<noteq> DUPLICATE"
    "decided_id (other_side (tf_side c)) dec = Some j \<Longrightarrow>
      \<exists>q \<in> set (model_rows (other_side (tf_side c)) d). rt_id q = j \<and> rt_reconciled_at q = None"
    by blast+
qed

lemma sweep_decision_justified:
  assumes "rows_inv d" and "known d f" and "sweep_decision config now f d = (dec, sides)"
  shows "justified config d (tf_tenant_id f) dec"
proof (cases "decide f (find_counterparties d f config) config")
  case None
  then show ?thesis using assms(2,3) by (auto simp: sweep_decision_def intro: justified.unmatched)
next
  case (Some dec')
  then have "dec' = dec" using assms(3) by (simp add: sweep_decision_def)
  with Some show ?thesis
    using assms(2) find_counterparties_known [OF assms(1)] by (intro justified_decide) auto
qed

lemma reconciled_invD:
  "reconciled_inv d \<Longrightarrow> r \<in> set (model_rows side d) \<Longrightarrow> res \<in> set (db_reconciliation_results d) \<Longrightarrow> active res \<Longrightarrow>
     side_id side res = Some (rt_id r) \<Longrightarrow> rt_reconciled_at r \<noteq> None"
  unfolding reconciled_inv_def by blast

lemma sweep_row_resolved_before:
  assumes "db_inv config d" and "r \<in> set (model_rows side d)" and "rt_reconciled_at r \<noteq> None"
    and "clock (facts_of side r) - rt_received_at r \<le> max_wait"
  shows "\<exists>n. sweep_row config clock (facts_of side r) d =
    Inr (d\<lparr> db_next := (db_next d)(T_reconciliation_results := n) \<rparr>, False)"
proof -
  let ?c = "facts_of side r" and ?now = "clock (facts_of side r)"
  obtain dec sides where sd: "sweep_decision config ?now ?c d = (dec, sides)" by fastforce
  note shape = sweep_decision_shape [OF sd]
  obtain res where res: "res \<in> set (db_reconciliation_results d)" "active res" "side_id side res = Some (rt_id r)"
    using db_invD(3) [OF assms(1)] assms(2,3) by (auto simp: reconciled_inv_def)
  have "conflicts result_keys (db_reconciliation_results d) (result_of (db_next d T_reconciliation_results) ?now dec
      (rt_tenant_id r) (Some (compute_latency_ms dec sides ?now)) None)"
    using shape(3,4) res(2) result_tenant [OF assms(1) res(1) assms(2) res(3)]
    by (intro result_conflict [OF res(1,3)]) (simp_all add: active_iff)
  from apply_decision_taken [OF this shape(1) latency_int4 [OF shape(2)] latency_nonneg] assms(4)
  show ?thesis using sd by (auto simp: sweep_row_def)
qed

lemma sweep_row_resolves:
  assumes "db_inv config d" and "r \<in> set (model_rows side d)" and "rt_reconciled_at r = None"
    and "clock (facts_of side r) - rt_received_at r \<le> max_wait"
  obtains d' where "sweep_row config clock (facts_of side r) d = Inr (d', True)"
    and "db_inv config d'" and "progress d d'" and "backlog d' < backlog d"
    and "\<exists>r' \<in> set (model_rows side d'). rt_id r' = rt_id r \<and> rt_reconciled_at r' \<noteq> None"
proof -
  let ?c = "facts_of side r" and ?now = "clock (facts_of side r)"
  obtain dec sides where sd: "sweep_decision config ?now ?c d = (dec, sides)" by fastforce
  let ?l = "compute_latency_ms dec sides ?now"
  note shape = sweep_decision_shape [OF sd]
  have open_row: "\<exists>q \<in> set (model_rows side' d). rt_id q = j \<and> rt_reconciled_at q = None"
    if j: "decided_id side' dec = Some j" for side' j
  proof (cases "side' = side")
    case True
    then show ?thesis using j shape(3) assms(2,3) by auto
  next
    case False
    then have "side' = other_side side" by (cases side; cases side') simp_all
    then show ?thesis using shape(5) [of j] j by simp
  qed
  have "\<not> conflicts result_keys (db_reconciliation_results d)
      (result_of (db_next d T_reconciliation_results) ?now dec (rt_tenant_id r) (Some ?l) None)"
  proof
    assume "conflicts result_keys (db_reconciliation_results d)
      (result_of (db_next d T_reconciliation_results) ?now dec (rt_tenant_id r) (Some ?l) None)"
    then obtain res side' i where res: "res \<in> set (db_reconciliation_results d)" "side_id side' res = Some i"
      "decided_id side' dec = Some i" "active res"
      using result_conflictD shape(4) by (metis active_iff)
    then obtain q where "q \<in> set (model_rows side' d)" "rt_id q = i" "rt_reconciled_at q = None" using open_row by blast
    with reconciled_invD [OF db_invD(3) [OF assms(1)] this(1), of res] res show False by simp
  qed
  then obtain d' pr where ap: "apply_decision ?now ?now dec (rt_tenant_id r) (Some ?l) None d = Inr (d', pr)" "pr_written pr"
    using apply_decision_fresh [OF _ shape(1) latency_int4 [OF shape(2)] latency_nonneg] assms(4) open_row
      rows_invD(2) [OF db_invD(1) [OF assms(1)] assms(2)] by (metis facts_of_sel(4))
  have just: "justified config d (rt_tenant_id r) dec"
    using sweep_decision_justified [OF db_invD(1) [OF assms(1)] known_row [OF db_invD(1) [OF assms(1)] assms(2)] sd] by simp
  have prog: "progress d d'" by (rule progress_apply_decision [OF ap(1)])
  have rows: "model_rows side' d' = map (settled ?now dec side') (model_rows side' d)" for side'
    using ap by (cases rule: apply_decision_cases) auto
  have closed: "rt_reconciled_at (settled ?now dec side r) \<noteq> None"
    using shape(3,4) assms(3) by (simp add: settled_def)
  obtain i where i: "i < length (model_rows side d)" "model_rows side d ! i = r"
    using assms(2) by (auto simp: in_set_conv_nth)
  have "waiting (model_rows side d') < waiting (model_rows side d)"
    using prog i assms(3) closed by (intro waiting_mono(2) [of side _ _ i]) (simp_all add: progress_def rows)
  moreover have "waiting (model_rows side' d') \<le> waiting (model_rows side' d)" for side'
    using prog by (intro waiting_mono(1) [of side']) (simp add: progress_def)
  ultimately have "backlog d' < backlog d"
    unfolding backlog_def by (cases side) (simp_all add: add_less_le_mono add_le_less_mono)
  moreover have "\<exists>r' \<in> set (model_rows side d'). rt_id r' = rt_id r \<and> rt_reconciled_at r' \<noteq> None"
    using assms(2) closed unfolding rows by force
  ultimately show thesis
    using ap sd db_inv_apply_decision [OF assms(1) just ap(1)] prog by (intro that [of d']) (auto simp: sweep_row_def)
qed

text \<open>The rows of a list, in its order; a row settled by an earlier one of the list is stepped over.\<close>

lemma progress_facts:
  assumes "progress d d'"
  shows "facts_of side ` set (model_rows side d') = facts_of side ` set (model_rows side d)"
proof
  show "facts_of side ` set (model_rows side d') \<subseteq> facts_of side ` set (model_rows side d)"
    using progress_row_back [OF assms] by force
  show "facts_of side ` set (model_rows side d) \<subseteq> facts_of side ` set (model_rows side d')"
  proof (rule image_subsetI)
    fix r
    assume "r \<in> set (model_rows side d)"
    then obtain r' where "r' \<in> set (model_rows side d')" "facts_of side r' = facts_of side r"
      using progress_row [OF assms] by blast
    then show "facts_of side r \<in> facts_of side ` set (model_rows side d')" by (metis imageI)
  qed
qed

definition in_time :: "(txn_facts \<Rightarrow> instant) \<Rightarrow> db \<Rightarrow> bool" where
  "in_time clock d \<longleftrightarrow>
     (\<forall>side. \<forall>r \<in> set (model_rows side d). clock (facts_of side r) - rt_received_at r \<le> max_wait)"

lemma in_time_progress:
  assumes "in_time clock d" and "progress d d'"
  shows "in_time clock d'"
  unfolding in_time_def
proof (intro allI ballI)
  fix side r'
  assume "r' \<in> set (model_rows side d')"
  then obtain r where r: "r \<in> set (model_rows side d)" "facts_of side r' = facts_of side r"
    using progress_row_back [OF assms(2)] by blast
  have "rt_received_at r' = rt_received_at r" using r(2) by (metis facts_of_sel(4))
  then show "clock (facts_of side r') - rt_received_at r' \<le> max_wait"
    using assms(1) r by (simp add: in_time_def)
qed

lemma sweep_row_step:
  assumes "db_inv config d" and "in_time clock d" and "c \<in> facts_of side ` set (model_rows side d)"
  obtains d' w where "sweep_row config clock c d = Inr (d', w)"
    and "db_inv config d'" and "progress d d'" and "backlog d' + (if w then 1 else 0) \<le> backlog d"
    and "\<exists>r' \<in> set (model_rows side d'). facts_of side r' = c \<and> rt_reconciled_at r' \<noteq> None"
    and "\<forall>r \<in> set (model_rows side d). facts_of side r = c \<longrightarrow> (w \<longleftrightarrow> rt_reconciled_at r = None)"
proof -
  obtain r where r: "r \<in> set (model_rows side d)" "c = facts_of side r" using assms(3) by blast
  have time: "clock (facts_of side r) - rt_received_at r \<le> max_wait" using assms(2) r(1) by (simp add: in_time_def)
  have uniq: "q = r" if "q \<in> set (model_rows side d)" "facts_of side q = c" for q
    using rows_invD(4) [OF db_invD(1) [OF assms(1)] that(1) r(1)] facts_of_id [of side q r] that(2) r(2) by simp
  show thesis
  proof (cases "rt_reconciled_at r = None")
    case True
    from sweep_row_resolves [of config d r side clock, OF assms(1) r(1) True time]
    obtain d' where d': "sweep_row config clock (facts_of side r) d = Inr (d', True)" "db_inv config d'" "progress d d'"
      "backlog d' < backlog d" "\<exists>r' \<in> set (model_rows side d'). rt_id r' = rt_id r \<and> rt_reconciled_at r' \<noteq> None" .
    obtain r' where r': "r' \<in> set (model_rows side d')" "rt_id r' = rt_id r" "rt_reconciled_at r' \<noteq> None" using d'(5) by blast
    obtain q where q: "q \<in> set (model_rows side d)" "facts_of side r' = facts_of side q"
      using progress_row_back [OF d'(3) r'(1)] by blast
    have "q = r" using rows_invD(4) [OF db_invD(1) [OF assms(1)] q(1) r(1)] facts_of_id [OF q(2)] r'(2) by simp
    then have "facts_of side r' = c" using q(2) r(2) by simp
    with r' d'(1-4) True uniq r(2) show thesis by (intro that [of d' True]) auto
  next
    case False
    obtain n where n: "sweep_row config clock c d = Inr (d\<lparr> db_next := (db_next d)(T_reconciliation_results := n) \<rparr>, False)"
      using sweep_row_resolved_before [of config d r side clock, OF assms(1) r(1) False time] r(2) by blast
    let ?d = "d\<lparr> db_next := (db_next d)(T_reconciliation_results := n) \<rparr>"
    have rows: "model_rows s ?d = model_rows s d" for s by (cases s) (simp_all add: model_rows_sel)
    have prog: "progress d ?d" unfolding progress_def rows by (simp add: list_all2_same)
    obtain dec sides where sd: "sweep_decision config (clock c) c d = (dec, sides)" by fastforce
    have ap: "\<exists>pr. apply_decision (clock c) (clock c) dec (tf_tenant_id c) (Some (compute_latency_ms dec sides (clock c))) None d
        = Inr (?d, pr)"
      using n sd by (auto simp: sweep_row_def Let_def split: sum.splits)
    have "justified config d (tf_tenant_id c) dec"
      using sweep_decision_justified [OF db_invD(1) [OF assms(1)] known_row [OF db_invD(1) [OF assms(1)] r(1)]] sd r(2) by simp
    then have "db_inv config ?d" using db_inv_apply_decision [OF assms(1)] ap by blast
    moreover have "backlog ?d + (if False then 1 else 0) \<le> backlog d" by (simp add: backlog_def rows)
    moreover have "\<exists>r' \<in> set (model_rows side ?d). facts_of side r' = c \<and> rt_reconciled_at r' \<noteq> None"
      unfolding rows by (rule bexI [OF _ r(1)]) (rule conjI [OF r(2) [symmetric] False])
    moreover have "\<forall>q \<in> set (model_rows side d). facts_of side q = c \<longrightarrow> (False \<longleftrightarrow> rt_reconciled_at q = None)"
    proof (intro ballI impI)
      fix q assume "q \<in> set (model_rows side d)" "facts_of side q = c"
      then have "q = r" by (rule uniq)
      with False show "False \<longleftrightarrow> rt_reconciled_at q = None" by simp
    qed
    ultimately show thesis using n prog by (intro that [of ?d False])
  qed
qed

lemma sweep_rows_resolve:
  assumes "db_inv config d" and "in_time clock d" and "set stale \<subseteq> facts_of side ` set (model_rows side d)"
  shows "\<exists>d' k. sweep_rows config clock stale n d = (d', Inr k) \<and> db_inv config d' \<and> progress d d' \<and>
    backlog d' + k \<le> backlog d + n \<and> n \<le> k \<and>
    (\<forall>c \<in> set stale. \<exists>r \<in> set (model_rows side d'). facts_of side r = c \<and> rt_reconciled_at r \<noteq> None) \<and>
    (stale \<noteq> [] \<and> (\<exists>r \<in> set (model_rows side d). facts_of side r = hd stale \<and> rt_reconciled_at r = None) \<longrightarrow> n < k)"
  using assms
proof (induction stale arbitrary: n d)
  case Nil
  then show ?case by simp
next
  case (Cons c stale)
  have c: "c \<in> facts_of side ` set (model_rows side d)" using Cons.prems(3) by simp
  from sweep_row_step [OF Cons.prems(1,2) c]
  obtain d1 w where d1: "sweep_row config clock c d = Inr (d1, w)" "db_inv config d1" "progress d d1"
    "backlog d1 + (if w then 1 else 0) \<le> backlog d"
    "\<exists>r' \<in> set (model_rows side d1). facts_of side r' = c \<and> rt_reconciled_at r' \<noteq> None"
    "\<forall>r \<in> set (model_rows side d). facts_of side r = c \<longrightarrow> (w \<longleftrightarrow> rt_reconciled_at r = None)" .
  let ?n = "if w then n + 1 else n"
  have sub: "set stale \<subseteq> facts_of side ` set (model_rows side d1)"
    using Cons.prems(3) progress_facts [OF d1(3), of side] by simp
  from Cons.IH [OF d1(2) in_time_progress [OF Cons.prems(2) d1(3)] sub, of ?n]
  obtain d' k where d': "sweep_rows config clock stale ?n d1 = (d', Inr k)" "db_inv config d'" "progress d1 d'"
    "backlog d' + k \<le> backlog d1 + ?n" "?n \<le> k"
    "\<forall>c \<in> set stale. \<exists>r \<in> set (model_rows side d'). facts_of side r = c \<and> rt_reconciled_at r \<noteq> None" by blast
  obtain r1 where r1: "r1 \<in> set (model_rows side d1)" "facts_of side r1 = c" "rt_reconciled_at r1 \<noteq> None" using d1(5) by blast
  from progress_row [OF d'(3) r1(1)] obtain r' where r': "r' \<in> set (model_rows side d')" "facts_of side r' = c"
    "rt_reconciled_at r' \<noteq> None"
    using r1(2,3) by metis
  have "sweep_rows config clock (c # stale) n d = (d', Inr k)" using d1(1) d'(1) by simp
  moreover have "backlog d' + k \<le> backlog d + n" using d1(4) d'(4) by (auto split: if_splits)
  moreover have "n \<le> k" using d'(5) by (simp split: if_splits)
  moreover have "n < k" if "\<exists>r \<in> set (model_rows side d). facts_of side r = c \<and> rt_reconciled_at r = None"
    using that d1(6) d'(5) by auto
  moreover have "\<forall>x \<in> set (c # stale). \<exists>r \<in> set (model_rows side d'). facts_of side r = x \<and> rt_reconciled_at r \<noteq> None"
    using d'(6) r' by auto
  ultimately show ?case
    using d'(2) progress_trans [OF d1(3) d'(3)] by (intro exI [of _ d'] exI [of _ k]) simp
qed

text \<open>The rows of a side a pass is due to close.\<close>

definition overdue :: "instant \<Rightarrow> duration \<Rightarrow> ingest_source \<Rightarrow> db \<Rightarrow> raw_txn list" where
  "overdue now w side d = filter (\<lambda>r. rt_reconciled_at r = None \<and> rt_received_at r < now - w) (model_rows side d)"

lemma overdue_mono:
  assumes "progress d d'"
  shows "length (overdue now w side d') \<le> length (overdue now w side d)"
proof -
  have "length (filter (\<lambda>r. rt_reconciled_at r = None \<and> rt_received_at r < now - w) qs') \<le>
      length (filter (\<lambda>r. rt_reconciled_at r = None \<and> rt_received_at r < now - w) qs)"
    if "list_all2 (\<lambda>r r'. facts_of side r' = facts_of side r \<and>
      (rt_reconciled_at r = None \<or> rt_reconciled_at r' = rt_reconciled_at r)) qs qs'" for qs qs'
    using that
  proof (induction rule: list_all2_induct)
    case (Cons r qs r' qs')
    then have "rt_received_at r' = rt_received_at r" by (metis facts_of_sel(4))
    with Cons show ?case by auto
  qed simp
  then show ?thesis using assms by (simp add: overdue_def progress_def)
qed

lemma find_stale_overdue:
  "find_stale_pending d now side w limit =
     map (facts_of side) (take limit (linorder_class.sort_key rt_received_at (overdue now w side d)))"
  by (simp add: find_stale_pending_def overdue_def)

lemma find_stale_in: "c \<in> set (find_stale_pending d now side w limit) \<Longrightarrow> \<exists>r \<in> set (overdue now w side d). c = facts_of side r"
  by (auto simp: find_stale_overdue dest!: in_set_takeD)

lemma find_stale_all:
  "length (overdue now w side d) \<le> limit \<Longrightarrow>
     set (find_stale_pending d now side w limit) = facts_of side ` set (overdue now w side d)"
  by (simp add: find_stale_overdue)

lemma find_stale_Nil: "0 < limit \<Longrightarrow> find_stale_pending d now side w limit = [] \<longleftrightarrow> overdue now w side d = []"
proof -
  assume "0 < limit"
  moreover have "linorder_class.sort_key rt_received_at (overdue now w side d) = [] \<longleftrightarrow> overdue now w side d = []"
    by (metis set_empty set_sort)
  ultimately show ?thesis by (simp add: find_stale_overdue)
qed

lemma in_overdue:
  "r \<in> set (overdue now w side d) \<longleftrightarrow> r \<in> set (model_rows side d) \<and> rt_reconciled_at r = None \<and> rt_received_at r < now - w"
  by (auto simp: overdue_def)

lemma sweep_side_resolves:
  fixes now :: instant and side :: ingest_source and w :: duration and limit :: nat
  assumes "db_inv config d" and "in_time clock d"
  defines "stale \<equiv> find_stale_pending d now side w limit"
  shows "\<exists>d' k. sweep_rows config clock stale n d = (d', Inr k) \<and> db_inv config d' \<and> progress d d' \<and>
    backlog d' + k \<le> backlog d + n \<and> n \<le> k \<and>
    (length (overdue now w side d) \<le> limit \<or> (k = n \<and> 0 < limit) \<longrightarrow> overdue now w side d' = [])"
proof -
  have "set stale \<subseteq> facts_of side ` set (model_rows side d)"
    unfolding stale_def by (auto dest!: find_stale_in simp: in_overdue)
  from sweep_rows_resolve [OF assms(1,2) this, of n]
  obtain d' k where d': "sweep_rows config clock stale n d = (d', Inr k)" "db_inv config d'" "progress d d'"
    "backlog d' + k \<le> backlog d + n" "n \<le> k"
    "\<forall>c \<in> set stale. \<exists>r \<in> set (model_rows side d'). facts_of side r = c \<and> rt_reconciled_at r \<noteq> None"
    "stale \<noteq> [] \<and> (\<exists>r \<in> set (model_rows side d). facts_of side r = hd stale \<and> rt_reconciled_at r = None) \<longrightarrow> n < k"
    by blast
  have "overdue now w side d' = []" if all: "length (overdue now w side d) \<le> limit"
  proof (rule ccontr)
    assume "overdue now w side d' \<noteq> []"
    then obtain r' where r': "r' \<in> set (model_rows side d')" "rt_reconciled_at r' = None" "rt_received_at r' < now - w"
      by (auto simp: overdue_def filter_empty_conv)
    obtain r where r: "r \<in> set (model_rows side d)" "facts_of side r' = facts_of side r" "rt_reconciled_at r = None"
      using progress_row_back [OF d'(3) r'(1)] r'(2) by auto
    have "rt_received_at r < now - w" using r'(3) r(2) by (metis facts_of_sel(4))
    then have "facts_of side r \<in> set stale" unfolding stale_def find_stale_all [OF all] using r by (simp add: in_overdue)
    then obtain q where q: "q \<in> set (model_rows side d')" "facts_of side q = facts_of side r'" "rt_reconciled_at q \<noteq> None"
      using d'(6) r(2) by metis
    have "q = r'" using rows_invD(4) [OF db_invD(1) [OF d'(2)] q(1) r'(1)] facts_of_id [OF q(2)] by simp
    with q(3) r'(2) show False by simp
  qed
  moreover have "overdue now w side d' = []" if "k = n" "0 < limit"
  proof -
    have "stale = []"
    proof (rule ccontr)
      assume ne: "stale \<noteq> []"
      then obtain r where "r \<in> set (overdue now w side d)" "hd stale = facts_of side r"
        using find_stale_in hd_in_set unfolding stale_def by meson
      then show False using d'(7) ne that(1) by (auto simp: in_overdue)
    qed
    then have "overdue now w side d = []" using that(2) by (simp add: stale_def find_stale_Nil)
    then show ?thesis using overdue_mono [OF d'(3), of now w side] by simp
  qed
  ultimately show ?thesis using d'(1-5) by blast
qed

text \<open>Both sides: no stale row is left if they fit the limit, or if the pass wrote nothing.\<close>

lemma sweep_sides_resolve:
  assumes "db_inv (from_settings s) d" and "in_time clock d"
  defines "w \<equiv> seconds (s_unmatched_after_s s)"
  shows "\<exists>d' k. sweep_sides s limit now clock sides n d = (d', Inr k) \<and> db_inv (from_settings s) d' \<and> progress d d' \<and>
    backlog d' + k \<le> backlog d + n \<and> n \<le> k \<and>
    (\<forall>side \<in> set sides. length (overdue now w side d) \<le> limit \<or> (k = n \<and> 0 < limit) \<longrightarrow> overdue now w side d' = [])"
  using assms(1,2)
proof (induction sides arbitrary: n d)
  case Nil
  then show ?case by simp
next
  case (Cons side sides)
  from sweep_side_resolves [OF Cons.prems, of now side w limit n]
  obtain d1 k1 where d1: "sweep_rows (from_settings s) clock (find_stale_pending d now side w limit) n d = (d1, Inr k1)"
    "db_inv (from_settings s) d1" "progress d d1" "backlog d1 + k1 \<le> backlog d + n" "n \<le> k1"
    "length (overdue now w side d) \<le> limit \<or> (k1 = n \<and> 0 < limit) \<longrightarrow> overdue now w side d1 = []" by blast
  from Cons.IH [OF d1(2) in_time_progress [OF Cons.prems(2) d1(3)], of k1]
  obtain d' k where d': "sweep_sides s limit now clock sides k1 d1 = (d', Inr k)" "db_inv (from_settings s) d'"
    "progress d1 d'" "backlog d' + k \<le> backlog d1 + k1" "k1 \<le> k"
    "\<forall>side \<in> set sides. length (overdue now w side d1) \<le> limit \<or> (k = k1 \<and> 0 < limit) \<longrightarrow> overdue now w side d' = []"
    by blast
  have "sweep_sides s limit now clock (side # sides) n d = (d', Inr k)"
    using d1(1) d'(1) by (simp add: w_def)
  moreover have "overdue now w q d' = []"
    if "q \<in> set (side # sides)" "length (overdue now w q d) \<le> limit \<or> (k = n \<and> 0 < limit)" for q
  proof (cases "q \<in> set sides")
    case True
    have "length (overdue now w q d1) \<le> limit \<or> (k = k1 \<and> 0 < limit)"
      using that(2) overdue_mono [OF d1(3), of now w q] d1(5) d'(5) by auto
    with d'(6) True show ?thesis by blast
  next
    case False
    then have q: "q = side" using that(1) by simp
    have "overdue now w side d1 = []" using that(2) d1(5,6) d'(5) unfolding q by auto
    then show ?thesis using overdue_mono [OF d'(3), of now w side] unfolding q by simp
  qed
  ultimately show ?case
    using d'(2,4,5) d1(4,5) progress_trans [OF d1(3) d'(3)]
    by (intro exI [of _ d'] exI [of _ k]) auto
qed

subsection \<open>The draining loop\<close>

text \<open>Retention between two passes only removes rows.\<close>

definition shrinks :: "db \<Rightarrow> db \<Rightarrow> bool" where
  "shrinks d d' \<longleftrightarrow> (\<forall>side. \<exists>p. model_rows side d' = filter p (model_rows side d))"

lemma shrinks_refl [simp]: "shrinks d d"
  unfolding shrinks_def by (rule allI, rule exI [of _ "\<lambda>_. True"]) simp

lemma shrinks_without_tenant: "shrinks d (without_tenant a d)"
  unfolding shrinks_def without_tenant_rows by blast

lemma shrinks_trans: "shrinks d d1 \<Longrightarrow> shrinks d1 d2 \<Longrightarrow> shrinks d d2"
  unfolding shrinks_def by (metis filter_filter)

lemma shrinks_subset: "shrinks d d' \<Longrightarrow> r \<in> set (model_rows side d') \<Longrightarrow> r \<in> set (model_rows side d)"
  unfolding shrinks_def by (metis filter_is_subset subsetD)

lemma shrinks_backlog:
  assumes "shrinks d d'"
  shows "backlog d' \<le> backlog d"
proof -
  have "waiting (filter p rows) \<le> waiting rows" for p rows
    unfolding waiting_def filter_filter by (rule length_filter_imp) simp
  then have "waiting (model_rows side d') \<le> waiting (model_rows side d)" for side
    using assms unfolding shrinks_def by metis
  then show ?thesis unfolding backlog_def by (intro add_mono)
qed

lemma shrinks_in_time: "shrinks d d' \<Longrightarrow> in_time clock d \<Longrightarrow> in_time clock d'"
  using shrinks_subset unfolding in_time_def by blast

lemma shrinks_overdue: "shrinks d d' \<Longrightarrow> overdue now w side d = [] \<Longrightarrow> overdue now w side d' = []"
  using shrinks_subset unfolding overdue_def filter_empty_conv by blast

lemma delete_accounts_inv:
  "db_inv config d \<Longrightarrow> db_inv config (fst (delete_accounts as n d)) \<and> shrinks d (fst (delete_accounts as n d))"
proof (induction as arbitrary: n d)
  case (Cons a as)
  have "delete_accounts (a # as) n d = delete_accounts as (n + 1) (without_tenant a d)"
    using delete_demo_account_succeeds [OF Cons.prems] by simp
  then show ?case
    using Cons.IH [OF db_inv_without_tenant [OF Cons.prems]] shrinks_trans [OF shrinks_without_tenant] by metis
qed simp

lemma maybe_sweep_inv:
  assumes "db_inv config d"
  shows "db_inv config (fst (maybe_sweep_demo_accounts s limit now ticks last_sweep d)) \<and>
    shrinks d (fst (maybe_sweep_demo_accounts s limit now ticks last_sweep d))"
  using delete_accounts_inv [OF assms] assms
  by (simp add: maybe_sweep_demo_accounts_def sweep_demo_accounts_def)

lemma sweep_once_resolves:
  assumes "db_inv (from_settings s) (fst st)" and "in_time clock (fst st)"
  defines "w \<equiv> seconds (s_unmatched_after_s s)"
  shows "\<exists>st' k. sweep_once s limit now clock ticks st = (st', Inr k) \<and> db_inv (from_settings s) (fst st') \<and>
    (\<forall>clock. in_time clock (fst st) \<longrightarrow> in_time clock (fst st')) \<and> backlog (fst st') + k \<le> backlog (fst st) \<and>
    (\<forall>side. length (overdue now w side (fst st)) \<le> limit \<or> (k = 0 \<and> 0 < limit) \<longrightarrow> overdue now w side (fst st') = [])"
proof -
  from sweep_sides_resolve [OF assms(1,2), of limit now "[GATEWAY, LEDGER]" 0, folded w_def]
  obtain d' k where d': "sweep_sides s limit now clock [GATEWAY, LEDGER] 0 (fst st) = (d', Inr k)"
    "db_inv (from_settings s) d'" "progress (fst st) d'" "backlog d' + k \<le> backlog (fst st)"
    "\<forall>side \<in> set [GATEWAY, LEDGER]. length (overdue now w side (fst st)) \<le> limit \<or> (k = 0 \<and> 0 < limit) \<longrightarrow>
       overdue now w side d' = []" by auto
  let ?st' = "maybe_sweep_demo_accounts s limit now ticks (snd st) d'"
  have inv: "db_inv (from_settings s) (fst ?st')" and sh: "shrinks d' (fst ?st')"
    using maybe_sweep_inv [OF d'(2)] by blast+
  have "sweep_once s limit now clock ticks st = (?st', Inr k)"
    using d'(1) by (simp add: sweep_once_def del: sweep_sides.simps)
  moreover have "in_time c (fst ?st')" if "in_time c (fst st)" for c
    by (rule shrinks_in_time [OF sh in_time_progress [OF that d'(3)]])
  moreover have "backlog (fst ?st') + k \<le> backlog (fst st)" using shrinks_backlog [OF sh] d'(4) by simp
  moreover have "overdue now w side (fst ?st') = []"
    if "length (overdue now w side (fst st)) \<le> limit \<or> (k = 0 \<and> 0 < limit)" for side
  proof (rule shrinks_overdue [OF sh])
    have "side \<in> set [GATEWAY, LEDGER]" by (cases side) simp_all
    with d'(5) that show "overdue now w side d' = []" by blast
  qed
  ultimately show ?thesis using inv by blast
qed

lemma sweep_drain_drains:
  assumes "db_inv (from_settings s) (fst st)" and "\<And>n. in_time (fst (snd (readings n))) (fst st)"
    and "backlog (fst st) < budget" and "0 < limit"
  defines "w \<equiv> seconds (s_unmatched_after_s s)"
  shows "\<exists>st' total_resolved passes.
    sweep_drain s limit readings budget p t st = (st', Inr (total_resolved, passes, True)) \<and>
    backlog (fst st') + total_resolved \<le> backlog (fst st) + t \<and>
    (\<forall>side. overdue (fst (readings (passes - 1))) w side (fst st') = [])"
  using assms(1-3)
proof (induction budget arbitrary: p t st)
  case 0
  then show ?case by simp
next
  case (Suc budget)
  obtain now clock ticks where rd: "readings p = (now, clock, ticks)" by (metis prod_cases3)
  have time: "in_time clock (fst st)" using Suc.prems(2) [of p] rd by simp
  from sweep_once_resolves [OF Suc.prems(1) time, of limit now ticks, folded w_def]
  obtain st1 k where st1: "sweep_once s limit now clock ticks st = (st1, Inr k)" "db_inv (from_settings s) (fst st1)"
    "\<forall>clock. in_time clock (fst st) \<longrightarrow> in_time clock (fst st1)" "backlog (fst st1) + k \<le> backlog (fst st)"
    "\<forall>side. length (overdue now w side (fst st)) \<le> limit \<or> (k = 0 \<and> 0 < limit) \<longrightarrow> overdue now w side (fst st1) = []"
    by blast
  show ?case
  proof (cases "k = 0")
    case True
    then show ?thesis using st1 rd assms(4) by simp
  next
    case False
    have "\<And>n. in_time (fst (snd (readings n))) (fst st1)" using Suc.prems(2) st1(3) by blast
    moreover have "backlog (fst st1) < budget" using st1(4) False Suc.prems(3) by simp
    ultimately obtain st' tr ps where
      "sweep_drain s limit readings budget (p + 1) (t + k) st1 = (st', Inr (tr, ps, True))"
      "backlog (fst st') + tr \<le> backlog (fst st1) + (t + k)"
      "\<forall>side. overdue (fst (readings (ps - 1))) w side (fst st') = []"
      using Suc.IH [OF st1(2), of "p + 1" "t + k"] by blast
    then show ?thesis using st1(1,4) rd False by auto
  qed
qed

subsection \<open>A row that has waited too long\<close>

lemma latency_overflow:
  assumes "max_wait + 4000 \<le> now - tf_received_at c" and "now - tf_received_at c < 10 ^ 18"
  shows "\<not> int4_ok (compute_latency_ms dec [c] now)"
proof -
  have "now - tf_received_at c - 2000 < 1000 * duration_ms (now - tf_received_at c)"
    using assms by (intro duration_ms_bounds) (simp_all add: max_wait_def)
  then show ?thesis using assms(1) by (simp add: compute_latency_ms_def int4_ok_def int4_max_def max_wait_def)
qed

lemma sweep_rows_blocked:
  assumes "decide c (find_counterparties d c config) config = None"
    and "max_wait + 4000 \<le> clock c - tf_received_at c" and "clock c - tf_received_at c < 10 ^ 18"
  shows "sweep_rows config clock (c # stale) n d = (d, Inl NumericValueOutOfRange)"
proof -
  have "sweep_decision config (clock c) c d = (decide_unmatched c (clock c - tf_received_at c), [c])"
    using assms(1) by (simp add: sweep_decision_def)
  then have "sweep_row config clock c d = Inl NumericValueOutOfRange"
    using latency_overflow [OF assms(2,3)]
    by (simp add: sweep_row_def apply_decision_def nextval_def Let_def result_row_error_def)
  then show ?thesis by simp
qed

end
