(* ===== verification/Queries.thy ===== *)
theory Queries
  imports Db_Models Tenancy
begin

text \<open>
  \<open>ledgerloop/services/queries.py\<close> and the read routes of \<open>ledgerloop/api/routes_read.py\<close>: the
  statistics of a window, the keyset pages, and closing an exception. \<open>now\<close> is the transaction's
  time.
\<close>

subsection \<open>Statistics\<close>

datatype window = W_1h | W_24h | W_7d

fun window_seconds :: "window \<Rightarrow> int" where
  "window_seconds W_1h = 3600"
| "window_seconds W_24h = 86400"
| "window_seconds W_7d = 604800"

record stats_row =
  st_matched :: nat
  st_unmatched :: nat
  st_unmatched_gateway :: nat
  st_unmatched_ledger :: nat
  st_via_time_drift :: nat
  st_duplicates :: nat
  st_drift :: nat
  st_p50 :: "rat option"
  st_p95 :: "rat option"
  st_p99 :: "rat option"
  st_open_exceptions :: nat

text \<open>
  \<open>percentile_cont(q) WITHIN GROUP (ORDER BY x)\<close>: nulls are left out, then the value at position
  \<open>q * (n - 1)\<close>, interpolated between its neighbours. The database returns it as a double; it is the
  exact rational here.
\<close>

definition percentile_cont :: "rat \<Rightarrow> int list \<Rightarrow> rat option" where
  "percentile_cont q xs =
     (let ys = sort xs in
      if ys = [] then None
      else
        let pos = q * of_nat (length ys - 1);
            lo = nat \<lfloor>pos\<rfloor>;
            hi = nat \<lceil>pos\<rceil>
        in Some (of_int (ys ! lo) + (pos - of_nat lo) * (of_int (ys ! hi) - of_int (ys ! lo))))"

definition count_where :: "('a \<Rightarrow> bool) \<Rightarrow> 'a list \<Rightarrow> nat" where
  "count_where p xs = length (filter p xs)"

definition window_rows :: "db \<Rightarrow> tenant \<Rightarrow> instant \<Rightarrow> window \<Rightarrow> reconciliation_result list" where
  "window_rows d t now w =
     filter (\<lambda>r. rr_tenant_id r = tn_account_id t \<and> now - seconds (window_seconds w) \<le> rr_resolved_at r)
       (db_reconciliation_results d)"

definition fetch_stats :: "db \<Rightarrow> tenant \<Rightarrow> instant \<Rightarrow> window \<Rightarrow> stats_row" where
  "fetch_stats d t now w =
     (let rows = window_rows d t now w;
          latencies = List.map_filter rr_match_latency_ms (filter (\<lambda>r. rr_status r \<noteq> DUPLICATE) rows)
      in \<lparr> st_matched = count_where (\<lambda>r. rr_status r = MATCHED) rows,
           st_unmatched = count_where (\<lambda>r. rr_status r \<in> {UNMATCHED_GATEWAY_ONLY, UNMATCHED_LEDGER_ONLY}) rows,
           st_unmatched_gateway = count_where (\<lambda>r. rr_status r = UNMATCHED_GATEWAY_ONLY) rows,
           st_unmatched_ledger = count_where (\<lambda>r. rr_status r = UNMATCHED_LEDGER_ONLY) rows,
           st_via_time_drift = count_where (\<lambda>r. rr_match_layer r = L_TIME_DRIFT) rows,
           st_duplicates = count_where (\<lambda>r. rr_status r = DUPLICATE) rows,
           st_drift = count_where (\<lambda>r. rr_status r \<in> {AMOUNT_DRIFT, TIME_DRIFT}) rows,
           st_p50 = percentile_cont (1 / 2) latencies,
           st_p95 = percentile_cont (95 / 100) latencies,
           st_p99 = percentile_cont (99 / 100) latencies,
           st_open_exceptions =
             count_where (\<lambda>x. ex_tenant_id x = tn_account_id t \<and> ex_closed_at x = None) (db_exceptions d) \<rparr>)"

text \<open>The total and the match rate of the \<open>/v1/stats\<close> answer (the rate as an exact quotient).\<close>

definition stats_total :: "stats_row \<Rightarrow> nat" where
  "stats_total st = st_matched st + st_unmatched st + st_drift st"

definition match_rate :: "stats_row \<Rightarrow> rat" where
  "match_rate st = (if stats_total st = 0 then 0 else of_nat (st_matched st) / of_nat (stats_total st))"

subsection \<open>Keyset pages\<close>

text \<open>\<open>_apply_keyset\<close>: ids below the cursor, descending, one more than the limit.\<close>

definition keyset :: "('r \<Rightarrow> int) \<Rightarrow> int option \<Rightarrow> nat \<Rightarrow> 'r list \<Rightarrow> 'r list" where
  "keyset row_id cursor limit rows =
     take (limit + 1)
       (rev (linorder_class.sort_key row_id
          (filter (\<lambda>r. case cursor of None \<Rightarrow> True | Some c \<Rightarrow> row_id r < c) rows)))"

text \<open>The page and the next cursor, from the rows \<open>_apply_keyset\<close> fetched.\<close>

definition page_of :: "('r \<Rightarrow> int) \<Rightarrow> nat \<Rightarrow> 'r list \<Rightarrow> 'r list \<times> int option" where
  "page_of row_id limit rows =
     (if limit < length rows then (take limit rows, Some (row_id (rows ! (limit - 1)))) else (rows, None))"

definition results_feed :: "db \<Rightarrow> tenant \<Rightarrow> recon_status option \<Rightarrow> reconciliation_result list" where
  "results_feed d t status =
     filter (\<lambda>r. rr_tenant_id r = tn_account_id t \<and> (case status of None \<Rightarrow> True | Some s \<Rightarrow> rr_status r = s))
       (db_reconciliation_results d)"

definition fetch_results_page ::
  "db \<Rightarrow> tenant \<Rightarrow> recon_status option \<Rightarrow> nat \<Rightarrow> int option \<Rightarrow> reconciliation_result list \<times> int option" where
  "fetch_results_page d t status limit cursor =
     page_of rr_id limit (keyset rr_id cursor limit (results_feed d t status))"

datatype exception_filter = Open | Closed

text \<open>The inner join of an exception with its result, in the tenant's slice.\<close>

definition exceptions_feed ::
  "db \<Rightarrow> tenant \<Rightarrow> exception_filter option \<Rightarrow> (exception_row \<times> reconciliation_result) list" where
  "exceptions_feed d t status =
     [(x, r). x \<leftarrow> db_exceptions d, r \<leftarrow> db_reconciliation_results d,
        ex_reconciliation_result_id x = rr_id r \<and> ex_tenant_id x = tn_account_id t \<and>
        (case status of None \<Rightarrow> True | Some Open \<Rightarrow> ex_closed_at x = None | Some Closed \<Rightarrow> ex_closed_at x \<noteq> None)]"

definition fetch_exceptions_page ::
  "db \<Rightarrow> tenant \<Rightarrow> exception_filter option \<Rightarrow> nat \<Rightarrow> int option \<Rightarrow>
     (exception_row \<times> reconciliation_result) list \<times> int option" where
  "fetch_exceptions_page d t status limit cursor =
     page_of (ex_id \<circ> fst) limit (keyset (ex_id \<circ> fst) cursor limit (exceptions_feed d t status))"

definition fetch_exception ::
  "db \<Rightarrow> tenant \<Rightarrow> int \<Rightarrow> (exception_row \<times> reconciliation_result) option" where
  "fetch_exception d t exception_id =
     List.find (\<lambda>(x, r). ex_id x = exception_id) (exceptions_feed d t None)"

subsection \<open>Closing an exception\<close>

definition closable :: "tenant \<Rightarrow> int \<Rightarrow> exception_row \<Rightarrow> bool" where
  "closable t exception_id x \<longleftrightarrow>
     ex_tenant_id x = tn_account_id t \<and> ex_id x = exception_id \<and> ex_closed_at x = None"

definition close_row :: "instant \<Rightarrow> string \<Rightarrow> exception_row \<Rightarrow> exception_row" where
  "close_row now notes x = x\<lparr> ex_closed_at := Some now, ex_resolution_notes := Some notes \<rparr>"

text \<open>
  The compare-and-set of \<open>close_exception\<close>; the \<open>CHECK\<close> that an exception is not closed before it
  was opened; \<open>one_or_none\<close> of the returned rows.
\<close>

definition close_exception ::
  "instant \<Rightarrow> tenant \<Rightarrow> int \<Rightarrow> string \<Rightarrow> db \<Rightarrow> db_error + db \<times> exception_row option" where
  "close_exception now t exception_id notes d =
     (let hits = filter (closable t exception_id) (db_exceptions d) in
      if list_ex (\<lambda>x. now < ex_opened_at x) hits then Inl CheckViolation
      else
        let d' = d\<lparr> db_exceptions := update_where (closable t exception_id) (close_row now notes) (db_exceptions d) \<rparr> in
        (case hits of
           [] \<Rightarrow> Inr (d', None)
         | [x] \<Rightarrow> Inr (d', Some (close_row now notes x))
         | _ \<Rightarrow> Inl MultipleResultsFound))"

end
