(* ===== verification/Sources.thy ===== *)
theory Sources
  imports Tenancy
begin

text \<open>
  \<open>ledgerloop/services/sources.py\<close>, with \<open>register\<close> of \<open>scripts/create_webhook_source.py\<close>: finding a
  webhook source by its token or by its id within an account, the stamp of a delivery, registration.
  The random token and secret are arguments; \<open>clock\<close> is the reading of \<open>datetime.now(UTC)\<close>.
\<close>

record resolved_source =
  rs_source_id :: int
  rs_provider :: webhook_provider
  rs_signing_secret :: string
  rs_tenant :: tenant

definition generate_signing_secret :: "string \<Rightarrow> string" where
  "generate_signing_secret token = ''whsec_'' @ token"

subsection \<open>Lookup\<close>

text \<open>The join with the account, \<open>.first()\<close>, and the check that the source is not revoked.\<close>

definition first_live :: "(webhook_source \<times> account) list \<Rightarrow> resolved_source option" where
  "first_live joined =
     (case joined of
        [] \<Rightarrow> None
      | (source, account) # _ \<Rightarrow>
          if ws_revoked_at source \<noteq> None then None
          else Some \<lparr> rs_source_id = ws_id source, rs_provider = ws_provider source,
                      rs_signing_secret = ws_signing_secret source, rs_tenant = tenant_of account \<rparr>)"

definition resolve_source :: "db \<Rightarrow> string \<Rightarrow> resolved_source option" where
  "resolve_source d source_token =
     first_live [(s, a). s \<leftarrow> db_webhook_sources d, ws_source_token s = source_token,
                         a \<leftarrow> db_accounts d, ac_id a = ws_account_id s]"

definition resolve_source_for_tenant :: "db \<Rightarrow> tenant \<Rightarrow> int \<Rightarrow> resolved_source option" where
  "resolve_source_for_tenant d t source_id =
     first_live [(s, a). s \<leftarrow> db_webhook_sources d, ws_id s = source_id \<and> ws_account_id s = tn_account_id t,
                         a \<leftarrow> db_accounts d, ac_id a = ws_account_id s]"

definition list_sources :: "db \<Rightarrow> tenant \<Rightarrow> webhook_source list" where
  "list_sources d t =
     linorder_class.sort_key ws_id (filter (\<lambda>s. ws_account_id s = tn_account_id t) (db_webhook_sources d))"

subsection \<open>The stamp of a delivery\<close>

definition stamp :: "instant \<Rightarrow> webhook_delivery_status \<Rightarrow> webhook_source \<Rightarrow> webhook_source" where
  "stamp clock status s = s\<lparr> ws_last_event_at := Some clock, ws_last_delivery_status := Some status \<rparr>"

definition record_delivery :: "instant \<Rightarrow> int \<Rightarrow> webhook_delivery_status \<Rightarrow> db \<Rightarrow> db" where
  "record_delivery clock source_id status d =
     d\<lparr> db_webhook_sources := update_where (\<lambda>s. ws_id s = source_id) (stamp clock status) (db_webhook_sources d) \<rparr>"

subsection \<open>Registration\<close>

definition create_source ::
  "instant \<Rightarrow> string \<Rightarrow> string \<Rightarrow> tenant \<Rightarrow> webhook_provider \<Rightarrow> string \<Rightarrow> string option \<Rightarrow> db \<Rightarrow>
     db_error + db \<times> webhook_source" where
  "create_source now token secret_token t provider label signing_secret d =
     (case nextval T_webhook_sources d of
        (i, d1) \<Rightarrow>
     (let secret = (case signing_secret of Some (c # cs) \<Rightarrow> c # cs | _ \<Rightarrow> generate_signing_secret secret_token);
          source = \<lparr> ws_id = i, ws_account_id = tn_account_id t, ws_provider = provider, ws_source_token = token,
                     ws_signing_secret = secret, ws_label = label, ws_last_event_at = None,
                     ws_last_delivery_status = None, ws_created_at = now, ws_revoked_at = None \<rparr>
      in if 64 < length token \<or> 255 < length secret \<or> 255 < length label then Inl StringDataRightTruncation
         else if conflicts webhook_source_keys (db_webhook_sources d1) source then Inl UniqueViolation
         else if \<not> has_account d1 (tn_account_id t) then Inl ForeignKeyViolation
         else Inr (d1\<lparr> db_webhook_sources := db_webhook_sources d1 @ [source] \<rparr>, source)))"

text \<open>\<open>register\<close> of the command line: the account must exist and be a real one.\<close>

datatype register_error = NoSuchAccount | NotARealAccount | RegisterDb db_error

definition register ::
  "instant \<Rightarrow> string \<Rightarrow> string \<Rightarrow> string \<Rightarrow> webhook_provider \<Rightarrow> string \<Rightarrow> string option \<Rightarrow> db \<Rightarrow>
     register_error + db \<times> string \<times> string" where
  "register now token secret_token account_name provider label signing_secret d =
     (case filter (\<lambda>a. ac_name a = account_name) (db_accounts d) of
        [] \<Rightarrow> Inl NoSuchAccount
      | [account] \<Rightarrow>
          if ac_kind account \<noteq> REAL then Inl NotARealAccount
          else
            (case create_source now token secret_token (tenant_of account) provider label signing_secret d of
               Inl e \<Rightarrow> Inl (RegisterDb e)
             | Inr (d', source) \<Rightarrow> Inr (d', ws_source_token source, ws_signing_secret source))
      | _ \<Rightarrow> Inl (RegisterDb MultipleResultsFound))"

subsection \<open>What the lookups return\<close>

lemma first_live_SomeD:
  "first_live joined = Some r \<Longrightarrow>
     \<exists>s a. (s, a) \<in> set joined \<and> ws_revoked_at s = None \<and> rs_source_id r = ws_id s \<and> rs_provider r = ws_provider s \<and>
       rs_signing_secret r = ws_signing_secret s \<and> rs_tenant r = tenant_of a"
  by (cases joined) (auto simp: first_live_def split: if_splits intro!: exI)

lemma resolve_source_SomeD:
  assumes "resolve_source d token = Some r"
  obtains s a where "s \<in> set (db_webhook_sources d)" "a \<in> set (db_accounts d)" "ws_source_token s = token"
    "ws_revoked_at s = None" "ac_id a = ws_account_id s" "rs_source_id r = ws_id s" "rs_provider r = ws_provider s"
    "rs_signing_secret r = ws_signing_secret s" "rs_tenant r = tenant_of a"
  using assms first_live_SomeD unfolding resolve_source_def by fastforce

lemma resolve_source_for_tenant_SomeD:
  assumes "resolve_source_for_tenant d t i = Some r"
  obtains s a where "s \<in> set (db_webhook_sources d)" "a \<in> set (db_accounts d)" "ws_id s = i"
    "ws_account_id s = tn_account_id t" "ws_revoked_at s = None" "ac_id a = ws_account_id s" "rs_source_id r = i"
    "rs_provider r = ws_provider s" "rs_signing_secret r = ws_signing_secret s" "rs_tenant r = tenant_of a"
  using assms first_live_SomeD unfolding resolve_source_for_tenant_def by fastforce

lemma resolve_source_account: "resolve_source d token = Some r \<Longrightarrow> has_account d (tn_account_id (rs_tenant r))"
  by (erule resolve_source_SomeD) (auto simp: has_account_def list_ex_iff tenant_of_def)

lemma resolve_source_for_tenant_account:
  "resolve_source_for_tenant d t i = Some r \<Longrightarrow>
     has_account d (tn_account_id (rs_tenant r)) \<and> tn_account_id (rs_tenant r) = tn_account_id t"
  by (erule resolve_source_for_tenant_SomeD) (auto simp: has_account_def list_ex_iff tenant_of_def)

text \<open>A token that exactly one live source holds, of an account that is there once.\<close>

lemma filter_join:
  "[(s, a). s \<leftarrow> xs, p s, a \<leftarrow> ys, q s a] = concat (map (\<lambda>s. map (Pair s) (filter (q s) ys)) (filter p xs))"
proof -
  have "concat (map (\<lambda>a. if q s a then [(s, a)] else []) ys) = map (Pair s) (filter (q s) ys)" for s
    by (induction ys) simp_all
  then show ?thesis by (induction xs) simp_all
qed

text \<open>
  A registered endpoint is found by its token. After a registration, the token resolves to a source
  of the registering tenant, with the provider and the secret it was registered with (a generated one
  if none, or an empty one, was given); every other token resolves as before.
\<close>

theorem registered_source_resolves:
  assumes "create_source now token fresh t provider label secret d = Inr (d', s)"
    and "distinct (map ac_id (db_accounts d))"
  shows "(\<exists>a \<in> set (db_accounts d). ac_id a = tn_account_id t \<and>
      resolve_source d' token = Some \<lparr> rs_source_id = db_next d T_webhook_sources, rs_provider = provider,
        rs_signing_secret = (if secret = None \<or> secret = Some [] then ''whsec_'' @ fresh else the secret),
        rs_tenant = tenant_of a \<rparr>) \<and>
    (\<forall>other. other \<noteq> token \<longrightarrow> resolve_source d' other = resolve_source d other)"
proof -
  let ?secret = "case secret of Some (c # cs) \<Rightarrow> c # cs | _ \<Rightarrow> generate_signing_secret fresh"
  have secret: "?secret = (if secret = None \<or> secret = Some [] then ''whsec_'' @ fresh else the secret)"
    by (simp add: generate_signing_secret_def split: option.split list.split)
  have d': "db_webhook_sources d' = db_webhook_sources d @ [s]" "db_accounts d' = db_accounts d"
    and s: "ws_id s = db_next d T_webhook_sources" "ws_account_id s = tn_account_id t" "ws_provider s = provider"
      "ws_source_token s = token" "ws_signing_secret s = ?secret" "ws_revoked_at s = None"
    and fresh: "\<not> conflicts webhook_source_keys (db_webhook_sources d) s" and acc: "has_account d (tn_account_id t)"
    using assms(1) by (auto simp: create_source_def nextval_def Let_def has_account_def split: if_splits)
  have old: "filter (\<lambda>x. ws_source_token x = token) (db_webhook_sources d) = []"
    using fresh s(4) by (auto simp: conflicts_iff webhook_source_keys_def filter_empty_conv)
  obtain a where a: "a \<in> set (db_accounts d)" "ac_id a = tn_account_id t"
    using acc by (auto simp: has_account_def list_ex_iff)
  have one: "filter (\<lambda>x. ac_id x = tn_account_id t) (db_accounts d) = [a]"
    using filter_unique [OF assms(2) a(1)] a(2) by simp
  have "resolve_source d' token = Some \<lparr> rs_source_id = db_next d T_webhook_sources, rs_provider = provider,
      rs_signing_secret = ?secret, rs_tenant = tenant_of a \<rparr>"
    unfolding resolve_source_def filter_join d' using old one s by (simp add: first_live_def)
  moreover have "resolve_source d' other = resolve_source d other" if "other \<noteq> token" for other
    unfolding resolve_source_def filter_join d' using that s(4) by simp
  ultimately show ?thesis using a unfolding secret by blast
qed

theorem registered_source_resolves_witness:
  "\<exists>d' s r. create_source 1 ''token-01'' ''x'' \<lparr> tn_account_id = 1, tn_name = ''acme'', tn_kind = REAL \<rparr> CUSTOM ''l'' None
       (empty_db\<lparr> db_accounts := [\<lparr> ac_id = 1, ac_name = ''acme'', ac_kind = REAL, ac_created_at = 0, ac_last_seen_at = 0 \<rparr>] \<rparr>)
     = Inr (d', s) \<and> resolve_source d' ''token-01'' = Some r \<and> rs_signing_secret r = ''whsec_x''"
proof -
  let ?t = "\<lparr> tn_account_id = 1, tn_name = ''acme'', tn_kind = REAL \<rparr>"
  let ?d = "empty_db\<lparr> db_accounts := [\<lparr> ac_id = 1, ac_name = ''acme'', ac_kind = REAL, ac_created_at = 0, ac_last_seen_at = 0 \<rparr>] \<rparr>"
  have "\<exists>d' s. create_source 1 ''token-01'' ''x'' ?t CUSTOM ''l'' None ?d = Inr (d', s)"
    by (simp add: create_source_def nextval_def conflicts_def has_account_def generate_signing_secret_def empty_db_def Let_def)
  then obtain d' s where ok: "create_source 1 ''token-01'' ''x'' ?t CUSTOM ''l'' None ?d = Inr (d', s)" by blast
  from registered_source_resolves [OF this] show ?thesis using ok by (auto simp: empty_db_def)
qed

end
