(* ===== verification/System.thy ===== *)
theory System
  imports Worker_Laws Queries Sources
begin

text \<open>
  The program as a whole: every process (API requests, relay, matcher workers, sweeper, retention)
  over one database, interleaved at the points where READ COMMITTED lets them interleave. A matcher
  and the sweeper read a row, then its counterparties, then write, and anything may commit in
  between; a message may be delivered any number of times and in any order, as every message ever
  published stays in \<open>sy_stream\<close>.
\<close>

subsection \<open>State and steps\<close>

text \<open>
  Besides the database and the stream: the candidates whose row has been read (by the worker for a
  message, or by the sweeper), and the decisions made but not yet written, with their tenant.
\<close>

record sys =
  sy_db :: db
  sy_stream :: "ingest_message list"
  sy_loaded :: "(txn_facts \<times> ingest_message option) list"
  sy_decided :: "(int \<times> decision) list"

definition initial :: sys where
  "initial = \<lparr> sy_db = empty_db, sy_stream = [], sy_loaded = [], sy_decided = [] \<rparr>"

inductive step :: "settings \<Rightarrow> sys \<Rightarrow> sys \<Rightarrow> bool" for s where
  account: "upsert_account now name kind (sy_db c) = Inr (d', t) \<Longrightarrow> step s c (c\<lparr> sy_db := d' \<rparr>)"
| touch: "step s c (c\<lparr> sy_db := touch_account now clock t n (sy_db c) \<rparr>)"
| key: "issue_api_key now token name label (sy_db c) = Inr (d', raw, t) \<Longrightarrow>
    step s c (c\<lparr> sy_db := d' \<rparr>)"
| source: "create_source now token fresh t provider label secret (sy_db c) = Inr (d', src) \<Longrightarrow>
    step s c (c\<lparr> sy_db := d' \<rparr>)"
| delivery: "step s c (c\<lparr> sy_db := record_delivery clock i status (sy_db c) \<rparr>)"
| gateway: "gateway_webhook_ok p \<Longrightarrow>
    ingest_gateway now tn p k body (sy_db c) = Inr (d', out) \<Longrightarrow> step s c (c\<lparr> sy_db := d' \<rparr>)"
| ledger: "ledger_sync_ok es \<Longrightarrow>
    ingest_ledger_batch dump now tn es (sy_db c) = Inr (d', outs) \<Longrightarrow> step s c (c\<lparr> sy_db := d' \<rparr>)"
| relay: "drain_once s now locked publish committed (sy_db c) = (d', published, res) \<Longrightarrow>
    step s c (c\<lparr> sy_db := d', sy_stream := sy_stream c @ published \<rparr>)"
| worker_load: "m \<in> set (sy_stream c) \<Longrightarrow>
    load_facts (sy_db c) (im_source m) (im_row_id m) = Inr (Some f) \<Longrightarrow>
    step s c (c\<lparr> sy_loaded := (f, Some m) # sy_loaded c \<rparr>)"
| worker_decide: "(f, Some m) \<in> set (sy_loaded c) \<Longrightarrow>
    decide_message (from_settings s) m f (sy_db c) = (Some dec, sides) \<Longrightarrow>
    step s c (c\<lparr> sy_decided := (tf_tenant_id f, dec) # sy_decided c \<rparr>)"
| sweep_load: "f \<in> set (find_stale_pending (sy_db c) now side w limit) \<Longrightarrow>
    step s c (c\<lparr> sy_loaded := (f, None) # sy_loaded c \<rparr>)"
| sweep_decide: "(f, None) \<in> set (sy_loaded c) \<Longrightarrow>
    sweep_decision (from_settings s) now f (sy_db c) = (dec, sides) \<Longrightarrow>
    step s c (c\<lparr> sy_decided := (tf_tenant_id f, dec) # sy_decided c \<rparr>)"
| write_decision: "(t, dec) \<in> set (sy_decided c) \<Longrightarrow>
    apply_decision tx now dec t latency mid (sy_db c) = Inr (d', pr) \<Longrightarrow> step s c (c\<lparr> sy_db := d' \<rparr>)"
| retention: "delete_demo_account a (sy_db c) = Inr d' \<Longrightarrow> step s c (c\<lparr> sy_db := d' \<rparr>)"
| close_exc: "close_exception now t i notes (sy_db c) = Inr (d', x) \<Longrightarrow> step s c (c\<lparr> sy_db := d' \<rparr>)"

inductive reachable :: "settings \<Rightarrow> sys \<Rightarrow> bool" for s where
  start: "reachable s initial"
| step: "reachable s c \<Longrightarrow> step s c c' \<Longrightarrow> reachable s c'"

subsection \<open>The invariant of the whole\<close>

text \<open>A message marked as a duplicate is about a row submitted more than once.\<close>

definition message_sound :: "db \<Rightarrow> ingest_message \<Rightarrow> bool" where
  "message_sound d m \<longleftrightarrow>
     (im_is_duplicate m \<longrightarrow>
        im_row_id m < db_next d (raw_table (im_source m)) \<and>
        (\<forall>r \<in> set (model_rows (im_source m) d). rt_id r = im_row_id m \<longrightarrow> 0 < rt_duplicate_count r))"

definition outbox_sound :: "db \<Rightarrow> bool" where
  "outbox_sound d \<longleftrightarrow>
     (\<forall>ev \<in> set (db_outbox_events d). \<exists>m. ob_payload ev = to_payload m \<and> message_sound d m)"

definition loaded_sound :: "db \<Rightarrow> txn_facts \<times> ingest_message option \<Rightarrow> bool" where
  "loaded_sound d fm \<longleftrightarrow>
     known d (fst fm) \<and>
     (case snd fm of None \<Rightarrow> True | Some m \<Rightarrow> im_is_duplicate m \<longrightarrow> submitted_again d (fst fm))"

definition sys_inv :: "settings \<Rightarrow> sys \<Rightarrow> bool" where
  "sys_inv s c \<longleftrightarrow>
     db_inv (from_settings s) (sy_db c) \<and> outbox_sound (sy_db c) \<and>
     (\<forall>m \<in> set (sy_stream c). message_sound (sy_db c) m) \<and>
     (\<forall>fm \<in> set (sy_loaded c). loaded_sound (sy_db c) fm) \<and>
     (\<forall>(t, dec) \<in> set (sy_decided c). justified (from_settings s) (sy_db c) t dec)"

lemma message_sound_evolves:
  assumes "message_sound d m" and "evolves d d'"
  shows "message_sound d' m"
  unfolding message_sound_def
proof (intro impI conjI ballI)
  assume dup: "im_is_duplicate m"
  let ?side = "im_source m"
  have id: "im_row_id m < db_next d (raw_table ?side)"
    using assms(1) dup by (simp add: message_sound_def)
  have next_le: "db_next d (raw_table ?side) \<le> db_next d' (raw_table ?side)"
    using assms(2) by (simp add: evolves_def)
  show "im_row_id m < db_next d' (raw_table ?side)" using id next_le by simp
  fix r'
  assume r': "r' \<in> set (model_rows ?side d')" "rt_id r' = im_row_id m"
  then obtain r where r: "r \<in> set (model_rows ?side d)" "facts_of ?side r' = facts_of ?side r"
    "rt_duplicate_count r \<le> rt_duplicate_count r'"
    using assms(2) id unfolding evolves_def by (metis not_le)
  have "rt_id r = im_row_id m" using facts_of_id [OF r(2)] r'(2) by simp
  then have "0 < rt_duplicate_count r" using assms(1) dup r(1) by (simp add: message_sound_def)
  then show "0 < rt_duplicate_count r'" using r(3) by simp
qed

lemma loaded_sound_evolves: "loaded_sound d fm \<Longrightarrow> evolves d d' \<Longrightarrow> loaded_sound d' fm"
  using known_evolves submitted_again_evolves by (auto simp: loaded_sound_def split: option.splits)

text \<open>
  The shape of every step that changes the database: it keeps the database invariant, the raw
  tables evolve, and the events it leaves in the outbox are sound.
\<close>

lemma sys_inv_db_step:
  assumes "sys_inv s c" and "db_inv (from_settings s) d'" and "evolves (sy_db c) d'" and "outbox_sound d'"
    and "\<forall>m \<in> set published. message_sound (sy_db c) m"
  shows "sys_inv s (c\<lparr> sy_db := d', sy_stream := sy_stream c @ published \<rparr>)"
  using assms message_sound_evolves [OF _ assms(3)] loaded_sound_evolves [OF _ assms(3)]
    justified_evolves [OF _ assms(3)]
  by (fastforce simp: sys_inv_def)

lemma sys_inv_db_step':
  assumes "sys_inv s c" and "db_inv (from_settings s) d'" and "evolves (sy_db c) d'" and "outbox_sound d'"
  shows "sys_inv s (c\<lparr> sy_db := d' \<rparr>)"
  using sys_inv_db_step [OF assms, of "[]"] by simp

text \<open>Operations that do not write to the outbox keep it sound.\<close>

lemma outbox_sound_evolves:
  assumes "outbox_sound d" and "evolves d d'"
    and "set (map ob_payload (db_outbox_events d')) \<subseteq> set (map ob_payload (db_outbox_events d))"
  shows "outbox_sound d'"
  unfolding outbox_sound_def
proof
  fix ev
  assume "ev \<in> set (db_outbox_events d')"
  with assms(3) obtain ev0 where "ev0 \<in> set (db_outbox_events d)" "ob_payload ev = ob_payload ev0" by fastforce
  then obtain m where "ob_payload ev = to_payload m" "message_sound d m"
    using assms(1) by (auto simp: outbox_sound_def)
  then show "\<exists>m. ob_payload ev = to_payload m \<and> message_sound d' m"
    using message_sound_evolves [OF _ assms(2)] by blast
qed

subsection \<open>Each operation\<close>

lemma evolves_frame:
  assumes "\<And>side. db_next d' (raw_table side) = db_next d (raw_table side)"
    and "\<And>side. model_rows side d' = model_rows side d"
  shows "evolves d d'"
  by (rule evolves_sameI) (auto simp: assms)

text \<open>What leaves the raw tables, the results, the exceptions and the outbox alone.\<close>

definition core_frame :: "db \<Rightarrow> db \<Rightarrow> bool" where
  "core_frame d d' \<longleftrightarrow>
     db_gateway_transactions d' = db_gateway_transactions d \<and> db_ledger_entries d' = db_ledger_entries d \<and>
     db_reconciliation_results d' = db_reconciliation_results d \<and> db_exceptions d' = db_exceptions d \<and>
     db_outbox_events d' = db_outbox_events d \<and>
     (\<forall>t \<in> {T_gateway_transactions, T_ledger_entries, T_reconciliation_results, T_exceptions}. db_next d' t = db_next d t) \<and>
     (\<forall>i. has_account d i \<longrightarrow> has_account d' i)"

lemma core_frame_rows: "core_frame d d' \<Longrightarrow> model_rows side d' = model_rows side d"
  by (cases side) (simp_all add: core_frame_def model_rows_sel)

lemma core_frame_next: "core_frame d d' \<Longrightarrow> db_next d' (raw_table side) = db_next d (raw_table side)"
  by (cases side) (simp_all add: core_frame_def)

lemma core_frame_db_inv:
  assumes "db_inv config d" and "core_frame d d'"
  shows "db_inv config d'"
proof (rule db_inv_frame [OF assms(1)])
  show "has_account d i \<Longrightarrow> has_account d' i" for i using assms(2) by (simp add: core_frame_def)
  show "model_rows side d' = model_rows side d" for side by (rule core_frame_rows [OF assms(2)])
  show "db_next d (raw_table side) \<le> db_next d' (raw_table side)" for side
    using core_frame_next [OF assms(2), of side] by simp
qed (use assms(2) in \<open>simp_all add: core_frame_def\<close>)

lemma core_frame_evolves: "core_frame d d' \<Longrightarrow> evolves d d'"
  by (rule evolves_frame [OF core_frame_next core_frame_rows])

lemma core_frame_step:
  assumes "sys_inv s c" and "core_frame (sy_db c) d'"
  shows "sys_inv s (c\<lparr> sy_db := d' \<rparr>)"
proof (rule sys_inv_db_step' [OF assms(1)])
  have inv: "db_inv (from_settings s) (sy_db c)" "outbox_sound (sy_db c)"
    using assms(1) unfolding sys_inv_def by blast+
  show "db_inv (from_settings s) d'" by (rule core_frame_db_inv [OF inv(1) assms(2)])
  show ev: "evolves (sy_db c) d'" by (rule core_frame_evolves [OF assms(2)])
  have "db_outbox_events d' = db_outbox_events (sy_db c)" using assms(2) by (simp add: core_frame_def)
  then show "outbox_sound d'" by (intro outbox_sound_evolves [OF inv(2) ev]) simp
qed

lemma upsert_core_frame: "upsert_account now name kind d = Inr (d', t) \<Longrightarrow> core_frame d d'"
  by (auto simp: upsert_account_def nextval_def core_frame_def has_account_def insert_unless_conflict_def Let_def
      split: if_splits list.splits)

lemma core_frame_trans: "core_frame d d1 \<Longrightarrow> core_frame d1 d2 \<Longrightarrow> core_frame d d2"
  by (simp add: core_frame_def)

lemma issue_key_core_frame: "issue_api_key now token name label d = Inr (d', raw, t) \<Longrightarrow> core_frame d d'"
proof -
  assume *: "issue_api_key now token name label d = Inr (d', raw, t)"
  then obtain d1 a where up: "upsert_account now name REAL d = Inr (d1, a)"
    by (auto simp: issue_api_key_def split: sum.splits)
  have "core_frame d1 d'"
    using * up by (auto simp: issue_api_key_def nextval_def core_frame_def has_account_def Let_def split: if_splits)
  with upsert_core_frame [OF up] show ?thesis by (rule core_frame_trans)
qed

lemma has_account_ids: "has_account d i \<longleftrightarrow> i \<in> set (map ac_id (db_accounts d))"
  by (auto simp: has_account_def list_ex_iff)

lemma touch_core_frame: "core_frame d (touch_account now clock t n d)"
proof -
  have "map ac_id (update_where p (\<lambda>a. a\<lparr> ac_last_seen_at := now \<rparr>) rows) = map ac_id rows"
    for p now and rows :: "account list"
    by (rule map_update_where) simp
  then show ?thesis
    unfolding core_frame_def has_account_ids touch_account_def by (simp del: set_map)
qed

lemma create_source_core_frame:
  "create_source now token fresh t provider label secret d = Inr (d', src) \<Longrightarrow> core_frame d d'"
  by (auto simp: create_source_def nextval_def core_frame_def has_account_def Let_def split: if_splits)

lemma record_delivery_core_frame: "core_frame d (record_delivery clock i status d)"
  by (simp add: record_delivery_def core_frame_def has_account_def)

text \<open>\<open>_enqueue\<close> of sound outcomes.\<close>

lemma message_sound_enqueue [simp]: "message_sound (enqueue now src outs d) m = message_sound d m"
  by (cases "im_source m") (simp_all add: message_sound_def enqueue_next)

lemma outbox_sound_enqueue:
  assumes "outbox_sound d" and "\<And>out. out \<in> set outs \<Longrightarrow> message_sound d (message_of src out)"
  shows "outbox_sound (enqueue now src outs d)"
proof -
  obtain evs where evs: "db_outbox_events (enqueue now src outs d) = db_outbox_events d @ evs"
    "list_all2 (\<lambda>ev out. ob_source ev = src \<and> ob_row_id ev = io_row_id out \<and>
       ob_payload ev = to_payload (message_of src out) \<and> ob_published_at ev = None) evs outs"
    using enqueue_outbox by blast
  show ?thesis
    unfolding outbox_sound_def message_sound_enqueue evs(1)
    using assms list_all2_set1 [OF evs(2)] by (fastforce simp: outbox_sound_def)
qed

lemma message_sound_row:
  assumes "rows_inv d" and "r \<in> set (model_rows src d)" and "io_row_id out = rt_id r"
    and "io_duplicate out \<Longrightarrow> 0 < rt_duplicate_count r"
  shows "message_sound d (message_of src out)"
proof -
  have "q = r" if "q \<in> set (model_rows src d)" "rt_id q = rt_id r" for q
    by (rule rows_invD(4) [OF assms(1) that(1) assms(2) that(2)])
  then show ?thesis
    using assms(3,4) rows_invD(3) [OF assms(1,2)] by (auto simp: message_sound_def message_of_def)
qed

lemma outbox_sound_ingests:
  assumes "rows_inv d" and "outbox_sound d" and "ingests d (enqueue now src outs d1)"
    and "db_outbox_events d1 = db_outbox_events d"
    and "\<And>out. out \<in> set outs \<Longrightarrow> \<exists>r \<in> set (model_rows src d1). io_row_id out = rt_id r \<and>
      (io_duplicate out \<longrightarrow> 0 < rt_duplicate_count r)"
  shows "outbox_sound (enqueue now src outs d1)"
proof (rule outbox_sound_enqueue)
  let ?d' = "enqueue now src outs d1"
  have rows: "rows_inv ?d'" by (rule rows_inv_ingests [OF assms(1,3)])
  have "evolves d ?d'" by (rule ingests_evolves [OF assms(3)])
  moreover have "db_next ?d' (raw_table side) = db_next d1 (raw_table side)" for side
    by (cases side) (simp_all add: enqueue_next)
  ultimately have "evolves d d1" by (simp add: evolves_def)
  then show "outbox_sound d1" by (rule outbox_sound_evolves [OF assms(2)]) (simp add: assms(4))
  fix out
  assume "out \<in> set outs"
  then obtain r where "r \<in> set (model_rows src ?d')" "io_row_id out = rt_id r"
    "io_duplicate out \<longrightarrow> 0 < rt_duplicate_count r"
    using assms(5) by auto
  then have "message_sound ?d' (message_of src out)" using message_sound_row [OF rows] by blast
  then show "message_sound d1 (message_of src out)" by simp
qed

text \<open>An accepted submission had a key that fits its column.\<close>

lemma gateway_storable_accepted:
  assumes "gateway_webhook_ok p" and "ingest_gateway now tn p k body d = Inr (d', out)"
  shows "gateway_storable p k"
proof -
  have "length k \<le> 255"
    using assms(2)
    by (auto simp: ingest_gateway_def raw_insert_def raw_row_error_def gateway_row_def nextval_def
        split: option.splits if_splits sum.splits)
  then show ?thesis
    using assms(1) money_field_stored
    by (fastforce simp: gateway_storable_def gateway_webhook_ok_def short_id_field_def)
qed

lemma gateway_outbox_sound:
  assumes "rows_inv d" and "outbox_sound d" and "gateway_storable p k"
    and "ingest_gateway now tn p k body d = Inr (d', out)"
  shows "outbox_sound d'"
proof -
  let ?t = "tn_account_id tn" and ?n = "db_next d T_gateway_transactions" and ?rows = "db_gateway_transactions d"
  have ing: "ingests d d'" by (rule ingest_gateway_ingests [OF assms(1,3,4)])
  have ok: "raw_table_ok ?n ?rows"
    using rows_invD(1) [OF assms(1), of GATEWAY] by (simp add: model_rows_sel raw_table_ok_truncate)
  show ?thesis
  proof (cases "row_of_key ?rows (?t, k)")
    case None
    obtain a where a: "numeric_18_2 (gw_amount p) = Some a" using assms(3) by (auto simp: gateway_storable_def)
    have acc: "has_account d ?t" by (rule ingest_gateway_has_account [OF assms(3) None assms(4)])
    let ?d1 = "d\<lparr> db_next := (db_next d)(T_gateway_transactions := ?n + 1),
      db_gateway_transactions := ?rows @ [gateway_row ?n now tn p a k body] \<rparr>"
    have d': "d' = enqueue now GATEWAY [out] ?d1" and out: "io_row_id out = ?n" "\<not> io_duplicate out"
      using assms(4) unfolding ingest_gateway_fresh [OF assms(3) a acc None] by (auto simp del: enqueue.simps)
    show ?thesis
      unfolding d'
      by (rule outbox_sound_ingests [OF assms(1,2) ing [unfolded d']])
        (use out in \<open>auto simp: model_rows_sel\<close>)
  next
    case (Some r)
    let ?rows' = "update_where (holds_key ?t k) (bump 1) ?rows"
    let ?d1 = "d\<lparr> db_next := (db_next d)(T_gateway_transactions := ?n + 1), db_gateway_transactions := ?rows' \<rparr>"
    have d': "d' = enqueue now GATEWAY [out] ?d1" and out: "io_row_id out = rt_id r"
      using assms(4) unfolding ingest_gateway_again [OF assms(3) raw_table_okD(1) [OF ok] Some]
      by (auto simp del: enqueue.simps)
    have r: "r \<in> set ?rows" "holds_key ?t k r" using row_of_key_SomeD [OF Some] by auto
    then have "bump 1 r \<in> set ?rows'" by (auto simp: set_update_where)
    then have mem: "raw_txn.truncate (bump 1 r) \<in> set (model_rows GATEWAY ?d1)"
      unfolding model_rows_sel by (simp del: truncate_update)
    have "raw_txn.truncate r \<in> set (model_rows GATEWAY d)" using r(1) by (simp add: model_rows_sel)
    then have "0 \<le> rt_duplicate_count r" using rows_invD(5) [OF assms(1)] by fastforce
    then show ?thesis
      unfolding d'
      by (intro outbox_sound_ingests [OF assms(1,2) ing [unfolded d']])
        (use mem out in \<open>auto intro!: bexI [OF _ mem] simp del: truncate_update\<close>)
  qed
qed

lemma batch_outcome_row:
  assumes "k \<in> li_idempotency_key ` set es" and "\<And>r. r \<in> set (db_ledger_entries d) \<Longrightarrow> 0 \<le> rt_duplicate_count r"
  shows "\<exists>r \<in> set (batch_rows dump now t es d). io_row_id (batch_response dump now t es d k) = rt_id r \<and>
    (io_duplicate (batch_response dump now t es d k) \<longrightarrow> 0 < rt_duplicate_count r)"
proof -
  obtain r where r: "row_of_key (batch_rows dump now t es d) (t, k) = Some r"
    using batch_rows_hold [OF assms(1)] by blast
  let ?fresh = "fresh_keys t (db_ledger_entries d) es"
  let ?new = "fresh_rows dump (db_next d T_ledger_entries) now t (db_ledger_entries d) (map snd (first_by_key es))"
  obtain q where q: "q \<in> set (db_ledger_entries d @ ?new)" "r = settle t es ?fresh q"
    using row_of_key_SomeD [OF r] by (auto simp: batch_rows_def)
  have own: "rt_tenant_id q = t" "rt_idempotency_key q = k"
    using row_of_key_SomeD [OF r] q(2) by (auto simp: holds_key_def)
  have "0 \<le> rt_duplicate_count q" using q(1) assms(2) in_fresh_rows [of q] by force
  moreover have "rt_duplicate_count r = rt_duplicate_count q + batch_delta es ?fresh k"
    using q(2) own by (simp add: settle_def bump_def)
  ultimately show ?thesis
    using r row_of_key_SomeD [OF r]
    by (intro bexI [of _ r]) (auto simp: batch_response_def outcome_of_key_def Let_def)
qed

text \<open>So did an accepted batch, and its account was there: by the foreign key, or by the row it met.\<close>

lemma insert_entries_has_account:
  assumes "rows_inv d" and "insert_entries dump now t (e # es) d = Inr out"
  shows "has_account d t"
proof -
  obtain a rows ins where ins: "raw_insert (snd (nextval T_ledger_entries d))
      (ledger_row dump (db_next d T_ledger_entries) now t e a) (db_ledger_entries d) = Inr (rows, ins)"
    using assms(2) by (auto simp: nextval_def split: option.splits if_splits sum.splits)
  have acc: "has_account (snd (nextval T_ledger_entries d)) t = has_account d t"
    by (simp add: nextval_def has_account_def)
  show ?thesis
  proof (cases ins)
    case True
    then show ?thesis using ins acc by (simp add: raw_insert_def ledger_row_def split: option.splits if_splits prod.splits)
  next
    case False
    then have "conflicts raw_keys (db_ledger_entries d) (ledger_row dump (db_next d T_ledger_entries) now t e a)"
      using ins by (auto simp: raw_insert_def insert_unless_conflict_def split: option.splits if_splits)
    then obtain q where q: "q \<in> set (db_ledger_entries d)" "rt_tenant_id q = t"
      unfolding raw_conflicts_iff by (auto simp: holds_key_def ledger_row_def)
    then have "raw_txn.truncate q \<in> set (model_rows LEDGER d)" by (simp add: model_rows_sel)
    from rows_invD(2) [OF assms(1) this] q(2) show ?thesis by simp
  qed
qed

lemma ledger_batch_has_account:
  assumes "rows_inv d" and "es \<noteq> []" and "ingest_ledger_batch dump now tn es d = Inr (d', outs)"
  shows "has_account d (tn_account_id tn)"
proof -
  have "map snd (first_by_key es) \<noteq> []" using first_by_key_keys [of es] assms(2) by auto
  then obtain e es' where "map snd (first_by_key es) = e # es'" by (cases "map snd (first_by_key es)") auto
  moreover obtain out where "insert_entries dump now (tn_account_id tn) (map snd (first_by_key es)) d = Inr out"
    using assms(2,3) by (auto simp: ingest_ledger_batch_def split: sum.splits)
  ultimately show ?thesis using insert_entries_has_account [OF assms(1)] by metis
qed

lemma ledger_storable_accepted:
  assumes "rows_inv d" and "ledger_sync_ok es" and "ingest_ledger_batch dump now tn es d = Inr (d', outs)"
  shows "list_all ledger_storable es" and "has_account d (tn_account_id tn)"
proof -
  show "list_all ledger_storable es"
    using assms(2) ledger_storableI by (auto simp: ledger_sync_ok_def list_all_iff)
  have "es \<noteq> []" using assms(2) by (auto simp: ledger_sync_ok_def)
  from ledger_batch_has_account [OF assms(1) this assms(3)] show "has_account d (tn_account_id tn)" .
qed

lemma ledger_outbox_sound:
  assumes "rows_inv d" and "outbox_sound d" and "list_all ledger_storable es" and "has_account d (tn_account_id tn)"
    and "ingest_ledger_batch dump now tn es d = Inr (d', outs)"
  shows "outbox_sound d'"
proof (cases "es = []")
  case True
  then show ?thesis using assms(2,5) by (simp add: ingest_ledger_batch_def)
next
  case False
  let ?t = "tn_account_id tn" and ?n = "db_next d T_ledger_entries" and ?fbk = "first_by_key es"
  have ing: "ingests d d'" by (rule ingest_ledger_batch_ingests [OF assms(1,3-5)])
  have ok: "raw_table_ok ?n (db_ledger_entries d)"
    using rows_invD(1) [OF assms(1), of LEDGER] by (simp add: model_rows_sel raw_table_ok_truncate)
  let ?d1 = "d\<lparr> db_next := (db_next d)(T_ledger_entries := ?n + int (length ?fbk)),
    db_ledger_entries := batch_rows dump now ?t es d \<rparr>"
  let ?outs = "map (\<lambda>(k, e). batch_response dump now ?t es d k) ?fbk"
  have d': "d' = enqueue now LEDGER ?outs ?d1"
    using assms(5) unfolding ingest_ledger_batch_eq [OF False assms(3,4) ok] by (auto simp del: enqueue.simps)
  have nonneg: "0 \<le> rt_duplicate_count r" if "r \<in> set (db_ledger_entries d)" for r
    using rows_invD(5) [OF assms(1), of "raw_txn.truncate r" LEDGER] that by (simp add: model_rows_sel)
  show ?thesis
    unfolding d'
  proof (rule outbox_sound_ingests [OF assms(1,2) ing [unfolded d']])
    show "db_outbox_events ?d1 = db_outbox_events d" by simp
    fix out
    assume "out \<in> set ?outs"
    then obtain k e where ke: "(k, e) \<in> set ?fbk" and out: "out = batch_response dump now ?t es d k" by auto
    have "k \<in> li_idempotency_key ` set es" using ke first_by_key_keys [of es] by force
    from batch_outcome_row [OF this nonneg, where dump = dump and now = now and t = ?t] obtain r where r: "r \<in> set (batch_rows dump now ?t es d)"
      "io_row_id out = rt_id r" "io_duplicate out \<longrightarrow> 0 < rt_duplicate_count r" unfolding out by blast
    then show "\<exists>r \<in> set (model_rows LEDGER ?d1). io_row_id out = rt_id r \<and> (io_duplicate out \<longrightarrow> 0 < rt_duplicate_count r)"
      by (intro bexI [of _ "raw_txn.truncate r"]) (auto simp: model_rows_sel)
  qed
qed

text \<open>The relay: what it publishes comes out of the outbox, and it only touches the outbox.\<close>

lemma messages_of_payloads:
  "messages_of evs = Inr ms \<Longrightarrow> m \<in> set ms \<Longrightarrow> \<exists>ev \<in> set evs. from_payload (ob_payload ev) = Inr m"
  by (induction evs arbitrary: ms) (auto split: sum.splits)

lemma claimed_subset: "ev \<in> set (claimed n locked d) \<Longrightarrow> ev \<in> set (db_outbox_events d)"
  by (auto simp: claimed_def dest: in_set_takeD)

lemma drain_once_published:
  assumes "drain_once s now locked publish committed d = (d', published, res)" and "m \<in> set published"
  shows "\<exists>ev \<in> set (db_outbox_events d). from_payload (ob_payload ev) = Inr m"
proof -
  obtain ms where ms: "messages_of (claimed (s_outbox_batch_size s) locked d) = Inr ms" "m \<in> set ms"
    using assms by (auto simp: drain_once_def Let_def dest: in_set_takeD split: if_splits sum.splits prod.splits)
  then show ?thesis using messages_of_payloads [OF ms] claimed_subset by blast
qed

lemma drain_once_db:
  assumes "drain_once s now locked publish committed d = (d', published, res)"
  shows "\<exists>p. d' = d\<lparr> db_outbox_events := update_where p (publish_event now) (db_outbox_events d) \<rparr>"
proof -
  have "d = d\<lparr> db_outbox_events := update_where (\<lambda>_. False) (publish_event now) (db_outbox_events d) \<rparr>"
    by (simp add: update_where_id)
  then show ?thesis
    using assms by (auto simp: drain_once_def Let_def split: if_splits sum.splits prod.splits)
qed

lemma relay_outbox_frame:
  assumes d'_def: "d' = d\<lparr> db_outbox_events := update_where p (publish_event now) (db_outbox_events d) \<rparr>"
  shows "db_inv config d \<Longrightarrow> db_inv config d'" and "evolves d d'" and "outbox_sound d \<Longrightarrow> outbox_sound d'"
proof -
  have rows: "model_rows side d' = model_rows side d" and next_id: "db_next d' = db_next d" for side
    by (cases side) (simp_all add: d'_def model_rows_sel)
  show "db_inv config d'" if "db_inv config d"
    by (rule db_inv_frame [OF that _ rows]) (simp_all add: d'_def has_account_def)
  show ev: "evolves d d'" by (rule evolves_frame) (simp_all add: rows next_id)
  have "map ob_payload (db_outbox_events d') = map ob_payload (db_outbox_events d)"
    unfolding d'_def by (simp add: map_update_where publish_event_def)
  then show "outbox_sound d'" if "outbox_sound d"
    by (intro outbox_sound_evolves [OF that ev]) (simp del: set_map)
qed

lemma relay_step:
  assumes "sys_inv s c" and "drain_once s now locked publish committed (sy_db c) = (d', published, res)"
  shows "sys_inv s (c\<lparr> sy_db := d', sy_stream := sy_stream c @ published \<rparr>)"
proof -
  obtain p where d': "d' = (sy_db c)\<lparr> db_outbox_events := update_where p (publish_event now) (db_outbox_events (sy_db c)) \<rparr>"
    using drain_once_db [OF assms(2)] by blast
  have inv: "db_inv (from_settings s) (sy_db c)" "outbox_sound (sy_db c)"
    using assms(1) unfolding sys_inv_def by blast+
  have "message_sound (sy_db c) m" if "m \<in> set published" for m
    using drain_once_published [OF assms(2) that] inv(2) by (auto simp: outbox_sound_def)
  then show ?thesis
    using relay_outbox_frame [OF d'] inv by (intro sys_inv_db_step [OF assms(1)]) blast+
qed

text \<open>What a worker and the sweeper decide on facts read earlier.\<close>

lemma load_step:
  assumes "sys_inv s c" and "m \<in> set (sy_stream c)"
    and "load_facts (sy_db c) (im_source m) (im_row_id m) = Inr (Some f)"
  shows "loaded_sound (sy_db c) (f, Some m)"
proof -
  have "rows_inv (sy_db c)" using assms(1) by (simp add: sys_inv_def db_inv_def)
  from load_facts_known [OF this assms(3)] obtain r where r: "known (sy_db c) f" "tf_side f = im_source m"
    "rt_id r = im_row_id m" "f = facts_of (im_source m) r" by blast
  have "tf_row_id f = im_row_id m" using r(3,4) by simp
  moreover have "message_sound (sy_db c) m" using assms(1,2) by (simp add: sys_inv_def)
  ultimately show ?thesis using r(1,2) by (simp add: loaded_sound_def message_sound_def submitted_again_def)
qed

lemma decide_message_justified:
  assumes "rows_inv d" and "loaded_sound d (f, Some m)" and "decide_message config m f d = (Some dec, sides)"
  shows "justified config d (tf_tenant_id f) dec"
proof (cases "im_is_duplicate m")
  case True
  then show ?thesis
    using assms(2,3) by (auto simp: decide_message_def loaded_sound_def intro: justified.duplicate)
next
  case False
  then have "decide f (find_counterparties d f config) config = Some dec"
    using assms(3) by (auto simp: decide_message_def Let_def split: option.splits)
  then show ?thesis
    using assms(2) find_counterparties_known [OF assms(1)]
    by (intro justified_decide) (auto simp: loaded_sound_def)
qed

lemma write_step:
  assumes "sys_inv s c" and "(t, dec) \<in> set (sy_decided c)"
    and "apply_decision tx now dec t latency mid (sy_db c) = Inr (d', pr)"
  shows "sys_inv s (c\<lparr> sy_db := d' \<rparr>)"
proof (rule sys_inv_db_step' [OF assms(1)])
  have inv: "db_inv (from_settings s) (sy_db c)" "outbox_sound (sy_db c)"
    "justified (from_settings s) (sy_db c) t dec"
    using assms(1,2) unfolding sys_inv_def by blast+
  show "db_inv (from_settings s) d'" by (rule db_inv_apply_decision [OF inv(1,3) assms(3)])
  show ev: "evolves (sy_db c) d'" by (rule apply_decision_evolves [OF assms(3)])
  have "db_outbox_events d' = db_outbox_events (sy_db c)"
    using assms(3) by (cases rule: apply_decision_cases) simp_all
  then show "outbox_sound d'" by (intro outbox_sound_evolves [OF inv(2) ev]) simp
qed

lemma retention_step:
  assumes "sys_inv s c" and "delete_demo_account a (sy_db c) = Inr d'"
  shows "sys_inv s (c\<lparr> sy_db := d' \<rparr>)"
proof (rule sys_inv_db_step' [OF assms(1)])
  have inv: "db_inv (from_settings s) (sy_db c)" "outbox_sound (sy_db c)"
    using assms(1) unfolding sys_inv_def by blast+
  have d': "d' = without_tenant a (sy_db c)" by (rule delete_demo_account_Inr [OF assms(2)])
  show "db_inv (from_settings s) d'" unfolding d' by (rule db_inv_without_tenant [OF inv(1)])
  show ev: "evolves (sy_db c) d'" unfolding d' by (rule without_tenant_evolves)
  show "outbox_sound d'" by (rule outbox_sound_evolves [OF inv(2) ev]) (simp add: d' without_tenant_def)
qed

text \<open>Closing an exception changes no key and no owner.\<close>

lemma close_row_sel [simp]:
  "ex_id (close_row now notes x) = ex_id x" "ex_tenant_id (close_row now notes x) = ex_tenant_id x"
  "ex_reconciliation_result_id (close_row now notes x) = ex_reconciliation_result_id x"
  "exception_keys (close_row now notes x) = exception_keys x"
  by (simp_all add: close_row_def exception_keys_def)

lemma close_exception_db:
  "close_exception now t i notes d = Inr (d', x) \<Longrightarrow>
     d' = d\<lparr> db_exceptions := update_where (closable t i) (close_row now notes) (db_exceptions d) \<rparr>"
  by (auto simp: close_exception_def Let_def split: if_splits list.splits)

lemma exceptions_inv_close:
  assumes "exceptions_inv d"
  shows "exceptions_inv (d\<lparr> db_exceptions := update_where p (close_row now notes) (db_exceptions d) \<rparr>)"
proof -
  let ?xs = "update_where p (close_row now notes) (db_exceptions d)"
  have index: "index_ok exception_keys ?xs"
    using assms by (simp add: exceptions_inv_def exception_index.index_ok_update)
  have origin: "\<exists>y \<in> set (db_exceptions d). ex_reconciliation_result_id y = ex_reconciliation_result_id x \<and>
      ex_tenant_id y = ex_tenant_id x" if "x \<in> set ?xs" for x
    using that by (auto simp: set_update_where split: if_splits)
  have fwd: "\<exists>y \<in> set ?xs. ex_reconciliation_result_id y = ex_reconciliation_result_id x"
    if "x \<in> set (db_exceptions d)" for x
    unfolding set_update_where
    by (rule bexI [OF _ imageI [OF that]]) simp
  have "\<exists>res \<in> set (db_reconciliation_results d). rr_id res = ex_reconciliation_result_id x \<and>
      rr_tenant_id res = ex_tenant_id x \<and> rr_status res \<in> exception_statuses" if "x \<in> set ?xs" for x
    using origin [OF that] assms unfolding exceptions_inv_def by metis
  moreover have "\<exists>x \<in> set ?xs. ex_reconciliation_result_id x = rr_id res"
    if "res \<in> set (db_reconciliation_results d)" "rr_status res \<in> exception_statuses" for res
    using that fwd assms unfolding exceptions_inv_def by metis
  moreover have "map ex_id ?xs = map ex_id (db_exceptions d)" by (simp add: map_update_where)
  moreover have "ex_id x < db_next d T_exceptions" if "x \<in> set ?xs" for x
    using that assms by (auto simp: set_update_where exceptions_inv_def split: if_splits)
  ultimately show ?thesis using index assms by (simp add: exceptions_inv_def)
qed

lemma close_step:
  assumes "sys_inv s c" and "close_exception now t i notes (sy_db c) = Inr (d', x)"
  shows "sys_inv s (c\<lparr> sy_db := d' \<rparr>)"
proof (rule sys_inv_db_step' [OF assms(1)])
  have inv: "db_inv (from_settings s) (sy_db c)" "outbox_sound (sy_db c)"
    using assms(1) unfolding sys_inv_def by blast+
  have d': "d' = (sy_db c)\<lparr> db_exceptions := update_where (closable t i) (close_row now notes) (db_exceptions (sy_db c)) \<rparr>"
    by (rule close_exception_db [OF assms(2)])
  have rows: "model_rows side d' = model_rows side (sy_db c)" for side
    by (cases side) (simp_all add: d' model_rows_sel)
  have same: "db_next d' = db_next (sy_db c)" "db_accounts d' = db_accounts (sy_db c)"
    "db_reconciliation_results d' = db_reconciliation_results (sy_db c)" "db_outbox_events d' = db_outbox_events (sy_db c)"
    by (simp_all add: d')
  note inv4 = db_invD [OF inv(1)]
  show "db_inv (from_settings s) d'"
  proof (rule db_invI)
    show "rows_inv d'" using inv4(1) unfolding rows_inv_def rows same(1) has_account_def same(2) .
    show "results_inv (from_settings s) d'"
      using inv4(2) unfolding results_inv_def result_sound_def rows same(1,3) .
    show "reconciled_inv d'" using inv4(3) unfolding reconciled_inv_def rows same(3) .
    show "exceptions_inv d'" unfolding d' by (rule exceptions_inv_close [OF inv4(4)])
  qed
  show ev: "evolves (sy_db c) d'" by (rule evolves_frame) (simp_all add: rows same)
  show "outbox_sound d'" by (rule outbox_sound_evolves [OF inv(2) ev]) (simp add: same)
qed

subsection \<open>Every reachable state\<close>

lemma step_sys_inv:
  assumes "sys_inv s c" and "step s c c'"
  shows "sys_inv s c'"
  using assms(2)
proof cases
  have rows: "rows_inv (sy_db c)" and db: "db_inv (from_settings s) (sy_db c)" and out: "outbox_sound (sy_db c)"
    using assms(1) unfolding sys_inv_def db_inv_def by blast+
  {
    case (account now name kind d' t)
    then show ?thesis using core_frame_step [OF assms(1) upsert_core_frame] by blast
  next
    case touch
    then show ?thesis using core_frame_step [OF assms(1) touch_core_frame] by blast
  next
    case key
    then show ?thesis using core_frame_step [OF assms(1) issue_key_core_frame] by blast
  next
    case source
    then show ?thesis using core_frame_step [OF assms(1) create_source_core_frame] by blast
  next
    case delivery
    then show ?thesis using core_frame_step [OF assms(1) record_delivery_core_frame] by blast
  next
    case (gateway p now tn k body d' res)
    note st = gateway_storable_accepted [OF gateway(2,3)]
    note ing = ingest_gateway_ingests [OF rows st gateway(3)]
    show ?thesis
      unfolding gateway(1)
      by (rule sys_inv_db_step' [OF assms(1) db_inv_ingests [OF db ing] ingests_evolves [OF ing]
            gateway_outbox_sound [OF rows out st gateway(3)]])
  next
    case (ledger es dump now tn d' outs)
    note st = ledger_storable_accepted [OF rows ledger(2,3)]
    note ing = ingest_ledger_batch_ingests [OF rows st ledger(3)]
    show ?thesis
      unfolding ledger(1)
      by (rule sys_inv_db_step' [OF assms(1) db_inv_ingests [OF db ing] ingests_evolves [OF ing]
            ledger_outbox_sound [OF rows out st ledger(3)]])
  next
    case relay
    then show ?thesis using relay_step [OF assms(1)] by blast
  next
    case (worker_load m f)
    then show ?thesis using assms(1) load_step [OF assms(1) worker_load(2,3)] by (simp add: sys_inv_def)
  next
    case (worker_decide f m dec sides)
    have "loaded_sound (sy_db c) (f, Some m)" using assms(1) worker_decide(2) unfolding sys_inv_def by blast
    from decide_message_justified [OF rows this worker_decide(3)]
    show ?thesis using assms(1) unfolding worker_decide(1) by (simp add: sys_inv_def)
  next
    case (sweep_load f now side w limit)
    then have "loaded_sound (sy_db c) (f, None)"
      using find_stale_known [OF rows sweep_load(2)] by (simp add: loaded_sound_def)
    then show ?thesis using assms(1) unfolding sweep_load(1) by (simp add: sys_inv_def)
  next
    case (sweep_decide f now dec sides)
    have "loaded_sound (sy_db c) (f, None)" using assms(1) sweep_decide(2) unfolding sys_inv_def by blast
    then have "known (sy_db c) f" by (simp add: loaded_sound_def)
    from sweep_decision_justified [OF rows this sweep_decide(3)]
    show ?thesis using assms(1) unfolding sweep_decide(1) by (simp add: sys_inv_def)
  next
    case write_decision
    then show ?thesis using write_step [OF assms(1)] by blast
  next
    case retention
    then show ?thesis using retention_step [OF assms(1)] by blast
  next
    case close_exc
    then show ?thesis using close_step [OF assms(1)] by blast
  }
qed

lemma reachable_sys_inv: "reachable s c \<Longrightarrow> sys_inv s c"
proof (induction rule: reachable.induct)
  case start
  show ?case
    by (simp add: sys_inv_def initial_def empty_db_inv outbox_sound_def) (simp add: empty_db_def)
next
  case (step c c')
  then show ?case by (blast intro: step_sys_inv)
qed

lemma reachable_db_inv: "reachable s c \<Longrightarrow> db_inv (from_settings s) (sy_db c)"
  using reachable_sys_inv by (simp add: sys_inv_def)

end
