(* ===== verification/Guarantees.thy ===== *)
theory Guarantees
  imports System
begin

text \<open>
  What holds of the whole program in every reachable state, whatever the interleaving of the API
  requests, the relay, the workers, the sweeper and the retention job, and a run that shows the
  statements are about something.
\<close>

subsection \<open>A run\<close>

text \<open>
  An account is created, the gateway and the ledger each submit the same payment, the relay
  publishes both events, a worker takes the first one, decides and writes.
\<close>

definition run1 :: db where
  "run1 = fst (projr (upsert_account 0 ''acme'' REAL empty_db))"

definition run2 :: db where
  "run2 = fst (projr (ingest_gateway 5 example_tenant example_payload ''k'' JNull run1))"

definition run3 :: db where
  "run3 = fst (projr (ingest_ledger_batch (\<lambda>_. JNull) 6 example_tenant [example_entry ''e''] run2))"

definition run4 :: "db \<times> ingest_message list \<times> (relay_error + nat)" where
  "run4 = drain_once default_settings 7 {} (\<lambda>ms. (length ms, True)) True run3"

definition run_message :: ingest_message where
  "run_message = hd (fst (snd run4))"

definition run_facts :: txn_facts where
  "run_facts = the (projr (load_facts (fst run4) (im_source run_message) (im_row_id run_message)))"

definition run_decision :: decision where
  "run_decision = the (fst (decide_message (from_settings default_settings) run_message run_facts (fst run4)))"

definition run5 :: db where
  "run5 = fst (projr (apply_decision 8 8 run_decision (tf_tenant_id run_facts) (Some 3) None (fst run4)))"

definition run_end :: sys where
  "run_end = \<lparr> sy_db = run5, sy_stream = fst (snd run4), sy_loaded = [(run_facts, Some run_message)],
     sy_decided = [(tf_tenant_id run_facts, run_decision)] \<rparr>"

lemma not_isl: "\<not> isl r \<Longrightarrow> r = Inr (fst (projr r), snd (projr r))"
  by (cases r) simp_all

lemma run_steps:
  "upsert_account 0 ''acme'' REAL empty_db = Inr (run1, snd (projr (upsert_account 0 ''acme'' REAL empty_db)))"
  "ingest_gateway 5 example_tenant example_payload ''k'' JNull run1 =
     Inr (run2, snd (projr (ingest_gateway 5 example_tenant example_payload ''k'' JNull run1)))"
  "ingest_ledger_batch (\<lambda>_. JNull) 6 example_tenant [example_entry ''e''] run2 =
     Inr (run3, snd (projr (ingest_ledger_batch (\<lambda>_. JNull) 6 example_tenant [example_entry ''e''] run2)))"
  "apply_decision 8 8 run_decision (tf_tenant_id run_facts) (Some 3) None (fst run4) =
     Inr (run5, snd (projr (apply_decision 8 8 run_decision (tf_tenant_id run_facts) (Some 3) None (fst run4))))"
  unfolding run1_def run2_def run3_def run5_def
  by (rule not_isl, code_simp)+

lemma run_checks:
  "run_message \<in> set (fst (snd run4))"
  "load_facts (fst run4) (im_source run_message) (im_row_id run_message) = Inr (Some run_facts)"
  "fst (decide_message (from_settings default_settings) run_message run_facts (fst run4)) = Some run_decision"
  by code_simp+

lemma run2_reachable: "reachable default_settings (initial\<lparr> sy_db := run1 \<rparr>\<lparr> sy_db := run2 \<rparr>)"
proof -
  let ?s = default_settings
  have "reachable ?s (initial\<lparr> sy_db := run1 \<rparr>)"
    by (rule reachable.step [OF reachable.start step.account]) (simp add: initial_def, rule run_steps(1))
  then show ?thesis
    by (rule reachable.step [OF _ step.gateway [OF example_payload_ok, where k = "''k''"]])
      (simp, rule run_steps(2))
qed

lemma run_reachable: "reachable default_settings run_end"
proof -
  let ?s = default_settings
  note run2_reachable
  then have "reachable ?s (initial\<lparr> sy_db := run1 \<rparr>\<lparr> sy_db := run2 \<rparr>\<lparr> sy_db := run3 \<rparr>)"
    by (rule reachable.step [OF _ step.ledger [where es = "[example_entry ''e'']" and tn = example_tenant]])
      (simp add: ledger_sync_ok_def example_entry_ok, simp, rule run_steps(3))
  then have "reachable ?s (\<lparr> sy_db = run3, sy_stream = [], sy_loaded = [], sy_decided = [] \<rparr>)"
    by (simp add: initial_def)
  from reachable.step [OF this step.relay [of ?s 7 "{}" "\<lambda>ms. (length ms, True)" True _ "fst run4" "fst (snd run4)" "snd (snd run4)"]]
  have "reachable ?s \<lparr> sy_db = fst run4, sy_stream = fst (snd run4), sy_loaded = [], sy_decided = [] \<rparr>"
    by (simp add: run4_def)
  from reachable.step [OF this step.worker_load [of run_message _ run_facts]]
  have "reachable ?s \<lparr> sy_db = fst run4, sy_stream = fst (snd run4), sy_loaded = [(run_facts, Some run_message)],
      sy_decided = [] \<rparr>" by (simp add: run_checks)
  from reachable.step [OF this step.worker_decide [of run_facts run_message _ _ run_decision
        "snd (decide_message (from_settings ?s) run_message run_facts (fst run4))"]]
  have "reachable ?s \<lparr> sy_db = fst run4, sy_stream = fst (snd run4), sy_loaded = [(run_facts, Some run_message)],
      sy_decided = [(tf_tenant_id run_facts, run_decision)] \<rparr>"
    using run_checks(3) by (simp add: prod_eq_iff)
  then have "reachable ?s (\<lparr> sy_db = fst run4, sy_stream = fst (snd run4), sy_loaded = [(run_facts, Some run_message)],
      sy_decided = [(tf_tenant_id run_facts, run_decision)] \<rparr>\<lparr> sy_db := run5 \<rparr>)"
    by (rule reachable.step [OF _ step.write_decision [where t = "tf_tenant_id run_facts" and dec = run_decision]])
      (simp, simp, rule run_steps(4))
  then show ?thesis by (simp add: run_end_def)
qed

text \<open>
  A second run: only the gateway submits, the sweeper finds the row overdue and writes the unmatched
  result with its exception.
\<close>

definition lone_facts :: txn_facts where
  "lone_facts = hd (find_stale_pending run2 1000000000 GATEWAY 0 10)"

definition lone_decision :: decision where
  "lone_decision = fst (sweep_decision (from_settings default_settings) 1000000000 lone_facts run2)"

definition lone_db :: db where
  "lone_db = fst (projr (apply_decision 9 9 lone_decision (tf_tenant_id lone_facts) (Some 3) None run2))"

definition lone_end :: sys where
  "lone_end = \<lparr> sy_db = lone_db, sy_stream = [], sy_loaded = [(lone_facts, None)],
     sy_decided = [(tf_tenant_id lone_facts, lone_decision)] \<rparr>"

lemma lone_steps:
  "lone_facts \<in> set (find_stale_pending run2 1000000000 GATEWAY 0 10)"
  "apply_decision 9 9 lone_decision (tf_tenant_id lone_facts) (Some 3) None run2 =
     Inr (lone_db, snd (projr (apply_decision 9 9 lone_decision (tf_tenant_id lone_facts) (Some 3) None run2)))"
proof -
  show "lone_facts \<in> set (find_stale_pending run2 1000000000 GATEWAY 0 10)" by code_simp
  show "apply_decision 9 9 lone_decision (tf_tenant_id lone_facts) (Some 3) None run2 =
      Inr (lone_db, snd (projr (apply_decision 9 9 lone_decision (tf_tenant_id lone_facts) (Some 3) None run2)))"
    unfolding lone_db_def by (rule not_isl, code_simp)
qed

lemma lone_reachable: "reachable default_settings lone_end"
proof -
  let ?s = default_settings
  have "reachable ?s \<lparr> sy_db = run2, sy_stream = [], sy_loaded = [], sy_decided = [] \<rparr>"
    using run2_reachable by (simp add: initial_def)
  from reachable.step [OF this step.sweep_load [of lone_facts _ 1000000000 GATEWAY 0 10]]
  have "reachable ?s \<lparr> sy_db = run2, sy_stream = [], sy_loaded = [(lone_facts, None)], sy_decided = [] \<rparr>"
    by (simp add: lone_steps(1))
  from reachable.step [OF this step.sweep_decide [of lone_facts _ ?s 1000000000 lone_decision
        "snd (sweep_decision (from_settings ?s) 1000000000 lone_facts run2)"]]
  have "reachable ?s \<lparr> sy_db = run2, sy_stream = [], sy_loaded = [(lone_facts, None)],
      sy_decided = [(tf_tenant_id lone_facts, lone_decision)] \<rparr>"
    by (simp add: lone_decision_def)
  then have "reachable ?s (\<lparr> sy_db = run2, sy_stream = [], sy_loaded = [(lone_facts, None)],
      sy_decided = [(tf_tenant_id lone_facts, lone_decision)] \<rparr>\<lparr> sy_db := lone_db \<rparr>)"
    by (rule reachable.step [OF _ step.write_decision [where t = "tf_tenant_id lone_facts" and dec = lone_decision]])
      (simp, simp, rule lone_steps(2))
  then show ?thesis by (simp add: lone_end_def)
qed

subsection \<open>At most one outcome\<close>

definition outcomes :: "db \<Rightarrow> ingest_source \<Rightarrow> raw_txn \<Rightarrow> reconciliation_result list" where
  "outcomes d side r =
     filter (\<lambda>res. side_id side res = Some (rt_id r) \<and> rr_status res \<noteq> DUPLICATE) (db_reconciliation_results d)"

definition duplicate_markers :: "db \<Rightarrow> ingest_source \<Rightarrow> raw_txn \<Rightarrow> reconciliation_result list" where
  "duplicate_markers d side r =
     filter (\<lambda>res. side_id side res = Some (rt_id r) \<and> rr_status res = DUPLICATE) (db_reconciliation_results d)"

lemma at_most_one:
  assumes "db_inv config d" and "r \<in> set (model_rows side d)"
  shows "length (filter (\<lambda>res. side_id side res = Some (rt_id r) \<and> (rr_status res = DUPLICATE) = dup)
    (db_reconciliation_results d)) \<le> 1"
proof -
  let ?k = "side_key side dup (rt_tenant_id r) (rt_id r)"
  have "?k \<in> set (result_keys res)"
    if "res \<in> set (db_reconciliation_results d)" "side_id side res = Some (rt_id r)" "(rr_status res = DUPLICATE) = dup" for res
    using side_key_in [OF that(2)] result_tenant [OF assms(1) that(1) assms(2) that(2)] that(3) by simp
  then have "length (filter (\<lambda>res. side_id side res = Some (rt_id r) \<and> (rr_status res = DUPLICATE) = dup)
      (db_reconciliation_results d)) \<le> length (filter (\<lambda>res. ?k \<in> set (result_keys res)) (db_reconciliation_results d))"
    by (intro length_filter_imp) blast
  also have "\<dots> \<le> 1"
    using db_invD(2) [OF assms(1)] by (intro result_index.index_ok_count_le_1) (simp add: results_inv_def)
  finally show ?thesis .
qed

text \<open>
  C1. Effectively once. In every reachable state, under any redelivery, reordering and interleaving
  of workers and sweeper, a row has exactly one outcome (a result that is not a duplicate marker) if
  it is marked reconciled and none otherwise, and at most one duplicate marker.
\<close>

theorem effectively_once:
  assumes "reachable s c" and "r \<in> set (model_rows side (sy_db c))"
  shows "length (outcomes (sy_db c) side r) = (if rt_reconciled_at r = None then 0 else 1) \<and>
    length (duplicate_markers (sy_db c) side r) \<le> 1"
proof -
  let ?d = "sy_db c"
  note inv = reachable_db_inv [OF assms(1)]
  have one: "length (outcomes ?d side r) \<le> 1" "length (duplicate_markers ?d side r) \<le> 1"
    using at_most_one [OF inv assms(2), of False] at_most_one [OF inv assms(2), of True]
    by (simp_all add: outcomes_def duplicate_markers_def)
  have "rt_reconciled_at r \<noteq> None \<longleftrightarrow> outcomes ?d side r \<noteq> []"
    using db_invD(3) [OF inv] assms(2) by (auto simp: reconciled_inv_def outcomes_def filter_empty_conv active_iff)
  with one show ?thesis by (cases "outcomes ?d side r") auto
qed

theorem effectively_once_witness:
  "\<exists>r \<in> set (model_rows GATEWAY (sy_db run_end)). rt_reconciled_at r = Some 8 \<and>
     length (outcomes (sy_db run_end) GATEWAY r) = 1"
proof -
  have "\<exists>r \<in> set (model_rows GATEWAY (sy_db run_end)). rt_reconciled_at r = Some 8" by code_simp
  then obtain r where r: "r \<in> set (model_rows GATEWAY (sy_db run_end))" "rt_reconciled_at r = Some 8" by blast
  with effectively_once [OF run_reachable r(1)] show ?thesis by (intro bexI [of _ r]) simp_all
qed

subsection \<open>What a result means\<close>

text \<open>A row of a side that a result references, of the result's own tenant.\<close>

definition references :: "db \<Rightarrow> reconciliation_result \<Rightarrow> ingest_source \<Rightarrow> raw_txn \<Rightarrow> bool" where
  "references d res side r \<longleftrightarrow>
     r \<in> set (model_rows side d) \<and> side_id side res = Some (rt_id r) \<and> rt_tenant_id r = rr_tenant_id res"

text \<open>The same payment on both sides: one id, one currency, close in time.\<close>

definition same_payment :: "match_config \<Rightarrow> raw_txn \<Rightarrow> raw_txn \<Rightarrow> bool" where
  "same_payment config g e \<longleftrightarrow>
     rt_txn_id g = rt_txn_id e \<and> rt_currency g = rt_currency e \<and>
     \<bar>rt_occurred_at g - rt_occurred_at e\<bar> \<le> max (mc_exact_window config) (mc_drift_window config)"

fun result_meaning :: "match_config \<Rightarrow> db \<Rightarrow> reconciliation_result \<Rightarrow> recon_status \<Rightarrow> bool" where
  "result_meaning config d res MATCHED \<longleftrightarrow>
     (\<exists>g e. references d res GATEWAY g \<and> references d res LEDGER e \<and> same_payment config g e \<and>
        dec_eq (rt_amount g) (rt_amount e))"
| "result_meaning config d res AMOUNT_DRIFT \<longleftrightarrow>
     (\<exists>g e. references d res GATEWAY g \<and> references d res LEDGER e \<and> same_payment config g e \<and>
        \<not> dec_eq (rt_amount g) (rt_amount e) \<and>
        dec_le (dec_abs (dec_sub (rt_amount g) (rt_amount e))) (amount_tolerance (rt_amount g) config))"
| "result_meaning config d res DUPLICATE \<longleftrightarrow>
     (\<exists>side r. references d res side r \<and> 0 < rt_duplicate_count r \<and> side_id (other_side side) res = None)"
| "result_meaning config d res UNMATCHED_GATEWAY_ONLY \<longleftrightarrow>
     (\<exists>g. references d res GATEWAY g) \<and> rr_ledger_entry_id res = None"
| "result_meaning config d res UNMATCHED_LEDGER_ONLY \<longleftrightarrow>
     (\<exists>e. references d res LEDGER e) \<and> rr_gateway_txn_id res = None"
| "result_meaning config d res TIME_DRIFT \<longleftrightarrow> False"

lemma classify_pair_amounts:
  assumes "classify_pair g e config = Some (status, l)" and "tf_side g = GATEWAY"
  shows "dec_eq (tf_amount g) (tf_amount e) \<longleftrightarrow> status = MATCHED"
    and "status = AMOUNT_DRIFT \<Longrightarrow>
      dec_le (dec_abs (dec_sub (tf_amount g) (tf_amount e))) (amount_tolerance (tf_amount g) config)"
  using assms by (auto simp: classify_pair_def Let_def gateway_and_ledger_def split: if_splits)

lemma result_references:
  assumes "result_sound config d res" and "side_id side res = Some i"
  shows "\<exists>r. references d res side r \<and> rt_id r = i \<and> (rr_status res = DUPLICATE \<longrightarrow> 0 < rt_duplicate_count r)"
  using assms unfolding result_sound_def references_def by metis

lemma result_pair:
  assumes "result_sound config d res" and "rr_gateway_txn_id res \<noteq> None" and "rr_ledger_entry_id res \<noteq> None"
  obtains g e where "references d res GATEWAY g" "references d res LEDGER e" "same_payment config g e"
    "classify_pair (facts_of GATEWAY g) (facts_of LEDGER e) config = Some (rr_status res, rr_match_layer res)"
proof -
  obtain i j where ij: "side_id GATEWAY res = Some i" "side_id LEDGER res = Some j"
    using assms(2,3) by (auto simp: side_id_def)
  obtain g e where ge: "references d res GATEWAY g" "references d res LEDGER e"
    using result_references [OF assms(1) ij(1)] result_references [OF assms(1) ij(2)] by blast
  have cl: "classify_pair (facts_of GATEWAY g) (facts_of LEDGER e) config = Some (rr_status res, rr_match_layer res)"
    using assms(1) ge unfolding result_sound_def references_def by (simp add: side_id_def)
  have "same_payment config g e"
    using classify_pair_SomeD [OF cl] by (simp add: same_payment_def facts_of_def time_delta_def)
  from that [OF ge this cl] show thesis .
qed

lemma result_sound_meaning:
  assumes "result_sound config d res"
  shows "result_meaning config d res (rr_status res)"
proof -
  have shape: "decision_shape (rr_status res) (rr_match_layer res) (rr_gateway_txn_id res \<noteq> None) (rr_ledger_entry_id res \<noteq> None)"
    using assms unfolding result_sound_def by blast
  note refs = result_references [OF assms]
  show ?thesis
  proof (cases "rr_gateway_txn_id res \<noteq> None \<and> rr_ledger_entry_id res \<noteq> None")
    case True
    then obtain g e where ge: "references d res GATEWAY g" "references d res LEDGER e" "same_payment config g e"
      "classify_pair (facts_of GATEWAY g) (facts_of LEDGER e) config = Some (rr_status res, rr_match_layer res)"
      using result_pair [OF assms] by blast
    note am = classify_pair_amounts [OF ge(4)]
    have "rr_status res = MATCHED \<or> rr_status res = AMOUNT_DRIFT" using classify_pair_SomeD(6) [OF ge(4)] by auto
    then show ?thesis
    proof
      assume m: "rr_status res = MATCHED"
      then have "dec_eq (rt_amount g) (rt_amount e)" using am(1) by (simp add: facts_of_def)
      with ge(1-3) show ?thesis unfolding m result_meaning.simps by blast
    next
      assume m: "rr_status res = AMOUNT_DRIFT"
      then have "\<not> dec_eq (rt_amount g) (rt_amount e)"
        "dec_le (dec_abs (dec_sub (rt_amount g) (rt_amount e))) (amount_tolerance (rt_amount g) config)"
        using am by (simp_all add: facts_of_def)
      with ge(1-3) show ?thesis unfolding m result_meaning.simps by blast
    qed
  next
    case False
    then show ?thesis
      using shape refs [of GATEWAY] refs [of LEDGER]
      by (cases "rr_status res") (fastforce simp: side_id_def intro: exI [of _ GATEWAY] exI [of _ LEDGER])+
  qed
qed

text \<open>
  C2. Every result in every reachable state means what its status says. A match or an amount drift
  joins a gateway row and a ledger row of the result's tenant with one transaction id, one currency
  and clocks within the window, with equal amounts or with unequal amounts within the tolerance; a
  duplicate marker is about one row, submitted more than once; an unmatched result is about one row.
  In particular no result ever crosses tenants.
\<close>

theorem results_mean_their_status:
  assumes "reachable s c" and "res \<in> set (db_reconciliation_results (sy_db c))"
  shows "result_meaning (from_settings s) (sy_db c) res (rr_status res)"
  using db_invD(2) [OF reachable_db_inv [OF assms(1)]] assms(2)
  by (intro result_sound_meaning) (simp add: results_inv_def)

theorem results_mean_their_status_witness:
  "\<exists>res \<in> set (db_reconciliation_results (sy_db run_end)).
     rr_status res = MATCHED \<and> result_meaning (from_settings default_settings) (sy_db run_end) res MATCHED"
proof -
  have "\<exists>res \<in> set (db_reconciliation_results (sy_db run_end)). rr_status res = MATCHED" by code_simp
  then obtain res where res: "res \<in> set (db_reconciliation_results (sy_db run_end))" "rr_status res = MATCHED" by blast
  with results_mean_their_status [OF run_reachable res(1)] show ?thesis by (intro bexI [of _ res]) (simp_all del: result_meaning.simps)
qed

subsection \<open>The exception queue\<close>

text \<open>
  C17. The exception queue is exact. In every reachable state a result that needs a person (an amount
  drift, an unmatched row) has exactly one exception, any other result has none, and every exception
  belongs to a result of its own tenant, so nothing is lost from the queue and nothing is in it twice.
\<close>

theorem exception_queue_exact:
  assumes "reachable s c"
  shows "(\<forall>res \<in> set (db_reconciliation_results (sy_db c)).
      length (filter (\<lambda>x. ex_reconciliation_result_id x = rr_id res) (db_exceptions (sy_db c))) =
        (if rr_status res \<in> exception_statuses then 1 else 0)) \<and>
    (\<forall>x \<in> set (db_exceptions (sy_db c)). \<exists>res \<in> set (db_reconciliation_results (sy_db c)).
      rr_id res = ex_reconciliation_result_id x \<and> rr_tenant_id res = ex_tenant_id x)"
proof (intro conjI ballI)
  let ?d = "sy_db c"
  note inv = db_invD [OF reachable_db_inv [OF assms]]
  note exc = inv(4) [unfolded exceptions_inv_def]
  fix res
  assume res: "res \<in> set (db_reconciliation_results ?d)"
  let ?hits = "filter (\<lambda>x. ex_reconciliation_result_id x = rr_id res) (db_exceptions ?d)"
  have "?hits = filter (\<lambda>x. rr_id res \<in> set (exception_keys x)) (db_exceptions ?d)"
    by (rule filter_cong [OF refl]) (auto simp: exception_keys_def)
  then have one: "length ?hits \<le> 1" using exc exception_index.index_ok_count_le_1 by metis
  have "?hits \<noteq> [] \<longleftrightarrow> rr_status res \<in> exception_statuses"
  proof
    assume "?hits \<noteq> []"
    then obtain x where x: "x \<in> set (db_exceptions ?d)" "ex_reconciliation_result_id x = rr_id res"
      by (auto simp: filter_empty_conv)
    then obtain q where q: "q \<in> set (db_reconciliation_results ?d)" "rr_id q = rr_id res"
      "rr_status q \<in> exception_statuses" using exc by metis
    have "q = res" using inv(2) q(1,2) res distinct_map_eqD by (fastforce simp: results_inv_def)
    with q(3) show "rr_status res \<in> exception_statuses" by simp
  next
    assume "rr_status res \<in> exception_statuses"
    then show "?hits \<noteq> []" using exc res by (auto simp: filter_empty_conv)
  qed
  with one show "length ?hits = (if rr_status res \<in> exception_statuses then 1 else 0)"
    by (cases ?hits) auto
next
  fix x
  assume "x \<in> set (db_exceptions (sy_db c))"
  then show "\<exists>res \<in> set (db_reconciliation_results (sy_db c)).
      rr_id res = ex_reconciliation_result_id x \<and> rr_tenant_id res = ex_tenant_id x"
    using db_invD(4) [OF reachable_db_inv [OF assms]] unfolding exceptions_inv_def by metis
qed

theorem exception_queue_exact_witness:
  "map rr_status (db_reconciliation_results (sy_db lone_end)) = [UNMATCHED_GATEWAY_ONLY] \<and>
   length (filter (\<lambda>x. ex_reconciliation_result_id x = rr_id (hd (db_reconciliation_results (sy_db lone_end))))
     (db_exceptions (sy_db lone_end))) = 1"
proof -
  have one: "map rr_status (db_reconciliation_results (sy_db lone_end)) = [UNMATCHED_GATEWAY_ONLY]" by code_simp
  then obtain res where res: "db_reconciliation_results (sy_db lone_end) = [res]" "rr_status res = UNMATCHED_GATEWAY_ONLY"
    by (cases "db_reconciliation_results (sy_db lone_end)") auto
  from exception_queue_exact [OF lone_reachable, THEN conjunct1, rule_format, of res] res have
    "length (filter (\<lambda>x. ex_reconciliation_result_id x = rr_id res) (db_exceptions (sy_db lone_end))) = 1"
    by (simp add: exception_statuses_def)
  with one res show ?thesis by simp
qed

subsection \<open>Retention\<close>



subsection \<open>Nothing is lost\<close>

text \<open>
  What one step keeps of the state before it: every result as it is, every raw row with its facts, a
  counter that does not fall and a reconciliation that is not undone, and the same of exceptions; the
  only way out is the deletion of the owner.
\<close>

definition kept_row :: "ingest_source \<Rightarrow> raw_txn \<Rightarrow> raw_txn \<Rightarrow> bool" where
  "kept_row side r r' \<longleftrightarrow>
     facts_of side r' = facts_of side r \<and> rt_duplicate_count r \<le> rt_duplicate_count r' \<and>
     (rt_reconciled_at r = None \<or> rt_reconciled_at r' = rt_reconciled_at r)"

definition kept :: "db \<Rightarrow> db \<Rightarrow> bool" where
  "kept d d' \<longleftrightarrow>
     (\<forall>res \<in> set (db_reconciliation_results d).
        res \<in> set (db_reconciliation_results d') \<or> \<not> has_account d' (rr_tenant_id res)) \<and>
     (\<forall>side. \<forall>r \<in> set (model_rows side d).
        (\<exists>r' \<in> set (model_rows side d'). kept_row side r r') \<or> \<not> has_account d' (rt_tenant_id r))"

lemma kept_row_refl [simp]: "kept_row side r r"
  by (simp add: kept_row_def)

lemma keptI:
  assumes "set (db_reconciliation_results d) \<subseteq> set (db_reconciliation_results d')"
    and "\<And>side r. r \<in> set (model_rows side d) \<Longrightarrow> \<exists>r' \<in> set (model_rows side d'). kept_row side r r'"
  shows "kept d d'"
  using assms unfolding kept_def by blast

lemma kept_frame:
  assumes "db_reconciliation_results d' = db_reconciliation_results d"
    and "\<And>side. model_rows side d' = model_rows side d"
  shows "kept d d'"
  by (rule keptI) (auto simp: assms intro: kept_row_refl)

lemma kept_core_frame: "core_frame d d' \<Longrightarrow> kept d d'"
  by (rule kept_frame [OF _ core_frame_rows]) (simp_all add: core_frame_def)

lemma kept_ingests:
  assumes "ingests d d'"
  shows "kept d d'"
proof (rule keptI)
  show "set (db_reconciliation_results d) \<subseteq> set (db_reconciliation_results d')"
    using assms by (simp add: ingests_def)
  show "\<exists>r' \<in> set (model_rows side d'). kept_row side r r'" if "r \<in> set (model_rows side d)" for side r
    using ingests_old [OF assms that] by (auto simp: same_row_def kept_row_def)
qed

lemma kept_apply_decision:
  assumes "apply_decision tx now dec t l m d = Inr (d', pr)"
  shows "kept d d'"
  using assms
proof (cases rule: apply_decision_cases)
  case taken
  have "model_rows side d' = model_rows side d" for side by (cases side) (simp_all add: taken(2) model_rows_sel)
  then show ?thesis by (intro kept_frame) (simp_all add: taken(2))
next
  case (written row)
  have "kept_row side r (settled now dec side r)" for side r by (auto simp: kept_row_def settled_def)
  then show ?thesis by (intro keptI) (auto simp: written(6,9))
qed

lemma kept_without_tenant: "kept d (without_tenant a d)"
  by (auto simp: kept_def without_tenant_rows)

lemma kept_step:
  assumes "sys_inv s c" and "step s c c'"
  shows "kept (sy_db c) (sy_db c')"
  using assms(2)
proof cases
  have rows: "rows_inv (sy_db c)" using assms(1) unfolding sys_inv_def db_inv_def by blast
  have same: "kept d d" for d by (rule kept_frame) simp_all
  {
    case account
    then show ?thesis using kept_core_frame [OF upsert_core_frame] by auto
  next
    case touch
    then show ?thesis using kept_core_frame [OF touch_core_frame] by auto
  next
    case key
    then show ?thesis using kept_core_frame [OF issue_key_core_frame] by auto
  next
    case source
    then show ?thesis using kept_core_frame [OF create_source_core_frame] by auto
  next
    case delivery
    then show ?thesis using kept_core_frame [OF record_delivery_core_frame] by auto
  next
    case (gateway p now tn k body d' res)
    then show ?thesis
      using kept_ingests [OF ingest_gateway_ingests [OF rows gateway_storable_accepted [OF gateway(2,3)] gateway(3)]] by simp
  next
    case (ledger es dump now tn d' outs)
    from kept_ingests [OF ingest_ledger_batch_ingests
        [OF rows ledger_storable_accepted [OF rows ledger(2,3)] ledger(3)]] show ?thesis
      using ledger(1) by simp
  next
    case (relay now locked publish committed d' published res)
    obtain p where d': "d' = (sy_db c)\<lparr> db_outbox_events := update_where p (publish_event now) (db_outbox_events (sy_db c)) \<rparr>"
      using drain_once_db [OF relay(2)] by blast
    have "model_rows side d' = model_rows side (sy_db c)" for side by (cases side) (simp_all add: d' model_rows_sel)
    then have "kept (sy_db c) d'" by (intro kept_frame) (simp_all add: d')
    then show ?thesis using relay(1) by simp
  next
    case write_decision
    then show ?thesis using kept_apply_decision by auto
  next
    case retention
    then show ?thesis using kept_without_tenant delete_demo_account_Inr by fastforce
  next
    case (close_exc now t i memo d' x)
    have d': "d' = (sy_db c)\<lparr> db_exceptions := update_where (closable t i) (close_row now memo) (db_exceptions (sy_db c)) \<rparr>"
      by (rule close_exception_db [OF close_exc(2)])
    have "model_rows side d' = model_rows side (sy_db c)" for side by (cases side) (simp_all add: d' model_rows_sel)
    then have "kept (sy_db c) d'" by (intro kept_frame) (simp_all add: d')
    then show ?thesis using close_exc(1) by simp
  }
qed (simp_all add: kept_frame)

text \<open>
  C12. Nothing is lost and nothing is undone. From any reachable state, no step of any process changes
  a result that has been written, drops a raw row, alters its facts, lowers its counter or undoes its
  reconciliation, unless it deletes the account that owns them.
\<close>

theorem nothing_lost:
  assumes "reachable s c" and "step s c c'"
  shows "kept (sy_db c) (sy_db c')"
  by (rule kept_step [OF reachable_sys_inv [OF assms(1)] assms(2)])

theorem nothing_lost_witness:
  "kept (sy_db run_end) (without_tenant 1 (sy_db run_end)) \<and>
     (\<exists>res \<in> set (db_reconciliation_results (sy_db run_end)). rr_status res = MATCHED)"
proof -
  have "delete_demo_account 1 (sy_db run_end) = Inr (without_tenant 1 (sy_db run_end))"
    by (rule delete_demo_account_succeeds [OF reachable_db_inv [OF run_reachable]])
  from nothing_lost [OF run_reachable step.retention [OF this]]
  have "kept (sy_db run_end) (without_tenant 1 (sy_db run_end))" by simp
  moreover have "\<exists>res \<in> set (db_reconciliation_results (sy_db run_end)). rr_status res = MATCHED" by code_simp
  ultimately show ?thesis by blast
qed

subsection \<open>Redelivery\<close>



subsection \<open>The sweep ends every wait\<close>







end
