(* ===== verification/Api_Deps.thy ===== *)
theory Api_Deps
  imports Tenancy Settings
begin

text \<open>
  \<open>ledgerloop/api/deps.py\<close> and \<open>ledgerloop/api/ratelimit.py\<close>: what every route asks before it runs.
  An \<open>HTTPException\<close> is its status code; a header that was not sent is \<open>None\<close>.
\<close>

datatype http_error = Http nat | ServerError

subsection \<open>The idempotency key\<close>

definition get_idempotency_key :: "string option \<Rightarrow> http_error + string" where
  "get_idempotency_key header =
     (case header of
        None \<Rightarrow> Inl (Http 400)
      | Some k \<Rightarrow>
          if k = [] \<or> py_strip k = [] then Inl (Http 400)
          else if 255 < length k then Inl (Http 400)
          else Inr k)"

subsection \<open>The tenant\<close>

text \<open>
  \<open>resolve_tenant\<close>. The session is committed at the end; a rejected request raises before that, so
  its state is the one it started from. A database error is a 500.
\<close>

definition resolve_tenant ::
  "settings \<Rightarrow> instant \<Rightarrow> instant \<Rightarrow> string option \<Rightarrow> string option \<Rightarrow> db \<Rightarrow>
     http_error + db \<times> tenant" where
  "resolve_tenant s now clock authorization x_demo_session d =
     (let resolved =
        (case authorization of
           Some header \<Rightarrow>
             (case (case parse_bearer header of None \<Rightarrow> None | Some raw \<Rightarrow> resolve_api_key d raw) of
                None \<Rightarrow> Inl (Http 401)
              | Some t \<Rightarrow> Inr (d, t))
         | None \<Rightarrow>
             (case x_demo_session of
                Some session_id \<Rightarrow>
                  (case demo_account_name session_id of
                     None \<Rightarrow> Inl (Http 400)
                   | Some name \<Rightarrow>
                       (case resolve_demo_account now name d of
                          Inl _ \<Rightarrow> Inl ServerError | Inr r \<Rightarrow> Inr r))
              | None \<Rightarrow>
                  (case resolve_demo_account now default_account_name d of
                     Inl _ \<Rightarrow> Inl ServerError | Inr r \<Rightarrow> Inr r)))
      in (case resolved of
            Inl e \<Rightarrow> Inl e
          | Inr (d1, t) \<Rightarrow> Inr (touch_account now clock t (s_last_seen_refresh_s s) d1, t)))"

subsection \<open>Write limits\<close>

record rate_limit_verdict =
  rl_allowed :: bool
  rl_retry_after_s :: int
  rl_limit :: int
  rl_remaining :: int

text \<open>
  \<open>ratelimit.check\<close>. \<open>pipeline\<close> is Redis: the new state and the value \<open>INCR\<close> returned for a key, or
  nothing when the call failed. \<open>now\<close> is \<open>int(time.time())\<close>, a number of seconds.
\<close>

definition window_key :: "string \<Rightarrow> int \<Rightarrow> string" where
  "window_key bucket window_start = ''ledgerloop:ratelimit:'' @ bucket @ '':'' @ py_str_int window_start"

definition rate_check ::
  "(string \<Rightarrow> 'r \<Rightarrow> 'r \<times> int option) \<Rightarrow> int \<Rightarrow> string \<Rightarrow> int \<Rightarrow> 'r \<Rightarrow> 'r \<times> rate_limit_verdict" where
  "rate_check pipeline now bucket limit redis =
     (let window_start = now - now mod 60;
          retry_after = window_start + 60 - now
      in (case pipeline (window_key bucket window_start) redis of
            (redis', None) \<Rightarrow>
              (redis', \<lparr> rl_allowed = True, rl_retry_after_s = 0, rl_limit = limit, rl_remaining = limit \<rparr>)
          | (redis', Some n) \<Rightarrow>
              (redis', \<lparr> rl_allowed = (n \<le> limit), rl_retry_after_s = retry_after, rl_limit = limit,
                         rl_remaining = max (limit - n) 0 \<rparr>)))"

text \<open>\<open>_client_ip\<close>: the first entry of \<open>X-Forwarded-For\<close>, else the peer.\<close>

definition client_ip :: "string option \<Rightarrow> string option \<Rightarrow> string" where
  "client_ip forwarded peer =
     (case forwarded of
        Some (c # cs) \<Rightarrow> py_strip (hd (py_split (CHR '','') (c # cs)))
      | _ \<Rightarrow> (case peer of Some h \<Rightarrow> h | None \<Rightarrow> ''unknown''))"

definition write_bucket :: "settings \<Rightarrow> tenant \<Rightarrow> string option \<Rightarrow> string option \<Rightarrow> string \<times> int" where
  "write_bucket s t forwarded peer =
     (if is_demo t then (''ip:'' @ client_ip forwarded peer, s_rate_limit_anon_writes_per_min s)
      else (''account:'' @ py_str_int (tn_account_id t), s_rate_limit_keyed_writes_per_min s))"

text \<open>\<open>enforce_write_limit\<close>: the verdict's headers, or 429.\<close>

definition enforce_write_limit ::
  "(string \<Rightarrow> 'r \<Rightarrow> 'r \<times> int option) \<Rightarrow> settings \<Rightarrow> int \<Rightarrow> tenant \<Rightarrow> string option \<Rightarrow> string option \<Rightarrow> 'r \<Rightarrow>
     'r \<times> (http_error + rate_limit_verdict)" where
  "enforce_write_limit pipeline s now t forwarded peer redis =
     (case write_bucket s t forwarded peer of
        (bucket, limit) \<Rightarrow>
          (case rate_check pipeline now bucket limit redis of
             (redis', verdict) \<Rightarrow> (redis', if rl_allowed verdict then Inr verdict else Inl (Http 429))))"

end
