(* ===== verification/Routes_Read.thy ===== *)
theory Routes_Read
  imports Queries Api_Deps Worker_Persist
begin

text \<open>
  \<open>ledgerloop/api/routes_read.py\<close>, with the response models of \<open>ledgerloop/api/schemas.py\<close> that compute
  something. A cursor or an id that does not fit a \<open>bigint\<close> parameter makes the driver raise: a 500.
\<close>

definition int8_ok :: "int \<Rightarrow> bool" where
  "int8_ok i \<longleftrightarrow> - (2 ^ 63) \<le> i \<and> i < 2 ^ 63"

definition parse_cursor :: "string option \<Rightarrow> http_error + int option" where
  "parse_cursor cursor =
     (case cursor of
        None \<Rightarrow> Inr None
      | Some s \<Rightarrow> (case py_int s of None \<Rightarrow> Inl (Http 400) | Some i \<Rightarrow> Inr (Some i)))"

subsection \<open>Statistics\<close>

record latency_percentiles =
  lp_p50 :: "rat option"
  lp_p95 :: "rat option"
  lp_p99 :: "rat option"

record stats_out =
  so_window :: window
  so_window_seconds :: int
  so_matched :: nat
  so_matched_via_time_drift :: nat
  so_unmatched :: nat
  so_unmatched_gateway_only :: nat
  so_unmatched_ledger_only :: nat
  so_duplicates :: nat
  so_drift :: nat
  so_total :: nat
  so_match_rate :: rat
  so_latency_ms :: latency_percentiles
  so_throughput_tx_per_sec :: rat
  so_unmatched_after_s :: int
  so_open_exceptions :: nat

definition get_stats :: "settings \<Rightarrow> db \<Rightarrow> tenant \<Rightarrow> instant \<Rightarrow> window \<Rightarrow> stats_out" where
  "get_stats s d t now w =
     (let row = fetch_stats d t now w; seconds = window_seconds w; total = stats_total row in
      \<lparr> so_window = w, so_window_seconds = seconds, so_matched = st_matched row,
        so_matched_via_time_drift = st_via_time_drift row, so_unmatched = st_unmatched row,
        so_unmatched_gateway_only = st_unmatched_gateway row, so_unmatched_ledger_only = st_unmatched_ledger row,
        so_duplicates = st_duplicates row, so_drift = st_drift row, so_total = total, so_match_rate = match_rate row,
        so_latency_ms = \<lparr> lp_p50 = st_p50 row, lp_p95 = st_p95 row, lp_p99 = st_p99 row \<rparr>,
        so_throughput_tx_per_sec = (if seconds = 0 then 0 else of_nat total / of_int seconds),
        so_unmatched_after_s = s_unmatched_after_s s, so_open_exceptions = st_open_exceptions row \<rparr>)"

subsection \<open>A result on the wire\<close>

text \<open>
  \<open>ReconciliationResultOut\<close> and \<open>ExceptionOut\<close>. The fields they take from the raw rows on the two sides
  are the record \<open>sides_out\<close>, which both extend.
\<close>

text \<open>The sides a result's page query loads with it.\<close>

definition loaded_side :: "ingest_source \<Rightarrow> db \<Rightarrow> reconciliation_result \<Rightarrow> raw_txn option" where
  "loaded_side side d res =
     (case (case side of GATEWAY \<Rightarrow> rr_gateway_txn_id res | LEDGER \<Rightarrow> rr_ledger_entry_id res) of
        None \<Rightarrow> None
      | Some i \<Rightarrow> List.find (\<lambda>r. rt_id r = i) (model_rows side d))"

record sides_out =
  out_txn_id :: "string option"
  out_currency :: "string option"
  out_gateway_amount :: "decimal option"
  out_ledger_amount :: "decimal option"
  out_gateway_occurred_at :: "instant option"
  out_ledger_occurred_at :: "instant option"

definition sides_out_of :: "raw_txn option \<Rightarrow> raw_txn option \<Rightarrow> sides_out" where
  "sides_out_of gateway ledger =
     (let present = (case gateway of Some g \<Rightarrow> Some g | None \<Rightarrow> ledger) in
      \<lparr> out_txn_id = map_option rt_txn_id present,
        out_currency = map_option rt_currency present,
        out_gateway_amount = map_option rt_amount gateway,
        out_ledger_amount = map_option rt_amount ledger,
        out_gateway_occurred_at = map_option rt_occurred_at gateway,
        out_ledger_occurred_at = map_option rt_occurred_at ledger \<rparr>)"

record reconciliation_result_out = sides_out +
  ro_id :: int
  ro_gateway_txn_id :: "int option"
  ro_ledger_entry_id :: "int option"
  ro_status :: recon_status
  ro_match_layer :: match_layer
  ro_resolved_at :: instant
  ro_match_latency_ms :: "int option"
  ro_notes :: "decision_note option"

definition result_out :: "db \<Rightarrow> reconciliation_result \<Rightarrow> reconciliation_result_out" where
  "result_out d res =
     sides_out.extend (sides_out_of (loaded_side GATEWAY d res) (loaded_side LEDGER d res))
       (reconciliation_result_out.fields (rr_id res) (rr_gateway_txn_id res) (rr_ledger_entry_id res) (rr_status res)
          (rr_match_layer res) (rr_resolved_at res) (rr_match_latency_ms res) (rr_notes res))"

record exception_out = sides_out +
  eo_id :: int
  eo_reconciliation_result_id :: int
  eo_opened_at :: instant
  eo_closed_at :: "instant option"
  eo_resolution_notes :: "string option"
  eo_status :: recon_status
  eo_match_layer :: match_layer
  eo_gateway_txn_id :: "int option"
  eo_ledger_entry_id :: "int option"
  eo_notes :: "decision_note option"

definition exception_out_of :: "db \<Rightarrow> exception_row \<Rightarrow> reconciliation_result \<Rightarrow> exception_out" where
  "exception_out_of d exc res =
     sides_out.extend (sides_out_of (loaded_side GATEWAY d res) (loaded_side LEDGER d res))
       (exception_out.fields (ex_id exc) (ex_reconciliation_result_id exc) (ex_opened_at exc) (ex_closed_at exc)
          (ex_resolution_notes exc) (rr_status res) (rr_match_layer res) (rr_gateway_txn_id res)
          (rr_ledger_entry_id res) (rr_notes res))"

definition skew_ms :: "reconciliation_result_out \<Rightarrow> int option" where
  "skew_ms s =
     (case (out_gateway_occurred_at s, out_ledger_occurred_at s) of
        (Some g, Some l) \<Rightarrow> Some (duration_ms (l - g))
      | _ \<Rightarrow> None)"

definition amount_delta :: "reconciliation_result_out \<Rightarrow> decimal option" where
  "amount_delta s =
     (case (out_gateway_amount s, out_ledger_amount s) of
        (Some g, Some l) \<Rightarrow> Some (dec_sub l g)
      | _ \<Rightarrow> None)"

subsection \<open>Pages\<close>

text \<open>\<open>TransactionPage\<close> and \<open>ExceptionPage\<close>: the items, and \<open>next_cursor\<close>.\<close>

type_synonym transaction_page = "reconciliation_result_out list \<times> string option"
type_synonym exception_page = "exception_out list \<times> string option"

text \<open>A validated limit (1 to 500), then the cursor, then the query.\<close>

definition list_transactions ::
  "db \<Rightarrow> tenant \<Rightarrow> recon_status option \<Rightarrow> nat \<Rightarrow> string option \<Rightarrow>
     http_error + transaction_page" where
  "list_transactions d t status limit cursor =
     (if limit < 1 \<or> 500 < limit then Inl (Http 422)
      else
      (case parse_cursor cursor of
         Inl e \<Rightarrow> Inl e
       | Inr c \<Rightarrow>
      if \<not> (case c of None \<Rightarrow> True | Some i \<Rightarrow> int8_ok i) then Inl ServerError
      else (case fetch_results_page d t status limit c of
              (rows, next_cursor) \<Rightarrow> Inr (map (result_out d) rows, map_option py_str_int next_cursor))))"

definition list_exceptions ::
  "db \<Rightarrow> tenant \<Rightarrow> exception_filter option \<Rightarrow> nat \<Rightarrow> string option \<Rightarrow>
     http_error + exception_page" where
  "list_exceptions d t status limit cursor =
     (if limit < 1 \<or> 500 < limit then Inl (Http 422)
      else
      (case parse_cursor cursor of
         Inl e \<Rightarrow> Inl e
       | Inr c \<Rightarrow>
      if \<not> (case c of None \<Rightarrow> True | Some i \<Rightarrow> int8_ok i) then Inl ServerError
      else (case fetch_exceptions_page d t status limit c of
              (rows, next_cursor) \<Rightarrow>
                Inr (map (\<lambda>(x, r). exception_out_of d x r) rows, map_option py_str_int next_cursor))))"

subsection \<open>Closing an exception\<close>

text \<open>\<open>ExceptionResolveIn\<close>: the notes of a validated body.\<close>

definition resolution_notes_ok :: "string \<Rightarrow> bool" where
  "resolution_notes_ok notes \<longleftrightarrow> 1 \<le> length notes \<and> length notes \<le> 4000"

text \<open>
  \<open>resolve_exception\<close>; the failing \<open>assert\<close> at its end is a 500. Nothing commits between the block and
  the read after it here.
\<close>

definition resolve_exception ::
  "instant \<Rightarrow> tenant \<Rightarrow> int \<Rightarrow> string \<Rightarrow> db \<Rightarrow>
     db \<times> (http_error + exception_out)" where
  "resolve_exception now t exception_id notes d =
     (if exception_id < 1 \<or> \<not> resolution_notes_ok notes then (d, Inl (Http 422))
      else if \<not> int8_ok exception_id then (d, Inl ServerError)
      else
      (case close_exception now t exception_id notes d of
         Inl _ \<Rightarrow> (d, Inl ServerError)
       | Inr (d', None) \<Rightarrow>
           (case fetch_exception d' t exception_id of
              None \<Rightarrow> (d, Inl (Http 404))
            | Some _ \<Rightarrow> (d, Inl (Http 409)))
       | Inr (d', Some _) \<Rightarrow>
           (case fetch_exception d' t exception_id of
              None \<Rightarrow> (d', Inl ServerError)
            | Some (x, r) \<Rightarrow> (d', Inr (exception_out_of d' x r)))))"

end
