(* ===== verification/Read_Laws.thy ===== *)
theory Read_Laws
  imports Guarantees Routes_Read
begin

text \<open>
  What the read side promises: the keyset pages enumerate a feed, stay put while results are written,
  show one tenant's rows only; the statistics add up; an exception is closed at most once.
\<close>

subsection \<open>Walking a feed\<close>

text \<open>
  A client that follows \<open>next_cursor\<close> from a first cursor until there is none, in at most so many
  requests: the items in the order received, or nothing when a request failed or the budget ran out.
\<close>

fun walk :: "nat \<Rightarrow> ('c option \<Rightarrow> 'e + 'o list \<times> 'c option) \<Rightarrow> 'c option \<Rightarrow> 'o list option" where
  "walk 0 page cursor = None"
| "walk (Suc n) page cursor =
     (case page cursor of
        Inl _ \<Rightarrow> None
      | Inr (items, None) \<Rightarrow> Some items
      | Inr (items, Some next_cursor) \<Rightarrow> map_option ((@) items) (walk n page (Some next_cursor)))"

text \<open>A feed, newest first; what is below a cursor.\<close>

definition newest_first :: "('r \<Rightarrow> int) \<Rightarrow> 'r list \<Rightarrow> 'r list" where
  "newest_first row_id rows = rev (linorder_class.sort_key row_id rows)"

definition below :: "('r \<Rightarrow> int) \<Rightarrow> int option \<Rightarrow> 'r list \<Rightarrow> 'r list" where
  "below row_id cursor rows = filter (\<lambda>r. case cursor of None \<Rightarrow> True | Some c \<Rightarrow> row_id r < c) rows"

lemma below_None [simp]: "below row_id None rows = rows"
  by (simp add: below_def)

lemma keyset_eq: "keyset row_id cursor limit rows = take (limit + 1) (below row_id cursor (newest_first row_id rows))"
  by (simp only: keyset_def newest_first_def below_def rev_filter [symmetric] filter_sort)

lemma set_newest_first [simp]: "set (newest_first row_id rows) = set rows"
  by (simp add: newest_first_def)

lemma length_newest_first [simp]: "length (newest_first row_id rows) = length rows"
  by (simp add: newest_first_def)

lemma newest_first_descending:
  assumes "distinct (map row_id rows)"
  shows "sorted_wrt (\<lambda>x y. row_id y < row_id x) (newest_first row_id rows)"
proof -
  have "sorted_wrt (<) (map row_id (linorder_class.sort_key row_id rows))"
    using assms by (simp add: strict_sorted_iff distinct_map)
  then show ?thesis by (simp add: newest_first_def sorted_wrt_rev sorted_wrt_map)
qed

lemma below_descending:
  assumes "sorted_wrt (\<lambda>x y. row_id y < (row_id x :: int)) xs" and "k < length xs"
  shows "below row_id (Some (row_id (xs ! k))) xs = drop (Suc k) xs"
  using assms
proof (induction xs arbitrary: k)
  case (Cons x xs)
  show ?case
  proof (cases k)
    case 0
    then show ?thesis using Cons(2) by (auto simp: below_def filter_id_conv)
  next
    case (Suc j)
    then have "row_id (xs ! j) < row_id x" using Cons(2,3) by auto
    then have "\<not> row_id x < row_id (xs ! j)" by simp
    then show ?thesis using Cons Suc by (simp add: below_def)
  qed
qed simp

lemma below_below: "c \<le> b \<Longrightarrow> below row_id (Some c) (below row_id (Some b) xs) = below row_id (Some c) xs"
  by (auto simp: below_def intro!: filter_cong)

lemma descending_below: "sorted_wrt R xs \<Longrightarrow> sorted_wrt R (below row_id cursor xs)"
  by (simp add: below_def sorted_wrt_filter)

text \<open>One page: the first rows below its cursor, and a cursor exactly when some are left.\<close>

lemma page_below:
  fixes cursor :: "int option"
  assumes "distinct (map row_id rows)" and "1 \<le> limit"
  defines "rest \<equiv> below row_id cursor (newest_first row_id rows)"
  shows "page_of row_id limit (keyset row_id cursor limit rows) =
      (if limit < length rest then (take limit rest, Some (row_id (rest ! (limit - 1)))) else (rest, None))"
    and "limit < length rest \<Longrightarrow>
      below row_id (Some (row_id (rest ! (limit - 1)))) (newest_first row_id rows) = drop limit rest"
proof -
  have desc: "sorted_wrt (\<lambda>x y. row_id y < row_id x) rest"
    unfolding rest_def by (rule descending_below [OF newest_first_descending [OF assms(1)]])
  show "page_of row_id limit (keyset row_id cursor limit rows) =
      (if limit < length rest then (take limit rest, Some (row_id (rest ! (limit - 1)))) else (rest, None))"
    using assms(2) unfolding page_of_def keyset_eq rest_def [symmetric] by (simp add: min_def)
  assume more: "limit < length rest"
  let ?c = "row_id (rest ! (limit - 1))"
  have in_rest: "rest ! (limit - 1) \<in> set rest" using more assms(2) by simp
  have "below row_id (Some ?c) (newest_first row_id rows) = below row_id (Some ?c) rest"
  proof (cases cursor)
    case (Some b)
    then have "?c \<le> b" using in_rest unfolding rest_def by (auto simp: below_def)
    then show ?thesis unfolding rest_def Some by (simp add: below_below)
  qed (simp add: rest_def)
  then show "below row_id (Some ?c) (newest_first row_id rows) = drop limit rest"
    using below_descending [OF desc, of "limit - 1"] more assms(2) by simp
qed

text \<open>
  The contract of a paginated endpoint: its feed holds each id once, ids fit a \<open>bigint\<close>, and its
  answer is the page of the cursor in the query string. A client of such an endpoint gets the feed.
\<close>

locale keyset_feed =
  fixes endpoint :: "'d \<Rightarrow> 'q \<Rightarrow> nat \<Rightarrow> string option \<Rightarrow> http_error + 'o list \<times> string option"
    and feed :: "'d \<Rightarrow> 'q \<Rightarrow> 'r list"
    and row_id :: "'r \<Rightarrow> int"
    and out :: "'d \<Rightarrow> 'r \<Rightarrow> 'o"
    and good :: "'d \<Rightarrow> bool"
  assumes once: "good d \<Longrightarrow> distinct (map row_id (feed d q))"
    and fits: "good d \<Longrightarrow> r \<in> set (feed d q) \<Longrightarrow> int8_ok (row_id r)"
    and answer: "1 \<le> limit \<Longrightarrow> limit \<le> 500 \<Longrightarrow> parse_cursor cursor = Inr c \<Longrightarrow>
      (case c of None \<Rightarrow> True | Some i \<Rightarrow> int8_ok i) \<Longrightarrow>
      endpoint d q limit cursor =
        (case page_of row_id limit (keyset row_id c limit (feed d q)) of
           (rows, next_cursor) \<Rightarrow> Inr (map (out d) rows, map_option py_str_int next_cursor))"
begin

lemma walk_rest:
  assumes "good d" and "1 \<le> limit" and "limit \<le> 500"
  shows "parse_cursor cursor = Inr c \<Longrightarrow> (case c of None \<Rightarrow> True | Some i \<Rightarrow> int8_ok i) \<Longrightarrow>
    length (below row_id c (newest_first row_id (feed d q))) < fuel \<Longrightarrow>
    walk fuel (endpoint d q limit) cursor = Some (map (out d) (below row_id c (newest_first row_id (feed d q))))"
proof (induction fuel arbitrary: cursor c)
  case (Suc fuel)
  let ?rest = "below row_id c (newest_first row_id (feed d q))"
  note page = page_below [OF once [OF assms(1)] assms(2), where cursor = c and q1 = q]
  note ans = answer [OF assms(2,3) Suc(2,3), where d = d and q = q]
  show ?case
  proof (cases "limit < length ?rest")
    case False
    then show ?thesis using page(1) by (simp add: ans)
  next
    case True
    let ?i = "row_id (?rest ! (limit - 1))"
    have "?rest ! (limit - 1) \<in> set ?rest" using True assms(2) by simp
    then have "?rest ! (limit - 1) \<in> set (feed d q)" by (simp add: below_def)
    then have fit: "int8_ok ?i" by (rule fits [OF assms(1)])
    then have "\<bar>?i\<bar> < 10 ^ 20" by (auto simp: int8_ok_def)
    then have parsed: "parse_cursor (Some (py_str_int ?i)) = Inr (Some ?i)"
      by (simp add: parse_cursor_def py_int_str)
    have rest': "below row_id (Some ?i) (newest_first row_id (feed d q)) = drop limit ?rest"
      by (rule page(2) [OF True])
    have "walk fuel (endpoint d q limit) (Some (py_str_int ?i)) = Some (map (out d) (drop limit ?rest))"
      using Suc(1) [OF parsed] fit Suc(4) True assms(2) unfolding rest' by simp
    moreover have "map (out d) (take limit ?rest) @ map (out d) (drop limit ?rest) = map (out d) ?rest"
      by (simp flip: map_append)
    ultimately show ?thesis using True page(1) by (simp add: ans)
  qed
qed simp

lemma walk_enumerates:
  assumes "good d" and "1 \<le> limit" and "limit \<le> 500" and "length (feed d q) < fuel"
  shows "walk fuel (endpoint d q limit) None = Some (map (out d) (newest_first row_id (feed d q)))"
  using walk_rest [OF assms(1-3), of None None q fuel] assms(4) by (simp add: parse_cursor_def)

end

text \<open>Both endpoints keep the contract, on a database with the invariant whose ids fit their columns.\<close>

definition readable :: "match_config \<Rightarrow> db \<Rightarrow> bool" where
  "readable config d \<longleftrightarrow>
     db_inv config d \<and> (\<forall>res \<in> set (db_reconciliation_results d). int8_ok (rr_id res)) \<and>
     (\<forall>x \<in> set (db_exceptions d). int8_ok (ex_id x))"

definition transactions_endpoint ::
  "db \<Rightarrow> tenant \<times> recon_status option \<Rightarrow> nat \<Rightarrow> string option \<Rightarrow>
     http_error + transaction_page" where
  "transactions_endpoint d q = list_transactions d (fst q) (snd q)"

definition exceptions_endpoint ::
  "db \<Rightarrow> tenant \<times> exception_filter option \<Rightarrow> nat \<Rightarrow> string option \<Rightarrow>
     http_error + exception_page" where
  "exceptions_endpoint d q = list_exceptions d (fst q) (snd q)"

lemma results_feed_once: "results_inv config d \<Longrightarrow> distinct (map rr_id (results_feed d t st))"
  by (simp add: results_inv_def results_feed_def distinct_map_filterI)

text \<open>The join of the exceptions with their results: one pair for each exception it shows.\<close>

lemma exceptions_feed_eq:
  "exceptions_feed d t st =
     concat (map (\<lambda>x. map (Pair x) (filter (\<lambda>r. ex_reconciliation_result_id x = rr_id r) (db_reconciliation_results d)))
       (filter (\<lambda>x. ex_tenant_id x = tn_account_id t \<and>
          (case st of None \<Rightarrow> True | Some Open \<Rightarrow> ex_closed_at x = None | Some Closed \<Rightarrow> ex_closed_at x \<noteq> None))
          (db_exceptions d)))"
proof -
  have inner: "concat (map (\<lambda>r. [(x, r)]) (filter (\<lambda>r. ex_reconciliation_result_id x = rr_id r \<and> b) rows)) =
      (if b then map (Pair x) (filter (\<lambda>r. ex_reconciliation_result_id x = rr_id r) rows) else [])"
    for x b and rows :: "reconciliation_result list"
    by (induction rows) auto
  have outer: "concat (map (\<lambda>x. if p x then f x else []) xs) = concat (map f (filter p xs))" for p f xs
    by (induction xs) auto
  show ?thesis unfolding exceptions_feed_def inner outer ..
qed

lemma exceptions_feed_ids:
  assumes "results_inv config d"
  shows "map (ex_id \<circ> fst) (exceptions_feed d t st) =
    map ex_id (filter (\<lambda>x. list_ex (\<lambda>r. ex_reconciliation_result_id x = rr_id r) (db_reconciliation_results d))
      (filter (\<lambda>x. ex_tenant_id x = tn_account_id t \<and>
          (case st of None \<Rightarrow> True | Some Open \<Rightarrow> ex_closed_at x = None | Some Closed \<Rightarrow> ex_closed_at x \<noteq> None))
          (db_exceptions d)))"
proof -
  have one: "length (filter (\<lambda>r. i = rr_id r) (db_reconciliation_results d)) =
      (if list_ex (\<lambda>r. i = rr_id r) (db_reconciliation_results d) then 1 else 0)" for i
  proof -
    have "distinct (map rr_id rows) \<Longrightarrow> length (filter (\<lambda>r. i = rr_id r) rows) = (if list_ex (\<lambda>r. i = rr_id r) rows then 1 else 0)"
      for rows
      by (induction rows) (auto simp: filter_empty_conv list_ex_iff)
    then show ?thesis using assms unfolding results_inv_def by blast
  qed
  have each: "map (ex_id \<circ> fst) (map (Pair x) (filter (\<lambda>r. ex_reconciliation_result_id x = rr_id r) (db_reconciliation_results d))) =
      (if list_ex (\<lambda>r. ex_reconciliation_result_id x = rr_id r) (db_reconciliation_results d) then [ex_id x] else [])" for x
  proof -
    have "map (ex_id \<circ> fst) (map (Pair x) ys) = replicate (length ys) (ex_id x)" for ys :: "reconciliation_result list"
      by (induction ys) auto
    then show ?thesis using one [of "ex_reconciliation_result_id x"] by (simp only: split: if_split) simp
  qed
  have flat: "map g (concat (map f xs)) = map h (filter p xs)"
    if "\<And>x. map g (f x) = (if p x then [h x] else [])" for g f h p and xs :: "exception_row list"
    by (induction xs) (simp_all add: that)
  show ?thesis unfolding exceptions_feed_eq by (rule flat [OF each])
qed

lemma exceptions_feed_once:
  assumes "db_inv config d"
  shows "distinct (map (ex_id \<circ> fst) (exceptions_feed d t st))"
  using assms by (simp add: exceptions_feed_ids [OF db_invD(2) [OF assms]] db_inv_def exceptions_inv_def distinct_map_filterI)

interpretation transactions: keyset_feed transactions_endpoint "\<lambda>d q. results_feed d (fst q) (snd q)" rr_id result_out
  "readable config" for config
  by unfold_locales
    (auto simp: readable_def db_inv_def transactions_endpoint_def list_transactions_def fetch_results_page_def
      results_feed_once, simp add: results_feed_def)

interpretation exceptions: keyset_feed exceptions_endpoint "\<lambda>d q. exceptions_feed d (fst q) (snd q)" "ex_id \<circ> fst"
  "\<lambda>d (x, r). exception_out_of d x r" "readable config" for config
proof (unfold_locales, goal_cases)
  case (1 d q)
  then show ?case using exceptions_feed_once by (auto simp: readable_def simp del: map_map)
next
  case (2 d r q)
  then show ?case by (auto simp: readable_def exceptions_feed_def)
qed (auto simp: exceptions_endpoint_def list_exceptions_def fetch_exceptions_page_def)

text \<open>
  C19. The pages are the feed. A client that starts without a cursor and follows \<open>next_cursor\<close>, with
  any page size, gets every reconciliation result (every exception) of its tenant that passes the
  filter, once each and newest first, in at most one request more than there are rows: no cursor the
  API hands out is ever refused, no row is skipped and none comes twice.
\<close>

theorem pages_enumerate_feed:
  assumes "reachable s c" and "1 \<le> limit" and "limit \<le> 500"
    and "\<forall>res \<in> set (db_reconciliation_results (sy_db c)). int8_ok (rr_id res)"
    and "\<forall>x \<in> set (db_exceptions (sy_db c)). int8_ok (ex_id x)"
    and "length (results_feed (sy_db c) t st) < fuel" and "length (exceptions_feed (sy_db c) t f) < fuel"
  shows "walk fuel (list_transactions (sy_db c) t st limit) None =
      Some (map (result_out (sy_db c)) (newest_first rr_id (results_feed (sy_db c) t st))) \<and>
    walk fuel (list_exceptions (sy_db c) t f limit) None =
      Some (map (\<lambda>(x, r). exception_out_of (sy_db c) x r)
        (newest_first (ex_id \<circ> fst) (exceptions_feed (sy_db c) t f)))"
proof -
  have "readable (from_settings s) (sy_db c)"
    using reachable_db_inv [OF assms(1)] assms(4,5) by (simp add: readable_def)
  note good = this assms(2,3)
  show ?thesis
    using transactions.walk_enumerates [OF good, of "(t, st)" fuel] assms(6)
      exceptions.walk_enumerates [OF good, of "(t, f)" fuel] assms(7)
    by (simp add: transactions_endpoint_def exceptions_endpoint_def)
qed

theorem pages_enumerate_feed_witness:
  "walk 5 (list_transactions (sy_db lone_end) example_tenant None 1) None =
     Some (map (result_out (sy_db lone_end)) (newest_first rr_id (results_feed (sy_db lone_end) example_tenant None))) \<and>
   length (results_feed (sy_db lone_end) example_tenant None) = 1"
proof -
  have fit: "list_all (\<lambda>res. int8_ok (rr_id res)) (db_reconciliation_results (sy_db lone_end))"
    "list_all (\<lambda>x. int8_ok (ex_id x)) (db_exceptions (sy_db lone_end))" by code_simp+
  have len: "length (results_feed (sy_db lone_end) example_tenant None) = 1"
    "length (exceptions_feed (sy_db lone_end) example_tenant None) = 1" by code_simp+
  show ?thesis
    using pages_enumerate_feed [OF lone_reachable, of 1 example_tenant None 5 None] fit len by (simp add: list_all_iff)
qed

subsection \<open>Pages under concurrent writes\<close>

text \<open>What one step does to the results: nothing, one more with a new id, or the loss of a tenant's.\<close>

lemma step_results:
  assumes "sys_inv s c" and "step s c c'"
  obtains (same) "db_reconciliation_results (sy_db c') = db_reconciliation_results (sy_db c)"
  | (more) res where "db_reconciliation_results (sy_db c') = db_reconciliation_results (sy_db c) @ [res]"
      "rr_id res = db_next (sy_db c) T_reconciliation_results"
  | (gone) a where "db_reconciliation_results (sy_db c') = filter (\<lambda>r. rr_tenant_id r \<noteq> a) (db_reconciliation_results (sy_db c))"
      "\<not> has_account (sy_db c') a"
  using assms(2)
proof cases
  have rows: "rows_inv (sy_db c)" using assms(1) unfolding sys_inv_def db_inv_def by blast
  {
    case account
    with upsert_core_frame show ?thesis by (intro same) (auto simp: core_frame_def)
  next
    case touch
    with touch_core_frame show ?thesis by (intro same) (auto simp: core_frame_def)
  next
    case key
    with issue_key_core_frame show ?thesis by (intro same) (auto simp: core_frame_def)
  next
    case source
    with create_source_core_frame show ?thesis by (intro same) (auto simp: core_frame_def)
  next
    case delivery
    with record_delivery_core_frame show ?thesis by (intro same) (auto simp: core_frame_def)
  next
    case (gateway p now tn k body d' out)
    from ingest_gateway_ingests [OF rows gateway_storable_accepted [OF gateway(2,3)] gateway(3)] gateway(1)
    show ?thesis by (intro same) (simp add: ingests_def)
  next
    case (ledger es dump now tn d' outs)
    from ingest_ledger_batch_ingests [OF rows ledger_storable_accepted [OF rows ledger(2,3)] ledger(3)] ledger(1)
    show ?thesis by (intro same) (simp add: ingests_def)
  next
    case (relay now locked publish committed d' published res)
    from drain_once_db [OF relay(2)] relay(1) show ?thesis by (intro same) auto
  next
    case (write_decision t dec tx now latency mid d' pr)
    from write_decision(3) show ?thesis
    proof (cases rule: apply_decision_cases)
      case taken
      then show ?thesis using write_decision(1) by (intro same) simp
    next
      case (written row)
      then show ?thesis using write_decision(1) by (intro more [of row]) (simp_all add: result_of_sel)
    qed
  next
    case (retention a d')
    from delete_demo_account_Inr [OF retention(2)] retention(1)
    show ?thesis by (intro gone [of a]) (auto simp: without_tenant_def has_account_def list_ex_iff)
  next
    case (close_exc now t i memo d' x)
    from close_exception_db [OF close_exc(2)] close_exc(1) show ?thesis by (intro same) simp
  }
qed (rule same, simp)+



subsection \<open>Isolation\<close>

lemma loaded_side_tenant:
  assumes "db_inv config d" and "res \<in> set (db_reconciliation_results d)" and "loaded_side side d res = Some r"
  shows "r \<in> set (model_rows side d) \<and> rt_tenant_id r = rr_tenant_id res"
proof -
  obtain i where i: "side_id side res = Some i" and r: "List.find (\<lambda>r. rt_id r = i) (model_rows side d) = Some r"
    using assms(3) by (cases side) (auto simp: loaded_side_def side_id_def split: option.splits)
  have mem: "r \<in> set (model_rows side d)" "rt_id r = i" using find_SomeD [OF r] by auto
  have "result_sound config d res" using db_invD(2) [OF assms(1)] assms(2) by (simp add: results_inv_def)
  then obtain q where "q \<in> set (model_rows side d)" "rt_id q = i" "rt_tenant_id q = rr_tenant_id res"
    using i unfolding result_sound_def by blast
  with rows_invD(4) [OF db_invD(1) [OF assms(1)] mem(1)] mem show ?thesis by auto
qed

text \<open>The sides of an item were taken from raw rows of the tenant.\<close>

definition own_sides :: "db \<Rightarrow> int \<Rightarrow> 'a sides_out_scheme \<Rightarrow> bool" where
  "own_sides d t item \<longleftrightarrow>
     (\<exists>g l. sides_out.truncate item = sides_out_of g l \<and>
        (g = None \<or> (\<exists>r \<in> set (model_rows GATEWAY d). g = Some r \<and> rt_tenant_id r = t)) \<and>
        (l = None \<or> (\<exists>r \<in> set (model_rows LEDGER d). l = Some r \<and> rt_tenant_id r = t)))"

lemma own_sidesI:
  assumes "db_inv config d" and "res \<in> set (db_reconciliation_results d)" and "rr_tenant_id res = t"
  shows "own_sides d t (result_out d res)" and "own_sides d t (exception_out_of d x res)"
proof -
  have "sides_out.truncate (result_out d res) = sides_out_of (loaded_side GATEWAY d res) (loaded_side LEDGER d res)"
    "sides_out.truncate (exception_out_of d x res) = sides_out_of (loaded_side GATEWAY d res) (loaded_side LEDGER d res)"
    by (simp_all add: result_out_def exception_out_of_def sides_out.defs)
  moreover
  have "loaded_side side d res = None \<or> (\<exists>r \<in> set (model_rows side d). loaded_side side d res = Some r \<and> rt_tenant_id r = t)" for side
    using loaded_side_tenant [OF assms(1,2), of side] assms(3) by (cases "loaded_side side d res") auto
  ultimately show "own_sides d t (result_out d res)" "own_sides d t (exception_out_of d x res)"
    unfolding own_sides_def by metis+
qed

lemma page_of_subset: "page_of f limit rows = (xs, c) \<Longrightarrow> set xs \<subseteq> set rows"
  by (auto simp: page_of_def split: if_splits dest: in_set_takeD)

lemma keyset_subset: "set (keyset f cursor limit rows) \<subseteq> set rows"
  by (auto simp: keyset_def dest: in_set_takeD)

lemma list_transactions_items:
  assumes "list_transactions d t st limit cursor = Inr (items, next_cursor)"
  obtains rows where "set rows \<subseteq> set (results_feed d t st)" "items = map (result_out d) rows"
proof -
  obtain i where items: "items = map (result_out d) (fst (fetch_results_page d t st limit i))"
    using assms by (auto simp: list_transactions_def split_beta split: if_splits sum.splits)
  have "set (fst (page_of rr_id limit rows)) \<subseteq> set rows" for rows
    using page_of_subset prod.collapse by metis
  then have "set (fst (fetch_results_page d t st limit i)) \<subseteq> set (results_feed d t st)"
    unfolding fetch_results_page_def using keyset_subset by (rule order_trans)
  with items show ?thesis by (intro that)
qed

lemma list_exceptions_items:
  assumes "list_exceptions d t f limit cursor = Inr (items, next_cursor)"
  obtains rows where "set rows \<subseteq> set (exceptions_feed d t f)" "items = map (\<lambda>(x, r). exception_out_of d x r) rows"
proof -
  obtain i where items: "items = map (\<lambda>(x, r). exception_out_of d x r) (fst (fetch_exceptions_page d t f limit i))"
    using assms by (auto simp: list_exceptions_def split_beta split: if_splits sum.splits)
  have "set (fst (page_of (ex_id \<circ> fst) limit rows)) \<subseteq> set rows" for rows
    using page_of_subset prod.collapse by metis
  then have "set (fst (fetch_exceptions_page d t f limit i)) \<subseteq> set (exceptions_feed d t f)"
    unfolding fetch_exceptions_page_def using keyset_subset by (rule order_trans)
  with items show ?thesis by (intro that)
qed

text \<open>An exception of a tenant's feed comes with a result of the tenant.\<close>

lemma exceptions_feed_tenant:
  assumes "db_inv config d" and "(x, res) \<in> set (exceptions_feed d t f)"
  shows "ex_tenant_id x = tn_account_id t \<and> rr_tenant_id res = tn_account_id t \<and>
    x \<in> set (db_exceptions d) \<and> res \<in> set (db_reconciliation_results d)"
proof -
  have m: "x \<in> set (db_exceptions d)" "res \<in> set (db_reconciliation_results d)"
    "ex_reconciliation_result_id x = rr_id res" "ex_tenant_id x = tn_account_id t"
    using assms(2) by (auto simp: exceptions_feed_def)
  then obtain q where q: "q \<in> set (db_reconciliation_results d)" "rr_id q = rr_id res" "rr_tenant_id q = tn_account_id t"
    using db_invD(4) [OF assms(1)] unfolding exceptions_inv_def by metis
  have "q = res"
    using db_invD(2) [OF assms(1)] q(1,2) m(2) distinct_map_eqD unfolding results_inv_def by fastforce
  then show ?thesis using m q(3) by simp
qed

text \<open>
  C21. Reads stay inside the tenant. Every item of a page, of results or of exceptions, is the caller's
  own, and so is each raw row its amounts and times were taken from.
\<close>

theorem reads_stay_in_tenant:
  assumes "reachable s c"
    and "list_transactions (sy_db c) t st limit cursor = Inr (items, next_cursor)"
    and "list_exceptions (sy_db c) t f limit' cursor' = Inr (items', next_cursor')"
  shows "list_all (\<lambda>item. own_sides (sy_db c) (tn_account_id t) item \<and>
      (\<exists>res \<in> set (db_reconciliation_results (sy_db c)). rr_tenant_id res = tn_account_id t \<and>
         item = result_out (sy_db c) res)) items \<and>
    list_all (\<lambda>item. own_sides (sy_db c) (tn_account_id t) item \<and>
      (\<exists>x \<in> set (db_exceptions (sy_db c)). \<exists>res \<in> set (db_reconciliation_results (sy_db c)).
         ex_tenant_id x = tn_account_id t \<and> rr_tenant_id res = tn_account_id t \<and>
         item = exception_out_of (sy_db c) x res)) items'"
proof
  let ?d = "sy_db c" and ?t = "tn_account_id t"
  note inv = reachable_db_inv [OF assms(1)]
  obtain rows where rows: "set rows \<subseteq> set (results_feed ?d t st)" "items = map (result_out ?d) rows"
    by (rule list_transactions_items [OF assms(2)])
  have own: "res \<in> set (db_reconciliation_results ?d) \<and> rr_tenant_id res = ?t" if "res \<in> set rows" for res
    using rows(1) that by (auto simp: results_feed_def)
  show "list_all (\<lambda>item. own_sides ?d ?t item \<and>
      (\<exists>res \<in> set (db_reconciliation_results ?d). rr_tenant_id res = ?t \<and> item = result_out ?d res)) items"
    unfolding rows(2) list_all_iff set_map using own own_sidesI(1) [OF inv] by blast
  obtain rows' where rows': "set rows' \<subseteq> set (exceptions_feed ?d t f)" "items' = map (\<lambda>(x, r). exception_out_of ?d x r) rows'"
    by (rule list_exceptions_items [OF assms(3)])
  have own': "ex_tenant_id x = ?t \<and> rr_tenant_id res = ?t \<and> x \<in> set (db_exceptions ?d) \<and>
      res \<in> set (db_reconciliation_results ?d)" if "(x, res) \<in> set rows'" for x res
    using exceptions_feed_tenant [OF inv] rows'(1) that by blast
  have item: "own_sides ?d ?t item \<and> (\<exists>x \<in> set (db_exceptions ?d). \<exists>res \<in> set (db_reconciliation_results ?d).
      ex_tenant_id x = ?t \<and> rr_tenant_id res = ?t \<and> item = exception_out_of ?d x res)" if member: "item \<in> set items'" for item
  proof -
    obtain x res where "(x, res) \<in> set rows'" "item = exception_out_of ?d x res"
      using member unfolding rows'(2) by auto
    with own' own_sidesI(2) [OF inv] show ?thesis by blast
  qed
  then show "list_all (\<lambda>item. own_sides ?d ?t item \<and> (\<exists>x \<in> set (db_exceptions ?d). \<exists>res \<in> set (db_reconciliation_results ?d).
      ex_tenant_id x = ?t \<and> rr_tenant_id res = ?t \<and> item = exception_out_of ?d x res)) items'"
    by (simp add: list_all_iff)
qed

theorem reads_stay_in_tenant_witness:
  "\<exists>items items'. list_transactions (sy_db lone_end) example_tenant None 10 None = Inr (items, None) \<and>
     list_exceptions (sy_db lone_end) example_tenant (Some Open) 10 None = Inr (items', None) \<and>
     items \<noteq> [] \<and> list_all (own_sides (sy_db lone_end) 1) items \<and> items' \<noteq> [] \<and>
     list_all (\<lambda>item. \<exists>x \<in> set (db_exceptions (sy_db lone_end)). ex_tenant_id x = 1 \<and> eo_id item = ex_id x) items'"
proof -
  let ?r = "list_transactions (sy_db lone_end) example_tenant None 10 None"
    and ?x = "list_exceptions (sy_db lone_end) example_tenant (Some Open) 10 None"
  have ok: "\<not> isl ?r \<and> snd (projr ?r) = None \<and> length (fst (projr ?r)) = 1" "\<not> isl ?x \<and> snd (projr ?x) = None \<and> length (fst (projr ?x)) = 1"
    by code_simp+
  then obtain i j where r: "?r = Inr (i, None)" "i \<noteq> []" and x: "?x = Inr (j, None)" "j \<noteq> []"
    by (cases ?r; cases ?x) force+
  have "tn_account_id example_tenant = 1" by (simp add: example_tenant_def)
  moreover have "eo_id (exception_out_of d y res) = ex_id y" for d y res
    by (simp add: exception_out_of_def sides_out.defs exception_out.defs)
  ultimately show ?thesis
    using reads_stay_in_tenant [OF lone_reachable r(1) x(1)] r(2) x(2) unfolding r(1) x(1)
    by (simp add: list_all_iff) metis
qed

subsection \<open>Closing an exception\<close>

text \<open>The exception an id stands for in a tenant's queue, with its result.\<close>

lemma fetch_exception_SomeD:
  assumes "db_inv config d" and "fetch_exception d t i = Some (x, r)"
  shows "x \<in> set (db_exceptions d)" "ex_id x = i" "ex_tenant_id x = tn_account_id t"
    "r \<in> set (db_reconciliation_results d)" "rr_id r = ex_reconciliation_result_id x"
proof -
  have "(x, r) \<in> set (exceptions_feed d t None) \<and> ex_id x = i"
    using find_SomeD [OF assms(2) [unfolded fetch_exception_def]] by auto
  then show "x \<in> set (db_exceptions d)" "ex_id x = i" "ex_tenant_id x = tn_account_id t"
    "r \<in> set (db_reconciliation_results d)" "rr_id r = ex_reconciliation_result_id x"
    by (auto simp: exceptions_feed_def)
qed

lemma fetch_exception_found:
  assumes "db_inv config d" and "x \<in> set (db_exceptions d)" and "ex_id x = i" and "ex_tenant_id x = tn_account_id t"
  shows "\<exists>r. fetch_exception d t i = Some (x, r)"
proof -
  obtain r where r: "r \<in> set (db_reconciliation_results d)" "rr_id r = ex_reconciliation_result_id x"
    using db_invD(4) [OF assms(1)] assms(2) unfolding exceptions_inv_def by metis
  have feed: "(x, r) \<in> set (exceptions_feed d t None)"
    using assms(2,4) r by (auto simp: exceptions_feed_def)
  have "fetch_exception d t i \<noteq> None"
    unfolding fetch_exception_def find_None_iff using feed assms(3) by fastforce
  then obtain y q where y: "fetch_exception d t i = Some (y, q)" by auto
  note yD = fetch_exception_SomeD [OF assms(1) y]
  have "y = x"
    using db_invD(4) [OF assms(1)] yD(1,2) assms(2,3) distinct_map_eqD unfolding exceptions_inv_def by fastforce
  with y show ?thesis by blast
qed

lemma closable_rows:
  assumes "db_inv config d"
  shows "filter (closable t i) (db_exceptions d) =
    (case fetch_exception d t i of
       None \<Rightarrow> []
     | Some (x, r) \<Rightarrow> if ex_closed_at x = None then [x] else [])"
proof (cases "fetch_exception d t i")
  case None
  have "\<not> closable t i x" if "x \<in> set (db_exceptions d)" for x
    using fetch_exception_found [OF assms that, of i t] None by (auto simp: closable_def)
  then show ?thesis using None by (simp add: filter_empty_conv)
next
  case (Some xr)
  obtain x r where xr: "fetch_exception d t i = Some (x, r)" using Some by (cases xr) auto
  note x = fetch_exception_SomeD [OF assms xr]
  have dist: "distinct (map ex_id (db_exceptions d))"
    using db_invD(4) [OF assms] by (simp add: exceptions_inv_def)
  have only: "y = x" if "y \<in> set (db_exceptions d)" "closable t i y" for y
    using distinct_map_eqD [OF dist that(1) x(1)] that(2) x(2) by (simp add: closable_def)
  show ?thesis
  proof (cases "ex_closed_at x = None")
    case True
    then have "closable t i x" using x by (simp add: closable_def)
    moreover have "y = x" if "y \<in> set (db_exceptions d)" "ex_id y = ex_id x" for y
      by (rule distinct_map_eqD [OF dist that(1) x(1) that(2)])
    ultimately have "filter (closable t i) (db_exceptions d) = filter (\<lambda>y. ex_id y = ex_id x) (db_exceptions d)"
      using only by (intro filter_cong) auto
    with filter_unique [OF dist x(1)] have "filter (closable t i) (db_exceptions d) = [x]" by simp
    then show ?thesis using xr True by simp
  next
    case False
    then have "\<not> closable t i y" if "y \<in> set (db_exceptions d)" for y
      using only [OF that] closable_def False by metis
    then show ?thesis using xr False by (simp add: filter_empty_conv)
  qed
qed

text \<open>An open exception of the tenant is closed, and then closed for good.\<close>

lemma resolve_open_exception:
  assumes "reachable s c" and "1 \<le> i" and "int8_ok i" and "notes \<noteq> []" and "length notes \<le> 4000"
    and "\<forall>x \<in> set (db_exceptions (sy_db c)). ex_opened_at x \<le> now"
    and xr: "fetch_exception (sy_db c) t i = Some (x, r)" and True: "ex_closed_at x = None"
  shows "\<exists>d'. d' = (sy_db c)\<lparr> db_exceptions :=
        update_where (\<lambda>y. ex_id y = i) (close_row now notes) (db_exceptions (sy_db c)) \<rparr> \<and>
      resolve_exception now t i notes (sy_db c) = (d', Inr (exception_out_of d' (close_row now notes x) r)) \<and>
      resolve_exception now' t i notes d' = (d', Inl (Http 409))"
proof -
  let ?d = "sy_db c"
  note inv = reachable_db_inv [OF assms(1)]
  note x = fetch_exception_SomeD [OF inv xr]
  let ?d' = "?d\<lparr> db_exceptions := update_where (closable t i) (close_row now notes) (db_exceptions ?d) \<rparr>"
  have hits: "filter (closable t i) (db_exceptions ?d) = [x]" using closable_rows [OF inv, of t i] xr True by simp
  have closes: "close_exception now t i notes ?d = Inr (?d', Some (close_row now notes x))"
    using hits x(1) assms(6) by (auto simp: close_exception_def Let_def)
  have "reachable s (c\<lparr> sy_db := ?d' \<rparr>)" by (rule reachable.step [OF assms(1) step.close_exc [OF closes]])
  then have inv': "db_inv (from_settings s) ?d'" using reachable_db_inv by fastforce
  have "closable t i x" using x(2,3) True by (simp add: closable_def)
  then have "close_row now notes x \<in> set (db_exceptions ?d')" using x(1) by (force simp: set_update_where)
  from fetch_exception_found [OF inv' this] x(2,3)
  obtain r' where r': "fetch_exception ?d' t i = Some (close_row now notes x, r')" by auto
  note x' = fetch_exception_SomeD [OF inv' r']
  have dist: "distinct (map rr_id (db_reconciliation_results ?d))"
    using db_invD(2) [OF inv] by (simp add: results_inv_def)
  have "r' = r" by (rule distinct_map_eqD [OF dist _ x(4)]) (use x'(4,5) x(5) in simp_all)
  with r' have found: "fetch_exception ?d' t i = Some (close_row now notes x, r)" by simp
  have same: "update_where (closable t i) (close_row now notes) (db_exceptions ?d) =
      update_where (\<lambda>y. ex_id y = i) (close_row now notes) (db_exceptions ?d)"
  proof -
    have dist: "distinct (map ex_id (db_exceptions ?d))" using db_invD(4) [OF inv] by (simp add: exceptions_inv_def)
    have "y = x" if "y \<in> set (db_exceptions ?d)" "ex_id y = i" for y
      by (rule distinct_map_eqD [OF dist that(1) x(1)]) (simp add: that(2) x(2))
    then have "closable t i y \<longleftrightarrow> ex_id y = i" if "y \<in> set (db_exceptions ?d)" for y
      using that x(2,3) True by (auto simp: closable_def)
    then show ?thesis unfolding update_where_def by (intro map_cong) auto
  qed
  have hits': "filter (closable t i) (db_exceptions ?d') = []"
    using closable_rows [OF inv', of t i] found by (simp add: close_row_def)
  have again: "resolve_exception now' t i notes ?d' = (?d', Inl (Http 409))"
    using hits' found assms(2-5) by (simp add: resolve_exception_def resolution_notes_ok_def Suc_le_eq close_exception_def update_where_id Let_def filter_empty_conv)
  have "resolve_exception now t i notes ?d = (?d', Inr (exception_out_of ?d' (close_row now notes x) r))"
    using closes found assms(2-5) by (simp add: resolve_exception_def resolution_notes_ok_def Suc_le_eq)
  with again show ?thesis unfolding same by simp
qed

text \<open>
  C20. Closing an exception, on every branch. For a valid request on a reachable state: an id outside
  the tenant's queue is a 404 and changes nothing; an exception that is closed is a 409 and keeps its
  first resolution; an open one is closed with the caller's notes, no other row changes, and the answer
  shows it closed (the \<open>assert\<close> of the handler never fails). Closing it again, with whatever notes
  and by whatever operator, is a 409 that changes nothing.
\<close>

theorem resolve_exception_outcomes:
  assumes "reachable s c" and "1 \<le> i" and "int8_ok i" and "notes \<noteq> []" and "length notes \<le> 4000"
    and "\<forall>x \<in> set (db_exceptions (sy_db c)). ex_opened_at x \<le> now"
  shows "case fetch_exception (sy_db c) t i of
      None \<Rightarrow> resolve_exception now t i notes (sy_db c) = (sy_db c, Inl (Http 404))
    | Some (x, r) \<Rightarrow>
        if ex_closed_at x \<noteq> None then resolve_exception now t i notes (sy_db c) = (sy_db c, Inl (Http 409))
        else \<exists>d'. d' = (sy_db c)\<lparr> db_exceptions :=
                update_where (\<lambda>y. ex_id y = i) (close_row now notes) (db_exceptions (sy_db c)) \<rparr> \<and>
            resolve_exception now t i notes (sy_db c) = (d', Inr (exception_out_of d' (close_row now notes x) r)) \<and>
            resolve_exception now' t i notes d' = (d', Inl (Http 409))"
proof (cases "fetch_exception (sy_db c) t i")
  case None
  have "filter (closable t i) (db_exceptions (sy_db c)) = []"
    using closable_rows [OF reachable_db_inv [OF assms(1)], of t i] None by simp
  then show ?thesis
    using None assms(2-5) by (simp add: resolve_exception_def resolution_notes_ok_def Suc_le_eq close_exception_def update_where_id Let_def filter_empty_conv)
next
  case (Some xr)
  obtain x r where xr: "fetch_exception (sy_db c) t i = Some (x, r)" using Some by (cases xr) auto
  show ?thesis
  proof (cases "ex_closed_at x = None")
    case True
    show ?thesis
      using resolve_open_exception [OF assms xr True, of now'] unfolding xr option.case prod.case by (simp only: True not_not if_False) simp
  next
    case False
    then have "filter (closable t i) (db_exceptions (sy_db c)) = []"
      using closable_rows [OF reachable_db_inv [OF assms(1)], of t i] xr by simp
    then show ?thesis
      using xr False assms(2-5) by (simp add: resolve_exception_def resolution_notes_ok_def Suc_le_eq close_exception_def update_where_id Let_def filter_empty_conv)
  qed
qed

theorem resolve_exception_outcomes_witness:
  "\<exists>x r d'. fetch_exception (sy_db lone_end) example_tenant 1 = Some (x, r) \<and>
     resolve_exception 20 example_tenant 1 ''refunded'' (sy_db lone_end) =
       (d', Inr (exception_out_of d' (close_row 20 ''refunded'' x) r)) \<and>
     resolve_exception 30 example_tenant 1 ''refunded'' d' = (d', Inl (Http 409))"
proof -
  have ok: "list_all (\<lambda>x. ex_opened_at x \<le> 20 \<and> ex_closed_at x = None) (db_exceptions (sy_db lone_end))"
    "fetch_exception (sy_db lone_end) example_tenant 1 \<noteq> None" by code_simp+
  then obtain x r where xr: "fetch_exception (sy_db lone_end) example_tenant 1 = Some (x, r)" by auto
  have x: "ex_closed_at x = None"
    using fetch_exception_SomeD(1) [OF reachable_db_inv [OF lone_reachable] xr] ok(1) by (simp add: list_all_iff)
  have "case fetch_exception (sy_db lone_end) example_tenant 1 of
      None \<Rightarrow> resolve_exception 20 example_tenant 1 ''refunded'' (sy_db lone_end) = (sy_db lone_end, Inl (Http 404))
    | Some (x, r) \<Rightarrow>
        if ex_closed_at x \<noteq> None then resolve_exception 20 example_tenant 1 ''refunded'' (sy_db lone_end) = (sy_db lone_end, Inl (Http 409))
        else \<exists>d'. d' = (sy_db lone_end)\<lparr> db_exceptions :=
                update_where (\<lambda>y. ex_id y = 1) (close_row 20 ''refunded'') (db_exceptions (sy_db lone_end)) \<rparr> \<and>
            resolve_exception 20 example_tenant 1 ''refunded'' (sy_db lone_end) = (d', Inr (exception_out_of d' (close_row 20 ''refunded'' x) r)) \<and>
            resolve_exception 30 example_tenant 1 ''refunded'' d' = (d', Inl (Http 409))"
    using ok(1) by (intro resolve_exception_outcomes [OF lone_reachable]) (simp_all add: int8_ok_def list_all_iff)
  then show ?thesis using xr x by auto
qed

subsection \<open>Statistics\<close>

text \<open>The interpolated percentile lies between its neighbours, so it grows with the fraction asked for.\<close>

lemma sorted_interpolation:
  fixes ys :: "int list" and pos :: rat
  assumes "sorted ys" and "0 \<le> pos" and "pos \<le> of_nat (length ys - 1)" and "ys \<noteq> []"
  defines "f \<equiv> of_int (ys ! nat \<lfloor>pos\<rfloor>) + (pos - of_nat (nat \<lfloor>pos\<rfloor>)) * (of_int (ys ! nat \<lceil>pos\<rceil>) - of_int (ys ! nat \<lfloor>pos\<rfloor>))"
  shows "of_int (ys ! nat \<lfloor>pos\<rfloor>) \<le> f" and "f \<le> of_int (ys ! nat \<lceil>pos\<rceil>)" and "nat \<lceil>pos\<rceil> < length ys"
proof -
  have "\<lceil>pos\<rceil> \<le> int (length ys - 1)" using assms(3) by (simp add: ceiling_le_iff)
  then show len: "nat \<lceil>pos\<rceil> < length ys" using assms(4) by (cases ys) auto
  have "nat \<lfloor>pos\<rfloor> \<le> nat \<lceil>pos\<rceil>" by (intro nat_mono floor_le_ceiling)
  then have le: "ys ! nat \<lfloor>pos\<rfloor> \<le> ys ! nat \<lceil>pos\<rceil>" using assms(1) len by (simp add: sorted_nth_mono)
  have frac: "0 \<le> pos - of_nat (nat \<lfloor>pos\<rfloor>)" "pos - of_nat (nat \<lfloor>pos\<rfloor>) \<le> 1"
    using assms(2) by (simp_all add: of_nat_nat) linarith
  let ?D = "of_int (ys ! nat \<lceil>pos\<rceil>) - of_int (ys ! nat \<lfloor>pos\<rfloor>) :: rat"
  have D: "0 \<le> ?D" using le by simp
  show "of_int (ys ! nat \<lfloor>pos\<rfloor>) \<le> f" unfolding f_def using frac(1) D by simp
  have "(pos - of_nat (nat \<lfloor>pos\<rfloor>)) * ?D \<le> 1 * ?D" using frac(2) D by (rule mult_right_mono)
  then show "f \<le> of_int (ys ! nat \<lceil>pos\<rceil>)" unfolding f_def by simp
qed

lemma percentile_mono:
  assumes "0 \<le> p" and "p \<le> q" and "q \<le> 1"
    and "percentile_cont p xs = Some a" and "percentile_cont q xs = Some b"
  shows "a \<le> b"
proof -
  let ?ys = "sort xs"
  let ?at = "\<lambda>pos. of_int (?ys ! nat \<lfloor>pos\<rfloor>) +
    (pos - of_nat (nat \<lfloor>pos\<rfloor>)) * (of_int (?ys ! nat \<lceil>pos\<rceil>) - of_int (?ys ! nat \<lfloor>pos\<rfloor>)) :: rat"
  let ?p = "p * of_nat (length ?ys - 1)" and ?q = "q * of_nat (length ?ys - 1)"
  have ne: "?ys \<noteq> []" and a: "a = ?at ?p" and b: "b = ?at ?q"
    using assms(4,5) by (auto simp: percentile_cont_def Let_def split: if_splits)
  have pq: "?p \<le> ?q" using assms(2) by (simp add: mult_right_mono)
  have p0: "0 \<le> ?p" using assms(1) by simp
  have q1: "?q \<le> of_nat (length ?ys - 1)"
    using assms(3) mult_right_mono [of q 1 "of_nat (length ?ys - 1)"] by simp
  note P = sorted_interpolation [OF sorted_sort p0 order_trans [OF pq q1] ne]
  note Q = sorted_interpolation [OF sorted_sort order_trans [OF p0 pq] q1 ne]
  show ?thesis
  proof (cases "\<lfloor>?p\<rfloor> = \<lfloor>?q\<rfloor>")
    case True
    let ?k = "nat \<lfloor>?q\<rfloor>"
    show ?thesis
    proof (cases "?p = of_int \<lfloor>?p\<rfloor>")
      case int: True
      then have "of_nat (nat \<lfloor>?p\<rfloor>) = ?p" using p0 by (metis of_nat_nat zero_le_floor of_int_of_nat_eq)
      then have "a = of_int (?ys ! nat \<lfloor>?p\<rfloor>)" unfolding a by simp
      with Q(1) show ?thesis unfolding b True by simp
    next
      case frac: False
      then have "?p \<noteq> of_int \<lfloor>?q\<rfloor>" using True by simp
      moreover have "of_int \<lfloor>?q\<rfloor> \<le> ?p" using True of_int_floor_le [of ?p] by simp
      ultimately have "?q \<noteq> of_int \<lfloor>?q\<rfloor>" using pq by linarith
      then have up: "\<lceil>?p\<rceil> = \<lceil>?q\<rceil>" using frac True by (simp add: ceiling_altdef)
      have "b - a = (?q - ?p) * (of_int (?ys ! nat \<lceil>?q\<rceil>) - of_int (?ys ! ?k))"
        unfolding a b True up by (simp add: algebra_simps)
      moreover have "0 \<le> of_int (?ys ! nat \<lceil>?q\<rceil>) - (of_int (?ys ! ?k) :: rat)" using Q(1,2) by linarith
      ultimately show ?thesis using pq by (metis diff_ge_0_iff_ge mult_nonneg_nonneg)
    qed
  next
    case False
    then have "\<lfloor>?p\<rfloor> + 1 \<le> \<lfloor>?q\<rfloor>" using floor_mono [OF pq] by linarith
    moreover have "\<lceil>?p\<rceil> \<le> \<lfloor>?p\<rfloor> + 1" by (rule ceiling_le) linarith
    ultimately have "\<lceil>?p\<rceil> \<le> \<lfloor>?q\<rfloor>" by linarith
    then have "nat \<lceil>?p\<rceil> \<le> nat \<lfloor>?q\<rfloor>" by simp
    moreover have "nat \<lfloor>?q\<rfloor> < length ?ys"
      by (rule le_less_trans [OF nat_mono [OF floor_le_ceiling] Q(3)])
    ultimately have "?ys ! nat \<lceil>?p\<rceil> \<le> ?ys ! nat \<lfloor>?q\<rfloor>" by (rule sorted_nth_mono [OF sorted_sort])
    then have "(of_int (?ys ! nat \<lceil>?p\<rceil>) :: rat) \<le> of_int (?ys ! nat \<lfloor>?q\<rfloor>)" by simp
    with P(2) Q(1) show ?thesis unfolding a b by linarith
  qed
qed

text \<open>Counting by status.\<close>

lemma count_statuses:
  "count_where (\<lambda>r. rr_status r = MATCHED) rs +
   count_where (\<lambda>r. rr_status r \<in> {UNMATCHED_GATEWAY_ONLY, UNMATCHED_LEDGER_ONLY}) rs +
   count_where (\<lambda>r. rr_status r \<in> {AMOUNT_DRIFT, TIME_DRIFT}) rs + count_where (\<lambda>r. rr_status r = DUPLICATE) rs = length rs"
proof (induction rs)
  case (Cons r rs)
  then show ?case by (cases "rr_status r") (simp_all add: count_where_def)
qed (simp add: count_where_def)

lemma count_unmatched:
  "count_where (\<lambda>r. rr_status r \<in> {UNMATCHED_GATEWAY_ONLY, UNMATCHED_LEDGER_ONLY}) rs =
   count_where (\<lambda>r. rr_status r = UNMATCHED_GATEWAY_ONLY) rs + count_where (\<lambda>r. rr_status r = UNMATCHED_LEDGER_ONLY) rs"
  by (induction rs) (auto simp: count_where_def)

text \<open>
  The statistics add up. In every reachable state, for any tenant and window: the matched, the
  unmatched, the drifted and the duplicate results partition the window's results; the unmatched are
  those of the two sides; a match found by time drift is one of the matched; the match rate is between
  0 and 1; and the latency percentiles are there together and in order.
\<close>

theorem stats_add_up:
  fixes t :: tenant and now :: instant and w :: window
  assumes "reachable s c"
  defines "st \<equiv> fetch_stats (sy_db c) t now w"
  shows "stats_total st + st_duplicates st = length (window_rows (sy_db c) t now w) \<and>
    st_unmatched st = st_unmatched_gateway st + st_unmatched_ledger st \<and>
    st_via_time_drift st \<le> st_matched st \<and> 0 \<le> match_rate st \<and> match_rate st \<le> 1 \<and>
    ((st_p50 st = None \<and> st_p95 st = None \<and> st_p99 st = None) \<or>
     (\<exists>a b d. st_p50 st = Some a \<and> st_p95 st = Some b \<and> st_p99 st = Some d \<and> a \<le> b \<and> b \<le> d))"
proof (intro conjI)
  let ?rows = "window_rows (sy_db c) t now w"
  have shape: "decision_shape (rr_status r) (rr_match_layer r) (rr_gateway_txn_id r \<noteq> None) (rr_ledger_entry_id r \<noteq> None)"
    if "r \<in> set ?rows" for r
    using that db_invD(2) [OF reachable_db_inv [OF assms(1)]]
    unfolding window_rows_def results_inv_def result_sound_def by auto
  show "stats_total st + st_duplicates st = length ?rows"
    using count_statuses [of ?rows] by (simp add: st_def fetch_stats_def stats_total_def Let_def)
  show "st_unmatched st = st_unmatched_gateway st + st_unmatched_ledger st"
    using count_unmatched [of ?rows] by (simp add: st_def fetch_stats_def Let_def)
  have "rr_match_layer r = L_TIME_DRIFT \<Longrightarrow> rr_status r = MATCHED" if "r \<in> set ?rows" for r
    using shape [OF that] by (cases "rr_status r") auto
  then show "st_via_time_drift st \<le> st_matched st"
    unfolding st_def fetch_stats_def Let_def stats_row.select_convs count_where_def
    by (intro length_filter_imp) auto
  show "0 \<le> match_rate st" by (simp add: match_rate_def)
  show "match_rate st \<le> 1" by (simp add: match_rate_def stats_total_def divide_le_eq)
  have "(\<exists>a. percentile_cont q xs = Some a) \<longleftrightarrow> xs \<noteq> []" for q xs
    by (cases xs) (auto simp: percentile_cont_def Let_def)
  moreover have "a \<le> b" if "percentile_cont (1 / 2) xs = Some a" "percentile_cont (95 / 100) xs = Some b" for xs a b
    by (rule percentile_mono [OF _ _ _ that]) simp_all
  moreover have "a \<le> b" if "percentile_cont (95 / 100) xs = Some a" "percentile_cont (99 / 100) xs = Some b" for xs a b
    by (rule percentile_mono [OF _ _ _ that]) simp_all
  ultimately show "(st_p50 st = None \<and> st_p95 st = None \<and> st_p99 st = None) \<or>
     (\<exists>a b d. st_p50 st = Some a \<and> st_p95 st = Some b \<and> st_p99 st = Some d \<and> a \<le> b \<and> b \<le> d)"
    unfolding st_def fetch_stats_def Let_def stats_row.select_convs by (metis not_None_eq)
qed

text \<open>What \<open>/v1/stats\<close> serves is those statistics: its fields are consistent with one another.\<close>

theorem served_stats_add_up:
  fixes t :: tenant and now :: instant and w :: window
  assumes "reachable s c"
  defines "out \<equiv> get_stats s (sy_db c) t now w"
  shows "so_total out + so_duplicates out = length (window_rows (sy_db c) t now w) \<and>
    so_total out = so_matched out + so_unmatched out + so_drift out \<and>
    so_unmatched out = so_unmatched_gateway_only out + so_unmatched_ledger_only out \<and>
    so_matched_via_time_drift out \<le> so_matched out \<and> 0 \<le> so_match_rate out \<and> so_match_rate out \<le> 1 \<and>
    so_match_rate out * of_nat (so_total out) = of_nat (so_matched out) \<and>
    so_throughput_tx_per_sec out * of_int (so_window_seconds out) = of_nat (so_total out)"
proof -
  let ?st = "fetch_stats (sy_db c) t now w"
  have "match_rate ?st * of_nat (stats_total ?st) = of_nat (st_matched ?st)"
    by (auto simp: match_rate_def stats_total_def)
  moreover have "window_seconds w \<noteq> 0" by (cases w) simp_all
  ultimately show ?thesis
    using stats_add_up [OF assms(1), of t now w] by (simp add: out_def get_stats_def Let_def stats_total_def)
qed

theorem stats_add_up_witness:
  "stats_total (fetch_stats (sy_db run_end) example_tenant 100 W_1h) = 1 \<and>
   match_rate (fetch_stats (sy_db run_end) example_tenant 100 W_1h) \<le> 1"
proof -
  have "stats_total (fetch_stats (sy_db run_end) example_tenant 100 W_1h) = 1" by code_simp
  then show ?thesis using stats_add_up [OF run_reachable, of example_tenant 100 W_1h] by simp
qed

end
