(* ===== verification/Relay_Laws.thy ===== *)
theory Relay_Laws
  imports Guarantees
begin

text \<open>
  The outbox and its relay over the whole program: an event is marked published only when its message
  is in the stream, and a relay that keeps running empties the outbox, each message once and in the
  order of the events.
\<close>

subsection \<open>What the operations do to the outbox\<close>

text \<open>Nothing, or new unpublished events under new ids.\<close>

definition same_outbox :: "db \<Rightarrow> db \<Rightarrow> bool" where
  "same_outbox d d' \<longleftrightarrow>
     db_outbox_events d' = db_outbox_events d \<and> db_next d' T_outbox_events = db_next d T_outbox_events"

definition more_outbox :: "db \<Rightarrow> db \<Rightarrow> bool" where
  "more_outbox d d' \<longleftrightarrow>
     (\<exists>evs. db_outbox_events d' = db_outbox_events d @ evs \<and> distinct (map ob_id evs) \<and>
        (\<forall>ev \<in> set evs. ob_published_at ev = None \<and> db_next d T_outbox_events \<le> ob_id ev \<and>
           ob_id ev < db_next d' T_outbox_events) \<and>
        db_next d T_outbox_events \<le> db_next d' T_outbox_events)"

lemma same_more_outbox: "same_outbox d d' \<Longrightarrow> more_outbox d d'"
  by (auto simp: same_outbox_def more_outbox_def intro: exI [of _ "[]"])

lemma enqueue_more_outbox:
  assumes "same_outbox d d1"
  shows "more_outbox d (enqueue now src outs d1)"
proof -
  obtain evs where evs: "db_outbox_events (enqueue now src outs d1) = db_outbox_events d1 @ evs"
    "map ob_id evs = map (\<lambda>j. db_next d1 T_outbox_events + int j) [0..<length outs]"
    "list_all2 (\<lambda>ev out. ob_source ev = src \<and> ob_row_id ev = io_row_id out \<and>
       ob_payload ev = to_payload (message_of src out) \<and> ob_published_at ev = None) evs outs"
    using enqueue_outbox by blast
  have "distinct (map ob_id evs)" unfolding evs(2) by (simp add: distinct_map inj_on_def)
  moreover have "db_next d T_outbox_events \<le> ob_id ev \<and> ob_id ev < db_next d T_outbox_events + int (length outs)"
    if "ev \<in> set evs" for ev
  proof -
    have "ob_id ev \<in> set (map ob_id evs)" using that by simp
    then show ?thesis unfolding evs(2) using assms by (auto simp: same_outbox_def)
  qed
  moreover have "ob_published_at ev = None" if "ev \<in> set evs" for ev
    using list_all2_set1 [OF evs(3)] that by fastforce
  ultimately show ?thesis
    unfolding more_outbox_def using evs(1) assms
    by (intro exI [of _ evs]) (simp add: enqueue_next_outbox same_outbox_def)
qed

lemma ingest_gateway_outbox: "ingest_gateway now t p k body d = Inr (d', out) \<Longrightarrow> more_outbox d d'"
  by (auto simp: ingest_gateway_def nextval_def Let_def same_outbox_def simp del: enqueue.simps
      split: option.splits if_splits sum.splits bool.splits list.splits intro!: enqueue_more_outbox)

lemma insert_entries_outbox: "insert_entries dump now t es d = Inr (d', ret) \<Longrightarrow> same_outbox d d'"
  by (induction es arbitrary: d d' ret)
    (auto simp: same_outbox_def nextval_def split: option.splits if_splits sum.splits)

lemma ingest_ledger_outbox:
  assumes "ingest_ledger_batch dump now t es d = Inr (d', outs)"
  shows "more_outbox d d'"
proof (cases "es = []")
  case True
  then show ?thesis using assms by (simp add: ingest_ledger_batch_def same_outbox_def same_more_outbox)
next
  case False
  then obtain d1 ret rows outs' where ins: "insert_entries dump now (tn_account_id t) (map snd (first_by_key es)) d = Inr (d1, ret)"
    and d': "d' = enqueue now LEDGER outs' (d1\<lparr> db_ledger_entries := rows \<rparr>)"
    using assms by (auto simp: ingest_ledger_batch_def Let_def simp del: enqueue.simps split: sum.splits)
  have "same_outbox d (d1\<lparr> db_ledger_entries := rows \<rparr>)"
    using insert_entries_outbox [OF ins] by (simp add: same_outbox_def)
  then show ?thesis unfolding d' by (rule enqueue_more_outbox)
qed

lemma other_outbox:
  "upsert_account now name kind d = Inr (d', t) \<Longrightarrow> same_outbox d d'"
  "issue_api_key now token name label d = Inr (d', raw, t) \<Longrightarrow> same_outbox d d'"
  "create_source now token fresh t provider label secret d = Inr (d', src) \<Longrightarrow> same_outbox d d'"
  "same_outbox d (touch_account now clock t n d)"
  "same_outbox d (record_delivery clock i status d)"
  "close_exception now t i notes d = Inr (d', x) \<Longrightarrow> same_outbox d d'"
  "delete_demo_account a d = Inr d' \<Longrightarrow> same_outbox d d'"
proof -
  show up: "same_outbox d d'" if "upsert_account now name kind d = Inr (d', t)" for now name kind d d' t
    using that by (auto simp: upsert_account_def nextval_def same_outbox_def insert_unless_conflict_def Let_def
      split: if_splits list.splits)
  show "same_outbox d d'" if "issue_api_key now token name label d = Inr (d', raw, t)"
    using that by (auto simp: issue_api_key_def nextval_def same_outbox_def Let_def split: sum.splits if_splits
        dest!: up)
  show "same_outbox d d'" if "create_source now token fresh t provider label secret d = Inr (d', src)"
    using that by (auto simp: create_source_def nextval_def same_outbox_def Let_def split: if_splits)
  show "same_outbox d (touch_account now clock t n d)" by (simp add: same_outbox_def touch_account_def)
  show "same_outbox d (record_delivery clock i status d)" by (simp add: same_outbox_def record_delivery_def)
  show "same_outbox d d'" if "close_exception now t i notes d = Inr (d', x)"
    using close_exception_db [OF that] by (simp add: same_outbox_def)
  show "same_outbox d d'" if "delete_demo_account a d = Inr d'"
    using delete_demo_account_Inr [OF that] by (simp add: same_outbox_def without_tenant_def)
qed

lemma apply_decision_outbox: "apply_decision tx now dec t l m d = Inr (d', pr) \<Longrightarrow> same_outbox d d'"
  by (auto simp: apply_decision_def nextval_def same_outbox_def Let_def open_exception_def mark_reconciled_def reconcile_def
      split: option.splits if_splits prod.splits bool.splits)

subsection \<open>Published means in the stream\<close>

definition outbox_ids :: "db \<Rightarrow> bool" where
  "outbox_ids d \<longleftrightarrow> distinct (map ob_id (db_outbox_events d)) \<and>
     (\<forall>ev \<in> set (db_outbox_events d). ob_id ev < db_next d T_outbox_events)"

definition delivered :: "ingest_message list \<Rightarrow> outbox_event \<Rightarrow> bool" where
  "delivered stream ev \<longleftrightarrow> (ob_published_at ev \<noteq> None \<longrightarrow> (\<exists>m \<in> set stream. from_payload (ob_payload ev) = Inr m))"

definition relay_inv :: "sys \<Rightarrow> bool" where
  "relay_inv c \<longleftrightarrow> outbox_ids (sy_db c) \<and> (\<forall>ev \<in> set (db_outbox_events (sy_db c)). delivered (sy_stream c) ev)"

lemma relay_inv_more:
  assumes "relay_inv c" and "more_outbox (sy_db c) d'"
  shows "relay_inv (c\<lparr> sy_db := d' \<rparr>)"
proof -
  obtain evs where evs: "db_outbox_events d' = db_outbox_events (sy_db c) @ evs" "distinct (map ob_id evs)"
    "\<And>ev. ev \<in> set evs \<Longrightarrow> ob_published_at ev = None \<and> db_next (sy_db c) T_outbox_events \<le> ob_id ev \<and>
       ob_id ev < db_next d' T_outbox_events" "db_next (sy_db c) T_outbox_events \<le> db_next d' T_outbox_events"
    using assms(2) unfolding more_outbox_def by blast
  have ids: "distinct (map ob_id (db_outbox_events (sy_db c)))"
    "\<And>ev. ev \<in> set (db_outbox_events (sy_db c)) \<Longrightarrow> ob_id ev < db_next (sy_db c) T_outbox_events"
    using assms(1) by (simp_all add: relay_inv_def outbox_ids_def)
  have "ob_id x \<noteq> ob_id y" if "x \<in> set (db_outbox_events (sy_db c))" "y \<in> set evs" for x y
    using ids(2) [OF that(1)] evs(3) [OF that(2)] by linarith
  then have "distinct (map ob_id (db_outbox_events d'))" using ids(1) evs(2) by (auto simp: evs(1))
  moreover have "ob_id ev < db_next d' T_outbox_events" if "ev \<in> set (db_outbox_events d')" for ev
    using that ids(2) [of ev] evs(3) [of ev] evs(4) unfolding evs(1) by fastforce
  ultimately show ?thesis
    using assms(1) evs(3) by (auto simp: relay_inv_def outbox_ids_def evs(1) delivered_def)
qed

text \<open>What the relay marks it has published.\<close>

lemma messages_of_member: "messages_of evs = Inr ms \<Longrightarrow> ev \<in> set evs \<Longrightarrow> \<exists>m \<in> set ms. from_payload (ob_payload ev) = Inr m"
  by (induction evs arbitrary: ms) (auto split: sum.splits)

lemma publish_event_sel [simp]:
  "ob_id (publish_event now ev) = ob_id ev" "ob_payload (publish_event now ev) = ob_payload ev"
  "ob_published_at (publish_event now ev) = Some now"
  by (simp_all add: publish_event_def)

lemma relay_inv_drain:
  assumes "relay_inv c" and "drain_once s now locked publish ok (sy_db c) = (d', published, res)"
  shows "relay_inv (c\<lparr> sy_db := d', sy_stream := sy_stream c @ published \<rparr>)"
proof (cases "d' = sy_db c")
  case True
  then show ?thesis using assms(1) by (auto simp: relay_inv_def delivered_def)
next
  case False
  let ?rows = "claimed (s_outbox_batch_size s) locked (sy_db c)"
  let ?mark = "update_where (\<lambda>e. ob_id e \<in> ob_id ` set ?rows) (publish_event now) (db_outbox_events (sy_db c))"
  have d': "d' = (sy_db c)\<lparr> db_outbox_events := ?mark \<rparr>" and msgs: "messages_of ?rows = Inr published"
    using assms(2) False by (auto simp: drain_once_def Let_def split: if_splits sum.splits prod.splits)
  have "map ob_id ?mark = map ob_id (db_outbox_events (sy_db c))" by (simp add: map_update_where)
  then have "outbox_ids d'"
    using assms(1) unfolding relay_inv_def outbox_ids_def d'
    by (auto simp: set_update_where simp del: set_map)
  moreover have "delivered (sy_stream c @ published) ev" if ev: "ev \<in> set (db_outbox_events d')" for ev
  proof -
    obtain e where e: "e \<in> set (db_outbox_events (sy_db c))"
      "ev = (if ob_id e \<in> ob_id ` set ?rows then publish_event now e else e)"
      using ev by (auto simp: d' set_update_where)
    show ?thesis
    proof (cases "ob_id e \<in> ob_id ` set ?rows")
      case True
      then obtain r where r: "r \<in> set ?rows" "ob_id r = ob_id e" by auto
      have dist: "distinct (map ob_id (db_outbox_events (sy_db c)))"
        using assms(1) by (simp add: relay_inv_def outbox_ids_def)
      have "r = e" by (rule distinct_map_eqD [OF dist claimed_subset [OF r(1)] e(1) r(2)])
      then obtain m where "m \<in> set published" "from_payload (ob_payload e) = Inr m"
        using messages_of_member [OF msgs r(1)] by blast
      then show ?thesis using e(2) True by (auto simp: delivered_def)
    next
      case False
      then have "ev = e" using e(2) by simp
      then show ?thesis using assms(1) e(1) by (auto simp: relay_inv_def delivered_def)
    qed
  qed
  ultimately show ?thesis by (simp add: relay_inv_def)
qed

lemma step_relay_inv:
  assumes "relay_inv c" and "step s c c'"
  shows "relay_inv c'"
  using assms(2)
proof cases
  note more = relay_inv_more [OF assms(1)] and same = relay_inv_more [OF assms(1) same_more_outbox]
  {
    case account
    then show ?thesis using same [OF other_outbox(1)] by simp
  next
    case touch
    then show ?thesis using same [OF other_outbox(4)] by simp
  next
    case key
    then show ?thesis using same [OF other_outbox(2)] by simp
  next
    case source
    then show ?thesis using same [OF other_outbox(3)] by simp
  next
    case delivery
    then show ?thesis using same [OF other_outbox(5)] by simp
  next
    case gateway
    then show ?thesis using more [OF ingest_gateway_outbox] by simp
  next
    case ledger
    then show ?thesis using more [OF ingest_ledger_outbox] by simp
  next
    case relay
    then show ?thesis using relay_inv_drain [OF assms(1)] by simp
  next
    case write_decision
    then show ?thesis using same [OF apply_decision_outbox] by simp
  next
    case retention
    then show ?thesis using same [OF other_outbox(7)] by simp
  next
    case close_exc
    then show ?thesis using same [OF other_outbox(6)] by simp
  }
qed (use assms(1) in \<open>simp_all add: relay_inv_def\<close>)

lemma reachable_relay_inv: "reachable s c \<Longrightarrow> relay_inv c"
proof (induction rule: reachable.induct)
  case start
  show ?case by (simp add: relay_inv_def outbox_ids_def initial_def empty_db_def)
qed (rule step_relay_inv)



subsection \<open>The outbox empties\<close>

text \<open>
  \<open>n\<close> batches of \<open>run_forever\<close> with Redis answering and no other relay at work: the database and what
  went to the stream.
\<close>

fun relay_runs :: "settings \<Rightarrow> instant \<Rightarrow> nat \<Rightarrow> db \<Rightarrow> db \<times> ingest_message list" where
  "relay_runs s now 0 d = (d, [])"
| "relay_runs s now (Suc n) d =
     (case drain_once s now {} (\<lambda>ms. (length ms, True)) True d of
        (d', published, _) \<Rightarrow>
          (case relay_runs s now n d' of (d'', later) \<Rightarrow> (d'', published @ later)))"

definition pending :: "db \<Rightarrow> outbox_event list" where
  "pending d = linorder_class.sort_key ob_id (filter (\<lambda>ev. ob_published_at ev = None) (db_outbox_events d))"

definition readable_outbox :: "db \<Rightarrow> bool" where
  "readable_outbox d \<longleftrightarrow> distinct (map ob_id (db_outbox_events d)) \<and>
     (\<forall>ev \<in> set (db_outbox_events d). \<exists>m. from_payload (ob_payload ev) = Inr m)"

lemma pending_subset: "ev \<in> set (pending d) \<Longrightarrow> ev \<in> set (db_outbox_events d)"
  by (auto simp: pending_def)

lemma claimed_pending: "claimed n {} d = take n (pending d)"
  by (simp add: claimed_def pending_def)

lemma messages_of_readable:
  "\<forall>ev \<in> set evs. \<exists>m. from_payload (ob_payload ev) = Inr m \<Longrightarrow>
     \<exists>ms. messages_of evs = Inr ms \<and> map Inr ms = map (from_payload \<circ> ob_payload) evs"
  by (induction evs) auto

text \<open>Marking the first events leaves the others pending.\<close>

lemma pending_marked:
  assumes "distinct (map ob_id (db_outbox_events d))"
  shows "pending (d\<lparr> db_outbox_events := update_where (\<lambda>e. ob_id e \<in> ob_id ` set (take n (pending d)))
      (publish_event now) (db_outbox_events d) \<rparr>) = drop n (pending d)"
proof -
  let ?evs = "db_outbox_events d" and ?ids = "ob_id ` set (take n (pending d))"
  have dist: "distinct (map ob_id (pending d))"
    using assms by (auto simp: pending_def distinct_map intro: inj_on_subset)
  have "filter (\<lambda>ev. ob_published_at ev = None) (update_where (\<lambda>e. ob_id e \<in> ids) (publish_event now) evs) =
      filter (\<lambda>ev. ob_id ev \<notin> ids) (filter (\<lambda>ev. ob_published_at ev = None) evs)" for ids evs
    by (induction evs) (auto simp: update_where_def)
  then have "pending (d\<lparr> db_outbox_events := update_where (\<lambda>e. ob_id e \<in> ?ids) (publish_event now) ?evs \<rparr>) =
      filter (\<lambda>ev. ob_id ev \<notin> ?ids) (pending d)"
    by (simp add: pending_def filter_sort)
  also have "\<dots> = filter (\<lambda>ev. ob_id ev \<notin> ob_id ` set (take n (pending d))) (take n (pending d) @ drop n (pending d))"
    by simp
  also have "\<dots> = drop n (pending d)"
  proof -
    have "ob_id ev \<notin> ob_id ` set (take n (pending d))" if "ev \<in> set (drop n (pending d))" for ev
      using dist that by (subst (asm) append_take_drop_id [of n "pending d", symmetric]) (auto simp del: append_take_drop_id)
    then have "filter (\<lambda>ev. ob_id ev \<notin> ob_id ` set (take n (pending d))) (drop n (pending d)) = drop n (pending d)"
      by (simp add: filter_id_conv)
    then show ?thesis by (simp only: filter_append) simp
  qed
  finally show ?thesis .
qed

lemma relay_runs_publish:
  assumes "readable_outbox d" and "0 < s_outbox_batch_size s"
  shows "length (pending d) \<le> n * s_outbox_batch_size s \<Longrightarrow>
    \<exists>d' ms. relay_runs s now n d = (d', ms) \<and> pending d' = [] \<and> map Inr ms = map (from_payload \<circ> ob_payload) (pending d)"
  using assms(1)
proof (induction n arbitrary: d)
  case (Suc n)
  let ?b = "s_outbox_batch_size s" and ?rows = "take (s_outbox_batch_size s) (pending d)"
  let ?d' = "d\<lparr> db_outbox_events := update_where (\<lambda>e. ob_id e \<in> ob_id ` set ?rows) (publish_event now) (db_outbox_events d) \<rparr>"
  have "\<forall>ev \<in> set ?rows. \<exists>m. from_payload (ob_payload ev) = Inr m"
    using Suc(3) pending_subset in_set_takeD unfolding readable_outbox_def by metis
  then obtain ms where ms: "messages_of ?rows = Inr ms" "map Inr ms = map (from_payload \<circ> ob_payload) ?rows"
    using messages_of_readable by blast
  have drained: "drain_once s now {} (\<lambda>ms. (length ms, True)) True d =
      (if ?rows = [] then (d, [], Inr 0) else (?d', ms, Inr (length ?rows)))"
    using ms(1) by (simp add: drain_once_def claimed_pending Let_def)
  show ?case
  proof (cases "?rows = []")
    case True
    then have none: "pending d = []" using assms(2) by simp
    have "relay_runs s now k d = (d, [])" for k
      by (induction k) (simp_all add: drain_once_def claimed_pending none)
    from this [of "Suc n"] show ?thesis using none by (simp del: relay_runs.simps)
  next
    case False
    have rest: "pending ?d' = drop ?b (pending d)"
      using Suc(3) by (intro pending_marked) (simp add: readable_outbox_def)
    have "readable_outbox ?d'"
      using Suc(3) by (auto simp: readable_outbox_def map_update_where set_update_where simp del: set_map)
    moreover have "length (pending ?d') \<le> n * ?b" using Suc(2) unfolding rest by simp
    ultimately obtain d'' later where later: "relay_runs s now n ?d' = (d'', later)" "pending d'' = []"
      "map Inr later = map (from_payload \<circ> ob_payload) (pending ?d')" using Suc(1) by blast
    have "map Inr (ms @ later) = map (from_payload \<circ> ob_payload) (?rows @ drop ?b (pending d))"
      using ms(2) later(3) rest by (simp only: map_append)
    then show ?thesis using drained False later(1,2) by simp
  qed
qed simp

text \<open>
  The outbox empties. From every reachable state, a relay whose Redis answers and that is given
  enough batches for the backlog leaves no event unpublished, and what it adds to the stream is the
  message of every pending event, once and in the order of the events: an event stored before another
  of the same row is never overtaken by it.
\<close>

theorem relay_empties_outbox:
  assumes "reachable s c" and "0 < s_outbox_batch_size s'"
    and "length (pending (sy_db c)) \<le> n * s_outbox_batch_size s'"
  shows "\<exists>d' ms. relay_runs s' now n (sy_db c) = (d', ms) \<and> (\<forall>ev. ev \<in> set (db_outbox_events d') \<longrightarrow> ob_published_at ev \<noteq> None) \<and>
    map Inr ms = map (from_payload \<circ> ob_payload) (pending (sy_db c))"
proof -
  have "readable_outbox (sy_db c)"
    using reachable_relay_inv [OF assms(1)] reachable_sys_inv [OF assms(1)]
    by (fastforce simp: readable_outbox_def relay_inv_def outbox_ids_def sys_inv_def outbox_sound_def)
  from relay_runs_publish [OF this assms(2,3), of now] obtain d' ms where
    "relay_runs s' now n (sy_db c) = (d', ms)" "pending d' = []"
    "map Inr ms = map (from_payload \<circ> ob_payload) (pending (sy_db c))" by blast
  moreover have "\<forall>ev \<in> set (db_outbox_events d'). ob_published_at ev \<noteq> None"
    using arg_cong [OF \<open>pending d' = []\<close>, of set] by (auto simp: pending_def)
  ultimately show ?thesis by blast
qed

theorem relay_empties_outbox_witness:
  "\<exists>d' ms. relay_runs default_settings 9 1 run2 = (d', ms) \<and> length ms = 1"
proof -
  have len: "length (pending (sy_db (initial\<lparr> sy_db := run1 \<rparr>\<lparr> sy_db := run2 \<rparr>))) = 1 \<and> 1 \<le> s_outbox_batch_size default_settings"
    by code_simp
  then obtain d' ms where r: "relay_runs default_settings 9 1 run2 = (d', ms)"
    "map Inr ms = map (from_payload \<circ> ob_payload) (pending run2)"
    using relay_empties_outbox [OF run2_reachable, of default_settings 1 9] by auto
  from arg_cong [OF r(2), of length] len have "length ms = 1" by simp
  with r(1) show ?thesis by blast
qed

end
