(* ===== verification/Signatures.thy ===== *)
theory Signatures
  imports Db_Enums Sha256 Float_Model Prelude
begin

text \<open>
  \<open>ledgerloop/webhooks/signatures.py\<close>: the three signature schemes and the signer beside them. Bodies
  are bytes (characters), a header is the Latin-1 text the server decoded, \<open>now\<close> is an instant.
\<close>

subsection \<open>Library functions\<close>

text \<open>
  \<open>hmac.compare_digest\<close> on two strings: a string with a non-ASCII character raises \<open>TypeError\<close>.
\<close>

datatype digest_error = NonAsciiString

definition is_ascii :: "string \<Rightarrow> bool" where
  "is_ascii s \<longleftrightarrow> list_all (\<lambda>c. (of_char c :: nat) < 128) s"

definition compare_digest :: "string \<Rightarrow> string \<Rightarrow> digest_error + bool" where
  "compare_digest a b = (if is_ascii a \<and> is_ascii b then Inr (a = b) else Inl NonAsciiString)"

text \<open>\<open>datetime.fromtimestamp(n, tz=UTC)\<close>: years 1 to 9999, else it raises.\<close>

definition from_timestamp :: "int \<Rightarrow> instant option" where
  "from_timestamp n = (if - 62135596800 \<le> n \<and> n \<le> 253402300799 then Some (seconds n) else None)"

text \<open>\<open>int(now.timestamp())\<close>: a float number of seconds, truncated.\<close>

definition timestamp_s :: "instant \<Rightarrow> int" where
  "timestamp_s now = sgn now * float_trunc (float_div \<bar>now\<bar> 1000000)"

subsection \<open>Verdicts\<close>

definition DEFAULT_TOLERANCE :: duration where
  "DEFAULT_TOLERANCE = seconds 300"

definition signature_header :: "webhook_provider \<Rightarrow> string" where
  "signature_header p =
     (case p of
        STRIPE \<Rightarrow> ''Stripe-Signature'' | RAZORPAY \<Rightarrow> ''X-Razorpay-Signature'' | CUSTOM \<Rightarrow> ''X-LedgerLoop-Signature'')"

datatype verdict = Accepted | Refused string

definition hexdigest :: "string \<Rightarrow> string \<Rightarrow> string" where
  "hexdigest secret payload = hmac_hexdigest (py_encode secret) payload"

subsection \<open>Stripe\<close>

text \<open>The loop over the parts of the header: the last \<open>t\<close>, every \<open>v1\<close>.\<close>

fun read_parts :: "string list \<Rightarrow> string option \<Rightarrow> string list \<Rightarrow> string option \<times> string list" where
  "read_parts [] timestamp candidates = (timestamp, candidates)"
| "read_parts (part # parts) timestamp candidates =
     (case py_partition (CHR ''='') (py_strip part) of
        (key, separator, v) \<Rightarrow>
          if \<not> separator then read_parts parts timestamp candidates
          else if key = ''t'' then read_parts parts (Some v) candidates
          else if key = ''v1'' then read_parts parts timestamp (candidates @ [v])
          else read_parts parts timestamp candidates)"

text \<open>\<open>any(..)\<close> of a generator: it stops at the first match.\<close>

fun any_match :: "string \<Rightarrow> string list \<Rightarrow> digest_error + bool" where
  "any_match expected [] = Inr False"
| "any_match expected (candidate # candidates) =
     (case compare_digest expected candidate of
        Inl e \<Rightarrow> Inl e
      | Inr True \<Rightarrow> Inr True
      | Inr False \<Rightarrow> any_match expected candidates)"

definition verify_stripe ::
  "string \<Rightarrow> string option \<Rightarrow> string \<Rightarrow> instant \<Rightarrow> duration \<Rightarrow> digest_error + verdict" where
  "verify_stripe raw_body header secret now tolerance =
     (case header of
        None \<Rightarrow> Inr (Refused ''missing signature header'')
      | Some h \<Rightarrow>
     if h = [] then Inr (Refused ''missing signature header'')
     else
     (case read_parts (py_split (CHR '','') h) None [] of
        (Some timestamp, c # cs) \<Rightarrow>
          (case Option.bind (py_int timestamp) from_timestamp of
             None \<Rightarrow> Inr (Refused ''malformed signature timestamp'')
           | Some signed_at \<Rightarrow>
               if tolerance < \<bar>now - signed_at\<bar> then Inr (Refused ''timestamp outside tolerance'')
               else
                 (case any_match (hexdigest secret (py_encode (timestamp @ ''.'') @ raw_body)) (c # cs) of
                    Inl e \<Rightarrow> Inl e
                  | Inr True \<Rightarrow> Inr Accepted
                  | Inr False \<Rightarrow> Inr (Refused ''signature mismatch'')))
      | _ \<Rightarrow> Inr (Refused ''malformed signature header'')))"

subsection \<open>Razorpay and custom\<close>

definition verify_razorpay :: "string \<Rightarrow> string option \<Rightarrow> string \<Rightarrow> digest_error + verdict" where
  "verify_razorpay raw_body header secret =
     (case header of
        None \<Rightarrow> Inr (Refused ''missing signature header'')
      | Some h \<Rightarrow>
     if h = [] then Inr (Refused ''missing signature header'')
     else
     (case compare_digest (hexdigest secret raw_body) (py_strip h) of
        Inl e \<Rightarrow> Inl e
      | Inr True \<Rightarrow> Inr Accepted
      | Inr False \<Rightarrow> Inr (Refused ''signature mismatch'')))"

definition verify_custom :: "string \<Rightarrow> string option \<Rightarrow> string \<Rightarrow> digest_error + verdict" where
  "verify_custom raw_body header secret =
     (case header of
        None \<Rightarrow> Inr (Refused ''missing signature header'')
      | Some h \<Rightarrow>
     if h = [] then Inr (Refused ''missing signature header'')
     else
     (case compare_digest (hexdigest secret raw_body) (py_strip h) of
        Inl e \<Rightarrow> Inl e
      | Inr True \<Rightarrow> Inr Accepted
      | Inr False \<Rightarrow> Inr (Refused ''signature mismatch'')))"

subsection \<open>Signing, and the dispatch\<close>

definition sign :: "webhook_provider \<Rightarrow> string \<Rightarrow> string \<Rightarrow> instant \<Rightarrow> string" where
  "sign p raw_body secret now =
     (if p = STRIPE then
        let timestamp = py_str_int (timestamp_s now);
            digest = hexdigest secret (py_encode (timestamp @ ''.'') @ raw_body)
        in ''t='' @ timestamp @ '',v1='' @ digest
      else hexdigest secret raw_body)"

definition verify ::
  "webhook_provider \<Rightarrow> string \<Rightarrow> string option \<Rightarrow> string \<Rightarrow> instant \<Rightarrow> duration \<Rightarrow> digest_error + verdict" where
  "verify p raw_body header secret now tolerance =
     (case p of
        STRIPE \<Rightarrow> verify_stripe raw_body header secret now tolerance
      | RAZORPAY \<Rightarrow> verify_razorpay raw_body header secret
      | CUSTOM \<Rightarrow> verify_custom raw_body header secret)"

subsection \<open>Parsing what was signed\<close>

lemma py_partition_append: "c \<notin> set a \<Longrightarrow> py_partition c (a @ c # b) = (a, True, b)"
  by (induction a) auto

lemma hexdigest_shape: "length (hexdigest secret m) = 64 \<and> set (hexdigest secret m) \<subseteq> hex_chars"
  unfolding hexdigest_def by (rule hmac_hexdigest_shape)

lemma hexdigest_plain:
  assumes "c \<in> set (hexdigest secret m)"
  shows "\<not> py_space c" "c \<noteq> CHR '',''" "c \<noteq> CHR ''=''" "(of_char c :: nat) < 128"
  using hexdigest_shape [of secret m] hex_chars_plain [of c] assms by blast+

lemma hexdigest_nonempty [simp]: "hexdigest secret m \<noteq> []"
  using hexdigest_shape [of secret m] by auto

lemma hexdigest_ascii [simp]: "is_ascii (hexdigest secret m)"
  using hexdigest_plain(4) by (auto simp: is_ascii_def list_all_iff)

lemma hexdigest_strip [simp]: "py_strip (hexdigest secret m) = hexdigest secret m"
  by (rule py_strip_id) (simp_all add: hexdigest_plain(1) [OF hd_in_set] hexdigest_plain(1) [OF last_in_set])

lemma digits_plain:
  "0 \<le> n \<Longrightarrow> c \<in> set (py_str_int n) \<Longrightarrow> \<not> py_space c \<and> c \<noteq> CHR '','' \<and> c \<noteq> CHR ''=''"
  using nat_digits_plain by (auto simp: py_str_int_def)

lemma py_str_int_nonempty [simp]: "py_str_int n \<noteq> []"
  by (simp add: py_str_int_def)

lemma strip_field:
  assumes "k \<noteq> []" and "v \<noteq> []" and "\<not> py_space (hd k)" and "\<not> py_space (last v)"
  shows "py_strip (k @ v) = k @ v"
  using assms by (intro py_strip_id) simp_all

lemma read_signed:
  assumes "0 \<le> n"
  shows "read_parts (py_split (CHR '','') (''t='' @ py_str_int n @ '',v1='' @ hexdigest secret m)) None [] =
    (Some (py_str_int n), [hexdigest secret m])"
proof -
  let ?t = "''t='' @ py_str_int n" and ?v = "''v1='' @ hexdigest secret m"
  have "CHR '','' \<notin> set ?v" using hexdigest_plain(2) by auto
  from py_split_plain [OF this] have v: "py_split (CHR '','') ?v = [?v]" .
  have "CHR '','' \<notin> set ?t" using digits_plain [OF assms] by auto
  from py_split_append [OF this, of ?v] have "py_split (CHR '','') (?t @ CHR '','' # ?v) = [?t, ?v]"
    unfolding v .
  then have split: "py_split (CHR '','') (''t='' @ py_str_int n @ '',v1='' @ hexdigest secret m) = [?t, ?v]" by simp
  have "\<not> py_space (last (py_str_int n))" "\<not> py_space (last (hexdigest secret m))"
    using digits_plain [OF assms last_in_set] hexdigest_plain(1) [OF last_in_set] by simp_all
  moreover have "\<not> py_space (CHR ''t'')" "\<not> py_space (CHR ''v'')" by (simp_all add: py_space_def)
  ultimately have "py_strip ?t = ?t" "py_strip ?v = ?v" by (intro strip_field; simp)+
  moreover have "py_partition (CHR ''='') ?t = (''t'', True, py_str_int n)"
    "py_partition (CHR ''='') ?v = (''v1'', True, hexdigest secret m)"
    by simp_all
  ultimately show ?thesis unfolding split by simp
qed

text \<open>The seconds a signer writes are within a second of its clock.\<close>

lemma timestamp_s_close:
  assumes "0 \<le> now" and "now < 253402300799 * 1000000"
  shows "0 \<le> timestamp_s now" "timestamp_s now \<le> 253402300799" "\<bar>now - seconds (timestamp_s now)\<bar> \<le> 1000100"
proof -
  define x where "x = (of_int now / 1000000 :: rat)"
  define y where "y = float_div now 1000000"
  have x: "0 \<le> x" "x < 253402300799" using assms by (simp_all add: x_def)
  have y0: "0 \<le> fst y" unfolding y_def by (rule float_div_nonneg) (use assms in simp_all)
  have err: "\<bar>float_val y - x\<bar> \<le> x / 2 ^ 53" using float_div_error [of now 1000000] assms by (simp add: y_def x_def)
  have small: "x / 2 ^ 53 \<le> 1 / 10000" using x by simp
  have ts: "timestamp_s now = \<lfloor>float_val y\<rfloor>"
  proof (cases "now = 0")
    case True
    then show ?thesis by (simp add: timestamp_s_def y_def float_div_def float_val_def)
  next
    case False
    then show ?thesis using assms float_trunc_floor [OF y0] by (simp add: timestamp_s_def flip: y_def)
  qed
  have fl: "of_int (timestamp_s now) \<le> float_val y" "float_val y < of_int (timestamp_s now) + 1"
    unfolding ts by linarith+
  have yv: "0 \<le> float_val y" using y0 by (simp add: float_val_def)
  show "0 \<le> timestamp_s now" using yv by (simp add: ts)
  have "(of_int (timestamp_s now) :: rat) < 253402300800" using fl(1) err small x(2) by linarith
  then show "timestamp_s now \<le> 253402300799" by simp
  have "\<bar>x - of_int (timestamp_s now)\<bar> \<le> 1 + 1 / 10000" using fl err small by linarith
  then have "(of_int \<bar>now - seconds (timestamp_s now)\<bar> :: rat) \<le> of_int 1000100"
    by (simp add: x_def seconds_def abs_le_iff field_simps)
  then show "\<bar>now - seconds (timestamp_s now)\<bar> \<le> 1000100" by (simp only: of_int_le_iff)
qed

text \<open>Each verifier accepts what the signer of its scheme wrote.\<close>

lemma sign_verify:
  assumes "0 \<le> now" and "now < 253402300799 * 1000000"
  shows "verify p body (Some (sign p body secret now)) secret now DEFAULT_TOLERANCE = Inr Accepted"
proof (cases p)
  case STRIPE
  note ts = timestamp_s_close [OF assms]
  let ?t = "py_str_int (timestamp_s now)"
  let ?d = "hexdigest secret (py_encode (?t @ ''.'') @ body)"
  have time: "Option.bind (py_int ?t) from_timestamp = Some (seconds (timestamp_s now))"
    using ts(1,2) by (subst py_int_str) (simp_all add: from_timestamp_def)
  have "\<not> DEFAULT_TOLERANCE < \<bar>now - seconds (timestamp_s now)\<bar>"
    using ts(3) by (simp add: DEFAULT_TOLERANCE_def seconds_def)
  moreover have "any_match ?d [?d] = Inr True" by (simp add: compare_digest_def)
  ultimately show ?thesis
    using time read_signed [OF ts(1), of secret "py_encode (?t @ ''.'') @ body"]
    by (simp add: STRIPE verify_def sign_def verify_stripe_def Let_def)
qed (simp_all add: verify_def sign_def verify_razorpay_def verify_custom_def compare_digest_def)

text \<open>
  Sign and verify agree, for each of the three schemes: what the signer produces for a body and a
  secret is accepted by the verifier of that provider with the same secret at the same instant (any
  instant from 1970 to the end of year 9999), through the header's text form and back.
\<close>

theorem signed_is_accepted:
  assumes "0 \<le> now" and "now < 253402300799 * 1000000"
  shows "verify p body (Some (sign p body secret now)) secret now DEFAULT_TOLERANCE = Inr Accepted"
  using assms by (rule sign_verify)

theorem signed_is_accepted_witness:
  "verify STRIPE ''{}'' (Some (sign STRIPE ''{}'' ''whsec_x'' 1700000000123456)) ''whsec_x'' 1700000000123456 DEFAULT_TOLERANCE =
     Inr Accepted"
  by (rule signed_is_accepted) simp_all

subsection \<open>What an acceptance means\<close>

lemma any_match_iff:
  assumes "is_ascii expected" and "list_all is_ascii candidates"
  shows "any_match expected candidates = Inr (expected \<in> set candidates)"
  using assms(2) assms(1) by (induction candidates) (auto simp: compare_digest_def split: bool.split)

lemma any_match_True: "any_match expected candidates = Inr True \<Longrightarrow> expected \<in> set candidates"
  by (induction candidates) (auto simp: compare_digest_def split: if_splits bool.splits)

text \<open>
  No delivery is accepted without its digest. If a verifier accepts, the header holds the HMAC of the
  raw body under the source's secret: bare for Razorpay and custom, and for Stripe as one of the
  \<open>v1\<close> entries over the timestamp the header names, which is then at most the tolerance away from now
  in either direction.
\<close>

theorem accepted_means_signed:
  assumes "verify p body header secret now tolerance = Inr Accepted"
  shows "\<exists>h. header = Some h \<and>
    (if p = STRIPE then
       \<exists>t v1s n. read_parts (py_split (CHR '','') h) None [] = (Some t, v1s) \<and> py_int t = Some n \<and>
         \<bar>now - seconds n\<bar> \<le> tolerance \<and> hexdigest secret (py_encode (t @ ''.'') @ body) \<in> set v1s
     else py_strip h = hexdigest secret body)"
proof (cases p)
  case STRIPE
  then show ?thesis
    using assms
    by (auto simp: verify_def verify_stripe_def from_timestamp_def bind_eq_Some_conv
        simp del: any_match.simps
        split: option.splits if_splits prod.splits list.splits sum.splits bool.splits
        dest!: any_match_True)
next
  case RAZORPAY
  then show ?thesis
    using assms by (auto simp: verify_def verify_razorpay_def compare_digest_def
        split: option.splits if_splits bool.splits)
next
  case CUSTOM
  then show ?thesis
    using assms by (auto simp: verify_def verify_custom_def compare_digest_def
        split: option.splits if_splits bool.splits)
qed

theorem accepted_means_signed_witness:
  "\<exists>h. Some (sign CUSTOM ''{}'' ''s'' 0) = Some h \<and> py_strip h = hexdigest ''s'' ''{}''"
proof -
  have "verify CUSTOM ''{}'' (Some (sign CUSTOM ''{}'' ''s'' 0)) ''s'' 0 DEFAULT_TOLERANCE = Inr Accepted"
    by (simp add: verify_def sign_def verify_custom_def compare_digest_def)
  from accepted_means_signed [OF this] show ?thesis by simp
qed

text \<open>
  Secret rotation. A Stripe header of ASCII text with a timestamp in the window is accepted exactly
  when the digest is among its \<open>v1\<close> entries, whatever their number and order, and is refused as a
  mismatch otherwise.
\<close>

theorem stripe_accepts_any_v1:
  assumes "read_parts (py_split (CHR '','') h) None [] = (Some t, v1s)" and "h \<noteq> []" and "v1s \<noteq> []"
    and "list_all is_ascii v1s" and "py_int t = Some n" and "0 \<le> n" and "n \<le> 253402300799"
    and "\<bar>now - seconds n\<bar> \<le> tolerance"
  shows "verify STRIPE body (Some h) secret now tolerance =
    Inr (if hexdigest secret (py_encode (t @ ''.'') @ body) \<in> set v1s then Accepted else Refused ''signature mismatch'')"
proof -
  obtain c cs where v: "v1s = c # cs" using assms(3) by (cases v1s) auto
  show ?thesis
    using assms any_match_iff [OF hexdigest_ascii assms(4), of secret "py_encode (t @ ''.'') @ body"]
    by (simp add: verify_def verify_stripe_def v from_timestamp_def del: any_match.simps)
qed

theorem stripe_accepts_any_v1_witness:
  "verify STRIPE ''{}'' (Some ''t=100,v1=old,v1=new'') ''s'' 100000000 DEFAULT_TOLERANCE =
     Inr (if hexdigest ''s'' (py_encode ''100.'' @ ''{}'') \<in> {''old'', ''new''} then Accepted else Refused ''signature mismatch'')"
proof -
  have r: "read_parts (py_split (CHR '','') ''t=100,v1=old,v1=new'') None [] = (Some ''100'', [''old'', ''new''])"
    "list_all is_ascii [''old'', ''new'']" "py_int ''100'' = Some 100" "\<bar>100000000 - seconds 100\<bar> \<le> DEFAULT_TOLERANCE"
    by code_simp+
  show ?thesis using stripe_accepts_any_v1 [OF r(1) _ _ r(2,3) _ _ r(4), of "''{}''" "''s''"] by simp
qed

text \<open>
  A signature header with a character outside ASCII is not refused: the comparison raises, for
  Razorpay and custom always, so the request ends in a server error instead of a 401.
\<close>

theorem non_ascii_header_raises:
  assumes "p \<noteq> STRIPE" and "h \<noteq> []" and "\<not> is_ascii (py_strip h)"
  shows "verify p body (Some h) secret now tolerance = Inl NonAsciiString"
  using assms by (cases p) (simp_all add: verify_def verify_razorpay_def verify_custom_def compare_digest_def)

theorem non_ascii_header_raises_witness:
  "verify RAZORPAY ''{}'' (Some [char_of (233 :: nat)]) ''s'' 0 DEFAULT_TOLERANCE = Inl NonAsciiString"
  by (rule non_ascii_header_raises) (simp, simp, code_simp)

end
