(* ===== verification/Adapters.thy ===== *)
theory Adapters
  imports Api_Schemas Signatures
begin

text \<open>
  \<open>ledgerloop/webhooks/adapters.py\<close>: a provider's payload to the internal transaction. Parameters:
  \<open>repr_of\<close>, the text \<open>str\<close> gives a float, a list or a dictionary (never a value the program sends
  itself), and \<open>validate\<close>, pydantic's reading of a custom body. An exception other than \<open>AdapterError\<close>
  is kept apart, because the route does not catch it.
\<close>

subsection \<open>Exceptions\<close>

datatype adapter_reason =
    MissingPath "string list"
  | UnhandledEvent webhook_provider string
  | ThreeDecimal string
  | NotATimestamp string
  | NotAnObject

datatype adapt_error =
    AdapterError adapter_reason
  | ValidationError
  | TypeErr
  | ValueErr
  | OverflowErr
  | AttributeErr

subsection \<open>Python's conversions of JSON values\<close>

text \<open>\<open>str(x)\<close>.\<close>

fun py_str :: "(json \<Rightarrow> string) \<Rightarrow> json \<Rightarrow> string" where
  "py_str repr_of (JStr s) = s"
| "py_str repr_of (JInt i) = py_str_int i"
| "py_str repr_of (JBool b) = (if b then ''True'' else ''False'')"
| "py_str repr_of JNull = ''None''"
| "py_str repr_of j = repr_of j"

text \<open>\<open>int(x)\<close>.\<close>

fun py_int_of :: "json \<Rightarrow> adapt_error + int" where
  "py_int_of (JInt i) = Inr i"
| "py_int_of (JBool b) = Inr (if b then 1 else 0)"
| "py_int_of (JFloat (Finite q)) = Inr (if 0 \<le> q then \<lfloor>q\<rfloor> else \<lceil>q\<rceil>)"
| "py_int_of (JFloat (Infinite _)) = Inl OverflowErr"
| "py_int_of (JFloat NaN) = Inl ValueErr"
| "py_int_of (JStr s) = (case py_int s of None \<Rightarrow> Inl ValueErr | Some i \<Rightarrow> Inr i)"
| "py_int_of _ = Inl TypeErr"

text \<open>
  \<open>str.upper\<close> on Latin-1. The upper case of \<open>sharp s\<close> is two letters; those of the micro sign and of
  \<open>y diaeresis\<close> lie outside Latin-1 and are left as they are (no currency code has them in either form).
\<close>

definition upper_char :: "char \<Rightarrow> string" where
  "upper_char c =
     (let n = of_char c :: nat in
      if (97 \<le> n \<and> n \<le> 122) \<or> (224 \<le> n \<and> n \<le> 254 \<and> n \<noteq> 247) then [char_of (n - 32)]
      else if n = 223 then ''SS'' else [c])"

definition py_upper :: "string \<Rightarrow> string" where
  "py_upper s = concat (map upper_char s)"

subsection \<open>Money and time\<close>

definition zero_decimal :: "string set" where
  "zero_decimal =
     {''BIF'', ''CLP'', ''DJF'', ''GNF'', ''JPY'', ''KMF'', ''KRW'', ''MGA'',
      ''PYG'', ''RWF'', ''UGX'', ''VND'', ''VUV'', ''XAF'', ''XOF'', ''XPF''}"

definition three_decimal :: "string set" where
  "three_decimal = {''BHD'', ''IQD'', ''JOD'', ''KWD'', ''LYD'', ''OMR'', ''TND''}"

definition minor_to_major :: "json \<Rightarrow> string \<Rightarrow> adapt_error + decimal" where
  "minor_to_major minor_units currency =
     (let code = py_upper currency in
      if code \<in> three_decimal then Inl (AdapterError (ThreeDecimal code))
      else
        let exponent = (if code \<in> zero_decimal then 0 else 2) in
        (case py_int_of minor_units of
           Inl e \<Rightarrow> Inl e
         | Inr n \<Rightarrow> Inr (dec_scaleb (Dec n 0) (- exponent))))"

text \<open>\<open>_require\<close>: the keys walked so far are what the message names.\<close>

fun require_from :: "string list \<Rightarrow> json \<Rightarrow> string list \<Rightarrow> adapt_error + json" where
  "require_from walked cursor [] = Inr cursor"
| "require_from walked cursor (key # path) =
     (case json_get cursor key of
        None \<Rightarrow> Inl (AdapterError (MissingPath (walked @ [key])))
      | Some v \<Rightarrow> require_from (walked @ [key]) v path)"

definition require :: "json \<Rightarrow> string list \<Rightarrow> adapt_error + json" where
  "require source path = require_from [] source path"

text \<open>\<open>_instant\<close>: every failure of the conversion is an \<open>AdapterError\<close>; \<open>None\<close> is a JSON null.\<close>

definition instant_of :: "json \<Rightarrow> string \<Rightarrow> adapt_error + instant" where
  "instant_of epoch_seconds field =
     (case py_int_of epoch_seconds of
        Inl _ \<Rightarrow> Inl (AdapterError (NotATimestamp field))
      | Inr n \<Rightarrow> (case from_timestamp n of None \<Rightarrow> Inl (AdapterError (NotATimestamp field)) | Some t \<Rightarrow> Inr t))"

subsection \<open>Dictionaries\<close>

text \<open>\<open>d.get(key)\<close> of a dictionary, with a default; \<open>x or y\<close>; \<open>x.get(key)\<close> of any value.\<close>

definition get_default :: "json \<Rightarrow> string \<Rightarrow> json \<Rightarrow> json" where
  "get_default d key dflt = (case json_get d key of None \<Rightarrow> dflt | Some v \<Rightarrow> v)"

definition or_else :: "json \<Rightarrow> json \<Rightarrow> json" where
  "or_else x y = (if truthy x then x else y)"

definition attr_get :: "json \<Rightarrow> string \<Rightarrow> adapt_error + json" where
  "attr_get x key = (case x of JObj m \<Rightarrow> Inr (get_default x key JNull) | _ \<Rightarrow> Inl AttributeErr)"

subsection \<open>The adapters\<close>

record adapted_webhook =
  aw_payload :: gateway_webhook_in
  aw_idempotency_key :: string
  aw_event_type :: string

text \<open>\<open>GatewayWebhookIn(..)\<close> on values of the right types: its constraints, or a \<open>ValidationError\<close>.\<close>

definition construct :: "gateway_webhook_in \<Rightarrow> adapt_error + gateway_webhook_in" where
  "construct p = (if gateway_webhook_ok p then Inr p else Inl ValidationError)"

definition adapt_stripe :: "(json \<Rightarrow> string) \<Rightarrow> json \<Rightarrow> adapt_error + adapted_webhook" where
  "adapt_stripe repr_of body =
     (let str = py_str repr_of; event_type = str (get_default body ''type'' (JStr [])) in
      if event_type \<noteq> ''payment_intent.succeeded'' then Inl (AdapterError (UnhandledEvent STRIPE event_type))
      else
      bind_result (require body [''data'', ''object'']) (\<lambda>intent.
      bind_result (require body [''data'', ''object'', ''amount'']) (\<lambda>amount.
      bind_result (require body [''data'', ''object'', ''currency'']) (\<lambda>raw_currency.
      bind_result (require body [''data'', ''object'', ''id'']) (\<lambda>raw_id.
      let currency = py_upper (str raw_currency);
          intent_id = str raw_id;
          metadata = or_else (get_default intent ''metadata'' JNull) (JObj [])
      in
      bind_result (attr_get metadata ''txn_id'') (\<lambda>meta_txn.
      let txn_id = str (or_else meta_txn (JStr intent_id));
          event_id = str (or_else (get_default body ''id'' JNull) (JStr intent_id))
      in
      bind_result (instant_of (get_default intent ''created'' (get_default body ''created'' JNull))
                     ''data.object.created'') (\<lambda>occurred.
      bind_result (minor_to_major amount currency) (\<lambda>major.
      bind_result (construct \<lparr> gw_txn_id = txn_id, gw_amount = major, gw_currency = currency,
                     gw_occurred_at = occurred, gw_gateway_ref = intent_id \<rparr>) (\<lambda>payload.
        Inr \<lparr> aw_payload = payload, aw_idempotency_key = ''stripe:'' @ event_id, aw_event_type = event_type \<rparr>)))))))))"

definition adapt_razorpay :: "(json \<Rightarrow> string) \<Rightarrow> json \<Rightarrow> adapt_error + adapted_webhook" where
  "adapt_razorpay repr_of body =
     (let str = py_str repr_of; event_type = str (get_default body ''event'' (JStr [])) in
      if event_type \<noteq> ''payment.captured'' then Inl (AdapterError (UnhandledEvent RAZORPAY event_type))
      else
      bind_result (require body [''payload'', ''payment'', ''entity'']) (\<lambda>entity.
      bind_result (require body [''payload'', ''payment'', ''entity'', ''amount'']) (\<lambda>amount.
      bind_result (require body [''payload'', ''payment'', ''entity'', ''currency'']) (\<lambda>raw_currency.
      bind_result (require body [''payload'', ''payment'', ''entity'', ''id'']) (\<lambda>raw_id.
      let currency = py_upper (str raw_currency);
          payment_id = str raw_id;
          extra = or_else (get_default entity ''notes'' JNull) (JObj [])
      in
      bind_result (attr_get extra ''txn_id'') (\<lambda>note_txn.
      let txn_id = str (or_else note_txn (JStr payment_id)) in
      bind_result (instant_of (get_default entity ''created_at'' JNull) ''payload.payment.entity.created_at'') (\<lambda>occurred.
      bind_result (minor_to_major amount currency) (\<lambda>major.
      bind_result (construct \<lparr> gw_txn_id = txn_id, gw_amount = major, gw_currency = currency,
                     gw_occurred_at = occurred, gw_gateway_ref = payment_id \<rparr>) (\<lambda>payload.
        Inr \<lparr> aw_payload = payload, aw_idempotency_key = ''razorpay:'' @ payment_id, aw_event_type = event_type \<rparr>)))))))))"

definition adapt_custom :: "(json \<Rightarrow> gateway_webhook_in option) \<Rightarrow> json \<Rightarrow> adapt_error + adapted_webhook" where
  "adapt_custom validate body =
     (case validate body of
        None \<Rightarrow> Inl ValidationError
      | Some payload \<Rightarrow>
          Inr \<lparr> aw_payload = payload,
                aw_idempotency_key = ''custom:'' @ gw_txn_id payload @ '':'' @ gw_gateway_ref payload,
                aw_event_type = ''custom'' \<rparr>)"

definition adapt ::
  "(json \<Rightarrow> string) \<Rightarrow> (json \<Rightarrow> gateway_webhook_in option) \<Rightarrow> webhook_provider \<Rightarrow> json \<Rightarrow> adapt_error + adapted_webhook" where
  "adapt repr_of validate provider body =
     (case provider of
        STRIPE \<Rightarrow> adapt_stripe repr_of body
      | RAZORPAY \<Rightarrow> adapt_razorpay repr_of body
      | CUSTOM \<Rightarrow> adapt_custom validate body)"

subsection \<open>Minor units\<close>

lemma dec_scaleb_exact: "\<bar>n\<bar> < 10 ^ 28 \<Longrightarrow> dec_val (dec_scaleb (Dec n 0) k) = of_int n * 10 powi k"
  by (simp add: dec_scaleb_def dec_val_fix_exact dec_prec_def) (simp add: dec_val_def)

text \<open>
  C37. Minor units become major units exactly. For a count of at most 28 digits the amount is the count
  itself in a currency without minor digits and a hundredth of it in a currency with two, to the last
  digit; a currency with three is refused, and no other error arises from an integer.
\<close>

theorem minor_to_major_exact:
  assumes "\<bar>n\<bar> < 10 ^ 28"
  shows "minor_to_major (JInt n) currency =
      Inl (AdapterError (ThreeDecimal (py_upper currency))) \<and> py_upper currency \<in> three_decimal \<or>
    (\<exists>major. minor_to_major (JInt n) currency = Inr major \<and> py_upper currency \<notin> three_decimal \<and>
      dec_val major = (if py_upper currency \<in> zero_decimal then of_int n else of_int n / 100))"
proof (cases "py_upper currency \<in> three_decimal")
  case True
  then show ?thesis by (simp add: minor_to_major_def)
next
  case False
  have "minor_to_major (JInt n) currency =
      Inr (dec_scaleb (Dec n 0) (- (if py_upper currency \<in> zero_decimal then 0 else 2)))"
    using False by (simp add: minor_to_major_def Let_def)
  moreover have "dec_val (dec_scaleb (Dec n 0) (- (if b then 0 else 2))) = (if b then of_int n else of_int n / 100)" for b
    using dec_scaleb_exact [OF assms, of 0] dec_scaleb_exact [OF assms, of "- 2"]
    by (cases b) (simp_all add: power_int_def power2_eq_square)
  ultimately show ?thesis using False by blast
qed

theorem minor_to_major_exact_witness:
  "\<exists>major. minor_to_major (JInt 105000) ''inr'' = Inr major \<and> dec_val major = 1050"
proof -
  have "py_upper ''inr'' = ''INR''" by code_simp
  then show ?thesis
    using minor_to_major_exact [of 105000 "''inr''"] by (simp add: three_decimal_def zero_decimal_def)
qed

text \<open>Whatever an adapter returns satisfies the constraints of the schema.\<close>

lemma bind_resultE: "bind_result r f = Inr y \<Longrightarrow> (\<And>x. r = Inr x \<Longrightarrow> f x = Inr y \<Longrightarrow> P) \<Longrightarrow> P"
  by (cases r) auto

lemma construct_valid: "construct p = Inr q \<Longrightarrow> q = p \<and> gateway_webhook_ok q"
  by (simp add: construct_def split: if_splits)

lemma adapt_stripe_valid:
  assumes "adapt_stripe repr_of body = Inr a"
  shows "gateway_webhook_ok (aw_payload a)"
proof (cases "py_str repr_of (get_default body ''type'' (JStr [])) \<noteq> ''payment_intent.succeeded''")
  case True
  show ?thesis using assms unfolding adapt_stripe_def Let_def if_P [OF True] by simp
next
  case False
  show ?thesis
    using assms unfolding adapt_stripe_def Let_def if_not_P [OF False]
    by (elim bind_resultE) (drule construct_valid, simp only: sum.inject, elim conjE, hypsubst, simp only: adapted_webhook.select_convs)
qed

lemma adapt_razorpay_valid:
  assumes "adapt_razorpay repr_of body = Inr a"
  shows "gateway_webhook_ok (aw_payload a)"
proof (cases "py_str repr_of (get_default body ''event'' (JStr [])) \<noteq> ''payment.captured''")
  case True
  show ?thesis using assms unfolding adapt_razorpay_def Let_def if_P [OF True] by simp
next
  case False
  show ?thesis
    using assms unfolding adapt_razorpay_def Let_def if_not_P [OF False]
    by (elim bind_resultE) (drule construct_valid, simp only: sum.inject, elim conjE, hypsubst, simp only: adapted_webhook.select_convs)
qed

lemma adapt_valid:
  assumes "adapt repr_of validate p body = Inr a" and "\<And>q. validate body = Some q \<Longrightarrow> gateway_webhook_ok q"
  shows "gateway_webhook_ok (aw_payload a)"
proof (cases p)
  case CUSTOM
  then show ?thesis using assms by (auto simp: adapt_def adapt_custom_def split: option.splits)
qed (use assms(1) adapt_stripe_valid adapt_razorpay_valid in \<open>simp_all add: adapt_def\<close>)

text \<open>
  The key of a redelivery. Whatever else a provider changes in a second delivery of the same event,
  the idempotency key depends on the event's identity alone: the event id for Stripe, the payment id
  for Razorpay.
\<close>

theorem redelivery_same_key:
  assumes "adapt repr_of validate p body = Inr a" and "adapt repr_of validate p body' = Inr a'"
    and "p = STRIPE \<Longrightarrow> \<exists>c cs. json_get body ''id'' = Some (JStr (c # cs)) \<and> json_get body' ''id'' = Some (JStr (c # cs))"
    and "p = RAZORPAY \<Longrightarrow> require body [''payload'', ''payment'', ''entity'', ''id''] =
      require body' [''payload'', ''payment'', ''entity'', ''id'']"
    and "p \<noteq> CUSTOM"
  shows "aw_idempotency_key a = aw_idempotency_key a'"
proof (cases p)
  case STRIPE
  have key: "aw_idempotency_key x = ''stripe:'' @ py_str repr_of (JStr i)"
    if "adapt_stripe repr_of b = Inr x" "json_get b ''id'' = Some (JStr i)" "i \<noteq> []" for b x i
  proof (cases "py_str repr_of (get_default b ''type'' (JStr [])) \<noteq> ''payment_intent.succeeded''")
    case True
    show ?thesis using that(1) unfolding adapt_stripe_def Let_def if_P [OF True] by simp
  next
    case False
    have id: "or_else (get_default b ''id'' JNull) y = JStr i" for y
      using that(2,3) by (simp add: or_else_def get_default_def)
    show ?thesis
      using that(1) unfolding adapt_stripe_def Let_def if_not_P [OF False] id
      by (elim bind_resultE) (simp only: sum.inject, hypsubst, simp only: adapted_webhook.select_convs)
  qed
  obtain c cs where "json_get body ''id'' = Some (JStr (c # cs))" "json_get body' ''id'' = Some (JStr (c # cs))"
    using assms(3) STRIPE by blast
  then show ?thesis using key [of body a "c # cs"] key [of body' a' "c # cs"] assms(1,2) by (simp add: adapt_def STRIPE)
next
  case RAZORPAY
  have key: "\<exists>i. require b [''payload'', ''payment'', ''entity'', ''id''] = Inr i \<and>
      aw_idempotency_key x = ''razorpay:'' @ py_str repr_of i"
    if "adapt_razorpay repr_of b = Inr x" for b x
  proof (cases "py_str repr_of (get_default b ''event'' (JStr [])) \<noteq> ''payment.captured''")
    case True
    show ?thesis using that unfolding adapt_razorpay_def Let_def if_P [OF True] by simp
  next
    case False
    show ?thesis
      using that unfolding adapt_razorpay_def Let_def if_not_P [OF False]
      by (elim bind_resultE) (simp only: sum.inject, hypsubst, simp only: adapted_webhook.select_convs, blast)
  qed
  show ?thesis using key [of body a] key [of body' a'] assms(1,2,4) by (auto simp: adapt_def RAZORPAY)
qed (use assms(5) in simp)

definition stripe_event :: "string \<Rightarrow> int \<Rightarrow> json" where
  "stripe_event event_id created =
     JObj [(''id'', JStr event_id), (''type'', JStr ''payment_intent.succeeded''), (''created'', JInt created),
       (''data'', JObj [(''object'', JObj [(''id'', JStr ''pi_1''), (''amount'', JInt 105000), (''currency'', JStr ''inr''),
         (''metadata'', JObj [(''txn_id'', JStr ''TXN-1'')])])])]"

lemma stripe_event_adapts: "\<exists>a. adapt (\<lambda>_. []) (\<lambda>_. None) STRIPE (stripe_event ''evt_1'' 100) = Inr a"
  "\<exists>a. adapt (\<lambda>_. []) (\<lambda>_. None) STRIPE (stripe_event ''evt_1'' 200) = Inr a"
proof -
  have up: "py_upper ''inr'' = ''INR''" "py_upper ''INR'' = ''INR''" by code_simp+
  have major: "minor_to_major (JInt 105000) ''INR'' = Inr (Dec 105000 (- 2))"
    unfolding minor_to_major_def up
    by (simp add: three_decimal_def zero_decimal_def dec_scaleb_def dec_fix_id dec_prec_def)
  have ok: "construct \<lparr> gw_txn_id = ''TXN-1'', gw_amount = Dec 105000 (- 2), gw_currency = ''INR'',
      gw_occurred_at = seconds n, gw_gateway_ref = ''pi_1'' \<rparr> = Inr \<lparr> gw_txn_id = ''TXN-1'',
      gw_amount = Dec 105000 (- 2), gw_currency = ''INR'', gw_occurred_at = seconds n, gw_gateway_ref = ''pi_1'' \<rparr>" for n
    by (simp add: construct_def gateway_webhook_ok_def short_id_field_def money_field_def iso4217_def)
  have "\<exists>a. adapt (\<lambda>_. []) (\<lambda>_. None) STRIPE (stripe_event ''evt_1'' n) = Inr a" if "n = 100 \<or> n = 200" for n
    using that by (auto simp: adapt_def adapt_stripe_def stripe_event_def get_default_def require_def or_else_def
        attr_get_def instant_of_def from_timestamp_def Let_def up major ok)
  then show "\<exists>a. adapt (\<lambda>_. []) (\<lambda>_. None) STRIPE (stripe_event ''evt_1'' 100) = Inr a"
    "\<exists>a. adapt (\<lambda>_. []) (\<lambda>_. None) STRIPE (stripe_event ''evt_1'' 200) = Inr a" by simp_all
qed

theorem redelivery_same_key_witness:
  "\<exists>a a'. adapt (\<lambda>_. []) (\<lambda>_. None) STRIPE (stripe_event ''evt_1'' 100) = Inr a \<and>
     adapt (\<lambda>_. []) (\<lambda>_. None) STRIPE (stripe_event ''evt_1'' 200) = Inr a' \<and> aw_idempotency_key a = aw_idempotency_key a'"
proof -
  obtain a a' where a: "adapt (\<lambda>_. []) (\<lambda>_. None) STRIPE (stripe_event ''evt_1'' 100) = Inr a"
    "adapt (\<lambda>_. []) (\<lambda>_. None) STRIPE (stripe_event ''evt_1'' 200) = Inr a'"
    using stripe_event_adapts by blast
  have "aw_idempotency_key a = aw_idempotency_key a'"
    by (rule redelivery_same_key [OF a]) (simp_all add: stripe_event_def)
  with a show ?thesis by blast
qed

end
