(* ===== verification/Routes_Ingest.thy ===== *)
theory Routes_Ingest
  imports Ingest Adapters Sources Api_Deps
begin

text \<open>
  \<open>ledgerloop/api/routes_ingest.py\<close>: the handlers of the write path, after their dependencies have run.
  A handler returns the state it committed and a response or an error; what it raises after a commit of
  its own (the stamp of a rejected delivery) leaves that commit. The parameters of the environment are
  collected in \<open>edge\<close>: the parser and printer of JSON text, \<open>isoformat\<close>, and pydantic's reading of a
  custom body.
\<close>

text \<open>\<open>json.loads\<close>: a value, a \<open>JSONDecodeError\<close>, or another exception (bytes that are not UTF-8).\<close>

datatype loads_result = Parsed json | JsonDecodeError | OtherDecodeError

record edge =
  eg_loads :: "string \<Rightarrow> loads_result"
  eg_dumps :: "json \<Rightarrow> string"
  eg_isoformat :: "instant \<Rightarrow> string"
  eg_repr :: "json \<Rightarrow> string"
  eg_validate :: "json \<Rightarrow> gateway_webhook_in option"

subsection \<open>The unauthenticated gateway endpoint and the ledger batch\<close>

text \<open>\<open>IngestAck\<close> has the fields of \<open>IngestOutcome\<close>, and \<open>_ack\<close> copies them.\<close>

type_synonym ingest_ack = ingest_outcome

definition ack_of :: "ingest_outcome \<Rightarrow> ingest_ack" where
  "ack_of outcome =
     \<lparr> io_row_id = io_row_id outcome, io_txn_id = io_txn_id outcome, io_duplicate = io_duplicate outcome,
       io_submissions = io_submissions outcome \<rparr>"

lemma ack_of_id [simp]: "ack_of outcome = outcome"
  by (simp add: ack_of_def)

record gateway_webhook_accepted =
  ga_accepted :: bool
  ga_result :: ingest_ack

definition gateway_webhook ::
  "instant \<Rightarrow> tenant \<Rightarrow> gateway_webhook_in \<Rightarrow> string \<Rightarrow> json \<Rightarrow> db \<Rightarrow>
     db \<times> (http_error + gateway_webhook_accepted)" where
  "gateway_webhook now t payload idempotency_key raw_body d =
     (case ingest_gateway now t payload idempotency_key raw_body d of
        Inl _ \<Rightarrow> (d, Inl ServerError)
      | Inr (d', outcome) \<Rightarrow> (d', Inr \<lparr> ga_accepted = True, ga_result = ack_of outcome \<rparr>))"

record ledger_sync_accepted =
  ls_accepted :: int
  ls_duplicates :: int
  ls_results :: "ingest_ack list"

definition ledger_sync ::
  "(ledger_entry_in \<Rightarrow> json) \<Rightarrow> instant \<Rightarrow> tenant \<Rightarrow> ledger_entry_in list \<Rightarrow> db \<Rightarrow>
     db \<times> (http_error + ledger_sync_accepted)" where
  "ledger_sync dump now t entries d =
     (case ingest_ledger_batch dump now t entries d of
        Inl _ \<Rightarrow> (d, Inl ServerError)
      | Inr (d', outcomes) \<Rightarrow>
          let duplicates = int (length (filter io_duplicate outcomes));
              accepted = int (length outcomes) - duplicates
          in (d', Inr \<lparr> ls_accepted = accepted, ls_duplicates = duplicates, ls_results = map ack_of outcomes \<rparr>))"

subsection \<open>A provider's signed delivery\<close>

record webhook_accepted =
  wa_accepted :: bool
  wa_provider :: webhook_provider
  wa_event_type :: string
  wa_result :: ingest_ack

text \<open>
  \<open>headers\<close> is \<open>request.headers.get\<close>. A \<open>None\<close> from \<open>read_body\<close> stands for an \<open>AdapterError\<close> or a
  \<open>JSONDecodeError\<close>, the two the route turns into a 422.
\<close>

datatype reading = Readable json adapted_webhook | Rejected | Uncaught

definition read_body :: "edge \<Rightarrow> webhook_provider \<Rightarrow> string \<Rightarrow> reading" where
  "read_body E provider raw_body =
     (case eg_loads E raw_body of
        JsonDecodeError \<Rightarrow> Rejected
      | OtherDecodeError \<Rightarrow> Uncaught
      | Parsed body \<Rightarrow>
          (case body of
             JObj m \<Rightarrow>
               (case adapt (eg_repr E) (eg_validate E) provider body of
                  Inl (AdapterError _) \<Rightarrow> Rejected
                | Inl _ \<Rightarrow> Uncaught
                | Inr adapted \<Rightarrow> Readable body adapted)
           | _ \<Rightarrow> Rejected))"

definition provider_webhook ::
  "edge \<Rightarrow> instant \<Rightarrow> instant \<Rightarrow> string \<Rightarrow> (string \<Rightarrow> string option) \<Rightarrow> string \<Rightarrow> db \<Rightarrow>
     db \<times> (http_error + webhook_accepted)" where
  "provider_webhook E now clock source_token headers raw_body d =
     (if length source_token < 8 \<or> 64 < length source_token then (d, Inl (Http 422))
      else
      (case resolve_source d source_token of
         None \<Rightarrow> (d, Inl (Http 404))
       | Some source \<Rightarrow>
      (case verify (rs_provider source) raw_body (headers (signature_header (rs_provider source)))
              (rs_signing_secret source) clock DEFAULT_TOLERANCE of
         Inl _ \<Rightarrow> (d, Inl ServerError)
       | Inr (Refused _) \<Rightarrow> (record_delivery clock (rs_source_id source) INVALID_SIGNATURE d, Inl (Http 401))
       | Inr Accepted \<Rightarrow>
      (case read_body E (rs_provider source) raw_body of
         Uncaught \<Rightarrow> (d, Inl ServerError)
       | Rejected \<Rightarrow> (record_delivery clock (rs_source_id source) INVALID_PAYLOAD d, Inl (Http 422))
       | Readable body adapted \<Rightarrow>
      (case ingest_gateway now (rs_tenant source) (aw_payload adapted) (aw_idempotency_key adapted) body d of
         Inl _ \<Rightarrow> (d, Inl ServerError)
       | Inr (d', outcome) \<Rightarrow>
           (record_delivery clock (rs_source_id source) OK d',
            Inr \<lparr> wa_accepted = True, wa_provider = rs_provider source, wa_event_type = aw_event_type adapted,
                  wa_result = ack_of outcome \<rparr>))))))"

subsection \<open>Managing sources\<close>

text \<open>\<open>_source_out\<close>: a source as the API shows it, which has no secret.\<close>

record webhook_source_out =
  wo_id :: int
  wo_provider :: webhook_provider
  wo_source_token :: string
  wo_label :: string
  wo_last_event_at :: "instant option"
  wo_last_delivery_status :: "webhook_delivery_status option"
  wo_created_at :: instant
  wo_revoked_at :: "instant option"

definition source_out :: "webhook_source \<Rightarrow> webhook_source_out" where
  "source_out s =
     \<lparr> wo_id = ws_id s, wo_provider = ws_provider s, wo_source_token = ws_source_token s, wo_label = ws_label s,
       wo_last_event_at = ws_last_event_at s, wo_last_delivery_status = ws_last_delivery_status s,
       wo_created_at = ws_created_at s, wo_revoked_at = ws_revoked_at s \<rparr>"

definition is_live :: "webhook_source_out \<Rightarrow> bool" where
  "is_live s \<longleftrightarrow> wo_revoked_at s = None \<and> wo_last_delivery_status s = Some OK"

definition list_gateway_sources :: "db \<Rightarrow> tenant \<Rightarrow> webhook_source_out list" where
  "list_gateway_sources d t = map source_out (list_sources d t)"

text \<open>\<open>WebhookSourceCreate\<close>: the label of a validated body.\<close>

definition source_label_ok :: "string \<Rightarrow> bool" where
  "source_label_ok label \<longleftrightarrow> 1 \<le> length label \<and> length label \<le> 255"

definition create_gateway_source ::
  "instant \<Rightarrow> string \<Rightarrow> string \<Rightarrow> tenant \<Rightarrow> webhook_provider \<Rightarrow> string \<Rightarrow> db \<Rightarrow>
     db \<times> (http_error + webhook_source_out)" where
  "create_gateway_source now token secret_token t provider label d =
     (if is_demo t then (d, Inl (Http 403))
      else
        (case create_source now token secret_token t provider label None d of
           Inl _ \<Rightarrow> (d, Inl ServerError)
         | Inr (d', source) \<Rightarrow> (d', Inr (source_out source))))"

subsection \<open>The self-test of a source\<close>

definition synthetic_event :: "edge \<Rightarrow> webhook_provider \<Rightarrow> instant \<Rightarrow> json" where
  "synthetic_event E provider at_time =
     (let stamp = timestamp_s at_time;
          n = py_str_int stamp;
          txn_id = ''LEDGERLOOP-TEST-'' @ n
      in (case provider of
            STRIPE \<Rightarrow>
              JObj [(''id'', JStr (''evt_test_'' @ n)),
                    (''type'', JStr ''payment_intent.succeeded''),
                    (''created'', JInt stamp),
                    (''data'', JObj [(''object'',
                       JObj [(''id'', JStr (''pi_test_'' @ n)), (''amount'', JInt 105000), (''currency'', JStr ''inr''),
                             (''created'', JInt stamp), (''metadata'', JObj [(''txn_id'', JStr txn_id)])])])]
          | RAZORPAY \<Rightarrow>
              JObj [(''event'', JStr ''payment.captured''),
                    (''payload'', JObj [(''payment'', JObj [(''entity'',
                       JObj [(''id'', JStr (''pay_test_'' @ n)), (''amount'', JInt 105000), (''currency'', JStr ''INR''),
                             (''created_at'', JInt stamp), (''notes'', JObj [(''txn_id'', JStr txn_id)])])])])]
          | CUSTOM \<Rightarrow>
              JObj [(''txn_id'', JStr txn_id), (''amount'', JStr ''1050.00''), (''currency'', JStr ''INR''),
                    (''occurred_at'', JStr (eg_isoformat E at_time)), (''gateway_ref'', JStr (''REF-TEST-'' @ n))]))"

datatype test_detail = NoDetail | SignatureReason string | PayloadReason adapter_reason

record webhook_test_result =
  wt_delivered :: bool
  wt_http_status :: nat
  wt_duplicate :: bool
  wt_txn_id :: "string option"
  wt_detail :: test_detail

definition test_gateway_source ::
  "edge \<Rightarrow> instant \<Rightarrow> instant \<Rightarrow> instant \<Rightarrow> tenant \<Rightarrow> int \<Rightarrow> db \<Rightarrow> db \<times> (http_error + webhook_test_result)" where
  "test_gateway_source E now signed_at clock t source_id d =
     (if source_id < 1 then (d, Inl (Http 422))
      else
      (case resolve_source_for_tenant d t source_id of
         None \<Rightarrow> (d, Inl (Http 404))
       | Some source \<Rightarrow>
      (let body = synthetic_event E (rs_provider source) signed_at;
           raw_body = eg_dumps E body;
           header = sign (rs_provider source) raw_body (rs_signing_secret source) signed_at
       in
      (case verify (rs_provider source) raw_body (Some header) (rs_signing_secret source) signed_at DEFAULT_TOLERANCE of
         Inl _ \<Rightarrow> (d, Inl ServerError)
       | Inr (Refused reason) \<Rightarrow>
           (record_delivery clock (rs_source_id source) INVALID_SIGNATURE d,
            Inr \<lparr> wt_delivered = False, wt_http_status = 401, wt_duplicate = False, wt_txn_id = None,
                  wt_detail = SignatureReason reason \<rparr>)
       | Inr Accepted \<Rightarrow>
      (case adapt (eg_repr E) (eg_validate E) (rs_provider source) body of
         Inl (AdapterError reason) \<Rightarrow>
           (record_delivery clock (rs_source_id source) INVALID_PAYLOAD d,
            Inr \<lparr> wt_delivered = False, wt_http_status = 422, wt_duplicate = False, wt_txn_id = None,
                  wt_detail = PayloadReason reason \<rparr>)
       | Inl _ \<Rightarrow> (d, Inl ServerError)
       | Inr adapted \<Rightarrow>
      (case ingest_gateway now (rs_tenant source) (aw_payload adapted) (aw_idempotency_key adapted) body d of
         Inl _ \<Rightarrow> (d, Inl ServerError)
       | Inr (d', outcome) \<Rightarrow>
           (record_delivery clock (rs_source_id source) OK d',
            Inr \<lparr> wt_delivered = True, wt_http_status = 202, wt_duplicate = io_duplicate outcome,
                  wt_txn_id = Some (io_txn_id outcome), wt_detail = NoDetail \<rparr>)))))))"

end
