(* ===== verification/Refinement.thy ===== *)
theory Refinement
  imports Guarantees Routes_Ingest Routes_Read
begin

text \<open>
  The handlers and the processes, as the code composes them, against the step relation of \<open>System\<close>:
  whatever a request, a batch of the worker, a pass of the sweeper or the relay commits, errors
  included, is a state the steps reach. So every invariant of the reachable states holds after each
  of them.
\<close>

subsection \<open>Requests\<close>

text \<open>
  The write requests of the API, as their handler receives them: the tenant resolved and the body
  validated. \<open>Authenticate\<close> is the dependency that resolves the tenant, which commits by itself.
\<close>

datatype request =
    Authenticate "string option" "string option"
  | Gateway_webhook tenant gateway_webhook_in string json
  | Ledger_sync tenant "ledger_entry_in list"
  | Provider_webhook string "string \<Rightarrow> string option" string
  | Create_source tenant webhook_provider string string string
  | Test_source tenant int
  | Resolve_exception tenant int string

record times =
  at_tx :: instant
  at_clock :: instant
  at_signed :: instant

text \<open>The state a request leaves committed, whatever it answers.\<close>

fun committed ::
  "settings \<Rightarrow> edge \<Rightarrow> (ledger_entry_in \<Rightarrow> json) \<Rightarrow> times \<Rightarrow> request \<Rightarrow> db \<Rightarrow> db" where
  "committed s E dump w (Authenticate authorization x_demo_session) d =
     (case resolve_tenant s (at_tx w) (at_clock w) authorization x_demo_session d of Inl _ \<Rightarrow> d | Inr (d', _) \<Rightarrow> d')"
| "committed s E dump w (Gateway_webhook t p k body) d = fst (gateway_webhook (at_tx w) t p k body d)"
| "committed s E dump w (Ledger_sync t es) d = fst (ledger_sync dump (at_tx w) t es d)"
| "committed s E dump w (Provider_webhook token headers raw_body) d =
     fst (provider_webhook E (at_tx w) (at_clock w) token headers raw_body d)"
| "committed s E dump w (Create_source t provider label token fresh) d =
     fst (create_gateway_source (at_tx w) token fresh t provider label d)"
| "committed s E dump w (Test_source t i) d =
     fst (test_gateway_source E (at_tx w) (at_signed w) (at_clock w) t i d)"
| "committed s E dump w (Resolve_exception t i notes) d = fst (resolve_exception (at_tx w) t i notes d)"

text \<open>What validation of the body gives the two ingestion handlers.\<close>

fun validated :: "request \<Rightarrow> bool" where
  "validated (Gateway_webhook t p k body) \<longleftrightarrow> gateway_webhook_ok p"
| "validated (Ledger_sync t es) \<longleftrightarrow> ledger_sync_ok es"
| "validated _ \<longleftrightarrow> True"

text \<open>A body pydantic accepts satisfies the model's constraints.\<close>

definition edge_ok :: "edge \<Rightarrow> bool" where
  "edge_ok E \<longleftrightarrow> (\<forall>body q. eg_validate E body = Some q \<longrightarrow> gateway_webhook_ok q)"

lemma edge_okD: "edge_ok E \<Longrightarrow> adapt repr_of (eg_validate E) p body = Inr a \<Longrightarrow> gateway_webhook_ok (aw_payload a)"
  by (erule adapt_valid) (simp add: edge_ok_def)

lemma reachable_ingest:
  assumes "reachable s c" and "gateway_webhook_ok p" and "ingest_gateway now t p k body (sy_db c) = Inr (d', out)"
  shows "reachable s (c\<lparr> sy_db := d' \<rparr>)"
  using assms(1) step.gateway [OF assms(2,3)] by (rule reachable.step)

lemma reachable_delivery:
  assumes "reachable s (c\<lparr> sy_db := d \<rparr>)"
  shows "reachable s (c\<lparr> sy_db := record_delivery clock i status d \<rparr>)"
  using reachable.step [OF assms step.delivery] by simp

lemma reachable_same: "reachable s c \<Longrightarrow> reachable s (c\<lparr> sy_db := sy_db c \<rparr>)"
  by simp

lemma authenticate_reachable:
  assumes "reachable s c" and "resolve_tenant cfg now clock a x (sy_db c) = Inr (d', t)"
  shows "reachable s (c\<lparr> sy_db := d' \<rparr>)"
proof -
  obtain d1 where d1: "d' = touch_account now clock t (s_last_seen_refresh_s cfg) d1"
    "d1 = sy_db c \<or> (\<exists>name. upsert_account now name DEMO (sy_db c) = Inr (d1, t))"
    using assms(2)
    by (auto simp: resolve_tenant_def resolve_demo_account_def Let_def split: option.splits sum.splits)
  have "reachable s (c\<lparr> sy_db := d1 \<rparr>)"
    using d1(2) assms(1) reachable.step [OF assms(1) step.account] by auto
  from reachable.step [OF this step.touch] show ?thesis unfolding d1(1) by simp
qed

lemma provider_webhook_reachable:
  assumes "reachable s c" and "edge_ok E"
  shows "reachable s (c\<lparr> sy_db := fst (provider_webhook E now clock token headers raw_body (sy_db c)) \<rparr>)"
proof -
  note same = reachable_same [OF assms(1)]
  have read: "gateway_webhook_ok (aw_payload a)" if "read_body E p raw = Readable body a" for p raw body a
    using that edge_okD [OF assms(2)]
    by (auto simp: read_body_def split: loads_result.splits json.splits sum.splits adapt_error.splits)
  show ?thesis
    unfolding provider_webhook_def
    using same reachable_delivery [OF same] reachable_delivery [OF reachable_ingest [OF assms(1) read]]
    by (auto split: option.split sum.split verdict.split reading.split)
qed

lemma test_source_reachable:
  assumes "reachable s c" and "edge_ok E"
  shows "reachable s (c\<lparr> sy_db := fst (test_gateway_source E now signing clock t i (sy_db c)) \<rparr>)"
  unfolding test_gateway_source_def Let_def
  using reachable_same [OF assms(1)] reachable_delivery [OF reachable_same [OF assms(1)]]
    reachable_delivery [OF reachable_ingest [OF assms(1) edge_okD [OF assms(2)]]]
  by (auto split: option.split sum.split verdict.split adapt_error.split)

lemma resolve_exception_reachable:
  assumes "reachable s c"
  shows "reachable s (c\<lparr> sy_db := fst (resolve_exception now t i notes (sy_db c)) \<rparr>)"
proof -
  have "reachable s (c\<lparr> sy_db := d' \<rparr>)" if "close_exception now t i notes (sy_db c) = Inr (d', x)" for d' x
    using reachable.step [OF assms step.close_exc [OF that]] .
  then show ?thesis
    unfolding resolve_exception_def using reachable_same [OF assms]
    by (auto split: option.split sum.split)
qed

text \<open>
  C4. The API refines the step relation. Whatever write request is served in a reachable state, and
  whatever it answers (accepted, refused, or failed), the state it commits is reachable by the
  steps: an endpoint has no way to write that the invariants of the reachable states do not cover.
\<close>

theorem requests_refine_steps:
  assumes "reachable s c" and "validated q" and "edge_ok E"
  shows "reachable s (c\<lparr> sy_db := committed cfg E dump w q (sy_db c) \<rparr>)"
proof (cases q)
  case (Authenticate a x)
  then show ?thesis
    using authenticate_reachable [OF assms(1)] assms(1) by (auto split: sum.split)
next
  case (Gateway_webhook t p k body)
  then show ?thesis
    using assms(1,2) reachable_ingest [OF assms(1)] by (auto simp: gateway_webhook_def split: sum.split)
next
  case (Ledger_sync t es)
  then show ?thesis
    using assms(1,2) reachable.step [OF assms(1) step.ledger]
    by (auto simp: ledger_sync_def Let_def split: sum.split)
next
  case (Create_source t p l token fresh)
  then show ?thesis
    using assms(1) reachable.step [OF assms(1) step.source]
    by (auto simp: create_gateway_source_def split: sum.split)
qed (use provider_webhook_reachable [OF assms(1,3)] test_source_reachable [OF assms(1,3)]
      resolve_exception_reachable [OF assms(1)] in simp_all)

definition example_edge :: edge where
  "example_edge = \<lparr> eg_loads = (\<lambda>_. JsonDecodeError), eg_dumps = (\<lambda>_. []), eg_isoformat = (\<lambda>_. []),
     eg_repr = (\<lambda>_. []), eg_validate = (\<lambda>_. None) \<rparr>"

definition example_times :: times where
  "example_times = \<lparr> at_tx = 20, at_clock = 20, at_signed = 20 \<rparr>"

definition closed_db :: db where
  "closed_db = committed default_settings example_edge (\<lambda>_. JNull) example_times
     (Resolve_exception example_tenant 1 ''refunded'') (sy_db lone_end)"

theorem requests_refine_steps_witness:
  "reachable default_settings (lone_end\<lparr> sy_db := closed_db \<rparr>) \<and>
   map ex_resolution_notes (db_exceptions (sy_db lone_end)) = [None] \<and>
   map ex_resolution_notes (db_exceptions closed_db) = [Some ''refunded'']"
proof -
  have "edge_ok example_edge" by (simp add: edge_ok_def example_edge_def)
  from requests_refine_steps [OF lone_reachable _ this, of "Resolve_exception example_tenant 1 ''refunded''"]
  have "reachable default_settings (lone_end\<lparr> sy_db := closed_db \<rparr>)" unfolding closed_db_def by simp
  moreover have "map ex_resolution_notes (db_exceptions (sy_db lone_end)) = [None]" by code_simp
  moreover have "map ex_resolution_notes (db_exceptions closed_db) = [Some ''refunded'']" by code_simp
  ultimately show ?thesis by blast
qed

subsection \<open>Worker, sweeper and relay\<close>

text \<open>
  A state of the database that the steps reach without anything new in the stream, with the
  candidates of a sweep read.
\<close>

definition reaches :: "settings \<Rightarrow> ingest_message list \<Rightarrow> txn_facts set \<Rightarrow> db \<Rightarrow> bool" where
  "reaches s stream stale d \<longleftrightarrow>
     (\<exists>c. reachable s c \<and> sy_db c = d \<and> sy_stream c = stream \<and> (\<forall>f \<in> stale. (f, None) \<in> set (sy_loaded c)))"

lemma reaches_mono: "reaches s stream F d \<Longrightarrow> G \<subseteq> F \<Longrightarrow> reaches s stream G d"
  unfolding reaches_def by blast

lemma reaches_write:
  assumes "reachable s c" and "sy_db c = d" and "sy_stream c = stream" and "\<forall>f \<in> F. (f, None) \<in> set (sy_loaded c)"
    and "(t, dec) \<in> set (sy_decided c)" and "apply_decision tx now dec t latency mid d = Inr (d', pr)"
  shows "reaches s stream F d'"
proof -
  have "reachable s (c\<lparr> sy_db := d' \<rparr>)"
    using reachable.step [OF assms(1) step.write_decision [OF assms(5)]] assms(6,2) by simp
  then show ?thesis unfolding reaches_def using assms(3,4) by (intro exI [of _ "c\<lparr> sy_db := d' \<rparr>"]) simp
qed

lemma process_reaches:
  assumes "reaches s stream F d" and "m \<in> set stream" and "process (from_settings s) tx now m mid d = Inr (d', out)"
  shows "reaches s stream F d'"
proof (cases "d' = d")
  case False
  then obtain f dec sides where f: "load_facts d (im_source m) (im_row_id m) = Inr (Some f)"
    and dec: "decide_message (from_settings s) m f d = (Some dec, sides)"
    and "\<exists>pr. apply_decision tx now dec (tf_tenant_id f) (Some (compute_latency_ms dec sides now)) mid d = Inr (d', pr)"
    using assms(3) by (auto simp: process_def Let_def split: sum.splits option.splits prod.splits)
  then obtain pr where wr: "apply_decision tx now dec (tf_tenant_id f)
      (Some (compute_latency_ms dec sides now)) mid d = Inr (d', pr)" by blast
  obtain c where c: "reachable s c" "sy_db c = d" "sy_stream c = stream" "\<forall>f \<in> F. (f, None) \<in> set (sy_loaded c)"
    using assms(1) unfolding reaches_def by blast
  let ?c1 = "c\<lparr> sy_loaded := (f, Some m) # sy_loaded c \<rparr>"
  have "reachable s ?c1" using reachable.step [OF c(1) step.worker_load] assms(2) f c(2,3) by simp
  from reachable.step [OF this step.worker_decide [of f m _ s dec sides]]
  have "reachable s (?c1\<lparr> sy_decided := (tf_tenant_id f, dec) # sy_decided ?c1 \<rparr>)" using dec c(2) by simp
  from reaches_write [OF this _ _ _ _ wr] c show ?thesis by simp
qed (use assms(1) in simp)

lemma run_batch_reaches:
  "reaches s stream F d \<Longrightarrow> set (map snd entries) \<subseteq> set stream \<Longrightarrow>
     reaches s stream F (fst (run_batch (from_settings s) clock stop entries d))"
proof (induction entries arbitrary: d)
  case (Cons e entries)
  obtain i m where e: "e = (i, m)" by (cases e)
  have m: "m \<in> set stream" and rest: "set (map snd entries) \<subseteq> set stream" using Cons(3) e by auto
  show ?case
  proof (cases "process (from_settings s) (fst (clock i)) (snd (clock i)) m (Some i) d")
    case (Inr r)
    obtain d' out where r: "r = (d', out)" by (cases r)
    have "reaches s stream F d'" by (rule process_reaches [OF Cons(2) m]) (use Inr r in simp)
    with Cons(1) [OF this rest] Inr r e show ?thesis
      by (cases "run_batch (from_settings s) clock stop entries d'") simp
  qed (use Cons(2) e in simp)
qed simp

lemma sweep_row_reaches:
  assumes "reaches s stream F d" and "f \<in> F" and "sweep_row (from_settings s) clock f d = Inr (d', written)"
  shows "reaches s stream F d'"
proof -
  let ?now = "clock f"
  obtain dec sides where dec: "sweep_decision (from_settings s) ?now f d = (dec, sides)" by fastforce
  obtain pr where wr: "apply_decision ?now ?now dec (tf_tenant_id f)
      (Some (compute_latency_ms dec sides ?now)) None d = Inr (d', pr)"
    using assms(3) dec by (auto simp: sweep_row_def Let_def split: sum.splits)
  obtain c where c: "reachable s c" "sy_db c = d" "sy_stream c = stream" "\<forall>f \<in> F. (f, None) \<in> set (sy_loaded c)"
    using assms(1) unfolding reaches_def by blast
  from reachable.step [OF c(1) step.sweep_decide [of f c s ?now dec sides]]
  have "reachable s (c\<lparr> sy_decided := (tf_tenant_id f, dec) # sy_decided c \<rparr>)" using dec c(2,4) assms(2) by simp
  from reaches_write [OF this _ _ _ _ wr] c show ?thesis by simp
qed

lemma sweep_rows_reaches:
  "reaches s stream F d \<Longrightarrow> set stale \<subseteq> F \<Longrightarrow>
     reaches s stream F (fst (sweep_rows (from_settings s) clock stale n d))"
proof (induction stale arbitrary: n d)
  case (Cons f stale)
  then show ?case using sweep_row_reaches [OF Cons(2)] by (auto split: sum.split)
qed simp

lemma load_stale_reaches:
  assumes "reaches s stream {} d" and "set fs \<subseteq> set (find_stale_pending d now side w limit)"
  shows "reaches s stream (set fs) d"
  using assms(2)
proof (induction fs)
  case (Cons f fs)
  then obtain c where c: "reachable s c" "sy_db c = d" "sy_stream c = stream" "\<forall>g \<in> set fs. (g, None) \<in> set (sy_loaded c)"
    unfolding reaches_def by auto
  have "reachable s (c\<lparr> sy_loaded := (f, None) # sy_loaded c \<rparr>)"
    by (rule reachable.step [OF c(1) step.sweep_load [of f c now side w limit]]) (use Cons(2) c(2) in simp)
  then show ?case unfolding reaches_def using c by (intro exI [of _ "c\<lparr> sy_loaded := (f, None) # sy_loaded c \<rparr>"]) simp
qed (use assms(1) in simp)

lemma sweep_sides_reaches:
  "reaches s stream {} d \<Longrightarrow> reaches s stream {} (fst (sweep_sides s limit now clock sides n d))"
proof (induction sides arbitrary: n d)
  case (Cons side sides)
  let ?stale = "find_stale_pending d now side (seconds (s_unmatched_after_s s)) limit"
  have "reaches s stream (set ?stale) d" by (rule load_stale_reaches [OF Cons(2) order_refl])
  from sweep_rows_reaches [OF this order_refl, THEN reaches_mono]
  have "reaches s stream {} (fst (sweep_rows (from_settings s) clock ?stale n d))" by simp
  with Cons(1) show ?case by (auto split: prod.split sum.split)
qed simp

lemma delete_accounts_reaches:
  "reaches s stream {} d \<Longrightarrow> reaches s stream {} (fst (delete_accounts as n d))"
proof (induction as arbitrary: n d)
  case (Cons a as)
  have "reaches s stream {} d'" if "delete_demo_account a d = Inr d'" for d'
  proof -
    obtain c where c: "reachable s c" "sy_db c = d" "sy_stream c = stream"
      using Cons(2) unfolding reaches_def by blast
    have "reachable s (c\<lparr> sy_db := d' \<rparr>)" using reachable.step [OF c(1) step.retention] that c(2) by simp
    then show ?thesis unfolding reaches_def using c(3) by (intro exI [of _ "c\<lparr> sy_db := d' \<rparr>"]) simp
  qed
  with Cons show ?case by (auto split: sum.split)
qed simp

lemma sweep_once_reaches:
  assumes "reaches s stream {} (fst st)"
  shows "reaches s stream {} (fst (fst (sweep_once s limit now clock ticks st)))"
  using sweep_sides_reaches [OF assms, of limit now clock "[GATEWAY, LEDGER]" 0] delete_accounts_reaches
  by (auto simp: sweep_once_def maybe_sweep_demo_accounts_def sweep_demo_accounts_def split: prod.split sum.split)

lemma sweep_drain_reaches:
  "reaches s stream {} (fst st) \<Longrightarrow> reaches s stream {} (fst (fst (sweep_drain s limit readings budget passes so_far st)))"
proof (induction budget arbitrary: passes so_far st)
  case (Suc budget)
  obtain now clock ticks where r: "readings passes = (now, clock, ticks)" by (metis prod_cases3)
  from sweep_once_reaches [OF Suc(2)] have "reaches s stream {} (fst (fst (sweep_once s limit now clock ticks st)))" .
  with Suc(1) show ?case by (auto simp: r split: prod.split sum.split)
qed simp

text \<open>
  The processes refine the step relation. From any reachable state, a batch of the worker on
  messages of the stream, a pass of the sweeper and its draining loop each end, also when they end with an
  error, in a database that the steps reach with nothing new in the stream.
\<close>

theorem processes_refine_steps:
  assumes "reachable s c" and "set (map snd entries) \<subseteq> set (sy_stream c)"
    and "d \<in> {fst (run_batch (from_settings s) clock stop entries (sy_db c)),
              fst (fst (sweep_once s limit now ticking ticks (sy_db c, previous))),
              fst (fst (sweep_drain s limit readings budget 0 0 (sy_db c, previous)))}"
  shows "\<exists>c'. reachable s c' \<and> sy_db c' = d \<and> sy_stream c' = sy_stream c"
proof -
  let ?reaches = "reaches s (sy_stream c) {}"
  have start: "?reaches (sy_db c)" using assms(1) unfolding reaches_def by auto
  then have start': "?reaches (fst (sy_db c, previous))" by simp
  from assms(3) have "?reaches d"
  proof (elim insertE emptyE)
    assume "d = fst (run_batch (from_settings s) clock stop entries (sy_db c))"
    then show ?thesis using run_batch_reaches [OF start assms(2)] by simp
  next
    assume "d = fst (fst (sweep_once s limit now ticking ticks (sy_db c, previous)))"
    then show ?thesis using sweep_once_reaches [OF start'] by simp
  next
    assume "d = fst (fst (sweep_drain s limit readings budget 0 0 (sy_db c, previous)))"
    then show ?thesis using sweep_drain_reaches [OF start'] by simp
  qed
  then show ?thesis unfolding reaches_def by blast
qed

theorem processes_refine_steps_witness:
  "\<exists>c'. reachable default_settings c' \<and> sy_stream c' = [] \<and> map rr_status (db_reconciliation_results (sy_db c')) = [UNMATCHED_GATEWAY_ONLY]"
proof -
  let ?c = "initial\<lparr> sy_db := run1 \<rparr>\<lparr> sy_db := run2 \<rparr>"
  let ?d = "fst (fst (sweep_once default_settings 10 (10 ^ 9) (\<lambda>_. 10 ^ 9) 0 (run2, 0)))"
  have "?d \<in> {fst (run_batch (from_settings default_settings) (\<lambda>_. (0, 0)) (\<lambda>_. False) [] (sy_db ?c)),
      fst (fst (sweep_once default_settings 10 (10 ^ 9) (\<lambda>_. 10 ^ 9) 0 (sy_db ?c, 0))),
      fst (fst (sweep_drain default_settings 10 (\<lambda>_. (0, \<lambda>_. 0, 0)) 0 0 0 (sy_db ?c, 0)))}" by simp
  from processes_refine_steps [OF run2_reachable _ this]
  obtain c' where c': "reachable default_settings c'" "sy_db c' = ?d" "sy_stream c' = []" by (auto simp: initial_def)
  have "map rr_status (db_reconciliation_results ?d) = [UNMATCHED_GATEWAY_ONLY]" by code_simp
  with c' show ?thesis by auto
qed

end
