(* ===== verification/Access_Laws.thy ===== *)
theory Access_Laws
  imports Api_Deps Refinement
begin

text \<open>
  Who a caller is and how often it may write: the fixed window of the rate limit, the way of an issued
  key through the header and its hash back to its account, and what an anonymous caller can be given.
\<close>

subsection \<open>The rate limit\<close>

text \<open>A bucket and a window make one key and no other does.\<close>

lemma py_str_int_no_colon: "CHR '':'' \<notin> set (py_str_int i)"
  using nat_digits_plain by (auto simp: py_str_int_def)

lemma split_first_unique:
  "xs @ c # ys = xs' @ c # ys' \<Longrightarrow> c \<notin> set xs \<Longrightarrow> c \<notin> set xs' \<Longrightarrow> xs = xs' \<and> ys = ys'"
proof (induction xs arbitrary: xs')
  case Nil
  then show ?case by (cases xs') auto
next
  case (Cons x xs)
  then show ?case by (cases xs') auto
qed

lemma split_last_unique:
  assumes "xs @ c # ys = xs' @ c # ys'" and "c \<notin> set ys" and "c \<notin> set ys'"
  shows "xs = xs' \<and> ys = ys'"
  using split_first_unique [of "rev ys" c "rev xs" "rev ys'" "rev xs'"] arg_cong [OF assms(1), of rev] assms(2,3) by simp

lemma window_key_inject: "window_key b w = window_key b' w' \<Longrightarrow> b = b' \<and> w = w'"
  using split_last_unique [of b "CHR '':''" "py_str_int w" b' "py_str_int w'"] py_str_int_no_colon py_str_int_inject
  by (auto simp: window_key_def)

text \<open>The verdicts of a sequence of requests, each with its time, its bucket and its limit.\<close>

fun run_checks ::
  "(string \<Rightarrow> 'r \<Rightarrow> 'r \<times> int option) \<Rightarrow> (int \<times> string \<times> int) list \<Rightarrow> 'r \<Rightarrow> ((int \<times> string \<times> int) \<times> rate_limit_verdict) list" where
  "run_checks pipeline [] r = []"
| "run_checks pipeline ((now, b, l) # reqs) r =
     (case rate_check pipeline now b l r of (r', v) \<Rightarrow> ((now, b, l), v) # run_checks pipeline reqs r')"

definition in_window :: "string \<Rightarrow> int \<Rightarrow> int \<times> string \<times> int \<Rightarrow> bool" where
  "in_window bucket w req \<longleftrightarrow> (case req of (now, b, l) \<Rightarrow> b = bucket \<and> now - now mod 60 = w)"

definition verdicts_in :: "string \<Rightarrow> int \<Rightarrow> ((int \<times> string \<times> int) \<times> rate_limit_verdict) list \<Rightarrow> bool list" where
  "verdicts_in bucket w vs = map (rl_allowed \<circ> snd) (filter (in_window bucket w \<circ> fst) vs)"

lemma run_checks_from:
  fixes count :: "'r \<Rightarrow> string \<Rightarrow> int"
  assumes "\<And>key r. \<exists>r'. pipeline key r = (r', Some (count r key + 1)) \<and> count r' = (count r)(key := count r key + 1)"
  shows "count r (window_key bucket w) = k \<Longrightarrow> \<forall>req \<in> set reqs. in_window bucket w req \<longrightarrow> snd (snd req) = limit \<Longrightarrow>
    verdicts_in bucket w (run_checks pipeline reqs r) =
      map (\<lambda>i. k + int i < limit) [0..<length (filter (in_window bucket w) reqs)]"
proof (induction reqs arbitrary: r k)
  case (Cons req reqs)
  obtain now b l where req: "req = (now, b, l)" by (cases req)
  let ?key = "window_key b (now - now mod 60)"
  obtain r' where r': "pipeline ?key r = (r', Some (count r ?key + 1))" "count r' = (count r)(?key := count r ?key + 1)"
    using assms by blast
  show ?case
  proof (cases "in_window bucket w req")
    case True
    then have key: "?key = window_key bucket w" and l: "l = limit"
      using Cons(3) by (auto simp: req in_window_def)
    have "count r' (window_key bucket w) = k + 1" using r'(2) Cons(2) by (simp add: key)
    note IH = Cons(1) [OF this, unfolded verdicts_in_def]
    have "map (\<lambda>i. k + int i < limit) [0..<Suc n] = (k < limit) # map (\<lambda>i. k + 1 + int i < limit) [0..<n]" for n
      by (simp only: upt_conv_Cons [OF zero_less_Suc] map_Suc_upt [symmetric]) (simp add: ac_simps)
    then show ?thesis
      using True IH Cons(3) r'(1) Cons(2) by (simp add: req verdicts_in_def rate_check_def Let_def key l) linarith
  next
    case False
    then have "?key \<noteq> window_key bucket w"
      using window_key_inject by (auto simp: req in_window_def)
    then have "count r' (window_key bucket w) = k" using r'(2) Cons(2) by simp
    from Cons(1) [OF this] show ?thesis
      using False Cons(3) r'(1) by (simp add: req verdicts_in_def rate_check_def Let_def)
  qed
qed (simp add: verdicts_in_def)

text \<open>
  C36. The write limit. Redis' \<open>INCR\<close> returns one more than what it held for that key and touches no
  other (\<open>count\<close> reads a counter). Then, in any sequence of requests from any callers at any times, of
  the requests one bucket makes in one minute exactly the first \<open>limit\<close> are allowed and every later
  one is refused; no other bucket, whatever its name, and no other minute counts against it.
\<close>

theorem write_limit_per_window:
  fixes count :: "'r \<Rightarrow> string \<Rightarrow> int"
  assumes "\<And>key r. \<exists>r'. pipeline key r = (r', Some (count r key + 1)) \<and> count r' = (count r)(key := count r key + 1)"
    and "count r (window_key bucket w) = 0"
    and "\<forall>req \<in> set reqs. in_window bucket w req \<longrightarrow> snd (snd req) = limit"
  shows "verdicts_in bucket w (run_checks pipeline reqs r) =
    map (\<lambda>i. int i < limit) [0..<length (filter (in_window bucket w) reqs)]"
  using run_checks_from [OF assms(1,2,3)] by simp

theorem write_limit_per_window_witness:
  "verdicts_in ''ip:a'' 60 (run_checks (\<lambda>key r. (r(key := r key + 1), Some (r key + 1)))
     [(61, ''ip:a'', 2), (62, ''ip:b'', 2), (63, ''ip:a'', 2), (64, ''ip:a'', 2), (125, ''ip:a'', 2)] (\<lambda>_. 0)) =
   [True, True, False]"
proof -
  let ?reqs = "[(61, ''ip:a'', 2), (62, ''ip:b'', 2), (63, ''ip:a'', 2), (64, ''ip:a'', 2), (125, ''ip:a'', 2)] :: (int \<times> string \<times> int) list"
  have "filter (in_window ''ip:a'' 60) ?reqs = [(61, ''ip:a'', 2), (63, ''ip:a'', 2), (64, ''ip:a'', 2)]"
    by (simp add: in_window_def)
  then show ?thesis
    using write_limit_per_window [where pipeline = "\<lambda>key r. (r(key := r key + 1), Some (r key + 1))" and count = "\<lambda>r. r"
        and r = "\<lambda>_. 0" and bucket = "''ip:a''" and w = 60 and reqs = ?reqs and limit = 2]
    by (simp add: in_window_def upt_rec)
qed

subsection \<open>Credentials\<close>

text \<open>The accounts' table: one row for a name, one for an id, ids below the sequence.\<close>

definition accounts_ok :: "db \<Rightarrow> bool" where
  "accounts_ok d \<longleftrightarrow> distinct (map ac_name (db_accounts d)) \<and> distinct (map ac_id (db_accounts d)) \<and>
     (\<forall>a \<in> set (db_accounts d). ac_id a < db_next d T_accounts)"

lemma upsert_account_row:
  assumes "accounts_ok d" and "upsert_account now name kind d = Inr (d', t)"
  obtains a where "accounts_ok d'" "a \<in> set (db_accounts d')" "t = tenant_of a" "ac_name a = name"
    "db_api_keys d' = db_api_keys d"
proof -
  let ?row = "\<lparr> ac_id = db_next d T_accounts, ac_name = name, ac_kind = kind, ac_created_at = now, ac_last_seen_at = now \<rparr>"
  have conf: "conflicts account_keys (db_accounts d) ?row \<longleftrightarrow> name \<in> ac_name ` set (db_accounts d)"
    by (auto simp: conflicts_iff account_keys_def)
  show thesis
  proof (cases "name \<in> ac_name ` set (db_accounts d)")
    case True
    then obtain a where a: "a \<in> set (db_accounts d)" "ac_name a = name" by auto
    have "filter (\<lambda>x. ac_name x = name) (db_accounts d) = [a]"
      using filter_unique [of ac_name "db_accounts d" a] assms(1) a by (simp add: accounts_ok_def)
    then have "d' = d\<lparr> db_next := (db_next d)(T_accounts := db_next d T_accounts + 1) \<rparr>" "t = tenant_of a"
      using assms(2) True conf
      by (auto simp: upsert_account_def nextval_def insert_unless_conflict_def Let_def split: if_splits)
    with a assms(1) show thesis by (intro that [of a]) (auto simp: accounts_ok_def)
  next
    case False
    then have "d' = d\<lparr> db_next := (db_next d)(T_accounts := db_next d T_accounts + 1), db_accounts := db_accounts d @ [?row] \<rparr>"
      "t = tenant_of ?row"
      using assms(2) conf
      by (auto simp: upsert_account_def nextval_def insert_unless_conflict_def Let_def split: if_splits)
    with False assms(1) show thesis by (intro that [of ?row]) (auto simp: accounts_ok_def)
  qed
qed

text \<open>The header of a bearer credential gives the credential back.\<close>

lemma parse_bearer_header:
  assumes "raw \<noteq> []" and "\<not> py_space (hd raw)" and "\<not> py_space (last raw)"
  shows "parse_bearer (''Bearer '' @ raw) = Some raw"
proof -
  have "py_strip raw = raw" by (rule py_strip_id [OF assms])
  moreover have "py_lower ''Bearer'' = ''bearer''" by code_simp
  moreover have "py_partition (CHR '' '') (''Bearer '' @ raw) = (''Bearer'', True, raw)" by simp
  ultimately show ?thesis
    using assms(1) by (cases raw) (simp_all add: parse_bearer_def del: py_partition.simps)
qed

lemma resolve_api_key_join:
  "[(k, a). k \<leftarrow> ks, ak_key_hash k = h, a \<leftarrow> as, ac_id a = ak_account_id k] =
   concat (map (\<lambda>k. map (Pair k) (filter (\<lambda>a. ac_id a = ak_account_id k) as)) (filter (\<lambda>k. ak_key_hash k = h) ks))"
  by (rule filter_join)

text \<open>
  C35. An issued key authenticates. After a key has been issued, a request that sends it as a bearer
  credential is resolved, through the text of the header, its hash and the join, to the account it was
  issued for, whatever \<open>X-Demo-Session\<close> says; the account is a real one; and the key authenticated
  nobody before it was issued.
\<close>

theorem issued_key_authenticates:
  assumes "accounts_ok d" and "issue_api_key now token name label d = Inr (d', raw, t)"
    and "token \<noteq> []" and "\<not> py_space (last token)"
  shows "resolve_tenant s now' clock (Some (''Bearer '' @ raw)) session d' =
      Inr (touch_account now' clock t (s_last_seen_refresh_s s) d', t) \<and>
    tn_name t = name \<and> \<not> is_demo t \<and> resolve_api_key d raw = None"
proof -
  obtain d1 where up: "upsert_account now name REAL d = Inr (d1, t)" and kind: "tn_kind t = REAL"
    and raw: "raw = generate_key token"
    using assms(2) by (auto simp: issue_api_key_def Let_def split: sum.splits if_splits prod.splits)
  obtain a where a: "accounts_ok d1" "a \<in> set (db_accounts d1)" "t = tenant_of a" "ac_name a = name"
    "db_api_keys d1 = db_api_keys d"
    by (rule upsert_account_row [OF assms(1) up])
  define k where "k = \<lparr> ak_id = db_next d1 T_api_keys, ak_account_id = tn_account_id t, ak_key_hash = hash_key raw,
    ak_prefix = key_prefix raw, ak_label = label, ak_created_at = now, ak_revoked_at = None \<rparr>"
  have keys: "db_api_keys d' = db_api_keys d @ [k]" and acc: "db_accounts d' = db_accounts d1"
    and new: "\<not> conflicts api_key_keys (db_api_keys d) k"
    using assms(2) up kind a(5) by (auto simp: issue_api_key_def Let_def nextval_def raw k_def split: if_splits)
  have fresh: "filter (\<lambda>x. ak_key_hash x = hash_key raw) (db_api_keys d) = []"
    using new by (auto simp: conflicts_iff api_key_keys_def k_def filter_empty_conv)
  have one: "filter (\<lambda>x. ac_id x = tn_account_id t) (db_accounts d1) = [a]"
    using filter_unique [of ac_id "db_accounts d1" a] a(1-3) by (simp add: accounts_ok_def tenant_of_def)
  have prefix: "py_startswith raw KEY_PREFIX" by (simp add: raw generate_key_def KEY_PREFIX_def)
  have "resolve_api_key d' raw = Some t"
    unfolding resolve_api_key_def resolve_api_key_join keys acc
    using prefix fresh one a(3) by (simp add: Let_def k_def)
  moreover have "resolve_api_key d raw = None"
    unfolding resolve_api_key_def resolve_api_key_join using fresh by (simp add: Let_def)
  moreover have "parse_bearer (''Bearer '' @ raw) = Some raw"
    using assms(3,4) by (intro parse_bearer_header) (simp_all add: raw generate_key_def KEY_PREFIX_def py_space_def)
  ultimately show ?thesis
    using a(3,4) kind by (simp add: resolve_tenant_def Let_def is_demo_def tenant_of_def)
qed

lemma issue_first_key:
  assumes "upsert_account now name REAL d = Inr (d1, t)" and "tn_kind t = REAL" and "db_api_keys d1 = []"
    and "has_account d1 (tn_account_id t)" and "length label \<le> 255"
  shows "\<exists>d'. issue_api_key now token name label d = Inr (d', generate_key token, t)"
  using assms sha256_hexdigest_shape [of "py_encode (generate_key token)"]
  by (simp add: issue_api_key_def Let_def nextval_def hash_key_def conflicts_def has_account_def)

theorem issued_key_authenticates_witness:
  "\<exists>d' t. issue_api_key 5 ''abc'' ''acme'' ''ci'' run1 = Inr (d', ''llk_abc'', t) \<and>
     resolve_tenant default_settings 6 6 (Some ''Bearer llk_abc'') (Some ''whatever'') d' =
       Inr (touch_account 6 6 t (s_last_seen_refresh_s default_settings) d', t) \<and> tn_name t = ''acme''"
proof -
  have ok: "accounts_ok run1" by code_simp
  let ?u = "upsert_account 5 ''acme'' REAL run1"
  have u: "\<not> isl ?u \<and> tn_kind (snd (projr ?u)) = REAL \<and> db_api_keys (fst (projr ?u)) = [] \<and>
      has_account (fst (projr ?u)) (tn_account_id (snd (projr ?u)))" by code_simp
  obtain d' where i: "issue_api_key 5 ''abc'' ''acme'' ''ci'' run1 = Inr (d', ''llk_abc'', snd (projr ?u))"
    using issue_first_key [OF not_isl, of 5 "''acme''" run1 "''ci''" "''abc''"] u by (auto simp: generate_key_def KEY_PREFIX_def)
  show ?thesis
    using i issued_key_authenticates [OF ok i, of default_settings 6 6 "Some ''whatever''"] by (auto simp: py_space_def)
qed

text \<open>
  An account that was issued a key under the name \<open>default\<close> is open to everybody: a request
  without any credential then resolves to that real account, because the name of the shared demo
  tenant is not reserved and the demo lookup returns whatever account holds it.
\<close>

theorem anonymous_gets_real_account:
  assumes "accounts_ok d" and "issue_api_key now token default_account_name label d = Inr (d', raw, t)"
  shows "\<exists>d''. resolve_tenant s now' clock None None d' = Inr (d'', t) \<and> \<not> is_demo t"
proof -
  obtain d1 where up: "upsert_account now default_account_name REAL d = Inr (d1, t)" and kind: "tn_kind t = REAL"
    and acc: "db_accounts d' = db_accounts d1" "db_next d' T_accounts = db_next d1 T_accounts"
    using assms(2) by (auto simp: issue_api_key_def Let_def nextval_def split: sum.splits if_splits)
  obtain a where a: "accounts_ok d1" "a \<in> set (db_accounts d1)" "t = tenant_of a" "ac_name a = default_account_name"
    by (rule upsert_account_row [OF assms(1) up])
  have one: "filter (\<lambda>x. ac_name x = default_account_name) (db_accounts d1) = [a]"
    using filter_unique [of ac_name "db_accounts d1" a] a(1,2,4) by (simp add: accounts_ok_def)
  have "conflicts account_keys (db_accounts d1) row" if "ac_name row = default_account_name" for row
    using a(2,4) that by (auto simp: conflicts_iff account_keys_def)
  then show ?thesis
    using one a(3) kind
    by (auto simp: resolve_tenant_def resolve_demo_account_def upsert_account_def nextval_def insert_unless_conflict_def
        acc Let_def default_account_name_def is_demo_def)
qed

theorem anonymous_gets_real_account_witness:
  "\<exists>d' raw t d''. issue_api_key 5 ''abc'' default_account_name ''ci'' run1 = Inr (d', raw, t) \<and>
     resolve_tenant default_settings 6 6 None None d' = Inr (d'', t) \<and> tn_kind t = REAL"
proof -
  have ok: "accounts_ok run1" by code_simp
  let ?u = "upsert_account 5 default_account_name REAL run1"
  have u: "\<not> isl ?u \<and> tn_kind (snd (projr ?u)) = REAL \<and> db_api_keys (fst (projr ?u)) = [] \<and>
      has_account (fst (projr ?u)) (tn_account_id (snd (projr ?u)))" by code_simp
  obtain d' t where i: "issue_api_key 5 ''abc'' default_account_name ''ci'' run1 = Inr (d', ''llk_abc'', t)"
    using issue_first_key [OF not_isl, of 5 default_account_name run1 "''ci''" "''abc''"] u by (auto simp: generate_key_def KEY_PREFIX_def)
  from anonymous_gets_real_account [OF ok i] obtain d'' where
    "resolve_tenant default_settings 6 6 None None d' = Inr (d'', t)" "\<not> is_demo t" by blast
  then show ?thesis using i by (cases "tn_kind t") (auto simp: is_demo_def)
qed

end
