(* ===== verification/Webhook_Laws.thy ===== *)
theory Webhook_Laws
  imports Refinement
begin

text \<open>
  A provider's delivery from the signed bytes to the stored row: what a refusal may touch, what an
  acceptance means, what a redelivery does, and that the self-test of a source exercises the whole way.
\<close>

subsection \<open>Through the ingestion\<close>

lemma ingest_gateway_row:
  assumes "rows_inv d" and "gateway_webhook_ok p" and "ingest_gateway now t p k body d = Inr (d', out)"
  shows "\<exists>r. row_of_key (db_gateway_transactions d') (tn_account_id t, k) = Some r \<and> rt_id r = io_row_id out \<and>
    io_submissions out = rt_duplicate_count r + 1"
proof -
  let ?t = "tn_account_id t" and ?rows = "db_gateway_transactions d"
  note st = gateway_storable_accepted [OF assms(2,3)]
  have ok: "raw_table_ok (db_next d T_gateway_transactions) ?rows"
    using rows_invD(1) [OF assms(1), of GATEWAY] by (simp add: model_rows_sel raw_table_ok_truncate)
  obtain a where a: "numeric_18_2 (gw_amount p) = Some a" using st by (auto simp: gateway_storable_def)
  show ?thesis
  proof (cases "row_of_key ?rows (?t, k)")
    case None
    from ingest_gateway_fresh [OF st a ingest_gateway_has_account [OF st None assms(3)] None] assms(3)
    show ?thesis using None by (auto simp: row_of_key_append row_of_key_single holds_key_def simp del: enqueue.simps)
  next
    case (Some r)
    from ingest_gateway_again [OF st raw_table_okD(1) [OF ok] Some] assms(3)
    show ?thesis using Some row_of_key_SomeD [OF Some] by (auto simp: row_of_key_update bump_def raw_keys_def simp del: enqueue.simps)
  qed
qed

text \<open>A key that is held is answered as a duplicate, of the row that holds it.\<close>

lemma ingest_gateway_held:
  assumes "rows_inv d" and "gateway_webhook_ok p" and "ingest_gateway now t p k body d = Inr (d', out)"
    and "row_of_key (db_gateway_transactions d) (tn_account_id t, k) = Some r"
  shows "io_duplicate out" "io_row_id out = rt_id r" "io_submissions out = rt_duplicate_count r + 2"
    "map rt_id (db_gateway_transactions d') = map rt_id (db_gateway_transactions d)"
proof -
  have ok: "raw_table_ok (db_next d T_gateway_transactions) (db_gateway_transactions d)"
    using rows_invD(1) [OF assms(1), of GATEWAY] by (simp add: model_rows_sel raw_table_ok_truncate)
  have "d' = enqueue now GATEWAY [out] (d\<lparr> db_next := (db_next d)(T_gateway_transactions := db_next d T_gateway_transactions + 1),
      db_gateway_transactions := update_where (holds_key (tn_account_id t) k) (bump 1) (db_gateway_transactions d) \<rparr>) \<and>
    out = \<lparr> io_row_id = rt_id r, io_txn_id = gw_txn_id p, io_duplicate = True, io_submissions = rt_duplicate_count r + 2 \<rparr>"
    using assms(3) ingest_gateway_again [OF gateway_storable_accepted [OF assms(2,3)] raw_table_okD(1) [OF ok] assms(4),
        of now body] by auto
  then show "io_duplicate out" "io_row_id out = rt_id r" "io_submissions out = rt_duplicate_count r + 2"
    "map rt_id (db_gateway_transactions d') = map rt_id (db_gateway_transactions d)"
    by (auto simp: map_update_where bump_def simp del: enqueue.simps)
qed

lemma ingest_gateway_succeeds:
  assumes "rows_inv d" and "gateway_webhook_ok p" and "length k \<le> 255" and "has_account d (tn_account_id t)"
  shows "\<exists>d' out. ingest_gateway now t p k body d = Inr (d', out) \<and> io_txn_id out = gw_txn_id p"
proof -
  have st: "gateway_storable p k"
    using assms(2,3) money_field_stored
    by (fastforce simp: gateway_storable_def gateway_webhook_ok_def short_id_field_def)
  then obtain a where a: "numeric_18_2 (gw_amount p) = Some a" by (auto simp: gateway_storable_def)
  have ok: "raw_table_ok (db_next d T_gateway_transactions) (db_gateway_transactions d)"
    using rows_invD(1) [OF assms(1), of GATEWAY] by (simp add: model_rows_sel raw_table_ok_truncate)
  show ?thesis
  proof (cases "row_of_key (db_gateway_transactions d) (tn_account_id t, k)")
    case None
    show ?thesis using ingest_gateway_fresh [OF st a assms(4) None] by simp
  next
    case (Some r)
    show ?thesis using ingest_gateway_again [OF st raw_table_okD(1) [OF ok] Some] by simp
  qed
qed

subsection \<open>A source after its deliveries\<close>

text \<open>Neither ingestion nor the stamp of a delivery changes what a token resolves to.\<close>

lemma first_live_stamped:
  "first_live (concat (map (\<lambda>s. map (Pair s) (f (ws_account_id s))) (filter p (map g ss)))) =
   first_live (concat (map (\<lambda>s. map (Pair s) (f (ws_account_id s))) (filter p ss)))"
  if "\<And>s. p (g s) = p s" and "\<And>s. ws_account_id (g s) = ws_account_id s" and "\<And>s. ws_revoked_at (g s) = ws_revoked_at s"
    and "\<And>s. ws_id (g s) = ws_id s" and "\<And>s. ws_provider (g s) = ws_provider s"
    and "\<And>s. ws_signing_secret (g s) = ws_signing_secret s"
proof (induction ss)
  case (Cons s ss)
  then show ?case using that by (cases "f (ws_account_id s)") (auto simp: first_live_def)
qed simp

lemma resolve_source_eq:
  "resolve_source d token = first_live (concat (map (\<lambda>s. map (Pair s)
     (filter (\<lambda>a. ac_id a = ws_account_id s) (db_accounts d))) (filter (\<lambda>s. ws_source_token s = token) (db_webhook_sources d))))"
  unfolding resolve_source_def filter_join ..

lemma resolve_source_delivery [simp]: "resolve_source (record_delivery clock i status d) token = resolve_source d token"
  unfolding resolve_source_eq record_delivery_def update_where_def
  using first_live_stamped [where f = "\<lambda>i. filter (\<lambda>a. ac_id a = i) (db_accounts d)"
      and p = "\<lambda>s. ws_source_token s = token"
      and g = "\<lambda>s. if ws_id s = i then stamp clock status s else s" and ss = "db_webhook_sources d"]
  by (simp add: stamp_def)

lemma resolve_source_same:
  "db_webhook_sources d' = db_webhook_sources d \<Longrightarrow> db_accounts d' = db_accounts d \<Longrightarrow>
     resolve_source d' token = resolve_source d token"
  by (simp add: resolve_source_eq)

lemma ingest_gateway_frame:
  "ingest_gateway now t p k body d = Inr (d', out) \<Longrightarrow>
     db_webhook_sources d' = db_webhook_sources d \<and> db_accounts d' = db_accounts d"
  by (auto simp: ingest_gateway_def nextval_def Let_def simp del: enqueue.simps
      split: option.splits if_splits sum.splits bool.splits list.splits)

subsection \<open>The signed endpoint\<close>

lemma read_body_valid: "edge_ok E \<Longrightarrow> read_body E p raw = Readable body a \<Longrightarrow> gateway_webhook_ok (aw_payload a)"
  using edge_okD by (auto simp: read_body_def split: loads_result.splits json.splits sum.splits adapt_error.splits)

text \<open>The way of an accepted delivery.\<close>

lemma provider_webhook_accepted:
  assumes "provider_webhook E now clock token headers raw_body d = (d', Inr acc)"
  obtains source body adapted d1 where "resolve_source d token = Some source"
    "verify (rs_provider source) raw_body (headers (signature_header (rs_provider source))) (rs_signing_secret source)
       clock DEFAULT_TOLERANCE = Inr Accepted"
    "read_body E (rs_provider source) raw_body = Readable body adapted"
    "ingest_gateway now (rs_tenant source) (aw_payload adapted) (aw_idempotency_key adapted) body d = Inr (d1, wa_result acc)"
    "d' = record_delivery clock (rs_source_id source) OK d1"
  using assms
  by (auto simp: provider_webhook_def split: if_splits option.splits sum.splits verdict.splits reading.splits)

lemma accepted_keeps_source:
  assumes "provider_webhook E now clock token headers raw_body d = (d', Inr acc)"
  shows "resolve_source d' other = resolve_source d other"
proof (rule provider_webhook_accepted [OF assms])
  fix source body adapted d1
  assume "ingest_gateway now (rs_tenant source) (aw_payload adapted) (aw_idempotency_key adapted) body d = Inr (d1, wa_result acc)"
    and "d' = record_delivery clock (rs_source_id source) OK d1"
  then show ?thesis using ingest_gateway_frame [of now "rs_tenant source"] by (simp add: resolve_source_same [of d1 d])
qed

lemma provider_webhook_refused:
  assumes "provider_webhook E now clock token headers raw_body d = (d', Inl e)"
  shows "d' = d \<or> (\<exists>source status. resolve_source d token = Some source \<and> status \<noteq> OK \<and>
    d' = record_delivery clock (rs_source_id source) status d)"
  using assms
  by (auto simp: provider_webhook_def split: if_splits option.splits sum.splits verdict.splits reading.splits)

text \<open>A delivery to a custom source that its secret signed, and a state that has such a source.\<close>

lemma signed_custom_delivery:
  assumes "resolve_source d token = Some source" and "rs_provider source = CUSTOM" and "rows_inv d"
    and "eg_loads E raw_body = Parsed (JObj [])" and "eg_validate E (JObj []) = Some example_payload"
    and "0 \<le> clock" and "clock < 1000" and "8 \<le> length token" and "length token \<le> 64"
  shows "\<exists>d' acc. provider_webhook E now clock token (\<lambda>_. Some (sign CUSTOM raw_body (rs_signing_secret source) clock))
    raw_body d = (d', Inr acc)"
proof -
  have signed: "verify CUSTOM raw_body (Some (sign CUSTOM raw_body (rs_signing_secret source) clock))
      (rs_signing_secret source) clock DEFAULT_TOLERANCE = Inr Accepted"
    by (rule sign_verify) (use assms(6,7) in simp_all)
  have read: "read_body E CUSTOM raw_body = Readable (JObj []) \<lparr> aw_payload = example_payload,
      aw_idempotency_key = ''custom:TXN-1:pay_1'', aw_event_type = ''custom'' \<rparr>"
    using assms(4,5) by (simp add: read_body_def adapt_def adapt_custom_def example_payload_def)
  obtain d1 out where "ingest_gateway now (rs_tenant source) example_payload ''custom:TXN-1:pay_1'' (JObj []) d = Inr (d1, out)"
    using ingest_gateway_succeeds [OF assms(3) example_payload_ok _ resolve_source_account [OF assms(1)],
        of "''custom:TXN-1:pay_1''" now "JObj []"] by auto
  then show ?thesis using assms(1,2,8,9) signed read by (simp add: provider_webhook_def)
qed

definition source_db :: db where
  "source_db = fst (projr (create_source 5 ''tok-12345'' ''r'' example_tenant CUSTOM ''shop'' (Some ''whsec'') run1))"

definition custom_edge :: edge where
  "custom_edge = \<lparr> eg_loads = (\<lambda>_. Parsed (JObj [])), eg_dumps = (\<lambda>_. ''{}''), eg_isoformat = (\<lambda>_. []),
     eg_repr = (\<lambda>_. []), eg_validate = (\<lambda>_. Some example_payload) \<rparr>"

lemma custom_edge_ok: "edge_ok custom_edge"
  by (simp add: edge_ok_def custom_edge_def example_payload_ok)

lemma source_reachable: "reachable default_settings (initial\<lparr> sy_db := source_db \<rparr>)"
proof -
  let ?c = "create_source 5 ''tok-12345'' ''r'' example_tenant CUSTOM ''shop'' (Some ''whsec'') run1"
  have ok: "\<not> isl ?c" by code_simp
  have "reachable default_settings (initial\<lparr> sy_db := run1 \<rparr>)"
    by (rule reachable.step [OF reachable.start step.account]) (simp add: initial_def, rule run_steps(1))
  then have "reachable default_settings (initial\<lparr> sy_db := run1 \<rparr>\<lparr> sy_db := source_db \<rparr>)"
    by (rule reachable.step [OF _ step.source]) (simp add: source_db_def, rule not_isl [OF ok])
  then show ?thesis by simp
qed

lemma source_resolves:
  "resolve_source source_db ''tok-12345'' = Some \<lparr> rs_source_id = 1, rs_provider = CUSTOM, rs_signing_secret = ''whsec'',
     rs_tenant = example_tenant \<rparr>"
  by code_simp

lemma source_delivery:
  assumes "resolve_source d ''tok-12345'' = Some \<lparr> rs_source_id = 1, rs_provider = CUSTOM, rs_signing_secret = ''whsec'',
      rs_tenant = example_tenant \<rparr>" and "rows_inv d"
  shows "\<exists>d' acc. provider_webhook custom_edge 6 7 ''tok-12345'' (\<lambda>_. Some (sign CUSTOM ''{}'' ''whsec'' 7)) ''{}'' d = (d', Inr acc)"
  using signed_custom_delivery [OF assms(1) _ assms(2), of custom_edge "''{}''" 7 6] by (simp add: custom_edge_def)



text \<open>
  C29. A redelivery is a duplicate of the same row. When a provider delivers an accepted body again, to
  the same endpoint and with whatever header the verifier accepts, and it is accepted again, then it is
  reported as a duplicate of the row the first delivery was answered with, as one more submission, and
  no row is added.
\<close>

theorem redelivered_body_is_duplicate:
  assumes "reachable s c" and "edge_ok E"
    and "provider_webhook E now clock token headers raw_body (sy_db c) = (d1, Inr acc)"
    and "provider_webhook E now' clock' token headers' raw_body d1 = (d2, Inr acc')"
  shows "io_duplicate (wa_result acc') \<and> io_row_id (wa_result acc') = io_row_id (wa_result acc) \<and>
    io_submissions (wa_result acc') = io_submissions (wa_result acc) + 1 \<and>
    map rt_id (db_gateway_transactions d2) = map rt_id (db_gateway_transactions d1)"
proof -
  obtain source body adapted d where src: "resolve_source (sy_db c) token = Some source"
    and read: "read_body E (rs_provider source) raw_body = Readable body adapted"
    and ing: "ingest_gateway now (rs_tenant source) (aw_payload adapted) (aw_idempotency_key adapted) body (sy_db c) =
      Inr (d, wa_result acc)" and d1: "d1 = record_delivery clock (rs_source_id source) OK d"
    by (rule provider_webhook_accepted [OF assms(3)])
  obtain source' body' adapted' d' where src': "resolve_source d1 token = Some source'"
    and read': "read_body E (rs_provider source') raw_body = Readable body' adapted'"
    and ing': "ingest_gateway now' (rs_tenant source') (aw_payload adapted') (aw_idempotency_key adapted') body' d1 =
      Inr (d', wa_result acc')" and d2: "d2 = record_delivery clock' (rs_source_id source') OK d'"
    by (rule provider_webhook_accepted [OF assms(4)])
  have "resolve_source d1 token = resolve_source (sy_db c) token" by (rule accepted_keeps_source [OF assms(3)])
  then have same: "source' = source" using src src' by simp
  then have same': "adapted' = adapted" using read read' by simp
  have valid: "gateway_webhook_ok (aw_payload adapted)" by (rule read_body_valid [OF assms(2) read])
  have "reachable s (c\<lparr> sy_db := d1 \<rparr>)"
    unfolding d1 by (rule reachable_delivery [OF reachable_ingest [OF assms(1) valid ing]])
  then have rows: "rows_inv d1" using db_invD(1) [OF reachable_db_inv] by fastforce
  obtain r where r: "row_of_key (db_gateway_transactions d) (tn_account_id (rs_tenant source), aw_idempotency_key adapted) = Some r"
    "rt_id r = io_row_id (wa_result acc)" "io_submissions (wa_result acc) = rt_duplicate_count r + 1"
    using ingest_gateway_row [OF db_invD(1) [OF reachable_db_inv [OF assms(1)]] valid ing] by blast
  have held: "row_of_key (db_gateway_transactions d1) (tn_account_id (rs_tenant source'), aw_idempotency_key adapted') = Some r"
    using r(1) by (simp add: d1 record_delivery_def same same')
  have "gateway_webhook_ok (aw_payload adapted')" using valid same' by simp
  from ingest_gateway_held [OF rows this ing' held] r(2,3) show ?thesis
    by (simp add: d2 record_delivery_def)
qed

theorem redelivered_body_is_duplicate_witness:
  "\<exists>d1 acc d2 acc'. provider_webhook custom_edge 6 7 ''tok-12345'' (\<lambda>_. Some (sign CUSTOM ''{}'' ''whsec'' 7)) ''{}'' source_db = (d1, Inr acc) \<and>
     provider_webhook custom_edge 6 7 ''tok-12345'' (\<lambda>_. Some (sign CUSTOM ''{}'' ''whsec'' 7)) ''{}'' d1 = (d2, Inr acc') \<and>
     io_duplicate (wa_result acc') \<and> io_row_id (wa_result acc') = io_row_id (wa_result acc)"
proof -
  let ?deliver = "provider_webhook custom_edge 6 7 ''tok-12345'' (\<lambda>_. Some (sign CUSTOM ''{}'' ''whsec'' 7)) ''{}''"
  have "rows_inv source_db" using db_invD(1) [OF reachable_db_inv [OF source_reachable]] by simp
  from source_delivery [OF source_resolves this] obtain d1 acc where first: "?deliver source_db = (d1, Inr acc)" by blast
  have "reachable default_settings (initial\<lparr> sy_db := d1 \<rparr>)"
    using provider_webhook_reachable [OF source_reachable custom_edge_ok, of 6 7 "''tok-12345''"
        "\<lambda>_. Some (sign CUSTOM ''{}'' ''whsec'' 7)" "''{}''"] first by simp
  then have rows: "rows_inv d1" using db_invD(1) [OF reachable_db_inv] by fastforce
  have "resolve_source d1 ''tok-12345'' = resolve_source source_db ''tok-12345''" by (rule accepted_keeps_source [OF first])
  from source_delivery [OF this [unfolded source_resolves] rows] obtain d2 acc' where second: "?deliver d1 = (d2, Inr acc')" by blast
  from first have first': "?deliver (sy_db (initial\<lparr> sy_db := source_db \<rparr>)) = (d1, Inr acc)" by simp
  from redelivered_body_is_duplicate [OF source_reachable custom_edge_ok first' second] first second
  show ?thesis by blast
qed

subsection \<open>The self-test\<close>

text \<open>The synthetic event of a Stripe or Razorpay source is one its adapter takes.\<close>

lemma stamp_length: "0 \<le> n \<Longrightarrow> n \<le> 253402300799 \<Longrightarrow> length (py_str_int n) \<le> 12"
proof -
  assume n: "0 \<le> n" "n \<le> 253402300799"
  then have "nat n < 10 ^ 12" by simp
  then show ?thesis using n length_nat_digits [of "nat n" 12] by (simp add: py_str_int_def)
qed

lemma test_currency: "py_upper ''inr'' = ''INR''" "py_upper ''INR'' = ''INR''"
  by code_simp+

lemma test_amount: "minor_to_major (JInt 105000) ''INR'' = Inr (Dec 105000 (-2))"
  unfolding minor_to_major_def test_currency
  by (simp add: three_decimal_def zero_decimal_def dec_scaleb_def dec_fix_id dec_prec_def)

lemma test_payload_ok:
  assumes "length n \<le> 12" and "pre \<in> {''pi_test_'', ''pay_test_''}"
  shows "construct \<lparr> gw_txn_id = ''LEDGERLOOP-TEST-'' @ n, gw_amount = Dec 105000 (-2), gw_currency = ''INR'',
      gw_occurred_at = at_time, gw_gateway_ref = pre @ n \<rparr> =
    Inr \<lparr> gw_txn_id = ''LEDGERLOOP-TEST-'' @ n, gw_amount = Dec 105000 (-2), gw_currency = ''INR'',
      gw_occurred_at = at_time, gw_gateway_ref = pre @ n \<rparr>"
  using assms
  by (auto simp: construct_def gateway_webhook_ok_def short_id_field_def money_field_def iso4217_def)

lemmas adapter_eval = adapt_def synthetic_event_def Let_def get_default_def require_def or_else_def attr_get_def instant_of_def

lemma synthetic_event_adapts:
  assumes "p \<noteq> CUSTOM" and "0 \<le> timestamp_s now" and "timestamp_s now \<le> 253402300799"
  shows "\<exists>a. adapt (eg_repr E) (eg_validate E) p (synthetic_event E p now) = Inr a \<and>
    gw_txn_id (aw_payload a) = ''LEDGERLOOP-TEST-'' @ py_str_int (timestamp_s now) \<and>
    length (aw_idempotency_key a) \<le> 255 \<and> gateway_webhook_ok (aw_payload a)"
proof -
  let ?n = "py_str_int (timestamp_s now)"
  have len: "length ?n \<le> 12" by (rule stamp_length [OF assms(2,3)])
  have ts: "from_timestamp (timestamp_s now) = Some (seconds (timestamp_s now))"
    using assms(2,3) by (simp add: from_timestamp_def)
  have pi: "construct \<lparr> gw_txn_id = ''LEDGERLOOP-TEST-'' @ ?n, gw_amount = Dec 105000 (-2), gw_currency = ''INR'',
      gw_occurred_at = t, gw_gateway_ref = ''pi_test_'' @ ?n \<rparr> = Inr \<lparr> gw_txn_id = ''LEDGERLOOP-TEST-'' @ ?n,
      gw_amount = Dec 105000 (-2), gw_currency = ''INR'', gw_occurred_at = t, gw_gateway_ref = ''pi_test_'' @ ?n \<rparr>"
    and pay: "construct \<lparr> gw_txn_id = ''LEDGERLOOP-TEST-'' @ ?n, gw_amount = Dec 105000 (-2), gw_currency = ''INR'',
      gw_occurred_at = t, gw_gateway_ref = ''pay_test_'' @ ?n \<rparr> = Inr \<lparr> gw_txn_id = ''LEDGERLOOP-TEST-'' @ ?n,
      gw_amount = Dec 105000 (-2), gw_currency = ''INR'', gw_occurred_at = t, gw_gateway_ref = ''pay_test_'' @ ?n \<rparr>" for t
    using test_payload_ok [OF len] by (simp_all del: append_Cons)
  have ok: "gateway_webhook_ok q" if "construct q = Inr q" for q using construct_valid [OF that] by simp
  show ?thesis
  proof (cases p)
    case STRIPE
    show ?thesis
      using len ok [OF pi] pi
      by (simp add: STRIPE adapt_stripe_def adapter_eval test_currency test_amount ts)
  next
    case RAZORPAY
    show ?thesis
      using len ok [OF pay] pay
      by (simp add: RAZORPAY adapt_razorpay_def adapter_eval test_currency test_amount ts)
  qed (use assms(1) in simp)
qed

text \<open>
  C34. The self-test tests the whole way. For a live Stripe or Razorpay source of the caller, in any
  reachable state and at any instant from 1970 to the end of year 9999, whatever the source's secret, the
  synthetic event is signed, verified, adapted and ingested: the test reports a delivery with 202, and
  the transaction it names is stored for the source's tenant.
\<close>

theorem self_test_delivers:
  assumes "reachable s c" and "resolve_source_for_tenant (sy_db c) t i = Some source" and "1 \<le> i"
    and "rs_provider source \<noteq> CUSTOM" and "0 \<le> signing" and "signing < 253402300799 * 1000000"
  shows "\<exists>d' result k r. test_gateway_source E now signing clock t i (sy_db c) = (d', Inr result) \<and>
    wt_delivered result \<and> wt_http_status result = 202 \<and>
    wt_txn_id result = Some (''LEDGERLOOP-TEST-'' @ py_str_int (timestamp_s signing)) \<and>
    row_of_key (db_gateway_transactions d') (tn_account_id t, k) = Some r"
proof -
  let ?p = "rs_provider source" and ?secret = "rs_signing_secret source"
  let ?body = "synthetic_event E ?p signing"
  note ts = timestamp_s_close [OF assms(5,6)]
  have rows: "rows_inv (sy_db c)" by (rule db_invD(1) [OF reachable_db_inv [OF assms(1)]])
  note acc = resolve_source_for_tenant_account [OF assms(2)]
  obtain a where a: "adapt (eg_repr E) (eg_validate E) ?p ?body = Inr a"
    "gw_txn_id (aw_payload a) = ''LEDGERLOOP-TEST-'' @ py_str_int (timestamp_s signing)"
    "length (aw_idempotency_key a) \<le> 255" "gateway_webhook_ok (aw_payload a)"
    using synthetic_event_adapts [OF assms(4) ts(1,2), of E] by blast
  obtain d1 out where ing: "ingest_gateway now (rs_tenant source) (aw_payload a) (aw_idempotency_key a) ?body (sy_db c) = Inr (d1, out)"
    "io_txn_id out = gw_txn_id (aw_payload a)"
    using ingest_gateway_succeeds [OF rows a(4,3) conjunct1 [OF acc]] by blast
  obtain r where "row_of_key (db_gateway_transactions d1) (tn_account_id (rs_tenant source), aw_idempotency_key a) = Some r"
    using ingest_gateway_row [OF rows a(4) ing(1)] by blast
  moreover have "verify ?p (eg_dumps E ?body) (Some (sign ?p (eg_dumps E ?body) ?secret signing)) ?secret signing DEFAULT_TOLERANCE =
      Inr Accepted"
    by (rule sign_verify [OF assms(5,6)])
  ultimately show ?thesis
    using assms(2,3) a(1,2) ing acc
    by (intro exI conjI)
      (simp add: test_gateway_source_def Let_def, simp_all add: record_delivery_def)
qed

theorem self_test_delivers_witness:
  "\<exists>source_db d' result. source_db = fst (projr (create_source 5 ''tok-67890'' ''r'' example_tenant STRIPE ''shop'' None run1)) \<and>
     test_gateway_source custom_edge 8 1700000000000000 9 example_tenant 1 source_db = (d', Inr result) \<and>
     wt_delivered result \<and> wt_http_status result = 202"
proof -
  let ?c = "create_source 5 ''tok-67890'' ''r'' example_tenant STRIPE ''shop'' None run1"
  let ?d = "fst (projr ?c)"
  have ok: "\<not> isl ?c" by code_simp
  have "reachable default_settings (initial\<lparr> sy_db := run1 \<rparr>)"
    by (rule reachable.step [OF reachable.start step.account]) (simp add: initial_def, rule run_steps(1))
  then have "reachable default_settings (initial\<lparr> sy_db := run1 \<rparr>\<lparr> sy_db := ?d \<rparr>)"
    by (rule reachable.step [OF _ step.source]) (simp, rule not_isl [OF ok])
  moreover have "resolve_source_for_tenant ?d example_tenant 1 = Some \<lparr> rs_source_id = 1, rs_provider = STRIPE,
      rs_signing_secret = ''whsec_r'', rs_tenant = example_tenant \<rparr>" by code_simp
  ultimately obtain d' result where "test_gateway_source custom_edge 8 1700000000000000 9 example_tenant 1 ?d = (d', Inr result)"
    "wt_delivered result" "wt_http_status result = 202"
    using self_test_delivers [of default_settings "initial\<lparr> sy_db := run1 \<rparr>\<lparr> sy_db := ?d \<rparr>" example_tenant 1 _ 1700000000000000 custom_edge 8 9]
    by auto
  then show ?thesis by blast
qed

subsection \<open>Secrets stay inside\<close>

text \<open>The same database with other secrets.\<close>

definition with_secrets :: "(int \<Rightarrow> string) \<Rightarrow> db \<Rightarrow> db" where
  "with_secrets f d =
     d\<lparr> db_webhook_sources := map (\<lambda>s. s\<lparr> ws_signing_secret := f (ws_id s) \<rparr>) (db_webhook_sources d) \<rparr>"

lemma sort_key_map: "(\<And>x. k (g x) = k x) \<Longrightarrow> linorder_class.sort_key k (map g xs) = map g (linorder_class.sort_key k xs)"
proof (induction xs)
  case (Cons x xs)
  have "linorder_class.insort_key k (g x) (map g ys) = map g (linorder_class.insort_key k x ys)" for ys
    using Cons(2) by (induction ys) simp_all
  then show ?case using Cons by simp
qed simp

lemma source_conflicts_secrets:
  "conflicts webhook_source_keys (map (\<lambda>s. s\<lparr> ws_signing_secret := f (ws_id s) \<rparr>) rows) q \<longleftrightarrow>
     conflicts webhook_source_keys rows q"
  by (auto simp: conflicts_iff webhook_source_keys_def)

text \<open>
  C30. No answer about the sources shows a secret. With every stored secret replaced by any other, the
  list of a tenant's sources is the same; and whatever secret is drawn for a new source, the answer to its
  creation, errors included, is the same.
\<close>

theorem secrets_stay_inside:
  assumes "length fresh \<le> 249" and "length fresh' \<le> 249"
  shows "list_gateway_sources (with_secrets f d) t = list_gateway_sources d t \<and>
    snd (create_gateway_source now token fresh t provider label d) =
      snd (create_gateway_source now token fresh' t provider label (with_secrets f d))"
proof
  let ?g = "\<lambda>s :: webhook_source. s\<lparr> ws_signing_secret := f (ws_id s) \<rparr>"
  have "filter (\<lambda>s. ws_account_id s = tn_account_id t) (map ?g rows) =
      map ?g (filter (\<lambda>s. ws_account_id s = tn_account_id t) rows)" for rows
    by (simp add: filter_map comp_def)
  moreover have "linorder_class.sort_key ws_id (map ?g rows) = map ?g (linorder_class.sort_key ws_id rows)" for rows
    by (rule sort_key_map) simp
  moreover have "source_out (?g s) = source_out s" for s by (simp add: source_out_def)
  ultimately show "list_gateway_sources (with_secrets f d) t = list_gateway_sources d t"
    by (simp add: list_gateway_sources_def list_sources_def with_secrets_def comp_def)
  have keys: "webhook_source_keys s = webhook_source_keys q" if "ws_source_token s = ws_source_token q" for s q
    using that by (simp add: webhook_source_keys_def)
  show "snd (create_gateway_source now token fresh t provider label d) =
      snd (create_gateway_source now token fresh' t provider label (with_secrets f d))"
    using assms
    by (simp add: create_gateway_source_def create_source_def nextval_def with_secrets_def has_account_def Let_def
        source_out_def generate_signing_secret_def conflicts_iff webhook_source_keys_def)
qed

theorem secrets_stay_inside_witness:
  "map wo_id (list_gateway_sources (with_secrets (\<lambda>_. ''other'')
     (fst (create_gateway_source 3 ''token-1'' ''s'' example_tenant STRIPE ''prod'' run1))) example_tenant) = [1]"
proof -
  let ?d = "fst (create_gateway_source 3 ''token-1'' ''s'' example_tenant STRIPE ''prod'' run1)"
  have "list_gateway_sources (with_secrets (\<lambda>_. ''other'') ?d) example_tenant = list_gateway_sources ?d example_tenant"
    using secrets_stay_inside [of "''s''" "''s''" "\<lambda>_. ''other''" ?d example_tenant] by simp
  moreover have "map wo_id (list_gateway_sources ?d example_tenant) = [1]" by code_simp
  ultimately show ?thesis by simp
qed

end
