(* ===== verification/Load_Generator.thy ===== *)
theory Load_Generator
  imports Api_Schemas Queries Float_Model Py_Strings
begin

text \<open>
  \<open>scripts/generate_load.py\<close> and the verdict of \<open>scripts/benchmark.py\<close>: the generator that plans
  payments with injected defects, predicts the engine's counts from its own copy of the layer rules,
  and compares them with \<open>/v1/stats\<close>. What a random generator returns, the clock and the answers of the
  API are arguments. Left out: the HTTP client, pacing, and everything that is only printed.
\<close>

subsection \<open>Data\<close>

text \<open>The rates are floats; only their comparison with a draw is used, so they are their exact values.\<close>

record load_config =
  lc_drop_rate :: rat
  lc_duplicate_rate :: rat
  lc_drift_rate :: rat
  lc_currency :: string
  lc_ledger_batch :: nat

record planned_txn =
  pt_txn_id :: string
  pt_amount :: decimal
  pt_ledger_amount :: decimal
  pt_currency :: string
  pt_occurred_at :: instant
  pt_ledger_occurred_at :: instant
  pt_idempotency_key :: string
  pt_entry_id :: string
  pt_duplicate :: bool
  pt_dropped :: bool

record ground_truth =
  gt_matched :: nat
  gt_matched_exact :: nat
  gt_matched_time_drift :: nat
  gt_amount_drift :: nat
  gt_unmatched_gateway_only :: nat
  gt_unmatched_ledger_only :: nat
  gt_duplicates :: nat
  gt_transactions_planned :: nat
  gt_gateway_requests_sent :: nat
  gt_ledger_entries_sent :: nat
  gt_ledger_batches_sent :: nat
  gt_http_errors :: "string \<Rightarrow> nat"

definition no_truth :: ground_truth where
  "no_truth =
     \<lparr> gt_matched = 0, gt_matched_exact = 0, gt_matched_time_drift = 0, gt_amount_drift = 0,
       gt_unmatched_gateway_only = 0, gt_unmatched_ledger_only = 0, gt_duplicates = 0,
       gt_transactions_planned = 0, gt_gateway_requests_sent = 0, gt_ledger_entries_sent = 0,
       gt_ledger_batches_sent = 0, gt_http_errors = (\<lambda>_. 0) \<rparr>"

definition expected_active :: "ground_truth \<Rightarrow> nat" where
  "expected_active g =
     gt_matched g + gt_amount_drift g + gt_unmatched_gateway_only g + gt_unmatched_ledger_only g"

definition expected_results :: "ground_truth \<Rightarrow> nat" where
  "expected_results g =
     gt_matched g + gt_amount_drift g + gt_unmatched_gateway_only g + gt_unmatched_ledger_only g + gt_duplicates g"

text \<open>The rate is an exact quotient here, as \<open>match_rate\<close> of the statistics is.\<close>

definition expected_match_rate :: "ground_truth \<Rightarrow> rat" where
  "expected_match_rate g =
     (if expected_active g \<noteq> 0 then of_nat (gt_matched g) / of_nat (expected_active g) else 0)"

subsection \<open>Planning a transaction\<close>

text \<open>\<open>Decimal + Decimal\<close>.\<close>

definition dec_add :: "decimal \<Rightarrow> decimal \<Rightarrow> decimal" where
  "dec_add a b = (case align a b of (x, y, m) \<Rightarrow> dec_fix (Dec (x + y) m))"

text \<open>
  \<open>value.quantize(Decimal("0.01"), rounding=ROUND_HALF_UP)\<close>: ties go away from zero, and a result of
  more than 28 digits raises \<open>InvalidOperation\<close>, the \<open>None\<close> here.
\<close>

definition cents :: "decimal \<Rightarrow> int" where
  "cents d =
     (if -2 \<le> expo d then coeff d * 10 ^ nat (expo d + 2)
      else let h = 10 ^ nat (- 2 - expo d)
           in sgn (coeff d) * ((2 * \<bar>coeff d\<bar> + h) div (2 * h)))"

definition money :: "decimal \<Rightarrow> decimal option" where
  "money d = (if \<bar>cents d\<bar> < 10 ^ dec_prec then Some (Dec (cents d) (-2)) else None)"

text \<open>
  What one call draws: \<open>Decimal(rng.uniform(50, 50_000))\<close>, which is the float's exact value; the three
  \<open>rng.random()\<close>; \<open>Decimal(str(rng.uniform(0.002, 0.008)))\<close> and the sign's \<open>rng.random()\<close>, drawn only when
  the transaction drifts; \<open>timedelta(milliseconds=rng.gauss(..))\<close>; and the clock.
\<close>

record draws =
  dw_amount :: decimal
  dw_now :: instant
  dw_drop :: rat
  dw_duplicate :: rat
  dw_drift :: rat
  dw_fraction :: decimal
  dw_sign :: rat
  dw_skew :: duration

text \<open>\<open>f"{seq:08d}"\<close>.\<close>

definition pad8 :: "nat \<Rightarrow> string" where
  "pad8 n = replicate (8 - length (nat_digits n)) CHR ''0'' @ nat_digits n"

definition drifts :: "load_config \<Rightarrow> draws \<Rightarrow> bool" where
  "drifts cfg dw \<longleftrightarrow> dw_drift dw < lc_drift_rate cfg"

definition ledger_amount_of :: "load_config \<Rightarrow> draws \<Rightarrow> decimal \<Rightarrow> decimal option" where
  "ledger_amount_of cfg dw amount =
     (if drifts cfg dw then
        let fraction = dec_mult (dw_fraction dw) (Dec (if dw_sign dw < 1 / 2 then 1 else -1) 0)
        in (case money (dec_add amount (dec_mult amount fraction)) of
              None \<Rightarrow> None
            | Some ledger_amount \<Rightarrow>
                if dec_eq ledger_amount amount then money (dec_add amount (Dec 1 (-2)))
                else Some ledger_amount)
      else Some amount)"

definition plan_transaction :: "load_config \<Rightarrow> draws \<Rightarrow> nat \<Rightarrow> string \<Rightarrow> planned_txn option" where
  "plan_transaction cfg dw seq run_id =
     (let txn_id = ''TXN-'' @ run_id @ ''-'' @ pad8 seq in
      (case money (dw_amount dw) of
         None \<Rightarrow> None
       | Some amount \<Rightarrow>
      (case ledger_amount_of cfg dw amount of
         None \<Rightarrow> None
       | Some ledger_amount \<Rightarrow>
           Some \<lparr> pt_txn_id = txn_id,
                  pt_amount = amount,
                  pt_ledger_amount = ledger_amount,
                  pt_currency = lc_currency cfg,
                  pt_occurred_at = dw_now dw,
                  pt_ledger_occurred_at = dw_now dw + dw_skew dw,
                  pt_idempotency_key = ''gw-'' @ txn_id,
                  pt_entry_id = ''LEDG-'' @ run_id @ ''-'' @ pad8 seq,
                  pt_duplicate = (dw_duplicate dw < lc_duplicate_rate cfg),
                  pt_dropped = (dw_drop dw < lc_drop_rate cfg) \<rparr>)))"

subsection \<open>Predicting the verdict\<close>

text \<open>\<open>abs((a - b).total_seconds())\<close>, a float, and its comparison with \<open>DRIFT_WINDOW_S\<close> and \<open>EXACT_WINDOW_S\<close>.\<close>

definition abs_total_seconds :: "duration \<Rightarrow> dyadic" where
  "abs_total_seconds dt = float_div \<bar>dt\<bar> 1000000"

definition predict :: "planned_txn \<Rightarrow> string" where
  "predict txn =
     (if pt_dropped txn then ''unmatched_gateway_only''
      else
        let dt = float_val (abs_total_seconds (pt_ledger_occurred_at txn - pt_occurred_at txn)) in
        if 60 < dt then ''unmatched_both''
        else if \<not> dec_eq (pt_ledger_amount txn) (pt_amount txn) then
          let tolerance = dec_max (dec_mult (dec_abs (pt_amount txn)) (Dec 1 (-2))) (Dec 1000 (-2)) in
          if dec_le (dec_abs (dec_sub (pt_amount txn) (pt_ledger_amount txn))) tolerance then ''amount_drift''
          else ''unmatched_both''
        else if dt \<le> 2 then ''matched_exact'' else ''matched_time_drift'')"

definition record_txn :: "ground_truth \<Rightarrow> planned_txn \<Rightarrow> ground_truth" where
  "record_txn truth txn =
     (let verdict = predict txn;
          truth1 =
            (if verdict = ''matched_exact'' then
               truth\<lparr> gt_matched := gt_matched truth + 1, gt_matched_exact := gt_matched_exact truth + 1 \<rparr>
             else if verdict = ''matched_time_drift'' then
               truth\<lparr> gt_matched := gt_matched truth + 1, gt_matched_time_drift := gt_matched_time_drift truth + 1 \<rparr>
             else if verdict = ''amount_drift'' then
               truth\<lparr> gt_amount_drift := gt_amount_drift truth + 1 \<rparr>
             else if verdict = ''unmatched_gateway_only'' then
               truth\<lparr> gt_unmatched_gateway_only := gt_unmatched_gateway_only truth + 1 \<rparr>
             else if verdict = ''unmatched_both'' then
               truth\<lparr> gt_unmatched_gateway_only := gt_unmatched_gateway_only truth + 1,
                      gt_unmatched_ledger_only := gt_unmatched_ledger_only truth + 1 \<rparr>
             else truth)
      in if pt_duplicate txn then truth1\<lparr> gt_duplicates := gt_duplicates truth1 + 1 \<rparr> else truth1)"

text \<open>
  The planner's loop, one element of the list per iteration that found time left: the ground truth, what
  it put on the gateway's queue and on the ledger's. An exception ends the run.
\<close>

fun planner ::
  "load_config \<Rightarrow> string \<Rightarrow> nat \<Rightarrow> draws list \<Rightarrow> ground_truth \<Rightarrow>
     (ground_truth \<times> planned_txn list \<times> planned_txn list) option" where
  "planner cfg run_id seq [] truth = Some (truth, [], [])"
| "planner cfg run_id seq (dw # dws) truth =
     (case plan_transaction cfg dw seq run_id of
        None \<Rightarrow> None
      | Some txn \<Rightarrow>
          let truth1 = record_txn truth txn;
              truth2 = truth1\<lparr> gt_transactions_planned := gt_transactions_planned truth1 + 1 \<rparr>
          in (case planner cfg run_id (seq + 1) dws truth2 of
                None \<Rightarrow> None
              | Some (truth3, gateway_queue, ledger_queue) \<Rightarrow>
                  Some (truth3, txn # gateway_queue,
                    if pt_dropped txn then ledger_queue else txn # ledger_queue)))"

subsection \<open>Sending\<close>

text \<open>
  The bodies by their fields, as the API reads them back; the text of an amount or an instant in the JSON
  is not modelled.
\<close>

definition gateway_body :: "planned_txn \<Rightarrow> gateway_webhook_in" where
  "gateway_body txn =
     \<lparr> gw_txn_id = pt_txn_id txn, gw_amount = pt_amount txn, gw_currency = pt_currency txn,
       gw_occurred_at = pt_occurred_at txn, gw_gateway_ref = ''REF-'' @ pt_txn_id txn \<rparr>"

definition ledger_body :: "planned_txn \<Rightarrow> ledger_entry_in" where
  "ledger_body txn =
     \<lparr> li_entry_id = pt_entry_id txn, li_txn_id = pt_txn_id txn, li_amount = pt_ledger_amount txn,
       li_currency = pt_currency txn, li_occurred_at = pt_ledger_occurred_at txn,
       li_idempotency_key = ''ld-'' @ pt_txn_id txn \<rparr>"

text \<open>A \<open>post\<close> answers with a status code or raises an exception of some type.\<close>

datatype http_answer = Status nat | Raised string

definition count_error :: "string \<Rightarrow> ground_truth \<Rightarrow> ground_truth" where
  "count_error label truth =
     truth\<lparr> gt_http_errors := (gt_http_errors truth)(label := gt_http_errors truth label + 1) \<rparr>"

fun gateway_answer :: "http_answer \<Rightarrow> ground_truth \<Rightarrow> ground_truth" where
  "gateway_answer (Status code) truth =
     (let truth1 = truth\<lparr> gt_gateway_requests_sent := gt_gateway_requests_sent truth + 1 \<rparr>
      in if code \<noteq> 202 then count_error (''gateway:'' @ nat_digits code) truth1 else truth1)"
| "gateway_answer (Raised name) truth = count_error (''gateway:'' @ name) truth"

text \<open>The requests \<open>gateway_sender\<close> makes for a transaction: the body and its idempotency key.\<close>

definition gateway_requests :: "planned_txn \<Rightarrow> (gateway_webhook_in \<times> string) list" where
  "gateway_requests txn =
     replicate (if pt_duplicate txn then 2 else 1) (gateway_body txn, pt_idempotency_key txn)"

fun ledger_answer :: "nat \<Rightarrow> http_answer \<Rightarrow> ground_truth \<Rightarrow> ground_truth" where
  "ledger_answer size_of_batch (Status code) truth =
     (let truth1 = truth\<lparr> gt_ledger_entries_sent := gt_ledger_entries_sent truth + size_of_batch,
                          gt_ledger_batches_sent := gt_ledger_batches_sent truth + 1 \<rparr>
      in if code \<noteq> 202 then count_error (''ledger:'' @ nat_digits code) truth1 else truth1)"
| "ledger_answer size_of_batch (Raised name) truth = count_error (''ledger:'' @ name) truth"

text \<open>
  What \<open>ledger_sender\<close> sees on its queue: a transaction (and whether its deadline has passed by then), a
  timeout, or the sentinel. The result is the batches it posts and what is left in \<open>batch\<close>.
\<close>

datatype queue_event = Got planned_txn bool | TimedOut | Sentinel

definition flushed :: "planned_txn list \<Rightarrow> planned_txn list list" where
  "flushed batch = (if batch = [] then [] else [batch])"

fun ledger_sender ::
  "nat \<Rightarrow> planned_txn list \<Rightarrow> queue_event list \<Rightarrow> planned_txn list list \<times> planned_txn list" where
  "ledger_sender n batch [] = ([], batch)"
| "ledger_sender n batch (TimedOut # es) =
     (case ledger_sender n [] es of (sent, rest) \<Rightarrow> (flushed batch @ sent, rest))"
| "ledger_sender n batch (Sentinel # es) = (flushed batch, [])"
| "ledger_sender n batch (Got txn late # es) =
     (let batch1 = batch @ [txn] in
      if n \<le> length batch1 \<or> late
      then (case ledger_sender n [] es of (sent, rest) \<Rightarrow> (flushed batch1 @ sent, rest))
      else ledger_sender n batch1 es)"

subsection \<open>Comparing with the engine\<close>

text \<open>\<open>ok\<close> of \<open>print_verification\<close>: no category has a difference.\<close>

definition verification_ok :: "ground_truth \<Rightarrow> stats_row \<Rightarrow> bool" where
  "verification_ok truth stats \<longleftrightarrow>
     (let expected_unmatched = gt_unmatched_gateway_only truth + gt_unmatched_ledger_only truth;
          rows = [(gt_matched truth, st_matched stats), (gt_amount_drift truth, st_drift stats),
                  (expected_unmatched, st_unmatched stats), (gt_duplicates truth, st_duplicates stats)]
      in list_all (\<lambda>(expected, actual). int actual - int expected = 0) rows)"

text \<open>
  \<open>wait_for_settlement\<close> of the benchmark: the statistics polled before the deadline, in order, until
  enough results exist.
\<close>

definition produced :: "stats_row \<Rightarrow> nat" where
  "produced stats = st_matched stats + st_unmatched stats + st_drift stats + st_duplicates stats"

fun wait_for_settlement :: "nat \<Rightarrow> stats_row option \<Rightarrow> stats_row list \<Rightarrow> stats_row option" where
  "wait_for_settlement expected seen [] = seen"
| "wait_for_settlement expected seen (stats # polls) =
     (if expected \<le> produced stats then Some stats else wait_for_settlement expected (Some stats) polls)"

text \<open>\<open>correct\<close> of \<open>run_one\<close>, and the exit code of the benchmark.\<close>

definition run_correct :: "ground_truth \<Rightarrow> stats_row option \<Rightarrow> bool" where
  "run_correct truth stats =
     (case stats of
        None \<Rightarrow> False
      | Some st \<Rightarrow>
          st_matched st = gt_matched truth \<and> st_drift st = gt_amount_drift truth \<and>
          st_duplicates st = gt_duplicates truth \<and>
          st_unmatched st = gt_unmatched_gateway_only truth + gt_unmatched_ledger_only truth)"

text \<open>The exit code of \<open>main_async\<close> of the generator.\<close>

definition exit_code :: "bool \<Rightarrow> ground_truth \<Rightarrow> stats_row option \<Rightarrow> int" where
  "exit_code verify truth stats =
     (if \<not> verify then 0
      else case stats of None \<Rightarrow> 2 | Some st \<Rightarrow> if verification_ok truth st then 0 else 1)"

end
