(* ===== verification/Load_Laws.thy ===== *)
theory Load_Laws
  imports Guarantees Load_Generator
begin

text \<open>
  The generator against the engine: the injected drift stays inside the tolerance, the predicted verdict
  is the matcher's, and the counts it predicts are the counts the statistics report once the engine has
  settled.
\<close>

subsection \<open>Whole seconds\<close>

text \<open>The float of a number of microseconds compares with a small whole number as the duration does.\<close>

lemma float_seconds_le:
  assumes "0 < k" and "k \<le> 1000" and exact: "float_val (float_div (k * 1000000) 1000000) = of_int k"
    and "0 \<le> us"
  shows "float_val (float_div us 1000000) \<le> of_int k \<longleftrightarrow> us \<le> k * 1000000"
proof -
  define x where "x = (of_int us / 1000000 :: rat)"
  define y where "y = float_val (float_div us 1000000)"
  have x0: "0 \<le> x" using assms(4) by (simp add: x_def)
  have "\<bar>y - x\<bar> \<le> x / 2 ^ 53" using float_div_error [of us 1000000] assms(4) by (simp add: x_def y_def)
  then have hi: "y \<le> x + x / 9007199254740992" and lo: "x - x / 9007199254740992 \<le> y"
    unfolding abs_le_iff power_numeral by simp_all
  have k: "(0 :: rat) < of_int k" "(of_int k :: rat) \<le> 1000" using assms(1,2) by simp_all
  consider "us < k * 1000000" | "us = k * 1000000" | "k * 1000000 < us" by linarith
  then show ?thesis
  proof cases
    case 1
    then have "us + 1 \<le> k * 1000000" by simp
    then have "(of_int (us + 1) :: rat) \<le> of_int (k * 1000000)" by (simp only: of_int_le_iff)
    then have "x + 1 / 1000000 \<le> of_int k" by (simp add: x_def field_simps)
    then have "y \<le> of_int k" using hi k x0 by linarith
    then show ?thesis using 1 by (simp add: y_def)
  next
    case 2
    then show ?thesis using exact by simp
  next
    case 3
    then have "k * 1000000 + 1 \<le> us" by simp
    then have "(of_int (k * 1000000 + 1) :: rat) \<le> of_int us" by (simp only: of_int_le_iff)
    then have "of_int k + 1 / 1000000 \<le> x" by (simp add: x_def field_simps)
    then have "of_int k < y" using lo k by linarith
    then show ?thesis using 3 by (simp add: y_def)
  qed
qed

lemma seconds_exact:
  "float_val (float_div (60 * 1000000) 1000000) = of_int 60"
  "float_val (float_div (2 * 1000000) 1000000) = of_int 2"
  by code_simp+

lemma abs_total_seconds_le:
  "float_val (abs_total_seconds dt) \<le> 60 \<longleftrightarrow> \<bar>dt\<bar> \<le> seconds 60"
  "float_val (abs_total_seconds dt) \<le> 2 \<longleftrightarrow> \<bar>dt\<bar> \<le> seconds 2"
  using float_seconds_le [of 60 "\<bar>dt\<bar>"] float_seconds_le [of 2 "\<bar>dt\<bar>"] seconds_exact
  by (simp_all add: abs_total_seconds_def seconds_def)

subsection \<open>The predicted verdict\<close>

text \<open>The matcher's facts of the two rows a planned transaction is stored as.\<close>

definition gateway_facts :: "planned_txn \<Rightarrow> txn_facts \<Rightarrow> bool" where
  "gateway_facts txn f \<longleftrightarrow>
     tf_side f = GATEWAY \<and> tf_txn_id f = pt_txn_id txn \<and> tf_amount f = pt_amount txn \<and>
     tf_currency f = pt_currency txn \<and> tf_occurred_at f = pt_occurred_at txn"

definition ledger_facts :: "planned_txn \<Rightarrow> txn_facts \<Rightarrow> bool" where
  "ledger_facts txn f \<longleftrightarrow>
     tf_side f = LEDGER \<and> tf_txn_id f = pt_txn_id txn \<and> tf_amount f = pt_ledger_amount txn \<and>
     tf_currency f = pt_currency txn \<and> tf_occurred_at f = pt_ledger_occurred_at txn"

text \<open>The generator's word for what the engine does with the pair.\<close>

definition verdict_word :: "(recon_status \<times> match_layer) option \<Rightarrow> string" where
  "verdict_word v =
     (case v of
        None \<Rightarrow> ''unmatched_both''
      | Some (status, layer) \<Rightarrow>
          if status = MATCHED then (if layer = L_EXACT then ''matched_exact'' else ''matched_time_drift'')
          else ''amount_drift'')"

lemma dec_max_congr: "dec_val b = dec_val c \<Longrightarrow> dec_le x (dec_max a b) = dec_le x (dec_max a c)"
  by (simp add: dec_le_iff dec_val_max)

lemma default_abs: "dec_val (Dec 1000 (-2)) = dec_val (Dec 100 (-1))"
  by code_simp

lemma predict_is_classify:
  assumes "\<not> pt_dropped txn" and "gateway_facts txn g" and "ledger_facts txn e"
    and "tf_tenant_id g = tf_tenant_id e"
  shows "predict txn = verdict_word (classify_pair g e (from_settings default_settings))"
proof -
  let ?dt = "pt_ledger_occurred_at txn - pt_occurred_at txn"
  have dt: "time_delta g e = \<bar>?dt\<bar>"
    using assms(2,3) by (simp add: time_delta_def gateway_facts_def ledger_facts_def abs_minus_commute)
  have tol: "dec_le x (amount_tolerance (pt_amount txn) (from_settings default_settings)) =
      dec_le x (dec_max (dec_mult (dec_abs (pt_amount txn)) (Dec 1 (-2))) (Dec 1000 (-2)))" for x
    using dec_max_congr [OF default_abs]
    by (simp add: amount_tolerance_def from_settings_def default_settings_def)
  have amt: "dec_eq (pt_ledger_amount txn) (pt_amount txn) \<longleftrightarrow> dec_eq (tf_amount g) (tf_amount e)"
    using assms(2,3) dec_eq_commute by (simp add: gateway_facts_def ledger_facts_def)
  have win: "mc_drift_window (from_settings default_settings) = seconds 60"
    "mc_exact_window (from_settings default_settings) = seconds 2"
    by (simp_all add: from_settings_def default_settings_def)
  have lt: "60 < float_val (abs_total_seconds ?dt) \<longleftrightarrow> \<not> \<bar>?dt\<bar> \<le> seconds 60"
    using abs_total_seconds_le(1) [of ?dt] by auto
  have le: "seconds 2 \<le> seconds 60" by (simp add: seconds_def)
  have guards: "tf_side g \<noteq> tf_side e" "tf_txn_id g = tf_txn_id e" "tf_currency g = tf_currency e"
    "gateway_and_ledger g e = (g, e)" "tf_amount g = pt_amount txn" "tf_amount e = pt_ledger_amount txn"
    using assms(2,3) by (simp_all add: gateway_facts_def ledger_facts_def gateway_and_ledger_def)
  show ?thesis
    using assms(1,4) guards le
    unfolding predict_def classify_pair_def Let_def dt win amt lt abs_total_seconds_le(2)
    by (auto simp: verdict_word_def tol)
qed

text \<open>
  The load generator predicts the matcher. For every planned transaction whose ledger side is sent, and
  any two rows that carry its two sides within one tenant, the verdict of the generator's own copy of the
  layer rules (float seconds and all) is the verdict of the matcher under the default settings, whichever
  row the matcher starts from.
\<close>

theorem generator_predicts_matcher:
  assumes "\<not> pt_dropped txn" and "gateway_facts txn g" and "ledger_facts txn e"
    and "tf_tenant_id g = tf_tenant_id e"
  shows "verdict_word (classify_pair g e (from_settings default_settings)) = predict txn \<and>
    verdict_word (classify_pair e g (from_settings default_settings)) = predict txn"
  using predict_is_classify [OF assms] classify_pair_commute [of e g] by simp

definition sample_txn :: planned_txn where
  "sample_txn =
     \<lparr> pt_txn_id = ''T'', pt_amount = Dec 250000 (-2), pt_ledger_amount = Dec 249000 (-2),
       pt_currency = ''INR'', pt_occurred_at = 0, pt_ledger_occurred_at = 400000,
       pt_idempotency_key = ''gw-T'', pt_entry_id = ''L'', pt_duplicate = False, pt_dropped = False \<rparr>"

definition sample_gateway :: txn_facts where
  "sample_gateway =
     \<lparr> tf_side = GATEWAY, tf_tenant_id = 1, tf_row_id = 1, tf_txn_id = ''T'', tf_amount = Dec 250000 (-2),
       tf_currency = ''INR'', tf_occurred_at = 0, tf_received_at = 5 \<rparr>"

definition sample_ledger :: txn_facts where
  "sample_ledger =
     \<lparr> tf_side = LEDGER, tf_tenant_id = 1, tf_row_id = 1, tf_txn_id = ''T'', tf_amount = Dec 249000 (-2),
       tf_currency = ''INR'', tf_occurred_at = 400000, tf_received_at = 6 \<rparr>"

theorem generator_predicts_matcher_witness:
  "predict sample_txn = ''amount_drift'' \<and>
   verdict_word (classify_pair sample_ledger sample_gateway (from_settings default_settings)) = ''amount_drift''"
proof -
  have within: "\<not> 60 < float_val (abs_total_seconds 400000)"
    using abs_total_seconds_le(1) [of 400000] by (simp add: seconds_def)
  have p: "predict sample_txn = ''amount_drift''"
    using within by (simp add: predict_def sample_txn_def decimal_eval)
  have "verdict_word (classify_pair sample_ledger sample_gateway (from_settings default_settings)) = predict sample_txn"
    by (rule generator_predicts_matcher [of sample_txn sample_gateway sample_ledger, THEN conjunct2])
      (simp_all add: sample_txn_def sample_gateway_def sample_ledger_def gateway_facts_def ledger_facts_def)
  with p show ?thesis by simp
qed

subsection \<open>The injected drift\<close>

lemma cents_error: "\<bar>of_int (cents d) - 100 * dec_val d\<bar> \<le> 1 / 2"
proof (cases "-2 \<le> expo d")
  case True
  have "(10 :: rat) powi expo d = 10 powi (int (nat (expo d + 2)) + (-2))" using True by simp
  also have "\<dots> = 10 ^ nat (expo d + 2) * 10 powi (-2)"
    by (subst power_int_add) (auto simp: power_int_def)
  finally have "100 * (10 :: rat) powi expo d = 10 ^ nat (expo d + 2)"
    by (simp add: power_int_def [of _ "-2"] power2_eq_square)
  then have "100 * dec_val d = of_int (cents d)" using True by (simp add: cents_def dec_val_def algebra_simps)
  then show ?thesis by simp
next
  case False
  define h where "h = (10 :: int) ^ nat (- 2 - expo d)"
  define n where "n = \<bar>coeff d\<bar>"
  define q where "q = (2 * n + h) div (2 * h)"
  have h: "0 < h" by (simp add: h_def)
  have "(10 :: rat) powi (-2) = 10 powi (int (nat (- 2 - expo d)) + expo d)" using False by simp
  also have "\<dots> = of_int h * 10 powi expo d" by (subst power_int_add) (auto simp: h_def power_int_def)
  finally have "of_int h * (10 :: rat) powi expo d = 1 / 100" by (simp add: power_int_def power2_eq_square)
  then have p: "(10 :: rat) powi expo d = 1 / 100 / of_int h" using h by (simp add: field_simps)
  have v: "100 * dec_val d = of_int (sgn (coeff d)) * (of_int n / of_int h)"
    unfolding dec_val_def p n_def using h by (cases "coeff d" "0 :: int" rule: linorder_cases) simp_all
  have c: "cents d = sgn (coeff d) * q" using False by (simp add: cents_def h_def n_def q_def Let_def)
  have "q * (2 * h) \<le> 2 * n + h" "2 * n + h < (q + 1) * (2 * h)"
    using h minus_mod_eq_div_mult [of "2 * n + h" "2 * h"] pos_mod_bound [of "2 * h" "2 * n + h"]
      pos_mod_sign [of "2 * h" "2 * n + h"] unfolding q_def distrib_right by linarith+
  then have "(of_int (q * (2 * h)) :: rat) \<le> of_int (2 * n + h)" "(of_int (2 * n + h) :: rat) < of_int ((q + 1) * (2 * h))"
    by (simp_all only: of_int_le_iff of_int_less_iff)
  then have b: "of_int q \<le> of_int n / of_int h + (1 / 2 :: rat)" "of_int n / of_int h - (1 / 2 :: rat) \<le> of_int q"
    using h by (simp_all add: field_simps)
  then have e: "\<bar>of_int q - of_int n / of_int h :: rat\<bar> \<le> 1 / 2" by linarith
  have "of_int (cents d) - 100 * dec_val d = of_int (sgn (coeff d)) * (of_int q - of_int n / of_int h :: rat)"
    unfolding v c by (simp add: right_diff_distrib)
  then have "\<bar>of_int (cents d) - 100 * dec_val d\<bar> = of_int \<bar>sgn (coeff d)\<bar> * \<bar>of_int q - of_int n / of_int h :: rat\<bar>"
    by (simp only: abs_mult of_int_abs)
  also have "\<dots> \<le> 1 * \<bar>of_int q - of_int n / of_int h :: rat\<bar>"
    by (rule mult_right_mono) (simp_all add: abs_sgn_eq)
  finally show ?thesis using e by simp
qed

text \<open>A planned ledger amount in cents: unchanged, or off by the drift, which never vanishes.\<close>

lemma dec_add_cents: "\<bar>a + b\<bar> < 10 ^ dec_prec \<Longrightarrow> dec_add (Dec a (-2)) (Dec b (-2)) = Dec (a + b) (-2)"
  by (simp add: dec_add_def align_def dec_fix_id)

lemma money_cents: "\<bar>c\<bar> < 10 ^ dec_prec \<Longrightarrow> money (Dec c (-2)) = Some (Dec c (-2))"
  by (simp add: money_def cents_def)

lemma fraction_digits:
  assumes "2 / 1000 \<le> dec_val f" and "dec_val f \<le> 8 / 1000" and "- 20 \<le> expo f"
  obtains c k where "f = Dec c (- int k)" "k \<le> 20" "0 < c" "c \<le> 8 * 10 ^ 17" "dec_val f = of_int c / 10 ^ k"
proof -
  obtain c e where f: "f = Dec c e" by (cases f)
  have v: "dec_val f = of_int c * 10 powi e" by (simp add: dec_val_def f)
  have pos: "(0 :: rat) < 10 powi e" by simp
  have c0: "0 < c"
  proof (rule ccontr)
    assume "\<not> 0 < c"
    then have "of_int c * (10 :: rat) powi e \<le> 0" using pos by (intro mult_nonpos_nonneg) simp_all
    then show False using assms(1) v by linarith
  qed
  have e0: "e < 0"
  proof (rule ccontr)
    assume "\<not> e < 0"
    then have "(1 :: rat) \<le> 10 powi e" by (simp add: power_int_def)
    moreover have "(1 :: rat) \<le> of_int c" using c0 by simp
    ultimately have "1 \<le> of_int c * (10 :: rat) powi e" by (metis mult_1 mult_mono zero_le_one order_trans)
    then show False using assms(2) v by linarith
  qed
  define k where "k = nat (- e)"
  have e: "e = - int k" using e0 by (simp add: k_def)
  have k: "k \<le> 20" using assms(3) by (simp add: f k_def)
  have val: "dec_val f = of_int c / 10 ^ k" unfolding v e by (simp add: power_int_minus field_simps)
  have "of_int c \<le> 8 / 1000 * (10 :: rat) ^ k" using assms(2) by (simp add: val field_simps)
  also have "\<dots> \<le> 8 / 1000 * 10 ^ 20" using k by (intro mult_left_mono power_increasing) simp_all
  finally have "of_int c \<le> (of_int (8 * 10 ^ 17) :: rat)" by simp
  then have "c \<le> 8 * 10 ^ 17" by (simp only: of_int_le_iff)
  from that [OF _ k c0 this val] show thesis using f e by simp
qed

lemma drifted_amount:
  assumes "5000 \<le> a" and "a \<le> 5000000" and f: "2 / 1000 \<le> dec_val f" "dec_val f \<le> 8 / 1000" "- 20 \<le> expo f"
    and "dw_fraction dw = f" and "drifts cfg dw"
  shows "\<exists>l. ledger_amount_of cfg dw (Dec a (-2)) = Some (Dec l (-2)) \<and> l \<noteq> a \<and>
    \<bar>of_int l - of_int a :: rat\<bar> \<le> max (of_int a / 100) 1000 \<and> \<bar>l\<bar> < 10 ^ 18"
proof -
  obtain c k where ck: "f = Dec c (- int k)" "k \<le> 20" "0 < c" "c \<le> 8 * 10 ^ 17" "dec_val f = of_int c / 10 ^ k"
    using fraction_digits [OF f] by blast
  define s where "s = (if dw_sign dw < 1 / 2 then 1 else -1 :: int)"
  have s: "\<bar>s\<bar> = 1" by (simp add: s_def)
  have pk: "(10 :: int) ^ k \<le> 10 ^ 20" using ck(2) by (intro power_increasing) simp_all
  have ac: "a * c \<le> 5000000 * (8 * 10 ^ 17)" using assms(1,2) ck(3,4) by (intro mult_mono) simp_all
  have ac0: "0 \<le> a * c" using assms(1) ck(3) by simp
  have ak: "a * 10 ^ k \<le> 5000000 * 10 ^ 20" using assms(1,2) pk by (intro mult_mono) simp_all
  have ak0: "0 \<le> a * 10 ^ k" using assms(1) by simp
  have asc: "\<bar>a * (c * s)\<bar> = a * c" using s assms(1) ck(3) by (simp add: abs_mult)
  have frac: "dec_mult f (Dec s 0) = Dec (c * s) (- int k)"
    unfolding ck(1) dec_mult_def using ck(3,4) s by (subst dec_fix_id) (simp_all add: abs_mult dec_prec_def)
  have prod: "dec_mult (Dec a (-2)) (Dec (c * s) (- int k)) = Dec (a * (c * s)) (- 2 - int k)"
    unfolding dec_mult_def using asc ac by (subst dec_fix_id) (simp_all add: dec_prec_def)
  define y where "y = a * 10 ^ k + a * (c * s)"
  have ysmall: "\<bar>y\<bar> < 10 ^ dec_prec"
    using abs_triangle_ineq [of "a * 10 ^ k" "a * (c * s)"] ak ak0 ac asc
    unfolding y_def dec_prec_def by simp
  have al: "align (Dec a (-2)) (Dec (a * (c * s)) (- 2 - int k)) = (a * 10 ^ k, a * (c * s), - 2 - int k)"
    by (simp add: align_def Let_def min_def)
  have sum: "dec_add (Dec a (-2)) (Dec (a * (c * s)) (- 2 - int k)) = Dec y (- 2 - int k)"
    unfolding dec_add_def al y_def [symmetric] by (simp add: dec_fix_id ysmall flip: y_def)
  define w where "w = (of_int a * (of_int c / 10 ^ k) :: rat)"
  have val: "100 * dec_val (Dec y (- 2 - int k)) = of_int a + of_int s * w"
  proof -
    have "(10 :: rat) powi (- 2 - int k) = 1 / (100 * 10 ^ k)"
    proof -
      have "(10 :: rat) powi (- 2 - int k) = 10 powi (-2) / 10 powi int k" by (rule power_int_diff) simp
      then show ?thesis by (simp add: power_int_def [of _ "-2"] power2_eq_square)
    qed
    then show ?thesis by (simp add: dec_val_def y_def w_def field_simps)
  qed
  have a0: "(0 :: rat) \<le> of_int a" using assms(1) by simp
  have w: "0 \<le> w" "w \<le> of_int a * (8 / 1000)"
    using mult_left_mono [OF f(2) a0] a0 ck(3) by (simp_all add: w_def ck(5))
  define l where "l = cents (Dec y (- 2 - int k))"
  have near: "\<bar>of_int l - (of_int a + of_int s * w)\<bar> \<le> 1 / 2"
    using cents_error [of "Dec y (- 2 - int k)"] unfolding l_def val .
  have sw: "\<bar>of_int s * w\<bar> = w" using s w(1) by (simp add: abs_mult flip: of_int_abs)
  have d: "\<bar>of_int l - of_int a :: rat\<bar> \<le> w + 1 / 2" using near sw by linarith
  have A: "(5000 :: rat) \<le> of_int a" "(of_int a :: rat) \<le> 5000000" using assms(1,2) by simp_all
  have close: "\<bar>of_int l - of_int a :: rat\<bar> \<le> max (of_int a / 100) 1000"
    using d w(2) A by (simp add: max_def)
  have "\<bar>of_int l :: rat\<bar> \<le> 5100000" using d w(2) A by linarith
  then have lb: "\<bar>l\<bar> \<le> 5100000" by (metis of_int_abs of_int_le_iff of_int_numeral)
  then have m: "money (Dec y (- 2 - int k)) = Some (Dec l (-2))" by (simp add: money_def l_def dec_prec_def)
  have sgn: "Dec (if dw_sign dw < 1 / 2 then 1 else - 1) 0 = Dec s 0" by (simp add: s_def)
  have res: "ledger_amount_of cfg dw (Dec a (-2)) =
      (if l = a then Some (Dec (a + 1) (-2)) else Some (Dec l (-2)))"
    unfolding ledger_amount_of_def assms(6) Let_def sgn frac prod sum m
    using assms(1,2,7) by (simp add: dec_eq_def align_def dec_add_cents money_cents dec_prec_def)
  show ?thesis
  proof (cases "l = a")
    case True
    then show ?thesis using res assms(1,2) by (intro exI [of _ "a + 1"]) simp
  next
    case False
    then show ?thesis using res close lb by (intro exI [of _ l]) simp
  qed
qed

lemma predict_cents:
  assumes "\<not> pt_dropped txn" and "pt_amount txn = Dec a (-2)" and "pt_ledger_amount txn = Dec l (-2)"
    and "5000 \<le> a" and "a < 10 ^ 18" and "\<bar>l\<bar> < 10 ^ 18"
    and "\<bar>of_int l - of_int a :: rat\<bar> \<le> max (of_int a / 100) 1000"
    and "\<bar>pt_ledger_occurred_at txn - pt_occurred_at txn\<bar> \<le> seconds 60"
  shows "predict txn =
    (if l \<noteq> a then ''amount_drift''
     else if \<bar>pt_ledger_occurred_at txn - pt_occurred_at txn\<bar> \<le> seconds 2 then ''matched_exact''
     else ''matched_time_drift'')"
proof -
  have eq: "dec_eq (Dec l (-2)) (Dec a (-2)) \<longleftrightarrow> l = a" by (simp add: dec_eq_def align_def)
  have m: "is_money (Dec a (-2))" "is_money (Dec l (-2))" using assms(4-6) by (simp_all add: is_money_def)
  have "dec_abs (Dec a (-2)) = Dec a (-2)"
    unfolding dec_abs_def using assms(4,5) by (subst dec_fix_id) (simp_all add: dec_prec_def)
  then have t: "dec_val (dec_mult (dec_abs (Dec a (-2))) (Dec 1 (-2))) = of_int a / 10000"
    using assms(4,5) by (simp add: dec_mult_def dec_fix_id dec_prec_def dec_val_code)
  have v: "dec_val (Dec a (-2)) = of_int a / 100" "dec_val (Dec l (-2)) = of_int l / 100"
    "dec_val (Dec 1000 (-2)) = 10"
    by (simp_all add: dec_val_def power_int_def power2_eq_square)
  have diff: "\<bar>of_int a / 100 - of_int l / 100 :: rat\<bar> = \<bar>of_int l - of_int a\<bar> / 100"
    by (simp add: abs_minus_commute flip: diff_divide_distrib)
  have band: "dec_le (dec_abs (dec_sub (Dec a (-2)) (Dec l (-2))))
      (dec_max (dec_mult (dec_abs (Dec a (-2))) (Dec 1 (-2))) (Dec 1000 (-2)))"
    unfolding dec_le_iff dec_val_max t v dec_val_abs_sub_money [OF m] diff
    using assms(7) by (simp add: max_def split: if_splits)
  have dt: "\<not> 60 < float_val (abs_total_seconds (pt_ledger_occurred_at txn - pt_occurred_at txn))"
    using abs_total_seconds_le(1) assms(8) by (simp add: not_less)
  show ?thesis
    using assms(1) dt band by (simp add: predict_def Let_def assms(2,3) eq abs_total_seconds_le(2))
qed

text \<open>
  The injected drift is inside the tolerance. Whatever the generator draws (an amount between 50 and
  50,000, a fraction between 0.2 and 0.8 percent of at most twenty decimals), planning succeeds, rounding
  included; a drifting transaction has unequal amounts within the tolerance, so when its clocks are within
  the window its verdict is an amount drift; any other has equal amounts and matches, exactly or by time.
\<close>

theorem injected_drift_in_band:
  assumes "50 \<le> dec_val (dw_amount dw)" and "dec_val (dw_amount dw) \<le> 50000"
    and "2 / 1000 \<le> dec_val (dw_fraction dw)" and "dec_val (dw_fraction dw) \<le> 8 / 1000"
    and "- 20 \<le> expo (dw_fraction dw)"
  shows "\<exists>txn. plan_transaction cfg dw seq run_id = Some txn \<and>
    (if pt_dropped txn then predict txn = ''unmatched_gateway_only''
     else \<bar>dw_skew dw\<bar> \<le> seconds 60 \<longrightarrow>
       predict txn = (if drifts cfg dw then ''amount_drift''
                      else if \<bar>dw_skew dw\<bar> \<le> seconds 2 then ''matched_exact'' else ''matched_time_drift''))"
proof -
  define a where "a = cents (dw_amount dw)"
  have "of_int a \<ge> (4999 + 1 / 2 :: rat)" "of_int a \<le> (5000000 + 1 / 2 :: rat)"
    using cents_error [of "dw_amount dw"] assms(1,2) unfolding a_def by linarith+
  then have "5000 \<le> a" "a \<le> 5000000" by linarith+
  note a = this
  have m: "money (dw_amount dw) = Some (Dec a (-2))" using a by (simp add: money_def a_def [symmetric] dec_prec_def)
  obtain l where l: "ledger_amount_of cfg dw (Dec a (-2)) = Some (Dec l (-2))" "l \<noteq> a \<longleftrightarrow> drifts cfg dw"
    "\<bar>of_int l - of_int a :: rat\<bar> \<le> max (of_int a / 100) 1000" "\<bar>l\<bar> < 10 ^ 18"
  proof (cases "drifts cfg dw")
    case True
    then show thesis using drifted_amount [OF a assms(3-5) refl True] that by blast
  next
    case False
    then have "ledger_amount_of cfg dw (Dec a (-2)) = Some (Dec a (-2))" by (simp add: ledger_amount_of_def)
    then show thesis using that [of a] False a by simp
  qed
  obtain txn where txn: "plan_transaction cfg dw seq run_id = Some txn" "pt_amount txn = Dec a (-2)"
    "pt_ledger_amount txn = Dec l (-2)" "pt_ledger_occurred_at txn - pt_occurred_at txn = dw_skew dw"
    using m l(1) by (simp add: plan_transaction_def Let_def)
  show ?thesis
  proof (cases "pt_dropped txn")
    case True
    then show ?thesis using txn(1) by (auto simp: predict_def)
  next
    case False
    then show ?thesis
      using txn(1) l(2) a predict_cents [OF False txn(2,3) a(1) _ l(4,3), unfolded txn(4)] by auto
  qed
qed

definition sample_cfg :: load_config where
  "sample_cfg =
     \<lparr> lc_drop_rate = 1 / 20, lc_duplicate_rate = 3 / 100, lc_drift_rate = 1 / 50, lc_currency = ''INR'',
       lc_ledger_batch = 50 \<rparr>"

definition sample_draws :: draws where
  "sample_draws =
     \<lparr> dw_amount = Dec 123456789 (-5), dw_now = 0, dw_drop = 1 / 2, dw_duplicate = 1 / 2, dw_drift = 1 / 100,
       dw_fraction = Dec 5123 (-6), dw_sign = 3 / 4, dw_skew = 400000 \<rparr>"

theorem injected_drift_in_band_witness:
  "\<exists>txn. plan_transaction sample_cfg sample_draws 7 ''ab12cd34'' = Some txn \<and>
    pt_txn_id txn = ''TXN-ab12cd34-00000007'' \<and> predict txn = ''amount_drift''"
proof -
  have pre: "50 \<le> dec_val (dw_amount sample_draws)" "dec_val (dw_amount sample_draws) \<le> 50000"
    "2 / 1000 \<le> dec_val (dw_fraction sample_draws)" "dec_val (dw_fraction sample_draws) \<le> 8 / 1000"
    "- 20 \<le> expo (dw_fraction sample_draws)"
    by (simp_all add: sample_draws_def dec_val_code)
  obtain txn where txn: "plan_transaction sample_cfg sample_draws 7 ''ab12cd34'' = Some txn"
    "if pt_dropped txn then predict txn = ''unmatched_gateway_only''
     else \<bar>dw_skew sample_draws\<bar> \<le> seconds 60 \<longrightarrow>
       predict txn = (if drifts sample_cfg sample_draws then ''amount_drift''
                      else if \<bar>dw_skew sample_draws\<bar> \<le> seconds 2 then ''matched_exact'' else ''matched_time_drift'')"
    using injected_drift_in_band [OF pre, of sample_cfg 7 "''ab12cd34''"] by blast
  have "\<not> pt_dropped txn" "pt_txn_id txn = ''TXN-ab12cd34-00000007''"
    using txn(1) by (auto simp: plan_transaction_def Let_def pad8_def nat_digits.simps digit_char_def
      sample_cfg_def sample_draws_def eval_nat_numeral split: option.splits)
  then show ?thesis using txn by (simp add: drifts_def seconds_def sample_cfg_def sample_draws_def)
qed

end
