(* ===== verification/Load_Truth.thy ===== *)
theory Load_Truth
  imports Load_Laws
begin

text \<open>
  The ground truth of a run against the statistics of the engine: when the engine holds what the generator
  sent and has run_settled, every count agrees, whatever the order in which anything was delivered.
\<close>

subsection \<open>What the generator counts\<close>

definition txn_word :: "planned_txn \<Rightarrow> string" where
  "txn_word txn =
     (if predict txn \<in> {''unmatched_gateway_only'', ''unmatched_both''} then ''unmatched'' else predict txn)"

definition truth_of :: "planned_txn list \<Rightarrow> ground_truth" where
  "truth_of txns = foldl record_txn no_truth txns"

lemma predict_cases:
  "predict txn \<in> {''unmatched_gateway_only'', ''unmatched_both'', ''amount_drift'', ''matched_exact'', ''matched_time_drift''}"
  by (simp add: predict_def Let_def)

lemma truth_counts:
  "gt_matched (truth_of txns) = count_where (\<lambda>t. txn_word t \<in> {''matched_exact'', ''matched_time_drift''}) txns"
  "gt_matched_time_drift (truth_of txns) = count_where (\<lambda>t. txn_word t = ''matched_time_drift'') txns"
  "gt_amount_drift (truth_of txns) = count_where (\<lambda>t. txn_word t = ''amount_drift'') txns"
  "gt_unmatched_gateway_only (truth_of txns) = count_where (\<lambda>t. txn_word t = ''unmatched'') txns"
  "gt_unmatched_ledger_only (truth_of txns) = count_where (\<lambda>t. predict t = ''unmatched_both'') txns"
  "gt_duplicates (truth_of txns) = count_where pt_duplicate txns"
proof (induction txns rule: rev_induct)
  case Nil
  { case 1 show ?case by (simp add: truth_of_def no_truth_def count_where_def) }
  { case 2 show ?case by (simp add: truth_of_def no_truth_def count_where_def) }
  { case 3 show ?case by (simp add: truth_of_def no_truth_def count_where_def) }
  { case 4 show ?case by (simp add: truth_of_def no_truth_def count_where_def) }
  { case 5 show ?case by (simp add: truth_of_def no_truth_def count_where_def) }
  { case 6 show ?case by (simp add: truth_of_def no_truth_def count_where_def) }
next
  case (snoc txn txns)
  have step: "truth_of (txns @ [txn]) = record_txn (truth_of txns) txn" by (simp add: truth_of_def)
  note simps = step record_txn_def Let_def count_where_def txn_word_def
  { case 1 show ?case using snoc.IH(1) predict_cases [of txn] by (auto simp: simps) }
  { case 2 show ?case using snoc.IH(2) predict_cases [of txn] by (auto simp: simps) }
  { case 3 show ?case using snoc.IH(3) predict_cases [of txn] by (auto simp: simps) }
  { case 4 show ?case using snoc.IH(4) predict_cases [of txn] by (auto simp: simps) }
  { case 5 show ?case using snoc.IH(5) predict_cases [of txn] by (auto simp: simps) }
  { case 6 show ?case using snoc.IH(6) predict_cases [of txn] by (auto simp: simps) }
qed

subsection \<open>What the engine holds\<close>

text \<open>The columns of a raw row that come from its submissions.\<close>

definition row_image :: "raw_txn \<Rightarrow> string \<times> decimal \<times> string \<times> instant \<times> int" where
  "row_image r = (rt_txn_id r, rt_amount r, rt_currency r, rt_occurred_at r, rt_duplicate_count r)"

definition gateway_image :: "planned_txn \<Rightarrow> string \<times> decimal \<times> string \<times> instant \<times> int" where
  "gateway_image t =
     (pt_txn_id t, pt_amount t, pt_currency t, pt_occurred_at t, if pt_duplicate t then 1 else 0)"

definition ledger_image :: "planned_txn \<Rightarrow> string \<times> decimal \<times> string \<times> instant \<times> int" where
  "ledger_image t = (pt_txn_id t, pt_ledger_amount t, pt_currency t, pt_ledger_occurred_at t, 0)"

definition tenant_rows :: "db \<Rightarrow> int \<Rightarrow> ingest_source \<Rightarrow> raw_txn list" where
  "tenant_rows d a side = filter (\<lambda>r. rt_tenant_id r = a) (model_rows side d)"

text \<open>
  The tenant's rows are what was sent: a gateway row per transaction, counted again when it was posted
  twice, and a ledger row per transaction that was not dropped, in any order.
\<close>

definition holds_run :: "db \<Rightarrow> int \<Rightarrow> planned_txn list \<Rightarrow> bool" where
  "holds_run d a txns \<longleftrightarrow>
     mset (map row_image (tenant_rows d a GATEWAY)) = mset (map gateway_image txns) \<and>
     mset (map row_image (tenant_rows d a LEDGER)) =
       mset (map ledger_image (filter (\<lambda>t. \<not> pt_dropped t) txns))"

text \<open>
  Settled: every row has reached a terminal state, the repeated ones are marked, and the sweep gave up on
  no row whose counterparty is there.
\<close>

definition run_settled :: "db \<Rightarrow> int \<Rightarrow> bool" where
  "run_settled d a \<longleftrightarrow>
     list_all (\<lambda>side. list_all (\<lambda>r. rt_reconciled_at r \<noteq> None \<and>
        (0 < rt_duplicate_count r \<longrightarrow> duplicate_markers d side r \<noteq> [])) (tenant_rows d a side)) [GATEWAY, LEDGER] \<and>
     list_all (\<lambda>g. list_all (\<lambda>e.
        classify_pair (facts_of GATEWAY g) (facts_of LEDGER e) (from_settings default_settings) \<noteq> None \<longrightarrow>
        list_all (\<lambda>res. \<not> (rr_status res = UNMATCHED_GATEWAY_ONLY \<and> side_id GATEWAY res = Some (rt_id g)) \<and>
            \<not> (rr_status res = UNMATCHED_LEDGER_ONLY \<and> side_id LEDGER res = Some (rt_id e)))
          (db_reconciliation_results d))
        (tenant_rows d a LEDGER)) (tenant_rows d a GATEWAY)"

lemma in_tenant_rows: "r \<in> set (tenant_rows d a side) \<longleftrightarrow> r \<in> set (model_rows side d) \<and> rt_tenant_id r = a"
  by (auto simp: tenant_rows_def)

lemma holds_runD:
  assumes "holds_run d a txns"
  shows "g \<in> set (tenant_rows d a GATEWAY) \<Longrightarrow> \<exists>t \<in> set txns. row_image g = gateway_image t"
    and "e \<in> set (tenant_rows d a LEDGER) \<Longrightarrow> \<exists>t \<in> set txns. \<not> pt_dropped t \<and> row_image e = ledger_image t"
    and "t \<in> set txns \<Longrightarrow> \<not> pt_dropped t \<Longrightarrow> \<exists>e \<in> set (tenant_rows d a LEDGER). row_image e = ledger_image t"
    and "t \<in> set txns \<Longrightarrow> \<exists>g \<in> set (tenant_rows d a GATEWAY). row_image g = gateway_image t"
proof -
  have G: "row_image ` set (tenant_rows d a GATEWAY) = gateway_image ` set txns"
    using arg_cong [OF assms [unfolded holds_run_def, THEN conjunct1], of set_mset] by simp
  have L: "row_image ` set (tenant_rows d a LEDGER) = ledger_image ` {t \<in> set txns. \<not> pt_dropped t}"
    using arg_cong [OF assms [unfolded holds_run_def, THEN conjunct2], of set_mset] by simp
  show "g \<in> set (tenant_rows d a GATEWAY) \<Longrightarrow> \<exists>t \<in> set txns. row_image g = gateway_image t" using G by blast
  show "e \<in> set (tenant_rows d a LEDGER) \<Longrightarrow> \<exists>t \<in> set txns. \<not> pt_dropped t \<and> row_image e = ledger_image t"
    using L by blast
  show "t \<in> set txns \<Longrightarrow> \<not> pt_dropped t \<Longrightarrow> \<exists>e \<in> set (tenant_rows d a LEDGER). row_image e = ledger_image t"
  proof -
    assume "t \<in> set txns" "\<not> pt_dropped t"
    then have "ledger_image t \<in> row_image ` set (tenant_rows d a LEDGER)" unfolding L by blast
    then show ?thesis by (metis imageE)
  qed
  show "t \<in> set txns \<Longrightarrow> \<exists>g \<in> set (tenant_rows d a GATEWAY). row_image g = gateway_image t"
  proof -
    assume "t \<in> set txns"
    then have "gateway_image t \<in> row_image ` set (tenant_rows d a GATEWAY)" unfolding G by blast
    then show ?thesis by (metis imageE)
  qed
qed

lemma image_facts:
  "row_image g = gateway_image t \<Longrightarrow> gateway_facts t (facts_of GATEWAY g)"
  "row_image e = ledger_image t \<Longrightarrow> ledger_facts t (facts_of LEDGER e)"
  by (auto simp: row_image_def gateway_image_def ledger_image_def gateway_facts_def ledger_facts_def facts_of_def)

lemma run_settledD:
  assumes "run_settled d a" and "r \<in> set (tenant_rows d a side)"
  shows "rt_reconciled_at r \<noteq> None" and "0 < rt_duplicate_count r \<Longrightarrow> duplicate_markers d side r \<noteq> []"
  using assms by (cases side; simp add: run_settled_def list_all_iff)+

lemma settled_patient:
  assumes "run_settled d a" and "g \<in> set (tenant_rows d a GATEWAY)" and "e \<in> set (tenant_rows d a LEDGER)"
    and "res \<in> set (db_reconciliation_results d)"
    and "rr_status res = UNMATCHED_GATEWAY_ONLY \<and> side_id GATEWAY res = Some (rt_id g) \<or>
      rr_status res = UNMATCHED_LEDGER_ONLY \<and> side_id LEDGER res = Some (rt_id e)"
  shows "classify_pair (facts_of GATEWAY g) (facts_of LEDGER e) (from_settings default_settings) = None"
proof (rule ccontr)
  assume "classify_pair (facts_of GATEWAY g) (facts_of LEDGER e) (from_settings default_settings) \<noteq> None"
  then have "\<not> (rr_status res = UNMATCHED_GATEWAY_ONLY \<and> side_id GATEWAY res = Some (rt_id g)) \<and>
      \<not> (rr_status res = UNMATCHED_LEDGER_ONLY \<and> side_id LEDGER res = Some (rt_id e))"
    using assms(1-4) unfolding run_settled_def list_all_iff by blast
  with assms(5) show False by blast
qed

subsection \<open>The outcome of a row\<close>

text \<open>A result's own word for its verdict.\<close>

definition result_word :: "reconciliation_result \<Rightarrow> string" where
  "result_word res =
     (if rr_status res \<in> {UNMATCHED_GATEWAY_ONLY, UNMATCHED_LEDGER_ONLY} then ''unmatched''
      else verdict_word (Some (rr_status res, rr_match_layer res)))"

lemma paired_word:
  assumes "classify_pair g e config = Some (rr_status res, rr_match_layer res)"
  shows "result_word res = verdict_word (Some (rr_status res, rr_match_layer res))"
    and "result_word res \<noteq> ''unmatched''" and "result_word res \<noteq> ''unmatched_both''"
    and "result_word res \<noteq> ''unmatched_gateway_only''"
  using classify_pair_SomeD(6) [OF assms] by (auto simp: result_word_def verdict_word_def)

text \<open>One run in one settled state, with the facts every lemma below starts from.\<close>

lemma shape_sides:
  assumes "db_inv config d" and "res \<in> set (db_reconciliation_results d)"
  shows "decision_shape (rr_status res) (rr_match_layer res) (side_id GATEWAY res \<noteq> None) (side_id LEDGER res \<noteq> None)"
    and "result_sound config d res"
  using db_invD(2) [OF assms(1)] assms(2) by (auto simp: results_inv_def result_sound_def side_id_def)

lemma paired_txn:
  assumes inv: "db_inv (from_settings default_settings) d" and res: "res \<in> set (db_reconciliation_results d)"
    and sides: "side_id GATEWAY res \<noteq> None" "side_id LEDGER res \<noteq> None"
    and run: "holds_run d a txns" "distinct (map pt_txn_id txns)"
    and row: "side_id side res = Some (rt_id r)" "r \<in> set (tenant_rows d a side)"
      "t \<in> set txns" "rt_txn_id r = pt_txn_id t"
  shows "result_word res = predict t" and "result_word res \<noteq> ''unmatched''"
proof -
  note sound = shape_sides(2) [OF inv res]
  obtain g e where ge: "references d res GATEWAY g" "references d res LEDGER e"
    "same_payment (from_settings default_settings) g e"
    "classify_pair (facts_of GATEWAY g) (facts_of LEDGER e) (from_settings default_settings) =
      Some (rr_status res, rr_match_layer res)"
    using result_pair [OF sound] sides by (auto simp: side_id_def)
  have r: "r \<in> set (model_rows side d)" "rt_tenant_id r = a" using row(2) by (simp_all add: in_tenant_rows)
  have tenant: "rr_tenant_id res = a" using result_tenant [OF inv res r(1) row(1)] r(2) by simp
  have rows: "g \<in> set (tenant_rows d a GATEWAY)" "e \<in> set (tenant_rows d a LEDGER)"
    using ge(1,2) tenant by (simp_all add: references_def in_tenant_rows)
  have "r = (case side of GATEWAY \<Rightarrow> g | LEDGER \<Rightarrow> e)"
    using rows_invD(4) [OF db_invD(1) [OF inv] r(1)] row(1) ge(1,2)
    by (cases side) (auto simp: references_def)
  then have ids: "rt_txn_id g = pt_txn_id t" "rt_txn_id e = pt_txn_id t"
    using row(4) ge(3) by (cases side; simp add: same_payment_def)+
  obtain t1 where t1: "t1 \<in> set txns" "row_image g = gateway_image t1" using holds_runD(1) [OF run(1) rows(1)] by blast
  obtain t2 where t2: "t2 \<in> set txns" "\<not> pt_dropped t2" "row_image e = ledger_image t2"
    using holds_runD(2) [OF run(1) rows(2)] by blast
  have "t1 = t" by (rule distinct_map_eqD [OF run(2) t1(1) row(3)]) (use t1(2) ids in \<open>simp add: row_image_def gateway_image_def\<close>)
  moreover have "t2 = t" by (rule distinct_map_eqD [OF run(2) t2(1) row(3)]) (use t2(3) ids in \<open>simp add: row_image_def ledger_image_def\<close>)
  ultimately have im: "row_image g = gateway_image t" "\<not> pt_dropped t" "row_image e = ledger_image t"
    using t1(2) t2(2,3) by simp_all
  have "predict t = verdict_word (Some (rr_status res, rr_match_layer res))"
    using predict_is_classify [OF im(2) image_facts(1) [OF im(1)] image_facts(2) [OF im(3)]] rows
    unfolding ge(4) by (simp add: facts_of_def in_tenant_rows)
  then show "result_word res = predict t" using paired_word(1) [OF ge(4)] by simp
  show "result_word res \<noteq> ''unmatched''" by (rule paired_word(2) [OF ge(4)])
qed

lemma gateway_outcome_word:
  assumes inv: "db_inv (from_settings default_settings) d" and res: "res \<in> set (db_reconciliation_results d)"
    and run: "holds_run d a txns" "distinct (map pt_txn_id txns)" and "run_settled d a"
    and row: "side_id GATEWAY res = Some (rt_id g)" "g \<in> set (tenant_rows d a GATEWAY)"
      "t \<in> set txns" "row_image g = gateway_image t" and active: "rr_status res \<noteq> DUPLICATE"
  shows "result_word res = txn_word t"
proof -
  have id: "rt_txn_id g = pt_txn_id t" using row(4) by (simp add: row_image_def gateway_image_def)
  show ?thesis
  proof (cases "side_id LEDGER res = None")
    case False
    from paired_txn [OF inv res _ False run row(1,2,3) id] row(1)
    have "result_word res = predict t" "result_word res \<noteq> ''unmatched''" by simp_all
    moreover have "predict t \<noteq> ''unmatched_gateway_only''" "predict t \<noteq> ''unmatched_both''"
      using calculation by (auto simp: result_word_def verdict_word_def split: if_splits)
    ultimately show ?thesis by (simp add: txn_word_def)
  next
    case True
    then have st: "rr_status res = UNMATCHED_GATEWAY_ONLY"
      using shape_sides(1) [OF inv res] row(1) active by (cases "rr_status res") simp_all
    have "predict t \<in> {''unmatched_gateway_only'', ''unmatched_both''}"
    proof (cases "pt_dropped t")
      case True
      then show ?thesis by (simp add: predict_def)
    next
      case False
      then obtain e where e: "e \<in> set (tenant_rows d a LEDGER)" "row_image e = ledger_image t"
        using holds_runD(3) [OF run(1) row(3)] by blast
      have "classify_pair (facts_of GATEWAY g) (facts_of LEDGER e) (from_settings default_settings) = None"
        using settled_patient [OF assms(5) row(2) e(1) res] st row(1) by blast
      then have "predict t = ''unmatched_both''"
        using predict_is_classify [OF False image_facts(1) [OF row(4)] image_facts(2) [OF e(2)]] row(2) e(1)
        by (simp add: facts_of_def in_tenant_rows verdict_word_def)
      then show ?thesis by simp
    qed
    then show ?thesis using st by (simp add: txn_word_def result_word_def)
  qed
qed

text \<open>On the ledger's side: unmatched exactly when the prediction says both sides stay alone.\<close>

lemma ledger_outcome_unmatched:
  assumes inv: "db_inv (from_settings default_settings) d" and res: "res \<in> set (db_reconciliation_results d)"
    and run: "holds_run d a txns" "distinct (map pt_txn_id txns)" and "run_settled d a"
    and row: "side_id LEDGER res = Some (rt_id e)" "e \<in> set (tenant_rows d a LEDGER)"
      "t \<in> set txns" "\<not> pt_dropped t" "row_image e = ledger_image t" and active: "rr_status res \<noteq> DUPLICATE"
  shows "rr_status res = UNMATCHED_LEDGER_ONLY \<longleftrightarrow> predict t = ''unmatched_both''"
proof -
  have id: "rt_txn_id e = pt_txn_id t" using row(5) by (simp add: row_image_def ledger_image_def)
  show ?thesis
  proof (cases "side_id GATEWAY res = None")
    case False
    from paired_txn [OF inv res False _ run row(1,2,3) id] row(1)
    have w: "result_word res = predict t" "result_word res \<noteq> ''unmatched''" by simp_all
    then have "predict t \<noteq> ''unmatched_both''" by (auto simp: result_word_def verdict_word_def split: if_splits)
    moreover have "rr_status res \<noteq> UNMATCHED_LEDGER_ONLY" using w(2) by (auto simp: result_word_def)
    ultimately show ?thesis by blast
  next
    case True
    then have st: "rr_status res = UNMATCHED_LEDGER_ONLY"
      using shape_sides(1) [OF inv res] row(1) active by (cases "rr_status res") simp_all
    obtain g where g: "g \<in> set (tenant_rows d a GATEWAY)" "row_image g = gateway_image t"
      using holds_runD(4) [OF run(1) row(3)] by blast
    have "classify_pair (facts_of GATEWAY g) (facts_of LEDGER e) (from_settings default_settings) = None"
      using settled_patient [OF assms(5) g(1) row(2) res] st row(1) by blast
    then have "predict t = ''unmatched_both''"
      using predict_is_classify [OF row(4) image_facts(1) [OF g(2)] image_facts(2) [OF row(5)]] row(2) g(1)
      by (simp add: facts_of_def in_tenant_rows verdict_word_def)
    with st show ?thesis by simp
  qed
qed

subsection \<open>Counting\<close>

lemma distinct_count: "distinct xs \<Longrightarrow> count_where p xs = card {x \<in> set xs. p x}"
  using distinct_card [OF distinct_filter, of xs p] by (simp add: count_where_def)

text \<open>Results of one kind, one per row, counted by the rows they are about.\<close>

lemma count_by_side:
  assumes inv: "db_inv config d"
    and side: "\<And>res. P res \<Longrightarrow> side_id side res \<noteq> None \<and> (rr_status res = DUPLICATE) = dup"
  shows "count_where (\<lambda>res. rr_tenant_id res = a \<and> P res) (db_reconciliation_results d) =
    count_where (\<lambda>r. list_ex (\<lambda>res. P res \<and> side_id side res = Some (rt_id r)) (db_reconciliation_results d))
      (tenant_rows d a side)"
proof -
  let ?R = "{res \<in> set (db_reconciliation_results d). rr_tenant_id res = a \<and> P res}"
  let ?T = "{r \<in> set (tenant_rows d a side).
    list_ex (\<lambda>res. P res \<and> side_id side res = Some (rt_id r)) (db_reconciliation_results d)}"
  note parts = db_invD [OF inv]
  have results: "distinct (db_reconciliation_results d)"
    using parts(2) by (auto simp: results_inv_def distinct_map)
  have "distinct (map rt_id (model_rows side d))"
    using rows_invD(1) [OF parts(1), of side] by (auto dest: raw_table_okD)
  then have rows: "distinct (tenant_rows d a side)" by (auto simp: tenant_rows_def distinct_map)
  have row: "\<exists>r \<in> ?T. side_id side res = Some (rt_id r)" if "res \<in> ?R" for res
  proof -
    have "P res" using that by simp
    then obtain i where i: "side_id side res = Some i" using side [of res] by blast
    have "result_sound config d res" using that parts(2) by (auto simp: results_inv_def)
    then obtain r where r: "r \<in> set (model_rows side d)" "rt_id r = i" "rt_tenant_id r = rr_tenant_id res"
      using i unfolding result_sound_def by blast
    then show ?thesis using that i by (intro bexI [of _ r]) (auto simp: in_tenant_rows list_ex_iff)
  qed
  have unique: "res = res'"
    if "res \<in> ?R" "res' \<in> ?R" "side_id side res = Some (rt_id r)" "side_id side res' = Some (rt_id r)" "r \<in> ?T" for res res' r
  proof -
    let ?hits = "filter (\<lambda>res. side_id side res = Some (rt_id r) \<and> (rr_status res = DUPLICATE) = dup) (db_reconciliation_results d)"
    have "length ?hits \<le> 1" using at_most_one [OF inv, of r side dup] that(5) by (simp add: in_tenant_rows)
    moreover have "res \<in> set ?hits" "res' \<in> set ?hits" using that side [of res] side [of res'] by auto
    ultimately show ?thesis by (cases ?hits) auto
  qed
  define f where "f = (\<lambda>res. the (side_id side res))"
  have one: "inj_on f ?R"
  proof (rule inj_onI)
    fix res res'
    assume rs: "res \<in> ?R" "res' \<in> ?R" and eq: "f res = f res'"
    obtain r where r: "r \<in> ?T" "side_id side res = Some (rt_id r)" using row [OF rs(1)] by blast
    have "side_id side res' = Some (rt_id r)" using side rs(2) eq r(2) by (auto simp: f_def)
    from unique [OF rs r(2) this r(1)] show "res = res'" .
  qed
  have img: "f ` ?R = rt_id ` ?T"
  proof
    show "f ` ?R \<subseteq> rt_id ` ?T" using row by (force simp: f_def)
    show "rt_id ` ?T \<subseteq> f ` ?R"
    proof
      fix i
      assume "i \<in> rt_id ` ?T"
      then obtain r res where h: "i = rt_id r" "r \<in> set (tenant_rows d a side)" "res \<in> set (db_reconciliation_results d)"
        "P res" "side_id side res = Some (rt_id r)" by (auto simp: list_ex_iff)
      then have "rr_tenant_id res = a" using result_tenant [OF inv h(3) _ h(5)] by (simp add: in_tenant_rows)
      with h show "i \<in> f ` ?R" by (force simp: f_def)
    qed
  qed
  have two: "inj_on rt_id ?T" using rows_invD(4) [OF parts(1)] by (auto simp: inj_on_def in_tenant_rows)
  have "card ?R = card (f ` ?R)" by (rule card_image [OF one, symmetric])
  also have "\<dots> = card ?T" unfolding img by (rule card_image [OF two])
  finally have "card ?R = card ?T" .
  then show ?thesis unfolding distinct_count [OF results] distinct_count [OF rows] .
qed

text \<open>Rows counted by the transactions they store.\<close>

lemma count_by_txn:
  assumes "mset (map row_image rows) = mset (map h txns)" and "\<And>t. fst (h t) = pt_txn_id t"
    and "distinct (map pt_txn_id txns)"
    and same: "\<And>r t. r \<in> set rows \<Longrightarrow> t \<in> set txns \<Longrightarrow> row_image r = h t \<Longrightarrow> Q r \<longleftrightarrow> R t"
  shows "count_where Q rows = count_where R txns"
proof -
  define K where "K = {k. \<exists>t \<in> set txns. pt_txn_id t = k \<and> R t}"
  have mset_ids: "mset (map (fst \<circ> row_image) rows) = mset (map pt_txn_id txns)"
    using arg_cong [OF assms(1), of "image_mset fst"] assms(2) by (simp add: image_mset.compositionality comp_def)
  have img: "\<exists>t \<in> set txns. row_image r = h t" if "r \<in> set rows" for r
    using arg_cong [OF assms(1), of set_mset] that by auto
  have QK: "Q r \<longleftrightarrow> fst (row_image r) \<in> K" if r: "r \<in> set rows" for r
  proof -
    obtain t where t: "t \<in> set txns" "row_image r = h t" using img [OF r] by blast
    have "fst (row_image r) = pt_txn_id t" using t(2) assms(2) by simp
    moreover have "u = t" if "u \<in> set txns" "pt_txn_id u = pt_txn_id t" for u
      by (rule distinct_map_eqD [OF assms(3) that(1) t(1) that(2)])
    ultimately show ?thesis using same [OF r t] t(1) by (auto simp: K_def)
  qed
  have RK: "R t \<longleftrightarrow> pt_txn_id t \<in> K" if t: "t \<in> set txns" for t
    using distinct_map_eqD [OF assms(3) _ t] t by (auto simp: K_def)
  have "mset (filter (\<lambda>k. k \<in> K) (map (fst \<circ> row_image) rows)) = mset (filter (\<lambda>k. k \<in> K) (map pt_txn_id txns))"
    unfolding mset_filter mset_ids ..
  then have "length (filter (\<lambda>k. k \<in> K) (map (fst \<circ> row_image) rows)) = length (filter (\<lambda>k. k \<in> K) (map pt_txn_id txns))"
    by (rule mset_eq_length)
  moreover have "filter Q rows = filter (\<lambda>r. fst (row_image r) \<in> K) rows" using QK by (intro filter_cong) auto
  moreover have "filter R txns = filter (\<lambda>t. pt_txn_id t \<in> K) txns" using RK by (intro filter_cong) auto
  ultimately show ?thesis by (simp add: count_where_def filter_map comp_def)
qed

subsection \<open>The counts of a run_settled run\<close>

lemma settled_outcome:
  assumes "reachable s c" and "run_settled (sy_db c) a" and "r \<in> set (tenant_rows (sy_db c) a side)"
  shows "\<exists>res \<in> set (db_reconciliation_results (sy_db c)). side_id side res = Some (rt_id r) \<and> rr_status res \<noteq> DUPLICATE"
proof -
  have "rt_reconciled_at r \<noteq> None" by (rule run_settledD(1) [OF assms(2,3)])
  then show ?thesis
    using db_invD(3) [OF reachable_db_inv [OF assms(1)]] assms(3)
    by (auto simp: reconciled_inv_def in_tenant_rows active_iff)
qed

lemma gateway_counts:
  assumes "reachable default_settings c" and run: "holds_run (sy_db c) a txns" "distinct (map pt_txn_id txns)"
    and set: "run_settled (sy_db c) a"
  shows "count_where (\<lambda>res. rr_tenant_id res = a \<and> side_id GATEWAY res \<noteq> None \<and> rr_status res \<noteq> DUPLICATE \<and> W (result_word res))
      (db_reconciliation_results (sy_db c)) = count_where (\<lambda>t. W (txn_word t)) txns"
proof -
  let ?d = "sy_db c"
  note inv = reachable_db_inv [OF assms(1)]
  have "count_where (\<lambda>res. rr_tenant_id res = a \<and> side_id GATEWAY res \<noteq> None \<and> rr_status res \<noteq> DUPLICATE \<and> W (result_word res))
      (db_reconciliation_results ?d) =
    count_where (\<lambda>r. list_ex (\<lambda>res. (side_id GATEWAY res \<noteq> None \<and> rr_status res \<noteq> DUPLICATE \<and> W (result_word res)) \<and>
      side_id GATEWAY res = Some (rt_id r)) (db_reconciliation_results ?d)) (tenant_rows ?d a GATEWAY)"
    by (rule count_by_side [OF inv, where dup = False]) simp
  also have "\<dots> = count_where (\<lambda>t. W (txn_word t)) txns"
  proof (rule count_by_txn [where h = gateway_image])
    show "mset (map row_image (tenant_rows ?d a GATEWAY)) = mset (map gateway_image txns)"
      using run(1) by (simp add: holds_run_def)
    show "fst (gateway_image t) = pt_txn_id t" for t by (simp add: gateway_image_def)
    fix g t
    assume gt: "g \<in> set (tenant_rows ?d a GATEWAY)" "t \<in> set txns" "row_image g = gateway_image t"
    have word: "result_word res = txn_word t"
      if "res \<in> set (db_reconciliation_results ?d)" "side_id GATEWAY res = Some (rt_id g)" "rr_status res \<noteq> DUPLICATE" for res
      by (rule gateway_outcome_word [OF inv that(1) run set that(2) gt that(3)])
    then show "list_ex (\<lambda>res. (side_id GATEWAY res \<noteq> None \<and> rr_status res \<noteq> DUPLICATE \<and> W (result_word res)) \<and>
        side_id GATEWAY res = Some (rt_id g)) (db_reconciliation_results ?d) \<longleftrightarrow> W (txn_word t)"
      using settled_outcome [OF assms(1) set gt(1)] by (auto simp: list_ex_iff)
  qed (rule run(2))
  finally show ?thesis .
qed

lemma ledger_only_count:
  assumes "reachable default_settings c" and run: "holds_run (sy_db c) a txns" "distinct (map pt_txn_id txns)"
    and set: "run_settled (sy_db c) a"
  shows "count_where (\<lambda>res. rr_tenant_id res = a \<and> rr_status res = UNMATCHED_LEDGER_ONLY)
      (db_reconciliation_results (sy_db c)) = count_where (\<lambda>t. predict t = ''unmatched_both'') txns"
proof -
  let ?d = "sy_db c" and ?sent = "filter (\<lambda>t. \<not> pt_dropped t) txns"
  note inv = reachable_db_inv [OF assms(1)]
  let ?P = "\<lambda>res. rr_status res = UNMATCHED_LEDGER_ONLY \<and> side_id LEDGER res \<noteq> None"
  have "count_where (\<lambda>res. rr_tenant_id res = a \<and> rr_status res = UNMATCHED_LEDGER_ONLY) (db_reconciliation_results ?d) =
      count_where (\<lambda>res. rr_tenant_id res = a \<and> ?P res) (db_reconciliation_results ?d)"
    unfolding count_where_def by (intro arg_cong [of _ _ length] filter_cong) (auto dest: shape_sides(1) [OF inv])
  also have "\<dots> = count_where (\<lambda>r. list_ex (\<lambda>res. ?P res \<and> side_id LEDGER res = Some (rt_id r)) (db_reconciliation_results ?d))
      (tenant_rows ?d a LEDGER)"
    by (rule count_by_side [OF inv, where dup = False]) simp
  also have "\<dots> = count_where (\<lambda>t. predict t = ''unmatched_both'') ?sent"
  proof (rule count_by_txn [where h = ledger_image])
    show "mset (map row_image (tenant_rows ?d a LEDGER)) = mset (map ledger_image ?sent)"
      using run(1) by (simp add: holds_run_def)
    show "fst (ledger_image t) = pt_txn_id t" for t by (simp add: ledger_image_def)
    show "distinct (map pt_txn_id ?sent)" using run(2) by (rule distinct_map_filter)
    fix e t
    assume et: "e \<in> set (tenant_rows ?d a LEDGER)" "t \<in> set ?sent" "row_image e = ledger_image t"
    have t: "t \<in> set txns" "\<not> pt_dropped t" using et(2) by simp_all
    have status: "rr_status res = UNMATCHED_LEDGER_ONLY \<longleftrightarrow> predict t = ''unmatched_both''"
      if "res \<in> set (db_reconciliation_results ?d)" "side_id LEDGER res = Some (rt_id e)" "rr_status res \<noteq> DUPLICATE" for res
      by (rule ledger_outcome_unmatched [OF inv that(1) run set that(2) et(1) t et(3) that(3)])
    show "list_ex (\<lambda>res. ?P res \<and> side_id LEDGER res = Some (rt_id e)) (db_reconciliation_results ?d) \<longleftrightarrow>
        predict t = ''unmatched_both''"
    proof
      assume "list_ex (\<lambda>res. ?P res \<and> side_id LEDGER res = Some (rt_id e)) (db_reconciliation_results ?d)"
      then obtain res where res: "res \<in> set (db_reconciliation_results ?d)" "side_id LEDGER res = Some (rt_id e)"
        "rr_status res = UNMATCHED_LEDGER_ONLY" by (auto simp: list_ex_iff)
      show "predict t = ''unmatched_both''" using status [OF res(1,2)] res(3) by simp
    next
      assume u: "predict t = ''unmatched_both''"
      obtain res where res: "res \<in> set (db_reconciliation_results ?d)" "side_id LEDGER res = Some (rt_id e)"
        "rr_status res \<noteq> DUPLICATE" using settled_outcome [OF assms(1) set et(1)] by blast
      then show "list_ex (\<lambda>res. ?P res \<and> side_id LEDGER res = Some (rt_id e)) (db_reconciliation_results ?d)"
        using status [OF res] u by (auto simp: list_ex_iff)
    qed
  qed
  also have "\<dots> = count_where (\<lambda>t. predict t = ''unmatched_both'') txns"
    unfolding count_where_def by (rule arg_cong [of _ _ length]) (auto simp: predict_def intro: filter_cong)
  finally show ?thesis .
qed

lemma duplicates_count:
  assumes "reachable default_settings c" and run: "holds_run (sy_db c) a txns" "distinct (map pt_txn_id txns)"
    and set: "run_settled (sy_db c) a"
  shows "count_where (\<lambda>res. rr_tenant_id res = a \<and> rr_status res = DUPLICATE)
      (db_reconciliation_results (sy_db c)) = count_where pt_duplicate txns"
proof -
  let ?d = "sy_db c"
  note inv = reachable_db_inv [OF assms(1)]
  let ?P = "\<lambda>res. rr_status res = DUPLICATE \<and> side_id GATEWAY res \<noteq> None"
  have gateway: "side_id GATEWAY res \<noteq> None"
    if res: "res \<in> set (db_reconciliation_results ?d)" "rr_tenant_id res = a" "rr_status res = DUPLICATE" for res
  proof (rule ccontr)
    assume "\<not> side_id GATEWAY res \<noteq> None"
    then obtain i where i: "side_id LEDGER res = Some i" using shape_sides(1) [OF inv res(1)] res(3) by auto
    then obtain e where e: "e \<in> set (tenant_rows ?d a LEDGER)" "0 < rt_duplicate_count e"
      using shape_sides(2) [OF inv res(1)] res(2,3) unfolding result_sound_def in_tenant_rows by blast
    then show False using holds_runD(2) [OF run(1) e(1)] by (auto simp: row_image_def ledger_image_def)
  qed
  have "count_where (\<lambda>res. rr_tenant_id res = a \<and> rr_status res = DUPLICATE) (db_reconciliation_results ?d) =
      count_where (\<lambda>res. rr_tenant_id res = a \<and> ?P res) (db_reconciliation_results ?d)"
    unfolding count_where_def using gateway by (intro arg_cong [of _ _ length] filter_cong) auto
  also have "\<dots> = count_where (\<lambda>r. list_ex (\<lambda>res. ?P res \<and> side_id GATEWAY res = Some (rt_id r)) (db_reconciliation_results ?d))
      (tenant_rows ?d a GATEWAY)"
    by (rule count_by_side [OF inv, where dup = True]) simp
  also have "\<dots> = count_where pt_duplicate txns"
  proof (rule count_by_txn [where h = gateway_image])
    show "mset (map row_image (tenant_rows ?d a GATEWAY)) = mset (map gateway_image txns)"
      using run(1) by (simp add: holds_run_def)
    show "fst (gateway_image t) = pt_txn_id t" for t by (simp add: gateway_image_def)
    fix g t
    assume gt: "g \<in> set (tenant_rows ?d a GATEWAY)" "t \<in> set txns" "row_image g = gateway_image t"
    have count: "rt_duplicate_count g = (if pt_duplicate t then 1 else 0)"
      using gt(3) by (simp add: row_image_def gateway_image_def)
    show "list_ex (\<lambda>res. ?P res \<and> side_id GATEWAY res = Some (rt_id g)) (db_reconciliation_results ?d) \<longleftrightarrow> pt_duplicate t"
    proof
      assume "list_ex (\<lambda>res. ?P res \<and> side_id GATEWAY res = Some (rt_id g)) (db_reconciliation_results ?d)"
      then obtain res where res: "res \<in> set (db_reconciliation_results ?d)" "rr_status res = DUPLICATE"
        "side_id GATEWAY res = Some (rt_id g)" by (auto simp: list_ex_iff)
      obtain q where q: "q \<in> set (model_rows GATEWAY ?d)" "rt_id q = rt_id g" "0 < rt_duplicate_count q"
        using shape_sides(2) [OF inv res(1)] res(2,3) unfolding result_sound_def by blast
      have "q = g" using rows_invD(4) [OF db_invD(1) [OF inv] q(1) _ q(2)] gt(1) by (simp add: in_tenant_rows)
      with q(3) count show "pt_duplicate t" by (simp split: if_splits)
    next
      assume "pt_duplicate t"
      then have "duplicate_markers ?d GATEWAY g \<noteq> []" using run_settledD(2) [OF set gt(1)] count by simp
      then show "list_ex (\<lambda>res. ?P res \<and> side_id GATEWAY res = Some (rt_id g)) (db_reconciliation_results ?d)"
        by (auto simp: duplicate_markers_def filter_empty_conv list_ex_iff)
    qed
  qed (rule run(2))
  finally show ?thesis .
qed

text \<open>
  C8. The ground truth of a load run is what the engine reports. Take any reachable state in which a
  tenant's rows are the rows a run sent (repeated posts counted, dropped entries missing), every row is
  terminal, and the sweep gave up on no row whose counterparty is there. Then, whatever the order of
  deliveries, redeliveries and writes on the way, the statistics of a window that covers the results agree
  with the generator's counts in every category, so its verification succeeds.
\<close>

theorem ground_truth_agrees:
  assumes "reachable default_settings c" and "holds_run (sy_db c) (tn_account_id tn) txns"
    and "distinct (map pt_txn_id txns)" and "run_settled (sy_db c) (tn_account_id tn)"
    and "\<And>res. res \<in> set (db_reconciliation_results (sy_db c)) \<Longrightarrow>
      now - seconds (window_seconds w) \<le> rr_resolved_at res"
  shows "verification_ok (truth_of txns) (fetch_stats (sy_db c) tn now w) \<and>
    produced (fetch_stats (sy_db c) tn now w) = expected_results (truth_of txns) \<and>
    st_via_time_drift (fetch_stats (sy_db c) tn now w) = gt_matched_time_drift (truth_of txns) \<and>
    match_rate (fetch_stats (sy_db c) tn now w) = expected_match_rate (truth_of txns)"
proof -
  let ?d = "sy_db c" and ?a = "tn_account_id tn"
  let ?rs = "db_reconciliation_results ?d"
  note inv = reachable_db_inv [OF assms(1)]
  note G = gateway_counts [OF assms(1-4)]
  have rows: "window_rows ?d tn now w = filter (\<lambda>r. rr_tenant_id r = ?a) ?rs"
    unfolding window_rows_def using assms(5) by (intro filter_cong) auto
  have count: "count_where p (window_rows ?d tn now w) = count_where (\<lambda>r. rr_tenant_id r = ?a \<and> p r) ?rs" for p
    by (simp add: count_where_def rows)
  have kind: "count_where p (window_rows ?d tn now w) = count_where (\<lambda>t. W (txn_word t)) txns"
    if "\<And>res. res \<in> set ?rs \<Longrightarrow>
      p res \<longleftrightarrow> side_id GATEWAY res \<noteq> None \<and> rr_status res \<noteq> DUPLICATE \<and> W (result_word res)" for p W
    unfolding count G [symmetric] unfolding count_where_def
    by (intro arg_cong [of _ _ length] filter_cong) (use that in auto)
  have word: "rr_status res = MATCHED \<and> side_id GATEWAY res \<noteq> None \<and>
        (rr_match_layer res = L_EXACT \<and> result_word res = ''matched_exact'' \<or>
         rr_match_layer res = L_TIME_DRIFT \<and> result_word res = ''matched_time_drift'') \<or>
      rr_status res = AMOUNT_DRIFT \<and> rr_match_layer res = L_AMOUNT_DRIFT \<and> side_id GATEWAY res \<noteq> None \<and>
        result_word res = ''amount_drift'' \<or>
      rr_status res = UNMATCHED_GATEWAY_ONLY \<and> rr_match_layer res = L_UNMATCHED_SWEEP \<and>
        side_id GATEWAY res \<noteq> None \<and> result_word res = ''unmatched'' \<or>
      rr_status res = UNMATCHED_LEDGER_ONLY \<and> rr_match_layer res = L_UNMATCHED_SWEEP \<and> side_id GATEWAY res = None \<or>
      rr_status res = DUPLICATE \<and> rr_match_layer res = L_DUPLICATE" if "res \<in> set ?rs" for res
    using shape_sides(1) [OF inv that] by (cases "rr_status res") (auto simp: result_word_def verdict_word_def)
  have m: "st_matched (fetch_stats ?d tn now w) = gt_matched (truth_of txns)"
    unfolding truth_counts fetch_stats_def Let_def stats_row.simps
    by (rule kind [where W = "\<lambda>v. v \<in> {''matched_exact'', ''matched_time_drift''}"]) (auto dest: word)
  have ad: "st_drift (fetch_stats ?d tn now w) = gt_amount_drift (truth_of txns)"
    unfolding truth_counts fetch_stats_def Let_def stats_row.simps
    by (rule kind [where W = "\<lambda>v. v = ''amount_drift''"]) (auto dest: word)
  have td: "st_via_time_drift (fetch_stats ?d tn now w) = gt_matched_time_drift (truth_of txns)"
    unfolding truth_counts fetch_stats_def Let_def stats_row.simps
    by (rule kind [where W = "\<lambda>v. v = ''matched_time_drift''"]) (auto dest: word)
  have ug: "st_unmatched_gateway (fetch_stats ?d tn now w) = gt_unmatched_gateway_only (truth_of txns)"
    unfolding truth_counts fetch_stats_def Let_def stats_row.simps
    by (rule kind [where W = "\<lambda>v. v = ''unmatched''"]) (auto dest: word)
  have ul: "st_unmatched_ledger (fetch_stats ?d tn now w) = gt_unmatched_ledger_only (truth_of txns)"
    unfolding truth_counts fetch_stats_def Let_def stats_row.simps count by (rule ledger_only_count [OF assms(1-4)])
  have du: "st_duplicates (fetch_stats ?d tn now w) = gt_duplicates (truth_of txns)"
    unfolding truth_counts fetch_stats_def Let_def stats_row.simps count by (rule duplicates_count [OF assms(1-4)])
  have split: "length (filter (\<lambda>r. q (f r) \<or> q' (f r)) xs) = length (filter (\<lambda>r. q (f r)) xs) + length (filter (\<lambda>r. q' (f r)) xs)"
    if "\<And>x. \<not> (q x \<and> q' x)" for q q' f xs
    using that by (induction xs) auto
  have un: "st_unmatched (fetch_stats ?d tn now w) =
      st_unmatched_gateway (fetch_stats ?d tn now w) + st_unmatched_ledger (fetch_stats ?d tn now w)"
    unfolding fetch_stats_def Let_def stats_row.simps count_where_def insert_iff empty_iff HOL.simp_thms
    by (rule split) auto
  show ?thesis
    using m ad td ug ul du un
    by (simp add: verification_ok_def produced_def expected_results_def match_rate_def stats_total_def
        expected_match_rate_def expected_active_def)
qed

definition run_txn :: planned_txn where
  "run_txn =
     \<lparr> pt_txn_id = ''TXN-1'', pt_amount = Dec 125050 (-2), pt_ledger_amount = Dec 125050 (-2),
       pt_currency = ''INR'', pt_occurred_at = 1000000, pt_ledger_occurred_at = 2000000,
       pt_idempotency_key = ''k'', pt_entry_id = ''LE-1'', pt_duplicate = False, pt_dropped = False \<rparr>"

theorem ground_truth_agrees_witness:
  "verification_ok (truth_of [run_txn]) (fetch_stats (sy_db run_end) example_tenant 10 W_24h) \<and>
   gt_matched (truth_of [run_txn]) = 1"
proof -
  have images: "map row_image (tenant_rows (sy_db run_end) 1 GATEWAY) = map gateway_image [run_txn]"
    "map row_image (tenant_rows (sy_db run_end) 1 LEDGER) = map ledger_image (filter (\<lambda>t. \<not> pt_dropped t) [run_txn])"
    by code_simp+
  have holds: "holds_run (sy_db run_end) (tn_account_id example_tenant) [run_txn]"
    unfolding holds_run_def by (simp add: images example_tenant_def)
  have set: "run_settled (sy_db run_end) (tn_account_id example_tenant)" by code_simp
  have "list_all (\<lambda>res. 10 - seconds (window_seconds W_24h) \<le> rr_resolved_at res) (db_reconciliation_results (sy_db run_end))"
    by code_simp
  then have recent: "10 - seconds (window_seconds W_24h) \<le> rr_resolved_at res"
    if "res \<in> set (db_reconciliation_results (sy_db run_end))" for res
    using that by (simp add: list_all_iff)
  have "\<not> 60 < float_val (abs_total_seconds 1000000)" "float_val (abs_total_seconds 1000000) \<le> 2"
    using abs_total_seconds_le [of 1000000] by (simp_all add: seconds_def)
  then have "predict run_txn = ''matched_exact''" by (simp add: predict_def run_txn_def decimal_eval)
  then have "gt_matched (truth_of [run_txn]) = 1" by (simp add: truth_of_def record_txn_def no_truth_def run_txn_def)
  with ground_truth_agrees [OF run_reachable holds _ set recent] show ?thesis by simp
qed

subsection \<open>The planner's runs\<close>

lemma digits_int_zeros: "digits_int 10 0 b (replicate k CHR ''0'' @ s) = digits_int 10 0 (b \<or> 0 < k) s"
  by (induction k arbitrary: b) (simp_all add: digit_val_def)

lemma pad8_inject: "pad8 m = pad8 n \<Longrightarrow> m = n"
proof -
  have "digits_int 10 0 False (pad8 k) = Some (int k)" for k
    using digits_int_nat_digits [of 0 _ k "[]"] by (simp add: pad8_def digits_int_zeros)
  then show "pad8 m = pad8 n \<Longrightarrow> m = n" by (metis of_nat_eq_iff option.inject)
qed

lemma planner_ids:
  assumes "planner cfg run_id seq dws truth = Some (truth', gq, lq)"
  shows "map pt_txn_id gq = map (\<lambda>k. ''TXN-'' @ run_id @ ''-'' @ pad8 k) [seq..<seq + length gq]"
  using assms
proof (induction dws arbitrary: seq truth truth' gq lq)
  case (Cons dw dws)
  then obtain txn t1 gq1 lq1 where p: "plan_transaction cfg dw seq run_id = Some txn"
    "planner cfg run_id (seq + 1) dws t1 = Some (truth', gq1, lq1)" "gq = txn # gq1"
    by (auto simp: Let_def split: option.splits)
  have "pt_txn_id txn = ''TXN-'' @ run_id @ ''-'' @ pad8 seq"
    using p(1) by (auto simp: plan_transaction_def Let_def split: option.splits)
  then show ?case using Cons.IH [OF p(2)] p(3) by (simp add: upt_conv_Cons del: upt_Suc)
qed simp

text \<open>Distinct ids, the dropped ones left out of the ledger's queue, and the counts of \<open>truth_of\<close>.\<close>

lemma planner_distinct:
  "planner cfg run_id seq dws truth = Some (truth', gq, lq) \<Longrightarrow> distinct (map pt_txn_id gq)"
  unfolding planner_ids by (simp add: distinct_map inj_on_def pad8_inject)

lemma record_txn_planned:
  "record_txn (g\<lparr> gt_transactions_planned := n \<rparr>) t = (record_txn g t)\<lparr> gt_transactions_planned := n \<rparr>"
  "gt_transactions_planned (record_txn g t) = gt_transactions_planned g"
  by (simp_all add: record_txn_def Let_def)

lemma planner_truth:
  assumes "planner cfg run_id seq dws truth = Some (truth', gq, lq)"
  shows "lq = filter (\<lambda>t. \<not> pt_dropped t) gq \<and>
    truth' = (foldl record_txn truth gq)\<lparr> gt_transactions_planned := gt_transactions_planned truth + length gq \<rparr>"
  using assms
proof (induction dws arbitrary: seq truth truth' gq lq)
  case (Cons dw dws)
  then obtain txn gq1 lq1 where p: "plan_transaction cfg dw seq run_id = Some txn"
    "planner cfg run_id (seq + 1) dws ((record_txn truth txn)\<lparr> gt_transactions_planned := gt_transactions_planned truth + 1 \<rparr>) =
      Some (truth', gq1, lq1)" "gq = txn # gq1" "lq = (if pt_dropped txn then lq1 else txn # lq1)"
    by (auto simp: Let_def record_txn_planned split: option.splits)
  have fold: "foldl record_txn (g\<lparr> gt_transactions_planned := n \<rparr>) ts =
      (foldl record_txn g ts)\<lparr> gt_transactions_planned := n \<rparr>" for g n ts
    by (induction ts arbitrary: g) (simp_all add: record_txn_planned)
  show ?case using Cons.IH [OF p(2)] p(3,4) by (simp add: fold)
qed simp

subsection \<open>The batches of the ledger sender\<close>

text \<open>
  Every transaction taken from the queue is posted once, in order, in batches of at most the configured
  size, whatever the timing; after the sentinel nothing is left unsent.
\<close>

fun taken :: "queue_event list \<Rightarrow> planned_txn list" where
  "taken [] = []"
| "taken (TimedOut # es) = taken es"
| "taken (Sentinel # es) = []"
| "taken (Got txn late # es) = txn # taken es"

lemma ledger_sender_batches:
  assumes "length batch < n"
  shows "(case ledger_sender n batch es of (sent, rest) \<Rightarrow>
    concat sent @ rest = batch @ taken es \<and> (\<forall>b \<in> set sent. b \<noteq> [] \<and> length b \<le> n) \<and>
    (Sentinel \<in> set es \<longrightarrow> rest = []))"
  using assms
proof (induction n batch es rule: ledger_sender.induct)
  case (4 n batch txn late es)
  show ?case
  proof (cases "n \<le> length (batch @ [txn]) \<or> late")
    case True
    then show ?thesis using 4 by (auto simp: flushed_def split: prod.splits)
  next
    case False
    then show ?thesis using 4 by (auto split: prod.splits)
  qed
qed (auto simp: flushed_def split: prod.splits)

end
