(* ===== verification/Migrations.thy ===== *)
theory Migrations
  imports Db_Enums "HOL-Library.AList"
begin

text \<open>
  \<open>alembic/versions\<close>: the three migrations as lists of schema operations, run on a schema and on the
  rows in it; and the schema \<open>db/models.py\<close> declares, with the constraint names of \<open>db/base.py\<close>. A
  migration runs in one transaction (\<open>alembic/env.py\<close>): when an operation fails nothing is applied.
\<close>

subsection \<open>Schemas\<close>

datatype col_type =
    BigInteger
  | Integer32
  | Varchar nat
  | TextType
  | Numeric nat nat
  | Timestamptz
  | Jsonb
  | EnumOf string

record column =
  cl_name :: string
  cl_type :: col_type
  cl_identity :: bool
  cl_default :: "string option"
  cl_nullable :: bool

datatype constraint =
    Check string string
  | PrimaryKey string string
  | ForeignKey string string string string string

text \<open>The predicates of partial indexes: those the schema uses.\<close>

datatype sql_pred =
    IsNull string
  | NotNull string
  | Equals string string
  | Differs string string
  | Both sql_pred sql_pred

datatype index_col = Col string | Desc string

record pg_index =
  ix_name :: string
  ix_columns :: "index_col list"
  ix_unique :: bool
  ix_where :: "sql_pred option"

record table_def =
  td_columns :: "column list"
  td_constraints :: "constraint list"
  td_indexes :: "pg_index list"

record pg_schema =
  sc_enums :: "(string \<times> string list) list"
  sc_tables :: "(string \<times> table_def) list"

definition empty_schema :: pg_schema where
  "empty_schema = \<lparr> sc_enums = [], sc_tables = [] \<rparr>"

text \<open>Two schemas that differ only in the order they list things in.\<close>

definition same_elements :: "'a list \<Rightarrow> 'a list \<Rightarrow> bool" where
  "same_elements xs ys \<longleftrightarrow>
     length xs = length ys \<and> list_all (\<lambda>x. List.member ys x) xs \<and> list_all (\<lambda>y. List.member xs y) ys"

definition same_table :: "table_def \<Rightarrow> table_def \<Rightarrow> bool" where
  "same_table a b \<longleftrightarrow>
     same_elements (td_columns a) (td_columns b) \<and> same_elements (td_constraints a) (td_constraints b) \<and>
     same_elements (td_indexes a) (td_indexes b)"

definition same_schema :: "pg_schema \<Rightarrow> pg_schema \<Rightarrow> bool" where
  "same_schema a b \<longleftrightarrow>
     same_elements (sc_enums a) (sc_enums b) \<and>
     same_elements (map fst (sc_tables a)) (map fst (sc_tables b)) \<and>
     list_all (\<lambda>(n, t). case map_of (sc_tables b) n of None \<Rightarrow> False | Some u \<Rightarrow> same_table t u) (sc_tables a)"

subsection \<open>Operations\<close>

text \<open>
  The operations the migrations are written in. \<open>CreateEnum\<close> and \<open>DropEnum\<close> are the \<open>checkfirst=True\<close>
  forms; \<open>InsertAccount\<close> and \<open>Backfill\<close> are the two statements \<open>0002\<close> executes as text.
\<close>

datatype ddl =
    CreateEnum string "string list"
  | DropEnum string
  | CreateTable string "column list" "constraint list"
  | DropTable string
  | CreateIndex string pg_index
  | DropIndex string string
  | AddColumn string column
  | DropColumn string string
  | SetNotNull string string
  | CreateForeignKey string constraint
  | DropConstraint string string
  | InsertAccount string
  | Backfill string string

fun index_col_name :: "index_col \<Rightarrow> string" where
  "index_col_name (Col c) = c"
| "index_col_name (Desc c) = c"

fun constraint_name :: "constraint \<Rightarrow> string" where
  "constraint_name (Check n _) = n"
| "constraint_name (PrimaryKey n _) = n"
| "constraint_name (ForeignKey n _ _ _ _) = n"

fun references_table :: "string \<Rightarrow> constraint \<Rightarrow> bool" where
  "references_table t (ForeignKey _ _ r _ _) = (r = t)"
| "references_table t _ = False"

fun on_column :: "string \<Rightarrow> constraint \<Rightarrow> bool" where
  "on_column c (ForeignKey _ d _ _ _) = (d = c)"
| "on_column c _ = False"

definition enum_known :: "pg_schema \<Rightarrow> column \<Rightarrow> bool" where
  "enum_known s c = (case cl_type c of EnumOf e \<Rightarrow> map_of (sc_enums s) e \<noteq> None | _ \<Rightarrow> True)"

text \<open>A key is among the columns of the table it is declared on and refers to a table that exists.\<close>

fun constraint_ok :: "pg_schema \<Rightarrow> column list \<Rightarrow> constraint \<Rightarrow> bool" where
  "constraint_ok s cols (Check _ _) = True"
| "constraint_ok s cols (PrimaryKey _ c) = List.member (map cl_name cols) c"
| "constraint_ok s cols (ForeignKey _ c t rc _) =
     (List.member (map cl_name cols) c \<and>
      (case map_of (sc_tables s) t of None \<Rightarrow> False | Some td \<Rightarrow> List.member (map cl_name (td_columns td)) rc))"

definition update_table :: "string \<Rightarrow> (table_def \<Rightarrow> table_def option) \<Rightarrow> pg_schema \<Rightarrow> pg_schema option" where
  "update_table t f s =
     (case map_of (sc_tables s) t of
        None \<Rightarrow> None
      | Some td \<Rightarrow>
          (case f td of
             None \<Rightarrow> None
           | Some td' \<Rightarrow> Some (s\<lparr> sc_tables := AList.update t td' (sc_tables s) \<rparr>)))"

text \<open>The effect on the schema; \<open>None\<close> is an error of the database.\<close>

fun ddl_schema :: "ddl \<Rightarrow> pg_schema \<Rightarrow> pg_schema option" where
  "ddl_schema (CreateEnum n vs) s =
     (if map_of (sc_enums s) n \<noteq> None then Some s else Some (s\<lparr> sc_enums := sc_enums s @ [(n, vs)] \<rparr>))"
| "ddl_schema (DropEnum n) s =
     (if list_ex (\<lambda>(_, td). list_ex (\<lambda>c. cl_type c = EnumOf n) (td_columns td)) (sc_tables s) then None
      else Some (s\<lparr> sc_enums := filter (\<lambda>(m, _). m \<noteq> n) (sc_enums s) \<rparr>))"
| "ddl_schema (CreateTable n cols cons) s =
     (if map_of (sc_tables s) n \<noteq> None \<or> \<not> distinct (map cl_name cols) \<or>
         \<not> list_all (enum_known s) cols \<or> \<not> list_all (constraint_ok s cols) cons then None
      else Some (s\<lparr> sc_tables := sc_tables s @
             [(n, \<lparr> td_columns = cols, td_constraints = cons, td_indexes = [] \<rparr>)] \<rparr>))"
| "ddl_schema (DropTable n) s =
     (if map_of (sc_tables s) n = None \<or>
         list_ex (\<lambda>(m, td). m \<noteq> n \<and> list_ex (references_table n) (td_constraints td)) (sc_tables s) then None
      else Some (s\<lparr> sc_tables := filter (\<lambda>(m, _). m \<noteq> n) (sc_tables s) \<rparr>))"
| "ddl_schema (CreateIndex t ix) s =
     (if list_ex (\<lambda>(_, td). list_ex (\<lambda>j. ix_name j = ix_name ix) (td_indexes td)) (sc_tables s) then None
      else update_table t (\<lambda>td.
        if list_all (\<lambda>c. List.member (map cl_name (td_columns td)) (index_col_name c)) (ix_columns ix)
        then Some (td\<lparr> td_indexes := td_indexes td @ [ix] \<rparr>) else None) s)"
| "ddl_schema (DropIndex t n) s =
     update_table t (\<lambda>td.
        if list_ex (\<lambda>ix. ix_name ix = n) (td_indexes td)
        then Some (td\<lparr> td_indexes := filter (\<lambda>ix. ix_name ix \<noteq> n) (td_indexes td) \<rparr>) else None) s"
| "ddl_schema (AddColumn t c) s =
     update_table t (\<lambda>td.
        if List.member (map cl_name (td_columns td)) (cl_name c) \<or> \<not> enum_known s c then None
        else Some (td\<lparr> td_columns := td_columns td @ [c] \<rparr>)) s"
| "ddl_schema (DropColumn t c) s =
     update_table t (\<lambda>td.
        if \<not> List.member (map cl_name (td_columns td)) c then None
        else Some (td\<lparr> td_columns := filter (\<lambda>d. cl_name d \<noteq> c) (td_columns td),
                       td_constraints := filter (\<lambda>k. \<not> on_column c k) (td_constraints td),
                       td_indexes := filter (\<lambda>ix. \<not> List.member (map index_col_name (ix_columns ix)) c) (td_indexes td) \<rparr>)) s"
| "ddl_schema (SetNotNull t c) s =
     update_table t (\<lambda>td.
        if \<not> List.member (map cl_name (td_columns td)) c then None
        else Some (td\<lparr> td_columns := map (\<lambda>d. if cl_name d = c then d\<lparr> cl_nullable := False \<rparr> else d) (td_columns td) \<rparr>)) s"
| "ddl_schema (CreateForeignKey t k) s =
     update_table t (\<lambda>td.
        if list_ex (\<lambda>j. constraint_name j = constraint_name k) (td_constraints td) \<or> \<not> constraint_ok s (td_columns td) k
        then None else Some (td\<lparr> td_constraints := td_constraints td @ [k] \<rparr>)) s"
| "ddl_schema (DropConstraint t n) s =
     update_table t (\<lambda>td.
        if list_ex (\<lambda>k. constraint_name k = n) (td_constraints td)
        then Some (td\<lparr> td_constraints := filter (\<lambda>k. constraint_name k \<noteq> n) (td_constraints td) \<rparr>) else None) s"
| "ddl_schema (InsertAccount n) s = (if map_of (sc_tables s) ''accounts'' = None then None else Some s)"
| "ddl_schema (Backfill t n) s =
     (if map_of (sc_tables s) ''accounts'' = None \<or> map_of (sc_tables s) t = None then None else Some s)"

fun run_schema :: "ddl list \<Rightarrow> pg_schema \<Rightarrow> pg_schema option" where
  "run_schema [] s = Some s"
| "run_schema (d # ds) s = (case ddl_schema d s of None \<Rightarrow> None | Some s' \<Rightarrow> run_schema ds s')"

subsection \<open>Rows\<close>

text \<open>A row by column name; a column the table does not have reads as \<open>NULL\<close>.\<close>

datatype cell = Null | IntCell int | TextCell string

type_synonym pg_row = "string \<Rightarrow> cell"

record pg_data =
  pd_rows :: "string \<Rightarrow> pg_row list"
  pd_next :: "string \<Rightarrow> int"

text \<open>A predicate is \<open>TRUE\<close>; a comparison with \<open>NULL\<close> is not.\<close>

fun pred_true :: "sql_pred \<Rightarrow> pg_row \<Rightarrow> bool" where
  "pred_true (IsNull c) r = (r c = Null)"
| "pred_true (NotNull c) r = (r c \<noteq> Null)"
| "pred_true (Equals c v) r = (r c = TextCell v)"
| "pred_true (Differs c v) r = (r c \<noteq> Null \<and> r c \<noteq> TextCell v)"
| "pred_true (Both p q) r = (pred_true p r \<and> pred_true q r)"

definition indexed :: "pg_index \<Rightarrow> pg_row \<Rightarrow> bool" where
  "indexed ix r \<longleftrightarrow>
     (case ix_where ix of None \<Rightarrow> True | Some p \<Rightarrow> pred_true p r) \<and>
     list_all (\<lambda>c. r (index_col_name c) \<noteq> Null) (ix_columns ix)"

definition index_key :: "pg_index \<Rightarrow> pg_row \<Rightarrow> cell list" where
  "index_key ix r = map (r \<circ> index_col_name) (ix_columns ix)"

definition index_fits :: "pg_index \<Rightarrow> pg_row list \<Rightarrow> bool" where
  "index_fits ix rows \<longleftrightarrow> (ix_unique ix \<longrightarrow> distinct (map (index_key ix) (filter (indexed ix) rows)))"

fun key_fits :: "constraint \<Rightarrow> pg_data \<Rightarrow> pg_row list \<Rightarrow> bool" where
  "key_fits (ForeignKey _ c t rc _) D rows =
     list_all (\<lambda>r. r c \<noteq> Null \<longrightarrow> list_ex (\<lambda>q. q rc = r c) (pd_rows D t)) rows"
| "key_fits _ D rows = True"

definition set_rows :: "string \<Rightarrow> pg_row list \<Rightarrow> pg_data \<Rightarrow> pg_data" where
  "set_rows t rows D = D\<lparr> pd_rows := (pd_rows D)(t := rows) \<rparr>"

definition account_row :: "cell \<Rightarrow> int \<Rightarrow> string \<Rightarrow> pg_row" where
  "account_row now i n =
     (\<lambda>_. Null)(''id'' := IntCell i, ''name'' := TextCell n, ''kind'' := TextCell ''demo'',
       ''created_at'' := now, ''last_seen_at'' := now)"

text \<open>
  The effect on the rows; \<open>now\<close> is the transaction's time. The subquery of the backfill is \<open>NULL\<close>
  without an account of the name and an error with two.
\<close>

fun ddl_data :: "cell \<Rightarrow> ddl \<Rightarrow> pg_data \<Rightarrow> pg_data option" where
  "ddl_data now (CreateTable n _ _) D = Some (set_rows n [] D\<lparr> pd_next := (pd_next D)(n := 1) \<rparr>)"
| "ddl_data now (DropTable n) D = Some (set_rows n [] D\<lparr> pd_next := (pd_next D)(n := 1) \<rparr>)"
| "ddl_data now (CreateIndex t ix) D = (if index_fits ix (pd_rows D t) then Some D else None)"
| "ddl_data now (AddColumn t c) D =
     (if \<not> cl_nullable c \<and> pd_rows D t \<noteq> [] then None
      else Some (set_rows t (map (\<lambda>r. r(cl_name c := Null)) (pd_rows D t)) D))"
| "ddl_data now (DropColumn t c) D = Some (set_rows t (map (\<lambda>r. r(c := Null)) (pd_rows D t)) D)"
| "ddl_data now (SetNotNull t c) D = (if list_ex (\<lambda>r. r c = Null) (pd_rows D t) then None else Some D)"
| "ddl_data now (CreateForeignKey t k) D = (if key_fits k D (pd_rows D t) then Some D else None)"
| "ddl_data now (InsertAccount n) D =
     (let i = pd_next D ''accounts'';
          D1 = D\<lparr> pd_next := (pd_next D)(''accounts'' := i + 1) \<rparr>
      in if list_ex (\<lambda>r. r ''name'' = TextCell n) (pd_rows D ''accounts'') then Some D1
         else Some (set_rows ''accounts'' (pd_rows D ''accounts'' @ [account_row now i n]) D1))"
| "ddl_data now (Backfill t n) D =
     (case filter (\<lambda>r. r ''name'' = TextCell n) (pd_rows D ''accounts'') of
        [] \<Rightarrow> Some (set_rows t (map (\<lambda>r. r(''tenant_id'' := Null)) (pd_rows D t)) D)
      | [a] \<Rightarrow> Some (set_rows t (map (\<lambda>r. r(''tenant_id'' := a ''id'')) (pd_rows D t)) D)
      | _ \<Rightarrow> None)"
| "ddl_data now (CreateEnum _ _) D = Some D"
| "ddl_data now (DropEnum _) D = Some D"
| "ddl_data now (DropIndex _ _) D = Some D"
| "ddl_data now (DropConstraint _ _) D = Some D"

fun run_data :: "cell \<Rightarrow> ddl list \<Rightarrow> pg_data \<Rightarrow> pg_data option" where
  "run_data now [] D = Some D"
| "run_data now (d # ds) D = (case ddl_data now d D of None \<Rightarrow> None | Some D' \<Rightarrow> run_data now ds D')"

text \<open>One migration in its transaction.\<close>

definition migrate :: "cell \<Rightarrow> ddl list \<Rightarrow> pg_schema \<times> pg_data \<Rightarrow> (pg_schema \<times> pg_data) option" where
  "migrate now ds = (\<lambda>(s, D).
     case (run_schema ds s, run_data now ds D) of
       (Some s', Some D') \<Rightarrow> Some (s', D')
     | _ \<Rightarrow> None)"

end
