(* ===== verification/Migration_Scripts.thy ===== *)
theory Migration_Scripts
  imports Migrations
begin

text \<open>
  The three scripts of \<open>alembic/versions\<close>, upgrade and downgrade, and the schema of \<open>db/models.py\<close>.
\<close>

subsection \<open>\<open>sa.Column\<close> and \<open>op.create_index\<close>\<close>

definition col :: "string \<Rightarrow> col_type \<Rightarrow> column" where
  "col n ty = \<lparr> cl_name = n, cl_type = ty, cl_identity = False, cl_default = None, cl_nullable = False \<rparr>"

definition nullable_col :: "string \<Rightarrow> col_type \<Rightarrow> column" where
  "nullable_col n ty = \<lparr> cl_name = n, cl_type = ty, cl_identity = False, cl_default = None, cl_nullable = True \<rparr>"

definition default_col :: "string \<Rightarrow> col_type \<Rightarrow> string \<Rightarrow> column" where
  "default_col n ty v = \<lparr> cl_name = n, cl_type = ty, cl_identity = False, cl_default = Some v, cl_nullable = False \<rparr>"

definition id_col :: column where
  "id_col = \<lparr> cl_name = ''id'', cl_type = BigInteger, cl_identity = True, cl_default = None, cl_nullable = False \<rparr>"

definition plain_index :: "string \<Rightarrow> index_col list \<Rightarrow> pg_index" where
  "plain_index n cs = \<lparr> ix_name = n, ix_columns = cs, ix_unique = False, ix_where = None \<rparr>"

definition partial_index :: "string \<Rightarrow> index_col list \<Rightarrow> sql_pred \<Rightarrow> pg_index" where
  "partial_index n cs p = \<lparr> ix_name = n, ix_columns = cs, ix_unique = False, ix_where = Some p \<rparr>"

definition unique_on :: "string \<Rightarrow> index_col list \<Rightarrow> pg_index" where
  "unique_on n cs = \<lparr> ix_name = n, ix_columns = cs, ix_unique = True, ix_where = None \<rparr>"

definition partial_unique :: "string \<Rightarrow> index_col list \<Rightarrow> sql_pred \<Rightarrow> pg_index" where
  "partial_unique n cs p = \<lparr> ix_name = n, ix_columns = cs, ix_unique = True, ix_where = Some p \<rparr>"

subsection \<open>\<open>0001\<close>: the single-tenant schema\<close>

definition INGEST_SOURCE :: "string \<times> string list" where
  "INGEST_SOURCE = (''ingest_source'', [''gateway'', ''ledger''])"

definition RECON_STATUS :: "string \<times> string list" where
  "RECON_STATUS =
     (''recon_status'',
      [''matched'', ''unmatched_gateway_only'', ''unmatched_ledger_only'', ''duplicate'', ''amount_drift'',
       ''time_drift''])"

definition MATCH_LAYER :: "string \<times> string list" where
  "MATCH_LAYER =
     (''match_layer'', [''exact'', ''time_drift'', ''amount_drift'', ''duplicate'', ''unmatched_sweep''])"

definition currency_ck :: string where
  "currency_ck = ''currency ~ '' @ CHR 0x27 # ''^[A-Z]{3}$'' @ [CHR 0x27]"

text \<open>\<open>op.f("ck_..")\<close> and its kind give the final name of a constraint as it is.\<close>

definition create_gateway_transactions :: "ddl list" where
  "create_gateway_transactions =
     [CreateTable ''gateway_transactions''
        [id_col, col ''txn_id'' (Varchar 128), col ''amount'' (Numeric 18 2), col ''currency'' (Varchar 3),
         col ''occurred_at'' Timestamptz, col ''gateway_ref'' (Varchar 128), col ''raw_payload'' Jsonb,
         col ''idempotency_key'' (Varchar 255), default_col ''duplicate_count'' Integer32 ''0'',
         default_col ''received_at'' Timestamptz ''now()'', nullable_col ''reconciled_at'' Timestamptz]
        [Check ''ck_gateway_transactions_currency_iso4217'' currency_ck,
         Check ''ck_gateway_transactions_duplicate_count_non_negative'' ''duplicate_count >= 0'',
         PrimaryKey ''pk_gateway_transactions'' ''id''],
      CreateIndex ''gateway_transactions''
        (unique_on ''uq_gateway_transactions_idempotency_key'' [Col ''idempotency_key'']),
      CreateIndex ''gateway_transactions''
        (plain_index ''ix_gateway_transactions_txn_id_occurred_at'' [Col ''txn_id'', Col ''occurred_at'']),
      CreateIndex ''gateway_transactions''
        (partial_index ''ix_gateway_transactions_pending_received_at'' [Col ''received_at'']
           (IsNull ''reconciled_at''))]"

definition create_ledger_entries :: "ddl list" where
  "create_ledger_entries =
     [CreateTable ''ledger_entries''
        [id_col, col ''entry_id'' (Varchar 128), col ''txn_id'' (Varchar 128), col ''amount'' (Numeric 18 2),
         col ''currency'' (Varchar 3), col ''occurred_at'' Timestamptz, col ''raw_payload'' Jsonb,
         col ''idempotency_key'' (Varchar 255), default_col ''duplicate_count'' Integer32 ''0'',
         default_col ''received_at'' Timestamptz ''now()'', nullable_col ''reconciled_at'' Timestamptz]
        [Check ''ck_ledger_entries_currency_iso4217'' currency_ck,
         Check ''ck_ledger_entries_duplicate_count_non_negative'' ''duplicate_count >= 0'',
         PrimaryKey ''pk_ledger_entries'' ''id''],
      CreateIndex ''ledger_entries''
        (unique_on ''uq_ledger_entries_idempotency_key'' [Col ''idempotency_key'']),
      CreateIndex ''ledger_entries''
        (plain_index ''ix_ledger_entries_txn_id_occurred_at'' [Col ''txn_id'', Col ''occurred_at'']),
      CreateIndex ''ledger_entries''
        (partial_index ''ix_ledger_entries_pending_received_at'' [Col ''received_at''] (IsNull ''reconciled_at''))]"

definition create_outbox_events :: "ddl list" where
  "create_outbox_events =
     [CreateTable ''outbox_events''
        [id_col, col ''source'' (EnumOf ''ingest_source''), col ''row_id'' BigInteger, col ''payload'' Jsonb,
         default_col ''created_at'' Timestamptz ''now()'', nullable_col ''published_at'' Timestamptz,
         default_col ''attempts'' Integer32 ''0'']
        [PrimaryKey ''pk_outbox_events'' ''id''],
      CreateIndex ''outbox_events''
        (partial_index ''ix_outbox_events_unpublished'' [Col ''id''] (IsNull ''published_at''))]"

definition active_pred :: "string \<Rightarrow> sql_pred" where
  "active_pred c = Both (NotNull c) (Differs ''status'' ''duplicate'')"

definition dupe_pred :: "string \<Rightarrow> sql_pred" where
  "dupe_pred c = Both (NotNull c) (Equals ''status'' ''duplicate'')"

definition create_reconciliation_results :: "ddl list" where
  "create_reconciliation_results =
     [CreateTable ''reconciliation_results''
        [id_col, nullable_col ''gateway_txn_id'' BigInteger, nullable_col ''ledger_entry_id'' BigInteger,
         col ''status'' (EnumOf ''recon_status''), col ''match_layer'' (EnumOf ''match_layer''),
         default_col ''resolved_at'' Timestamptz ''now()'', nullable_col ''notes'' TextType,
         nullable_col ''match_latency_ms'' Integer32, nullable_col ''source_message_id'' (Varchar 64)]
        [Check ''ck_reconciliation_results_at_least_one_side''
           ''gateway_txn_id IS NOT NULL OR ledger_entry_id IS NOT NULL'',
         Check ''ck_reconciliation_results_latency_non_negative''
           ''match_latency_ms IS NULL OR match_latency_ms >= 0'',
         ForeignKey ''fk_reconciliation_results_gateway_txn_id_gateway_transactions''
           ''gateway_txn_id'' ''gateway_transactions'' ''id'' ''RESTRICT'',
         ForeignKey ''fk_reconciliation_results_ledger_entry_id_ledger_entries''
           ''ledger_entry_id'' ''ledger_entries'' ''id'' ''RESTRICT'',
         PrimaryKey ''pk_reconciliation_results'' ''id''],
      CreateIndex ''reconciliation_results''
        (partial_unique ''uq_reconciliation_results_gateway_active'' [Col ''gateway_txn_id'']
           (active_pred ''gateway_txn_id'')),
      CreateIndex ''reconciliation_results''
        (partial_unique ''uq_reconciliation_results_ledger_active'' [Col ''ledger_entry_id'']
           (active_pred ''ledger_entry_id'')),
      CreateIndex ''reconciliation_results''
        (partial_unique ''uq_reconciliation_results_gateway_duplicate'' [Col ''gateway_txn_id'']
           (dupe_pred ''gateway_txn_id'')),
      CreateIndex ''reconciliation_results''
        (partial_unique ''uq_reconciliation_results_ledger_duplicate'' [Col ''ledger_entry_id'']
           (dupe_pred ''ledger_entry_id'')),
      CreateIndex ''reconciliation_results''
        (plain_index ''ix_reconciliation_results_status_id'' [Col ''status'', Desc ''id'']),
      CreateIndex ''reconciliation_results''
        (plain_index ''ix_reconciliation_results_resolved_at'' [Col ''resolved_at''])]"

definition create_exceptions :: "ddl list" where
  "create_exceptions =
     [CreateTable ''exceptions''
        [id_col, col ''reconciliation_result_id'' BigInteger, default_col ''opened_at'' Timestamptz ''now()'',
         nullable_col ''closed_at'' Timestamptz, nullable_col ''resolution_notes'' TextType]
        [Check ''ck_exceptions_closed_after_opened'' ''closed_at IS NULL OR closed_at >= opened_at'',
         ForeignKey ''fk_exceptions_reconciliation_result_id_reconciliation_results''
           ''reconciliation_result_id'' ''reconciliation_results'' ''id'' ''CASCADE'',
         PrimaryKey ''pk_exceptions'' ''id''],
      CreateIndex ''exceptions''
        (unique_on ''uq_exceptions_reconciliation_result_id'' [Col ''reconciliation_result_id'']),
      CreateIndex ''exceptions'' (partial_index ''ix_exceptions_open_id'' [Desc ''id''] (IsNull ''closed_at'')),
      CreateIndex ''exceptions'' (partial_index ''ix_exceptions_closed_id'' [Desc ''id''] (NotNull ''closed_at''))]"

definition upgrade_0001 :: "ddl list" where
  "upgrade_0001 =
     map (\<lambda>(n, vs). CreateEnum n vs) [INGEST_SOURCE, RECON_STATUS, MATCH_LAYER] @
     create_gateway_transactions @ create_ledger_entries @ create_outbox_events @
     create_reconciliation_results @ create_exceptions"

definition downgrade_0001 :: "ddl list" where
  "downgrade_0001 =
     map DropTable [''exceptions'', ''reconciliation_results'', ''outbox_events'', ''ledger_entries'',
       ''gateway_transactions''] @
     map (\<lambda>(n, vs). DropEnum n) [MATCH_LAYER, RECON_STATUS, INGEST_SOURCE]"

subsection \<open>\<open>0002\<close>: accounts and the tenant column\<close>

definition ACCOUNT_KIND :: "string \<times> string list" where
  "ACCOUNT_KIND = (''account_kind'', [''real'', ''demo''])"

definition DEFAULT_ACCOUNT_NAME :: string where
  "DEFAULT_ACCOUNT_NAME = ''default''"

definition TENANTED_TABLES :: "string list" where
  "TENANTED_TABLES = [''gateway_transactions'', ''ledger_entries'', ''reconciliation_results'', ''exceptions'']"

definition RESULT_UNIQUE_INDEXES :: "(string \<times> string \<times> sql_pred) list" where
  "RESULT_UNIQUE_INDEXES =
     [(''gateway_active'', ''gateway_txn_id'', active_pred ''gateway_txn_id''),
      (''ledger_active'', ''ledger_entry_id'', active_pred ''ledger_entry_id''),
      (''gateway_duplicate'', ''gateway_txn_id'', dupe_pred ''gateway_txn_id''),
      (''ledger_duplicate'', ''ledger_entry_id'', dupe_pred ''ledger_entry_id'')]"

definition create_tenancy_tables :: "ddl list" where
  "create_tenancy_tables =
     [CreateEnum (fst ACCOUNT_KIND) (snd ACCOUNT_KIND),
      CreateTable ''accounts''
        [id_col, col ''name'' (Varchar 255), col ''kind'' (EnumOf ''account_kind''),
         default_col ''created_at'' Timestamptz ''now()'', default_col ''last_seen_at'' Timestamptz ''now()'']
        [PrimaryKey ''pk_accounts'' ''id''],
      CreateIndex ''accounts'' (unique_on ''uq_accounts_name'' [Col ''name'']),
      CreateIndex ''accounts''
        (partial_index ''ix_accounts_demo_last_seen_at'' [Col ''last_seen_at''] (Equals ''kind'' ''demo'')),
      CreateTable ''api_keys''
        [id_col, col ''account_id'' BigInteger, col ''key_hash'' (Varchar 64), col ''prefix'' (Varchar 16),
         col ''label'' (Varchar 255), default_col ''created_at'' Timestamptz ''now()'',
         nullable_col ''revoked_at'' Timestamptz]
        [ForeignKey ''fk_api_keys_account_id_accounts'' ''account_id'' ''accounts'' ''id'' ''CASCADE'',
         PrimaryKey ''pk_api_keys'' ''id''],
      CreateIndex ''api_keys'' (unique_on ''uq_api_keys_key_hash'' [Col ''key_hash'']),
      CreateIndex ''api_keys'' (plain_index ''ix_api_keys_account_id'' [Col ''account_id'']),
      InsertAccount DEFAULT_ACCOUNT_NAME]"

definition tenant_fk :: "string \<Rightarrow> string" where
  "tenant_fk t = ''fk_'' @ t @ ''_tenant_id_accounts''"

definition add_tenant_column :: "string \<Rightarrow> ddl list" where
  "add_tenant_column t =
     [AddColumn t (nullable_col ''tenant_id'' BigInteger),
      Backfill t DEFAULT_ACCOUNT_NAME,
      SetNotNull t ''tenant_id'',
      CreateForeignKey t (ForeignKey (tenant_fk t) ''tenant_id'' ''accounts'' ''id'' ''RESTRICT'')]"

definition rebuild_uniqueness :: "ddl list" where
  "rebuild_uniqueness =
     [DropIndex ''gateway_transactions'' ''uq_gateway_transactions_idempotency_key'',
      CreateIndex ''gateway_transactions''
        (unique_on ''uq_gateway_transactions_tenant_idempotency_key'' [Col ''tenant_id'', Col ''idempotency_key'']),
      DropIndex ''ledger_entries'' ''uq_ledger_entries_idempotency_key'',
      CreateIndex ''ledger_entries''
        (unique_on ''uq_ledger_entries_tenant_idempotency_key'' [Col ''tenant_id'', Col ''idempotency_key''])] @
     concat (map (\<lambda>(n, c, p).
       [DropIndex ''reconciliation_results'' (''uq_reconciliation_results_'' @ n),
        CreateIndex ''reconciliation_results''
          (partial_unique (''uq_reconciliation_results_tenant_'' @ n) [Col ''tenant_id'', Col c] p)])
       RESULT_UNIQUE_INDEXES)"

definition rebuild_read_path :: "ddl list" where
  "rebuild_read_path =
     [DropIndex ''gateway_transactions'' ''ix_gateway_transactions_txn_id_occurred_at'',
      CreateIndex ''gateway_transactions''
        (plain_index ''ix_gateway_transactions_tenant_txn_id_occurred_at''
           [Col ''tenant_id'', Col ''txn_id'', Col ''occurred_at'']),
      DropIndex ''ledger_entries'' ''ix_ledger_entries_txn_id_occurred_at'',
      CreateIndex ''ledger_entries''
        (plain_index ''ix_ledger_entries_tenant_txn_id_occurred_at''
           [Col ''tenant_id'', Col ''txn_id'', Col ''occurred_at'']),
      CreateIndex ''gateway_transactions'' (plain_index ''ix_gateway_transactions_tenant_id'' [Col ''tenant_id'']),
      CreateIndex ''ledger_entries'' (plain_index ''ix_ledger_entries_tenant_id'' [Col ''tenant_id'']),
      DropIndex ''reconciliation_results'' ''ix_reconciliation_results_status_id'',
      CreateIndex ''reconciliation_results''
        (plain_index ''ix_reconciliation_results_tenant_status_id'' [Col ''tenant_id'', Col ''status'', Desc ''id'']),
      DropIndex ''reconciliation_results'' ''ix_reconciliation_results_resolved_at'',
      CreateIndex ''reconciliation_results''
        (plain_index ''ix_reconciliation_results_tenant_resolved_at'' [Col ''tenant_id'', Col ''resolved_at'']),
      CreateIndex ''reconciliation_results''
        (plain_index ''ix_reconciliation_results_tenant_id_id'' [Col ''tenant_id'', Desc ''id'']),
      DropIndex ''exceptions'' ''ix_exceptions_open_id'',
      CreateIndex ''exceptions''
        (partial_index ''ix_exceptions_tenant_open_id'' [Col ''tenant_id'', Desc ''id''] (IsNull ''closed_at'')),
      DropIndex ''exceptions'' ''ix_exceptions_closed_id'',
      CreateIndex ''exceptions''
        (partial_index ''ix_exceptions_tenant_closed_id'' [Col ''tenant_id'', Desc ''id''] (NotNull ''closed_at'')),
      CreateIndex ''exceptions'' (plain_index ''ix_exceptions_tenant_id_id'' [Col ''tenant_id'', Desc ''id''])]"

definition upgrade_0002 :: "ddl list" where
  "upgrade_0002 =
     create_tenancy_tables @ concat (map add_tenant_column TENANTED_TABLES) @ rebuild_uniqueness @
     rebuild_read_path"

definition restore_read_path :: "ddl list" where
  "restore_read_path =
     [DropIndex ''exceptions'' ''ix_exceptions_tenant_id_id'',
      DropIndex ''exceptions'' ''ix_exceptions_tenant_closed_id'',
      CreateIndex ''exceptions'' (partial_index ''ix_exceptions_closed_id'' [Desc ''id''] (NotNull ''closed_at'')),
      DropIndex ''exceptions'' ''ix_exceptions_tenant_open_id'',
      CreateIndex ''exceptions'' (partial_index ''ix_exceptions_open_id'' [Desc ''id''] (IsNull ''closed_at'')),
      DropIndex ''reconciliation_results'' ''ix_reconciliation_results_tenant_id_id'',
      DropIndex ''reconciliation_results'' ''ix_reconciliation_results_tenant_resolved_at'',
      CreateIndex ''reconciliation_results''
        (plain_index ''ix_reconciliation_results_resolved_at'' [Col ''resolved_at'']),
      DropIndex ''reconciliation_results'' ''ix_reconciliation_results_tenant_status_id'',
      CreateIndex ''reconciliation_results''
        (plain_index ''ix_reconciliation_results_status_id'' [Col ''status'', Desc ''id'']),
      DropIndex ''ledger_entries'' ''ix_ledger_entries_tenant_id'',
      DropIndex ''gateway_transactions'' ''ix_gateway_transactions_tenant_id'',
      DropIndex ''ledger_entries'' ''ix_ledger_entries_tenant_txn_id_occurred_at'',
      CreateIndex ''ledger_entries''
        (plain_index ''ix_ledger_entries_txn_id_occurred_at'' [Col ''txn_id'', Col ''occurred_at'']),
      DropIndex ''gateway_transactions'' ''ix_gateway_transactions_tenant_txn_id_occurred_at'',
      CreateIndex ''gateway_transactions''
        (plain_index ''ix_gateway_transactions_txn_id_occurred_at'' [Col ''txn_id'', Col ''occurred_at''])]"

definition restore_uniqueness :: "ddl list" where
  "restore_uniqueness =
     concat (map (\<lambda>(n, c, p).
       [DropIndex ''reconciliation_results'' (''uq_reconciliation_results_tenant_'' @ n),
        CreateIndex ''reconciliation_results'' (partial_unique (''uq_reconciliation_results_'' @ n) [Col c] p)])
       RESULT_UNIQUE_INDEXES) @
     [DropIndex ''ledger_entries'' ''uq_ledger_entries_tenant_idempotency_key'',
      CreateIndex ''ledger_entries''
        (unique_on ''uq_ledger_entries_idempotency_key'' [Col ''idempotency_key'']),
      DropIndex ''gateway_transactions'' ''uq_gateway_transactions_tenant_idempotency_key'',
      CreateIndex ''gateway_transactions''
        (unique_on ''uq_gateway_transactions_idempotency_key'' [Col ''idempotency_key''])]"

definition drop_tenancy :: "ddl list" where
  "drop_tenancy =
     concat (map (\<lambda>t. [DropConstraint t (tenant_fk t), DropColumn t ''tenant_id'']) (rev TENANTED_TABLES)) @
     [DropTable ''api_keys'', DropTable ''accounts'', DropEnum (fst ACCOUNT_KIND)]"

definition downgrade_0002 :: "ddl list" where
  "downgrade_0002 = restore_read_path @ restore_uniqueness @ drop_tenancy"

subsection \<open>\<open>0003\<close>: webhook sources\<close>

definition WEBHOOK_PROVIDER :: "string \<times> string list" where
  "WEBHOOK_PROVIDER = (''webhook_provider'', [''stripe'', ''razorpay'', ''custom''])"

definition WEBHOOK_DELIVERY_STATUS :: "string \<times> string list" where
  "WEBHOOK_DELIVERY_STATUS = (''webhook_delivery_status'', [''ok'', ''invalid_signature'', ''invalid_payload''])"

definition upgrade_0003 :: "ddl list" where
  "upgrade_0003 =
     map (\<lambda>(n, vs). CreateEnum n vs) [WEBHOOK_PROVIDER, WEBHOOK_DELIVERY_STATUS] @
     [CreateTable ''webhook_sources''
        [id_col, col ''account_id'' BigInteger, col ''provider'' (EnumOf ''webhook_provider''),
         col ''source_token'' (Varchar 64), col ''signing_secret'' (Varchar 255), col ''label'' (Varchar 255),
         nullable_col ''last_event_at'' Timestamptz,
         nullable_col ''last_delivery_status'' (EnumOf ''webhook_delivery_status''),
         default_col ''created_at'' Timestamptz ''now()'', nullable_col ''revoked_at'' Timestamptz]
        [ForeignKey ''fk_webhook_sources_account_id_accounts'' ''account_id'' ''accounts'' ''id'' ''CASCADE'',
         PrimaryKey ''pk_webhook_sources'' ''id''],
      CreateIndex ''webhook_sources'' (unique_on ''uq_webhook_sources_source_token'' [Col ''source_token'']),
      CreateIndex ''webhook_sources'' (plain_index ''ix_webhook_sources_account_id'' [Col ''account_id''])]"

definition downgrade_0003 :: "ddl list" where
  "downgrade_0003 =
     [DropIndex ''webhook_sources'' ''ix_webhook_sources_account_id'',
      DropIndex ''webhook_sources'' ''uq_webhook_sources_source_token'',
      DropTable ''webhook_sources''] @
     map (\<lambda>(n, vs). DropEnum n) [WEBHOOK_DELIVERY_STATUS, WEBHOOK_PROVIDER]"

end
