(* ===== verification/Models_Schema.thy ===== *)
theory Models_Schema
  imports Migration_Scripts
begin

text \<open>
  The schema that \<open>db/models.py\<close> declares: columns, keys and indexes of every class, with the constraint
  names the convention of \<open>db/base.py\<close> gives them and the enum values of \<open>db/enums.py\<close>.
\<close>

text \<open>\<open>NAMING_CONVENTION\<close>, for the kinds of constraint the models leave unnamed.\<close>

definition pk_name :: "string \<Rightarrow> string" where
  "pk_name t = ''pk_'' @ t"

definition ck_name :: "string \<Rightarrow> string \<Rightarrow> string" where
  "ck_name t n = ''ck_'' @ t @ ''_'' @ n"

definition fk_name :: "string \<Rightarrow> string \<Rightarrow> string \<Rightarrow> string" where
  "fk_name t c r = ''fk_'' @ t @ ''_'' @ c @ ''_'' @ r"

definition foreign_key :: "string \<Rightarrow> string \<Rightarrow> string \<Rightarrow> string \<Rightarrow> constraint" where
  "foreign_key t c r od = ForeignKey (fk_name t c r) c r ''id'' od"

definition primary_key :: "string \<Rightarrow> constraint" where
  "primary_key t = PrimaryKey (pk_name t) ''id''"

text \<open>\<open>_tenant_column\<close>: the column and its key.\<close>

definition tenant_col :: column where
  "tenant_col = col ''tenant_id'' BigInteger"

definition tenant_key :: "string \<Rightarrow> constraint" where
  "tenant_key t = foreign_key t ''tenant_id'' ''accounts'' ''RESTRICT''"

definition Account_table :: table_def where
  "Account_table =
     \<lparr> td_columns = [id_col, col ''name'' (Varchar 255), col ''kind'' (EnumOf ''account_kind''),
         default_col ''created_at'' Timestamptz ''now()'', default_col ''last_seen_at'' Timestamptz ''now()''],
       td_constraints = [primary_key ''accounts''],
       td_indexes =
         [unique_on ''uq_accounts_name'' [Col ''name''],
          partial_index ''ix_accounts_demo_last_seen_at'' [Col ''last_seen_at''] (Equals ''kind'' ''demo'')] \<rparr>"

definition ApiKey_table :: table_def where
  "ApiKey_table =
     \<lparr> td_columns = [id_col, col ''account_id'' BigInteger, col ''key_hash'' (Varchar 64),
         col ''prefix'' (Varchar 16), col ''label'' (Varchar 255),
         default_col ''created_at'' Timestamptz ''now()'', nullable_col ''revoked_at'' Timestamptz],
       td_constraints = [primary_key ''api_keys'', foreign_key ''api_keys'' ''account_id'' ''accounts'' ''CASCADE''],
       td_indexes =
         [unique_on ''uq_api_keys_key_hash'' [Col ''key_hash''],
          plain_index ''ix_api_keys_account_id'' [Col ''account_id'']] \<rparr>"

definition WebhookSource_table :: table_def where
  "WebhookSource_table =
     \<lparr> td_columns = [id_col, col ''account_id'' BigInteger, col ''provider'' (EnumOf ''webhook_provider''),
         col ''source_token'' (Varchar 64), col ''signing_secret'' (Varchar 255), col ''label'' (Varchar 255),
         nullable_col ''last_event_at'' Timestamptz,
         nullable_col ''last_delivery_status'' (EnumOf ''webhook_delivery_status''),
         default_col ''created_at'' Timestamptz ''now()'', nullable_col ''revoked_at'' Timestamptz],
       td_constraints =
         [primary_key ''webhook_sources'', foreign_key ''webhook_sources'' ''account_id'' ''accounts'' ''CASCADE''],
       td_indexes =
         [unique_on ''uq_webhook_sources_source_token'' [Col ''source_token''],
          plain_index ''ix_webhook_sources_account_id'' [Col ''account_id'']] \<rparr>"

text \<open>The columns the two raw tables share after \<open>occurred_at\<close> (and \<open>gateway_ref\<close>), and their checks.\<close>

definition raw_columns :: "column list" where
  "raw_columns =
     [col ''raw_payload'' Jsonb, col ''idempotency_key'' (Varchar 255),
      default_col ''duplicate_count'' Integer32 ''0'', default_col ''received_at'' Timestamptz ''now()'',
      nullable_col ''reconciled_at'' Timestamptz]"

definition raw_constraints :: "string \<Rightarrow> constraint list" where
  "raw_constraints t =
     [primary_key t, tenant_key t, Check (ck_name t ''currency_iso4217'') currency_ck,
      Check (ck_name t ''duplicate_count_non_negative'') ''duplicate_count >= 0'']"

definition GatewayTransaction_table :: table_def where
  "GatewayTransaction_table =
     \<lparr> td_columns = [id_col, tenant_col, col ''txn_id'' (Varchar 128), col ''amount'' (Numeric 18 2),
         col ''currency'' (Varchar 3), col ''occurred_at'' Timestamptz, col ''gateway_ref'' (Varchar 128)] @ raw_columns,
       td_constraints = raw_constraints ''gateway_transactions'',
       td_indexes =
         [unique_on ''uq_gateway_transactions_tenant_idempotency_key'' [Col ''tenant_id'', Col ''idempotency_key''],
          plain_index ''ix_gateway_transactions_tenant_txn_id_occurred_at''
            [Col ''tenant_id'', Col ''txn_id'', Col ''occurred_at''],
          partial_index ''ix_gateway_transactions_pending_received_at'' [Col ''received_at'']
            (IsNull ''reconciled_at''),
          plain_index ''ix_gateway_transactions_tenant_id'' [Col ''tenant_id'']] \<rparr>"

definition LedgerEntry_table :: table_def where
  "LedgerEntry_table =
     \<lparr> td_columns = [id_col, tenant_col, col ''entry_id'' (Varchar 128), col ''txn_id'' (Varchar 128),
         col ''amount'' (Numeric 18 2), col ''currency'' (Varchar 3), col ''occurred_at'' Timestamptz] @ raw_columns,
       td_constraints = raw_constraints ''ledger_entries'',
       td_indexes =
         [unique_on ''uq_ledger_entries_tenant_idempotency_key'' [Col ''tenant_id'', Col ''idempotency_key''],
          plain_index ''ix_ledger_entries_tenant_txn_id_occurred_at''
            [Col ''tenant_id'', Col ''txn_id'', Col ''occurred_at''],
          partial_index ''ix_ledger_entries_pending_received_at'' [Col ''received_at''] (IsNull ''reconciled_at''),
          plain_index ''ix_ledger_entries_tenant_id'' [Col ''tenant_id'']] \<rparr>"

definition OutboxEvent_table :: table_def where
  "OutboxEvent_table =
     \<lparr> td_columns = [id_col, col ''source'' (EnumOf ''ingest_source''), col ''row_id'' BigInteger,
         col ''payload'' Jsonb, default_col ''created_at'' Timestamptz ''now()'',
         nullable_col ''published_at'' Timestamptz, default_col ''attempts'' Integer32 ''0''],
       td_constraints = [primary_key ''outbox_events''],
       td_indexes = [partial_index ''ix_outbox_events_unpublished'' [Col ''id''] (IsNull ''published_at'')] \<rparr>"

definition ReconciliationResult_table :: table_def where
  "ReconciliationResult_table =
     (let t = ''reconciliation_results'' in
     \<lparr> td_columns = [id_col, tenant_col, nullable_col ''gateway_txn_id'' BigInteger,
         nullable_col ''ledger_entry_id'' BigInteger, col ''status'' (EnumOf ''recon_status''),
         col ''match_layer'' (EnumOf ''match_layer''), default_col ''resolved_at'' Timestamptz ''now()'',
         nullable_col ''notes'' TextType, nullable_col ''match_latency_ms'' Integer32,
         nullable_col ''source_message_id'' (Varchar 64)],
       td_constraints =
         [primary_key t, tenant_key t, foreign_key t ''gateway_txn_id'' ''gateway_transactions'' ''RESTRICT'',
          foreign_key t ''ledger_entry_id'' ''ledger_entries'' ''RESTRICT'',
          Check (ck_name t ''at_least_one_side'') ''gateway_txn_id IS NOT NULL OR ledger_entry_id IS NOT NULL'',
          Check (ck_name t ''latency_non_negative'') ''match_latency_ms IS NULL OR match_latency_ms >= 0''],
       td_indexes =
         [partial_unique ''uq_reconciliation_results_tenant_gateway_active'' [Col ''tenant_id'', Col ''gateway_txn_id'']
            (Both (NotNull ''gateway_txn_id'') (Differs ''status'' ''duplicate'')),
          partial_unique ''uq_reconciliation_results_tenant_ledger_active'' [Col ''tenant_id'', Col ''ledger_entry_id'']
            (Both (NotNull ''ledger_entry_id'') (Differs ''status'' ''duplicate'')),
          partial_unique ''uq_reconciliation_results_tenant_gateway_duplicate'' [Col ''tenant_id'', Col ''gateway_txn_id'']
            (Both (NotNull ''gateway_txn_id'') (Equals ''status'' ''duplicate'')),
          partial_unique ''uq_reconciliation_results_tenant_ledger_duplicate'' [Col ''tenant_id'', Col ''ledger_entry_id'']
            (Both (NotNull ''ledger_entry_id'') (Equals ''status'' ''duplicate'')),
          plain_index ''ix_reconciliation_results_tenant_status_id'' [Col ''tenant_id'', Col ''status'', Desc ''id''],
          plain_index ''ix_reconciliation_results_tenant_id_id'' [Col ''tenant_id'', Desc ''id''],
          plain_index ''ix_reconciliation_results_tenant_resolved_at'' [Col ''tenant_id'', Col ''resolved_at'']] \<rparr>)"

definition Exception_table :: table_def where
  "Exception_table =
     \<lparr> td_columns = [id_col, tenant_col, col ''reconciliation_result_id'' BigInteger,
         default_col ''opened_at'' Timestamptz ''now()'', nullable_col ''closed_at'' Timestamptz,
         nullable_col ''resolution_notes'' TextType],
       td_constraints =
         [primary_key ''exceptions'', tenant_key ''exceptions'',
          foreign_key ''exceptions'' ''reconciliation_result_id'' ''reconciliation_results'' ''CASCADE'',
          Check (ck_name ''exceptions'' ''closed_after_opened'') ''closed_at IS NULL OR closed_at >= opened_at''],
       td_indexes =
         [unique_on ''uq_exceptions_reconciliation_result_id'' [Col ''reconciliation_result_id''],
          partial_index ''ix_exceptions_tenant_open_id'' [Col ''tenant_id'', Desc ''id''] (IsNull ''closed_at''),
          partial_index ''ix_exceptions_tenant_closed_id'' [Col ''tenant_id'', Desc ''id''] (NotNull ''closed_at''),
          plain_index ''ix_exceptions_tenant_id_id'' [Col ''tenant_id'', Desc ''id'']] \<rparr>"

fun delivery_status_value :: "webhook_delivery_status \<Rightarrow> string" where
  "delivery_status_value OK = ''ok''"
| "delivery_status_value INVALID_SIGNATURE = ''invalid_signature''"
| "delivery_status_value INVALID_PAYLOAD = ''invalid_payload''"

text \<open>\<open>Base.metadata\<close>: the native enums, with the values of the Python enumerations, and the tables.\<close>

definition metadata :: pg_schema where
  "metadata =
     \<lparr> sc_enums =
         [(''ingest_source'', map ingest_source_value [GATEWAY, LEDGER]),
          (''recon_status'', map recon_status_value
             [MATCHED, UNMATCHED_GATEWAY_ONLY, UNMATCHED_LEDGER_ONLY, DUPLICATE, AMOUNT_DRIFT, TIME_DRIFT]),
          (''match_layer'', map match_layer_value
             [L_EXACT, L_TIME_DRIFT, L_AMOUNT_DRIFT, L_DUPLICATE, L_UNMATCHED_SWEEP]),
          (''account_kind'', map account_kind_value [REAL, DEMO]),
          (''webhook_provider'', map webhook_provider_value [STRIPE, RAZORPAY, CUSTOM]),
          (''webhook_delivery_status'', map delivery_status_value [OK, INVALID_SIGNATURE, INVALID_PAYLOAD])],
       sc_tables =
         [(''accounts'', Account_table), (''api_keys'', ApiKey_table), (''webhook_sources'', WebhookSource_table),
          (''gateway_transactions'', GatewayTransaction_table), (''ledger_entries'', LedgerEntry_table),
          (''outbox_events'', OutboxEvent_table), (''reconciliation_results'', ReconciliationResult_table),
          (''exceptions'', Exception_table)] \<rparr>"

end
