(* ===== verification/Migration_Chain.thy ===== *)
theory Migration_Chain
  imports Models_Schema
begin

text \<open>
  The three migrations run one after the other on an empty schema, evaluated once: the head is the schema of
  the models, and every downgrade goes back to the revision before.
\<close>

subsection \<open>The chain of schemas\<close>

definition schema_0001 :: pg_schema where
  "schema_0001 = the (run_schema upgrade_0001 empty_schema)"

definition schema_0002 :: pg_schema where
  "schema_0002 = the (run_schema upgrade_0002 schema_0001)"

definition schema_0003 :: pg_schema where
  "schema_0003 = the (run_schema upgrade_0003 schema_0002)"

text \<open>A run that ends, in a schema that is another up to order.\<close>

definition runs_to :: "ddl list \<Rightarrow> pg_schema \<Rightarrow> pg_schema \<Rightarrow> bool" where
  "runs_to ds s s' \<longleftrightarrow> (case run_schema ds s of None \<Rightarrow> False | Some u \<Rightarrow> same_schema u s')"

text \<open>One evaluation of the whole chain, up and down.\<close>

definition chain_ok :: bool where
  "chain_ok \<longleftrightarrow>
     (case run_schema upgrade_0001 empty_schema of None \<Rightarrow> False | Some s1 \<Rightarrow>
      (case run_schema upgrade_0002 s1 of None \<Rightarrow> False | Some s2 \<Rightarrow>
       (case run_schema upgrade_0003 s2 of None \<Rightarrow> False | Some s3 \<Rightarrow>
          same_schema s3 metadata \<and>
          runs_to downgrade_0003 s3 s2 \<and> runs_to downgrade_0002 s2 s1 \<and> runs_to downgrade_0001 s1 empty_schema)))"

lemma chain: chain_ok
  by code_simp

lemma run_schema_append:
  "run_schema (ds @ es) s = (case run_schema ds s of None \<Rightarrow> None | Some s' \<Rightarrow> run_schema es s')"
  by (induction ds arbitrary: s) (auto split: option.splits)

lemma chain_steps:
  "run_schema upgrade_0001 empty_schema = Some schema_0001"
  "run_schema upgrade_0002 schema_0001 = Some schema_0002"
  "run_schema upgrade_0003 schema_0002 = Some schema_0003"
  "same_schema schema_0003 metadata"
  "runs_to downgrade_0003 schema_0003 schema_0002"
  "runs_to downgrade_0002 schema_0002 schema_0001"
  "runs_to downgrade_0001 schema_0001 empty_schema"
  using chain unfolding chain_ok_def schema_0003_def schema_0002_def schema_0001_def
  by (auto split: option.splits)



end
