(* ===== verification/Migration_Laws.thy ===== *)
theory Migration_Laws
  imports Migration_Chain
begin

text \<open>
  The migrations on rows. On a
  populated single-tenant database \<open>0002\<close> gives every row to the default account and its downgrade gives the
  rows back, unless two tenants' keys collide, when it fails as a whole.
\<close>

subsection \<open>Rows under index operations\<close>

fun index_op :: "ddl \<Rightarrow> bool" where
  "index_op (CreateIndex _ _) = True"
| "index_op (DropIndex _ _) = True"
| "index_op _ = False"

fun op_fits :: "pg_data \<Rightarrow> ddl \<Rightarrow> bool" where
  "op_fits D (CreateIndex t ix) = index_fits ix (pd_rows D t)"
| "op_fits D _ = True"

lemma run_data_index_ops:
  "list_all index_op ds \<Longrightarrow> run_data now ds D = (if list_all (op_fits D) ds then Some D else None)"
proof (induction ds)
  case (Cons d ds)
  then show ?case by (cases d) auto
qed simp

lemma run_data_append:
  "run_data now (ds @ es) D = (case run_data now ds D of None \<Rightarrow> None | Some D' \<Rightarrow> run_data now es D')"
  by (induction ds arbitrary: D) (auto split: option.splits)

lemma index_fits_plain [simp]: "\<not> ix_unique ix \<Longrightarrow> index_fits ix rows"
  by (simp add: index_fits_def)

lemma read_path_rows:
  "run_data now rebuild_read_path D = Some D" "run_data now restore_read_path D = Some D"
  by (subst run_data_index_ops; simp add: rebuild_read_path_def restore_read_path_def plain_index_def partial_index_def)+

text \<open>The uniqueness of the single-tenant schema, and of the tenanted one.\<close>

definition single_tenant_unique :: "pg_data \<Rightarrow> bool" where
  "single_tenant_unique D \<longleftrightarrow>
     list_all (\<lambda>(n, c, p). index_fits (partial_unique (''uq_reconciliation_results_'' @ n) [Col c] p)
       (pd_rows D ''reconciliation_results'')) RESULT_UNIQUE_INDEXES \<and>
     index_fits (unique_on ''uq_ledger_entries_idempotency_key'' [Col ''idempotency_key'']) (pd_rows D ''ledger_entries'') \<and>
     index_fits (unique_on ''uq_gateway_transactions_idempotency_key'' [Col ''idempotency_key''])
       (pd_rows D ''gateway_transactions'')"

definition tenant_unique :: "pg_data \<Rightarrow> bool" where
  "tenant_unique D \<longleftrightarrow>
     list_all (\<lambda>(n, c, p). index_fits (partial_unique (''uq_reconciliation_results_tenant_'' @ n) [Col ''tenant_id'', Col c] p)
       (pd_rows D ''reconciliation_results'')) RESULT_UNIQUE_INDEXES \<and>
     index_fits (unique_on ''uq_ledger_entries_tenant_idempotency_key'' [Col ''tenant_id'', Col ''idempotency_key''])
       (pd_rows D ''ledger_entries'') \<and>
     index_fits (unique_on ''uq_gateway_transactions_tenant_idempotency_key'' [Col ''tenant_id'', Col ''idempotency_key''])
       (pd_rows D ''gateway_transactions'')"

lemma restore_uniqueness_rows:
  "run_data now restore_uniqueness D = (if single_tenant_unique D then Some D else None)"
  by (subst run_data_index_ops) (auto simp: restore_uniqueness_def single_tenant_unique_def RESULT_UNIQUE_INDEXES_def)

lemma rebuild_uniqueness_rows:
  "run_data now rebuild_uniqueness D = (if tenant_unique D then Some D else None)"
  by (subst run_data_index_ops) (auto simp: rebuild_uniqueness_def tenant_unique_def RESULT_UNIQUE_INDEXES_def)

subsection \<open>The tenant column\<close>

definition give_tenant :: "pg_row \<Rightarrow> pg_row" where
  "give_tenant r = r(''tenant_id'' := IntCell 1)"

definition take_tenant :: "pg_row \<Rightarrow> pg_row" where
  "take_tenant r = r(''tenant_id'' := Null)"

lemma create_tenancy_rows:
  "run_data now create_tenancy_tables D =
     Some (D\<lparr> pd_rows := (pd_rows D)(''accounts'' := [account_row now 1 ''default''], ''api_keys'' := []),
             pd_next := (pd_next D)(''accounts'' := 2, ''api_keys'' := 1) \<rparr>)"
  by (simp add: create_tenancy_tables_def ACCOUNT_KIND_def DEFAULT_ACCOUNT_NAME_def set_rows_def
      plain_index_def partial_index_def unique_on_def index_fits_def fun_upd_twist)

lemma account_row_cells [simp]:
  "account_row now i n ''id'' = IntCell i" "account_row now i n ''name'' = TextCell n"
  by (simp_all add: account_row_def)

lemma add_tenant_rows:
  assumes "pd_rows D ''accounts'' = [account_row now 1 ''default'']" and "t \<noteq> ''accounts''"
  shows "run_data now (add_tenant_column t) D = Some (set_rows t (map give_tenant (pd_rows D t)) D)"
  using assms by (simp add: add_tenant_column_def DEFAULT_ACCOUNT_NAME_def set_rows_def nullable_col_def
      list_ex_iff list_all_iff give_tenant_def [abs_def] comp_def)

lemma set_rows_sel [simp]:
  "pd_rows (set_rows t rows D) = (pd_rows D)(t := rows)" "pd_next (set_rows t rows D) = pd_next D"
  by (simp_all add: set_rows_def)

lemma add_tenants_rows:
  assumes "pd_rows D ''accounts'' = [account_row now 1 ''default'']" and "list_all (\<lambda>t. t \<noteq> ''accounts'') ts"
    and "distinct ts"
  shows "run_data now (concat (map add_tenant_column ts)) D =
    Some (D\<lparr> pd_rows := \<lambda>t. if t \<in> set ts then map give_tenant (pd_rows D t) else pd_rows D t \<rparr>)"
  using assms
proof (induction ts arbitrary: D)
  case (Cons t ts)
  let ?D = "set_rows t (map give_tenant (pd_rows D t)) D"
  have "run_data now (concat (map add_tenant_column ts)) ?D =
      Some (?D\<lparr> pd_rows := \<lambda>u. if u \<in> set ts then map give_tenant (pd_rows ?D u) else pd_rows ?D u \<rparr>)"
    using Cons.prems by (intro Cons.IH) (simp_all add: eq_commute [of "''accounts''" t])
  moreover have "?D\<lparr> pd_rows := \<lambda>u. if u \<in> set ts then map give_tenant (pd_rows ?D u) else pd_rows ?D u \<rparr> =
      D\<lparr> pd_rows := \<lambda>u. if u \<in> set (t # ts) then map give_tenant (pd_rows D u) else pd_rows D u \<rparr>"
    using Cons.prems(3) by (auto simp: set_rows_def fun_eq_iff)
  ultimately show ?case using add_tenant_rows [OF Cons.prems(1)] Cons.prems(2) by (simp add: run_data_append)
qed simp

text \<open>One tenant for all rows: the tenanted index accepts what the single-tenant one did.\<close>

fun pred_columns :: "sql_pred \<Rightarrow> string list" where
  "pred_columns (IsNull c) = [c]"
| "pred_columns (NotNull c) = [c]"
| "pred_columns (Equals c v) = [c]"
| "pred_columns (Differs c v) = [c]"
| "pred_columns (Both p q) = pred_columns p @ pred_columns q"

lemma pred_true_other: "c \<notin> set (pred_columns p) \<Longrightarrow> pred_true p (r(c := v)) = pred_true p r"
  by (induction p) auto

text \<open>An index without its name, and a key that does not involve the tenant.\<close>

definition fits_on :: "bool \<Rightarrow> index_col list \<Rightarrow> sql_pred option \<Rightarrow> pg_row list \<Rightarrow> bool" where
  "fits_on u cs w rows = index_fits \<lparr> ix_name = [], ix_columns = cs, ix_unique = u, ix_where = w \<rparr> rows"

definition tenant_free :: "index_col list \<Rightarrow> sql_pred option \<Rightarrow> bool" where
  "tenant_free cs w \<longleftrightarrow>
     ''tenant_id'' \<notin> set (map index_col_name cs) \<and> (\<forall>p. w = Some p \<longrightarrow> ''tenant_id'' \<notin> set (pred_columns p))"

lemma index_fits_on:
  "index_fits \<lparr> ix_name = n, ix_columns = cs, ix_unique = u, ix_where = w \<rparr> rows = fits_on u cs w rows"
  by (simp add: fits_on_def index_fits_def index_key_def indexed_def cong: map_cong filter_cong)

lemma tenant_free_cell: "tenant_free cs w \<Longrightarrow> c \<in> set cs \<Longrightarrow> give_tenant r (index_col_name c) = r (index_col_name c)"
proof -
  assume "tenant_free cs w" "c \<in> set cs"
  then have "index_col_name c \<noteq> ''tenant_id''" by (metis image_eqI list.set_map tenant_free_def)
  then show ?thesis by (simp add: give_tenant_def)
qed

lemma tenant_free_row:
  assumes "tenant_free cs w"
  shows "indexed \<lparr> ix_name = n, ix_columns = cs, ix_unique = u, ix_where = w \<rparr> (give_tenant r) =
      indexed \<lparr> ix_name = n, ix_columns = cs, ix_unique = u, ix_where = w \<rparr> r"
    and "map (give_tenant r \<circ> index_col_name) cs = map (r \<circ> index_col_name) cs"
proof -
  have "pred_true p (give_tenant r) = pred_true p r" if "w = Some p" for p
    unfolding give_tenant_def using assms that by (intro pred_true_other) (simp add: tenant_free_def)
  then show "indexed \<lparr> ix_name = n, ix_columns = cs, ix_unique = u, ix_where = w \<rparr> (give_tenant r) =
      indexed \<lparr> ix_name = n, ix_columns = cs, ix_unique = u, ix_where = w \<rparr> r"
    using tenant_free_cell [OF assms] by (auto simp: indexed_def list_all_iff split: option.splits)
  show "map (give_tenant r \<circ> index_col_name) cs = map (r \<circ> index_col_name) cs"
    using tenant_free_cell [OF assms] by auto
qed

lemma fits_on_tenant_free:
  assumes "tenant_free cs w"
  shows "fits_on u cs w (map give_tenant rows) = fits_on u cs w rows"
  by (simp add: fits_on_def index_fits_def filter_map comp_def index_key_def [abs_def]
      tenant_free_row [OF assms, unfolded comp_def])

lemma distinct_map_Cons: "distinct (map (\<lambda>k. x # k) ks) = distinct ks"
  by (simp add: distinct_map inj_on_def)

lemma fits_on_tenant_first:
  assumes "tenant_free cs w"
  shows "fits_on u (Col ''tenant_id'' # cs) w (map give_tenant rows) = fits_on u cs w rows"
proof -
  let ?new = "\<lparr> ix_name = [], ix_columns = Col ''tenant_id'' # cs, ix_unique = u, ix_where = w \<rparr>"
  let ?old = "\<lparr> ix_name = [], ix_columns = cs, ix_unique = u, ix_where = w \<rparr>"
  have "indexed ?new (give_tenant r) = indexed ?old (give_tenant r)" for r
    by (simp add: indexed_def give_tenant_def)
  then have f: "indexed ?new (give_tenant r) = indexed ?old r" for r using tenant_free_row(1) [OF assms] by simp
  have k: "index_key ?new (give_tenant r) = IntCell 1 # index_key ?old r" for r
    using tenant_free_row(2) [OF assms, of r] by (simp add: index_key_def) (simp add: give_tenant_def)
  have "map (index_key ?new) (filter (indexed ?new) (map give_tenant rows)) =
      map (\<lambda>k. IntCell 1 # k) (map (index_key ?old) (filter (indexed ?old) rows))"
    by (simp add: filter_map f comp_def k)
  then have "distinct (map (index_key ?new) (filter (indexed ?new) (map give_tenant rows))) =
      distinct (map (index_key ?old) (filter (indexed ?old) rows))"
    by (simp only: distinct_map_Cons)
  then show ?thesis by (simp only: fits_on_def index_fits_def pg_index.simps)
qed

lemma tenant_free_keys:
  "tenant_free [Col ''idempotency_key''] None"
  "(n, c, p) \<in> set RESULT_UNIQUE_INDEXES \<Longrightarrow> tenant_free [Col c] (Some p)"
  by (auto simp: tenant_free_def RESULT_UNIQUE_INDEXES_def active_pred_def dupe_pred_def)

lemma unique_with_one_tenant:
  assumes "\<And>t. t \<in> set TENANTED_TABLES \<Longrightarrow> pd_rows E t = map give_tenant (pd_rows D t)"
  shows "tenant_unique E = single_tenant_unique D" and "single_tenant_unique E = single_tenant_unique D"
  using tenant_free_keys
  by (auto simp: tenant_unique_def single_tenant_unique_def partial_unique_def unique_on_def index_fits_on
      assms [unfolded TENANTED_TABLES_def] fits_on_tenant_free fits_on_tenant_first list_all_iff)

subsection \<open>Up and down\<close>

text \<open>A single-tenant database at \<open>0001\<close>: its indexes hold, and what \<open>0002\<close> will add is not there.\<close>

definition single_tenant_db :: "pg_data \<Rightarrow> bool" where
  "single_tenant_db D \<longleftrightarrow>
     single_tenant_unique D \<and>
     list_all (\<lambda>t. list_all (\<lambda>r. r ''tenant_id'' = Null) (pd_rows D t)) TENANTED_TABLES \<and>
     list_all (\<lambda>t. pd_rows D t = [] \<and> pd_next D t = 1) [''accounts'', ''api_keys'']"

definition tenanted :: "cell \<Rightarrow> pg_data \<Rightarrow> pg_data" where
  "tenanted now D =
     D\<lparr> pd_rows := \<lambda>t.
          if t \<in> set TENANTED_TABLES then map give_tenant (pd_rows D t)
          else if t = ''accounts'' then [account_row now 1 ''default'']
          else if t = ''api_keys'' then [] else pd_rows D t,
        pd_next := (pd_next D)(''accounts'' := 2, ''api_keys'' := 1) \<rparr>"

lemma upgrade_rows:
  assumes "single_tenant_unique D"
  shows "run_data now upgrade_0002 D = Some (tenanted now D)"
proof -
  let ?D1 = "D\<lparr> pd_rows := (pd_rows D)(''accounts'' := [account_row now 1 ''default''], ''api_keys'' := []),
             pd_next := (pd_next D)(''accounts'' := 2, ''api_keys'' := 1) \<rparr>"
  have "run_data now (concat (map add_tenant_column TENANTED_TABLES)) ?D1 = Some (tenanted now D)"
    by (subst add_tenants_rows) (auto simp: TENANTED_TABLES_def tenanted_def fun_eq_iff)
  moreover have "tenant_unique (tenanted now D)"
    using unique_with_one_tenant(1) [of "tenanted now D" D] assms by (simp add: tenanted_def)
  ultimately show ?thesis
    by (simp add: upgrade_0002_def run_data_append create_tenancy_rows rebuild_uniqueness_rows read_path_rows)
qed

lemma drop_tenancy_rows:
  "run_data now drop_tenancy D = Some (D\<lparr> pd_rows := \<lambda>t.
     if t \<in> set TENANTED_TABLES then map take_tenant (pd_rows D t)
     else if t \<in> {''accounts'', ''api_keys''} then [] else pd_rows D t,
     pd_next := (pd_next D)(''api_keys'' := 1, ''accounts'' := 1) \<rparr>)"
  by (auto simp: drop_tenancy_def TENANTED_TABLES_def set_rows_def fun_eq_iff take_tenant_def [abs_def] ACCOUNT_KIND_def)

lemma downgrade_rows:
  "run_data now downgrade_0002 D =
     (if single_tenant_unique D then run_data now drop_tenancy D else None)"
  by (simp add: downgrade_0002_def run_data_append restore_uniqueness_rows read_path_rows)

lemma down_after_up:
  assumes "single_tenant_db D"
  shows "run_data now downgrade_0002 (tenanted now' D) = Some D"
proof -
  have u: "single_tenant_unique (tenanted now' D)"
    using unique_with_one_tenant(2) [of "tenanted now' D" D] assms by (simp add: tenanted_def single_tenant_db_def)
  have undo: "map take_tenant (map give_tenant (pd_rows D t)) = pd_rows D t" if "t \<in> set TENANTED_TABLES" for t
  proof -
    have "r ''tenant_id'' = Null" if "r \<in> set (pd_rows D t)" for r
      using assms that \<open>t \<in> set TENANTED_TABLES\<close> by (simp add: single_tenant_db_def list_all_iff)
    then have "(take_tenant \<circ> give_tenant) r = r" if "r \<in> set (pd_rows D t)" for r
      using that by (simp add: take_tenant_def give_tenant_def fun_upd_idem)
    then show ?thesis unfolding map_map by (rule map_idI)
  qed
  have rows: "pd_rows D ''accounts'' = []" "pd_rows D ''api_keys'' = []"
    "pd_next D ''accounts'' = 1" "pd_next D ''api_keys'' = 1"
    using assms by (simp_all add: single_tenant_db_def)
  show ?thesis
    unfolding downgrade_rows drop_tenancy_rows using u undo rows
    by (auto simp: tenanted_def fun_eq_iff intro!: pg_data.equality)
qed

text \<open>
  C25. The tenancy migration keeps every row. On any populated single-tenant database \<open>0002\<close> succeeds: each
  row of a tenanted table keeps its columns and belongs to the default account it has just created, the new
  uniqueness holds, and no other table changes. Its downgrade then succeeds too and gives back exactly the
  rows there were.
\<close>

theorem tenancy_migration_keeps_rows:
  assumes "single_tenant_db D"
  shows "\<exists>D'. migrate now upgrade_0002 (schema_0001, D) = Some (schema_0002, D') \<and>
    (\<forall>t. pd_rows D' t =
      (if t \<in> set TENANTED_TABLES then map (\<lambda>r. r(''tenant_id'' := IntCell 1)) (pd_rows D t)
       else if t = ''accounts'' then [account_row now 1 ''default''] else pd_rows D t)) \<and>
    tenant_unique D' \<and>
    (\<exists>s. migrate later downgrade_0002 (schema_0002, D') = Some (s, D) \<and> same_schema s schema_0001)"
proof -
  have u: "single_tenant_unique D" using assms by (simp add: single_tenant_db_def)
  obtain s where s: "run_schema downgrade_0002 schema_0002 = Some s" "same_schema s schema_0001"
    using chain_steps(6) by (auto simp: runs_to_def split: option.splits)
  have "tenant_unique (tenanted now D)"
    using unique_with_one_tenant(1) [of "tenanted now D" D] u by (simp add: tenanted_def)
  moreover have "pd_rows D ''api_keys'' = []" using assms by (simp add: single_tenant_db_def)
  ultimately show ?thesis
    using s upgrade_rows [OF u] down_after_up [OF assms]
    by (intro exI [of _ "tenanted now D"])
      (auto simp: migrate_def chain_steps(2) tenanted_def give_tenant_def [abs_def] TENANTED_TABLES_def)
qed

definition one_payment :: pg_data where
  "one_payment =
     \<lparr> pd_rows = (\<lambda>_. [])(''gateway_transactions'' :=
         [(\<lambda>_. Null)(''id'' := IntCell 1, ''idempotency_key'' := TextCell ''k1'')]),
       pd_next = (\<lambda>_. 1) \<rparr>"

theorem tenancy_migration_keeps_rows_witness:
  "\<exists>D'. migrate (TextCell ''t'') upgrade_0002 (schema_0001, one_payment) = Some (schema_0002, D') \<and>
    map (\<lambda>r. (r ''idempotency_key'', r ''tenant_id'')) (pd_rows D' ''gateway_transactions'') =
      [(TextCell ''k1'', IntCell 1)]"
proof -
  have "single_tenant_db one_payment" by code_simp
  from tenancy_migration_keeps_rows [OF this, of "TextCell ''t''"] obtain D' where
    D': "migrate (TextCell ''t'') upgrade_0002 (schema_0001, one_payment) = Some (schema_0002, D')"
    "\<forall>t. pd_rows D' t = (if t \<in> set TENANTED_TABLES then map (\<lambda>r. r(''tenant_id'' := IntCell 1)) (pd_rows one_payment t)
       else if t = ''accounts'' then [account_row (TextCell ''t'') 1 ''default''] else pd_rows one_payment t)"
    by blast
  have "pd_rows D' ''gateway_transactions'' = map (\<lambda>r. r(''tenant_id'' := IntCell 1)) (pd_rows one_payment ''gateway_transactions'')"
    using D'(2) by (simp add: TENANTED_TABLES_def)
  with D'(1) show ?thesis by (intro exI [of _ D']) (simp add: one_payment_def)
qed

text \<open>
  C27. The downgrade of \<open>0002\<close> never merges two tenants silently. If two gateway rows (of different tenants,
  say) carry the same idempotency key, the single-tenant index cannot be built and the whole downgrade fails,
  leaving schema and rows as they were.
\<close>

theorem downgrade_refuses_collisions:
  assumes "pd_rows D ''gateway_transactions'' = xs @ [g] @ ys @ [h] @ zs"
    and "g ''idempotency_key'' = h ''idempotency_key''" and "g ''idempotency_key'' \<noteq> Null"
  shows "migrate now downgrade_0002 (schema_0002, D) = None"
proof -
  have "\<not> single_tenant_unique D"
    using assms by (simp add: single_tenant_unique_def unique_on_def index_fits_def index_key_def indexed_def)
  then show ?thesis by (simp add: migrate_def downgrade_rows split: option.split)
qed

theorem downgrade_refuses_collisions_witness:
  "migrate (TextCell ''t'') downgrade_0002
     (schema_0002, set_rows ''gateway_transactions''
        [(\<lambda>_. Null)(''idempotency_key'' := TextCell ''k'', ''tenant_id'' := IntCell 1),
         (\<lambda>_. Null)(''idempotency_key'' := TextCell ''k'', ''tenant_id'' := IntCell 2)] one_payment) = None"
  by (rule downgrade_refuses_collisions [where xs = "[]" and ys = "[]" and zs = "[]"
    and g = "(\<lambda>_. Null)(''idempotency_key'' := TextCell ''k'', ''tenant_id'' := IntCell 1)"
    and h = "(\<lambda>_. Null)(''idempotency_key'' := TextCell ''k'', ''tenant_id'' := IntCell 2)"]) simp_all

end
