(* ===== verification/Py_Substrings.thy ===== *)
theory Py_Substrings
  imports Py_Strings
begin

text \<open>
  The methods of Python's \<open>str\<close> that work on a separator or a part of more than one character:
  \<open>in\<close>, \<open>partition\<close>, \<open>replace\<close> and \<open>join\<close>.
\<close>

text \<open>\<open>part in s\<close>.\<close>

fun py_contains :: "string \<Rightarrow> string \<Rightarrow> bool" where
  "py_contains part [] \<longleftrightarrow> part = []"
| "py_contains part (x # xs) \<longleftrightarrow> py_startswith (x # xs) part \<or> py_contains part xs"

text \<open>\<open>s.partition(sep)\<close>: before the first occurrence, whether there is one, after it.\<close>

fun py_partition_at :: "string \<Rightarrow> string \<Rightarrow> string \<times> bool \<times> string" where
  "py_partition_at sep [] = ([], False, [])"
| "py_partition_at sep (x # xs) =
     (if py_startswith (x # xs) sep then ([], True, drop (length sep) (x # xs))
      else (case py_partition_at sep xs of (before, found, rest) \<Rightarrow> (x # before, found, rest)))"

text \<open>\<open>s.replace(old, new)\<close> for a non-empty \<open>old\<close>; \<open>skip\<close> counts the characters of an occurrence left.\<close>

fun replace_from :: "nat \<Rightarrow> string \<Rightarrow> string \<Rightarrow> string \<Rightarrow> string" where
  "replace_from skip old new [] = []"
| "replace_from skip old new (x # xs) =
     (if 0 < skip then replace_from (skip - 1) old new xs
      else if py_startswith (x # xs) old then new @ replace_from (length old - 1) old new xs
      else x # replace_from 0 old new xs)"

definition py_replace :: "string \<Rightarrow> string \<Rightarrow> string \<Rightarrow> string" where
  "py_replace old new s = replace_from 0 old new s"

text \<open>\<open>sep.join(items)\<close> for a one-character separator.\<close>

fun py_join :: "char \<Rightarrow> string list \<Rightarrow> string" where
  "py_join c [] = []"
| "py_join c [s] = s"
| "py_join c (s # t # ts) = s @ c # py_join c (t # ts)"

lemma py_startswith_append: "py_startswith s p \<longleftrightarrow> (\<exists>rest. s = p @ rest)"
  by (induction s p rule: py_startswith.induct) auto

text \<open>What \<open>partition\<close> finds is the first occurrence.\<close>

lemma py_partition_at_found:
  "sep \<noteq> [] \<Longrightarrow> py_partition_at sep s = (before, True, rest) \<Longrightarrow> s = before @ sep @ rest"
proof (induction s arbitrary: before)
  case (Cons x xs)
  show ?case
  proof (cases "py_startswith (x # xs) sep")
    case True
    then have "before = []" "rest = drop (length sep) (x # xs)" using Cons(3) by simp_all
    then show ?thesis using True by (auto simp: py_startswith_append)
  next
    case False
    then show ?thesis using Cons by (auto split: prod.splits)
  qed
qed simp

lemma py_partition_at_not_found: "py_partition_at sep s = (before, False, rest) \<Longrightarrow> before = s \<and> rest = []"
  by (induction s arbitrary: before) (auto split: if_splits prod.splits)

text \<open>Splitting what was joined.\<close>

lemma py_split_join: "items \<noteq> [] \<Longrightarrow> (\<forall>s \<in> set items. c \<notin> set s) \<Longrightarrow> py_split c (py_join c items) = items"
  by (induction c items rule: py_join.induct) (auto simp: py_split_plain py_split_append)

end
