(* ===== verification/Config_Validators.thy ===== *)
theory Config_Validators
  imports Settings Py_Substrings Json_Model
begin

text \<open>
  The validators of \<open>ledgerloop/config.py\<close>, which run before pydantic's own parsing of a setting: a
  value is a string from the environment (\<open>JStr\<close>) or any other object, and \<open>None\<close> is the
  \<open>ValueError\<close>. \<open>loads\<close> is \<open>json.loads\<close>.
\<close>

definition separator :: string where "separator = ''://''"

definition require_async_driver :: "json \<Rightarrow> json option" where
  "require_async_driver v =
     (case v of
        JStr value \<Rightarrow>
          (case py_partition_at separator value of
             (scheme, found, rest) \<Rightarrow>
               if \<not> found then Some v
               else if scheme = ''postgres'' \<or> scheme = ''postgresql'' then Some (JStr (''postgresql+asyncpg://'' @ rest))
               else if py_startswith scheme ''postgresql+'' \<and> scheme \<noteq> ''postgresql+asyncpg'' then None
               else Some v)
      | _ \<Rightarrow> Some v)"

definition split_origins :: "(string \<Rightarrow> json option) \<Rightarrow> json \<Rightarrow> json option" where
  "split_origins loads v =
     (case v of
        JStr value \<Rightarrow>
          (let stripped = py_strip value in
           if py_startswith stripped ''['' then loads stripped
           else Some (JArr (map JStr (filter (\<lambda>item. item \<noteq> []) (map py_strip (py_split CHR '','' stripped))))))
      | _ \<Rightarrow> Some v)"

definition sync_database_url :: "settings \<Rightarrow> string" where
  "sync_database_url s = py_replace ''+asyncpg'' ''+psycopg'' (s_database_url s)"

subsection \<open>The driver is pinned\<close>

text \<open>The scheme of a URL, when it has one.\<close>

definition scheme_of :: "string \<Rightarrow> string option" where
  "scheme_of url = (case py_partition_at separator url of (scheme, found, rest) \<Rightarrow> if found then Some scheme else None)"

lemma scheme_of_asyncpg: "scheme_of (''postgresql+asyncpg://'' @ rest) = Some ''postgresql+asyncpg''"
  by (simp add: scheme_of_def separator_def)

lemma require_async_driver_Some:
  "require_async_driver (JStr url) = Some v \<longleftrightarrow>
     (case py_partition_at separator url of
        (scheme, found, rest) \<Rightarrow>
          if found \<and> scheme \<in> {''postgres'', ''postgresql''} then v = JStr (''postgresql+asyncpg://'' @ rest)
          else v = JStr url \<and> (found \<longrightarrow> py_startswith scheme ''postgresql+'' \<longrightarrow> scheme = ''postgresql+asyncpg''))"
  by (auto simp: require_async_driver_def split: prod.split)

text \<open>
  A URL that passes has no synchronous PostgreSQL driver in its scheme, a bare scheme is upgraded with
  the rest of the URL unchanged, and validating twice is validating once.
\<close>

theorem database_url_pinned:
  assumes "require_async_driver (JStr url) = Some v"
  shows "\<exists>url'. v = JStr url' \<and> require_async_driver v = Some v \<and>
    (\<forall>scheme. scheme_of url' = Some scheme \<longrightarrow>
       scheme \<notin> {''postgres'', ''postgresql''} \<and> (py_startswith scheme ''postgresql+'' \<longrightarrow> scheme = ''postgresql+asyncpg'')) \<and>
    (url' = url \<or> (\<exists>rest. url \<in> {''postgres://'' @ rest, ''postgresql://'' @ rest} \<and> url' = ''postgresql+asyncpg://'' @ rest))"
proof -
  obtain scheme found rest where p: "py_partition_at separator url = (scheme, found, rest)" by (metis prod_cases3)
  show ?thesis
  proof (cases "found \<and> scheme \<in> {''postgres'', ''postgresql''}")
    case True
    then have v: "v = JStr (''postgresql+asyncpg://'' @ rest)" using assms p by (simp add: require_async_driver_Some)
    have "url = scheme @ separator @ rest" using True p by (intro py_partition_at_found) (simp_all add: separator_def)
    then have url: "url \<in> {''postgres://'' @ rest, ''postgresql://'' @ rest}" using True by (auto simp: separator_def)
    have "require_async_driver v = Some v" unfolding v by (simp add: require_async_driver_def separator_def)
    then show ?thesis using v url scheme_of_asyncpg by auto
  next
    case False
    then have "v = JStr url" using assms p by (auto simp: require_async_driver_Some split: if_splits)
    then show ?thesis using assms p False by (auto simp: require_async_driver_Some scheme_of_def split: if_splits)
  qed
qed

theorem database_url_pinned_witness:
  "require_async_driver (JStr ''postgresql+asyncpg://u@h/db'') = Some (JStr ''postgresql+asyncpg://u@h/db'') \<and>
   require_async_driver (JStr ''postgresql+psycopg://u@h/db'') = None"
proof -
  have "require_async_driver (JStr ''postgres://u@h/db'') = Some (JStr ''postgresql+asyncpg://u@h/db'')" by code_simp
  from database_url_pinned [OF this] show ?thesis by (simp add: require_async_driver_def separator_def)
qed

text \<open>The comparison is case-sensitive: a scheme in upper case, which URL parsers read as the same, passes.\<close>

theorem upper_case_scheme_passes:
  "require_async_driver (JStr (''POSTGRESQL+PSYCOPG2://'' @ rest)) = Some (JStr (''POSTGRESQL+PSYCOPG2://'' @ rest))"
  by (simp add: require_async_driver_def separator_def)

subsection \<open>The origins\<close>

definition plain_origin :: "string \<Rightarrow> bool" where
  "plain_origin origin \<longleftrightarrow> origin \<noteq> [] \<and> CHR '','' \<notin> set origin \<and> \<not> py_space (hd origin) \<and> \<not> py_space (last origin)"

lemma plain_origin_strip: "plain_origin origin \<Longrightarrow> py_strip origin = origin"
  by (simp add: plain_origin_def py_strip_id)

lemma hd_py_join: "items \<noteq> [] \<Longrightarrow> hd items \<noteq> [] \<Longrightarrow> hd (py_join c items) = hd (hd items) \<and> py_join c items \<noteq> []"
  by (induction c items rule: py_join.induct) auto

lemma last_py_join: "items \<noteq> [] \<Longrightarrow> last items \<noteq> [] \<Longrightarrow> last (py_join c items) = last (last items)"
proof (induction c items rule: py_join.induct)
  case (3 c s t ts)
  then have "py_join c (t # ts) \<noteq> []" by (cases ts) auto
  then show ?case using 3 by simp
qed simp_all

text \<open>The comma-separated form and the list are the same setting.\<close>

theorem origins_round_trip:
  assumes "origins \<noteq> []" and "\<forall>origin \<in> set origins. plain_origin origin" and "hd (hd origins) \<noteq> CHR ''[''"
  shows "split_origins loads (JStr (py_join CHR '','' origins)) = Some (JArr (map JStr origins))"
proof -
  let ?s = "py_join CHR '','' origins"
  have plain: "plain_origin (hd origins)" "plain_origin (last origins)" using assms(1,2) by simp_all
  have h: "hd ?s = hd (hd origins)" "?s \<noteq> []" "last ?s = last (last origins)"
    using hd_py_join [OF assms(1)] last_py_join [OF assms(1)] plain by (simp_all add: plain_origin_def)
  then have strip: "py_strip ?s = ?s" using plain by (intro py_strip_id) (simp_all add: plain_origin_def)
  have "\<not> py_startswith ?s ''[''" using h assms(3) by (cases ?s) simp_all
  moreover have "py_split CHR '','' ?s = origins" using assms(1,2) by (intro py_split_join) (simp_all add: plain_origin_def)
  moreover have "map py_strip origins = origins" using assms(2) plain_origin_strip by (intro map_idI) simp
  moreover have "filter (\<lambda>item. item \<noteq> []) origins = origins" using assms(2) by (auto simp: plain_origin_def filter_id_conv)
  ultimately show ?thesis by (simp add: split_origins_def strip Let_def)
qed

end
