(* ===== verification/Queue_Streams.thy ===== *)
theory Queue_Streams
  imports Db_Models Queue_Messages Settings Py_Substrings
begin

text \<open>
  \<open>ledgerloop/queue/streams.py\<close> and the stream form of \<open>ledgerloop/queue/messages.py\<close>: \<open>StreamClient\<close>,
  which wraps the commands of the Redis server, and the reading of its replies. The server is a
  parameter: a record of the commands the client sends, each a function of the server's state. So is
  the text form of JSON and of bytes (\<open>codec\<close>).
\<close>

subsection \<open>What a call can raise\<close>

datatype read_error = NoField | Undecodable | NotJson | BadBody message_error

datatype py_exc =
    CancelledError
  | ResponseError string
  | Unreadable read_error
  | DbError db_error
  | OtherError string

text \<open>How a part of a process's loop ends: still in it, out of it by the stop event, or by an exception.\<close>

datatype ending = Running | Stopped | Raised py_exc

subsection \<open>Messages as stream fields\<close>

text \<open>A reply holds \<open>str\<close> or \<open>bytes\<close>, as the client is configured.\<close>

datatype wire = Str string | Bytes string

type_synonym fields = "(wire \<times> wire) list"

record codec =
  cd_dumps :: "json \<Rightarrow> string"
  cd_loads :: "string \<Rightarrow> json option"
  cd_decode :: "string \<Rightarrow> string option"

fun wire_truthy :: "wire \<Rightarrow> bool" where
  "wire_truthy (Str s) \<longleftrightarrow> s \<noteq> []"
| "wire_truthy (Bytes b) \<longleftrightarrow> b \<noteq> []"

fun as_text :: "codec \<Rightarrow> wire \<Rightarrow> read_error + string" where
  "as_text C (Str s) = Inr s"
| "as_text C (Bytes b) = (case cd_decode C b of None \<Rightarrow> Inl Undecodable | Some s \<Rightarrow> Inr s)"

definition to_fields :: "codec \<Rightarrow> ingest_message \<Rightarrow> fields" where
  "to_fields C m = [(Str ''data'', Str (cd_dumps C (to_payload m)))]"

definition raw_field :: "fields \<Rightarrow> wire option" where
  "raw_field fs =
     (case map_of fs (Str ''data'') of
        Some v \<Rightarrow> if wire_truthy v then Some v else map_of fs (Bytes ''data'')
      | None \<Rightarrow> map_of fs (Bytes ''data''))"

definition from_fields :: "codec \<Rightarrow> fields \<Rightarrow> read_error + ingest_message" where
  "from_fields C fs =
     (case raw_field fs of
        None \<Rightarrow> Inl NoField
      | Some raw \<Rightarrow>
          bind_result (as_text C raw) (\<lambda>text.
          (case cd_loads C text of
             None \<Rightarrow> Inl NotJson
           | Some body \<Rightarrow> (case from_payload body of Inl e \<Rightarrow> Inl (BadBody e) | Inr m \<Rightarrow> Inr m))))"

subsection \<open>Replies\<close>

type_synonym entries = "(wire \<times> fields) list"

fun decode_entries :: "codec \<Rightarrow> entries \<Rightarrow> read_error + (string \<times> ingest_message) list" where
  "decode_entries C [] = Inr []"
| "decode_entries C ((entry_id, fs) # es) =
     bind_result (as_text C entry_id) (\<lambda>i.
     bind_result (from_fields C fs) (\<lambda>m.
     bind_result (decode_entries C es) (\<lambda>out. Inr ((i, m) # out))))"

fun flatten_streams :: "codec \<Rightarrow> (string \<times> entries) list \<Rightarrow> read_error + (string \<times> ingest_message) list" where
  "flatten_streams C [] = Inr []"
| "flatten_streams C ((stream, es) # rest) =
     bind_result (decode_entries C es) (\<lambda>out.
     bind_result (flatten_streams C rest) (\<lambda>later. Inr (out @ later)))"

text \<open>\<open>response or []\<close>.\<close>

definition flatten :: "codec \<Rightarrow> (string \<times> entries) list option \<Rightarrow> read_error + (string \<times> ingest_message) list" where
  "flatten C response = flatten_streams C (case response of None \<Rightarrow> [] | Some streams \<Rightarrow> streams)"

datatype pending_summary = No_summary | As_dict "int option" | As_list int

subsection \<open>The server and its client\<close>

text \<open>
  The commands, with the arguments the client passes: \<open>XADD\<close>, a pipeline of them, \<open>XGROUP CREATE\<close>,
  \<open>XREADGROUP\<close>, \<open>XAUTOCLAIM\<close>, \<open>XACK\<close>, \<open>XLEN\<close>, \<open>XPENDING\<close> and \<open>PING\<close>. Another client's commands are part
  of what a command does to the state.
\<close>

record 'r redis =
  rd_xadd :: "string \<Rightarrow> fields \<Rightarrow> int \<Rightarrow> 'r \<Rightarrow> 'r \<times> (py_exc + string)"
  rd_pipeline :: "string \<Rightarrow> fields list \<Rightarrow> int \<Rightarrow> 'r \<Rightarrow> 'r \<times> (py_exc + string list)"
  rd_xgroup_create :: "string \<Rightarrow> string \<Rightarrow> string \<Rightarrow> 'r \<Rightarrow> 'r \<times> py_exc option"
  rd_xreadgroup :: "string \<Rightarrow> string \<Rightarrow> string \<Rightarrow> int \<Rightarrow> int \<Rightarrow> 'r \<Rightarrow> 'r \<times> (py_exc + (string \<times> entries) list option)"
  rd_xautoclaim :: "string \<Rightarrow> string \<Rightarrow> string \<Rightarrow> int \<Rightarrow> int \<Rightarrow> 'r \<Rightarrow> 'r \<times> (py_exc + entries option)"
  rd_xack :: "string \<Rightarrow> string \<Rightarrow> string list \<Rightarrow> 'r \<Rightarrow> 'r \<times> (py_exc + int)"
  rd_xlen :: "string \<Rightarrow> 'r \<Rightarrow> 'r \<times> (py_exc + int)"
  rd_xpending :: "string \<Rightarrow> string \<Rightarrow> 'r \<Rightarrow> 'r \<times> (py_exc + pending_summary)"
  rd_ping :: "'r \<Rightarrow> 'r \<times> py_exc option"

text \<open>A client: the server, the codec of its connection and the settings.\<close>

record 'r stream_client =
  sc_redis :: "'r redis"
  sc_codec :: codec
  sc_settings :: settings

abbreviation sc_key :: "'r stream_client \<Rightarrow> string" where "sc_key S \<equiv> s_stream_key (sc_settings S)"
abbreviation sc_group :: "'r stream_client \<Rightarrow> string" where "sc_group S \<equiv> s_consumer_group (sc_settings S)"

definition publish :: "'r stream_client \<Rightarrow> ingest_message \<Rightarrow> 'r \<Rightarrow> 'r \<times> (py_exc + string)" where
  "publish S message r =
     rd_xadd (sc_redis S) (sc_key S) (to_fields (sc_codec S) message) (s_stream_maxlen (sc_settings S)) r"

definition publish_many :: "'r stream_client \<Rightarrow> ingest_message list \<Rightarrow> 'r \<Rightarrow> 'r \<times> (py_exc + string list)" where
  "publish_many S messages r =
     (if messages = [] then (r, Inr [])
      else rd_pipeline (sc_redis S) (sc_key S) (map (to_fields (sc_codec S)) messages)
             (s_stream_maxlen (sc_settings S)) r)"

definition ensure_group :: "'r stream_client \<Rightarrow> 'r \<Rightarrow> 'r \<times> py_exc option" where
  "ensure_group S r =
     (case rd_xgroup_create (sc_redis S) (sc_key S) (sc_group S) ''0'' r of
        (r', None) \<Rightarrow> (r', None)
      | (r', Some e) \<Rightarrow>
          (case e of
             ResponseError text \<Rightarrow> (r', if py_contains ''BUSYGROUP'' text then None else Some e)
           | _ \<Rightarrow> (r', Some e)))"

text \<open>A reply that cannot be read raises, after the server has done its part.\<close>

fun readable :: "read_error + 'a \<Rightarrow> py_exc + 'a" where
  "readable (Inl e) = Inl (Unreadable e)"
| "readable (Inr x) = Inr x"

definition read_new ::
  "'r stream_client \<Rightarrow> string \<Rightarrow> int option \<Rightarrow> int option \<Rightarrow> 'r \<Rightarrow>
     'r \<times> (py_exc + (string \<times> ingest_message) list)" where
  "read_new S consumer n_opt block_ms r =
     (let s = sc_settings S;
          n = (case n_opt of None \<Rightarrow> s_stream_batch_size s | Some k \<Rightarrow> if k = 0 then s_stream_batch_size s else k);
          block = (case block_ms of None \<Rightarrow> s_stream_block_ms s | Some b \<Rightarrow> b)
      in (case rd_xreadgroup (sc_redis S) (sc_group S) consumer (sc_key S) n block r of
            (r', Inl e) \<Rightarrow> (r', Inl e)
          | (r', Inr response) \<Rightarrow> (r', readable (flatten (sc_codec S) response))))"

definition claim_stale ::
  "'r stream_client \<Rightarrow> string \<Rightarrow> int \<Rightarrow> int \<Rightarrow> 'r \<Rightarrow> 'r \<times> (py_exc + (string \<times> ingest_message) list)" where
  "claim_stale S consumer min_idle_ms n r =
     (case rd_xautoclaim (sc_redis S) (sc_key S) (sc_group S) consumer min_idle_ms n r of
        (r', Inl e) \<Rightarrow> (r', Inl e)
      | (r', Inr claimed) \<Rightarrow>
          (r', readable (decode_entries (sc_codec S) (case claimed of None \<Rightarrow> [] | Some es \<Rightarrow> es))))"

definition ack :: "'r stream_client \<Rightarrow> string list \<Rightarrow> 'r \<Rightarrow> 'r \<times> (py_exc + int)" where
  "ack S entry_ids r =
     (if entry_ids = [] then (r, Inr 0) else rd_xack (sc_redis S) (sc_key S) (sc_group S) entry_ids r)"

definition depth :: "'r stream_client \<Rightarrow> 'r \<Rightarrow> 'r \<times> (py_exc + int)" where
  "depth S r = rd_xlen (sc_redis S) (sc_key S) r"

definition pending_count :: "'r stream_client \<Rightarrow> 'r \<Rightarrow> 'r \<times> (py_exc + int)" where
  "pending_count S r =
     (case rd_xpending (sc_redis S) (sc_key S) (sc_group S) r of
        (r', Inl (ResponseError _)) \<Rightarrow> (r', Inr 0)
      | (r', Inl e) \<Rightarrow> (r', Inl e)
      | (r', Inr summary) \<Rightarrow>
          (r', Inr (case summary of
                      No_summary \<Rightarrow> 0
                    | As_dict n \<Rightarrow> (case n of None \<Rightarrow> 0 | Some k \<Rightarrow> k)
                    | As_list n \<Rightarrow> n)))"

subsection \<open>What is published is what is read\<close>

text \<open>What the program relies on: \<open>json.loads\<close> reads back the text of \<open>json.dumps\<close>, which is not empty.\<close>

definition text_ok :: "codec \<Rightarrow> ingest_message \<Rightarrow> bool" where
  "text_ok C m \<longleftrightarrow> cd_loads C (cd_dumps C (to_payload m)) = Some (to_payload m) \<and> cd_dumps C (to_payload m) \<noteq> []"

lemma from_to_fields: "text_ok C m \<Longrightarrow> from_fields C (to_fields C m) = Inr m"
  by (simp add: text_ok_def from_fields_def to_fields_def raw_field_def)

lemma decode_published:
  "\<forall>m \<in> set ms. text_ok C m \<Longrightarrow> length ids = length ms \<Longrightarrow>
     decode_entries C (zip (map Str ids) (map (to_fields C) ms)) = Inr (zip ids ms)"
  by (induction ids ms rule: list_induct2') (simp_all add: from_to_fields)

text \<open>One unreadable entry makes the whole reply unreadable, whatever else it holds.\<close>

lemma decode_entries_poison:
  "(i, fs) \<in> set es \<Longrightarrow> from_fields C fs = Inl e \<Longrightarrow> \<exists>e'. decode_entries C es = Inl e'"
proof (induction es)
  case (Cons x es)
  obtain j gs where x: "x = (j, gs)" by force
  show ?case
  proof (cases "x = (i, fs)")
    case True
    then show ?thesis using Cons(3) by (cases "as_text C i") auto
  next
    case False
    then obtain e' where "decode_entries C es = Inl e'" using Cons by auto
    then show ?thesis using x by (cases "as_text C j"; cases "from_fields C gs") auto
  qed
qed simp

end
