(* ===== verification/Worker_Run.thy ===== *)
theory Worker_Run
  imports Worker_Loop Queue_Streams
begin

text \<open>
  \<open>MatcherWorker.run\<close> of \<open>ledgerloop/worker/loop.py\<close>: claim, read, process and acknowledge, in rounds
  until the stop event is set. A round takes from outside what the record \<open>worker_round\<close> holds;
  Redis is the server of the stream client. A list of rounds is a finite part of a run that need not
  end.
\<close>

text \<open>
  The readings of a round: whether the stop event is set when the loop looks, the monotonic clock, the
  clocks while an entry is processed, whether the event is set after an entry, what interrupts the
  processing of an entry besides the errors of the data (a lost connection, a cancellation) and whether
  its transaction had committed by then, and whether the pause after a failure is cancelled.
\<close>

record worker_round =
  wr_stop :: bool
  wr_ticks :: duration
  wr_clock :: "string \<Rightarrow> instant \<times> instant"
  wr_stopped_after :: "string \<Rightarrow> bool"
  wr_fault :: "string \<Rightarrow> (py_exc \<times> bool) option"
  wr_pause_cancelled :: bool

record 'r worker_state =
  ws_redis :: 'r
  ws_db :: db
  ws_last_claim :: duration

definition maybe_claim ::
  "'r stream_client \<Rightarrow> string \<Rightarrow> worker_round \<Rightarrow> 'r worker_state \<Rightarrow>
     'r worker_state \<times> (py_exc + (string \<times> ingest_message) list)" where
  "maybe_claim S consumer w st =
     (let s = sc_settings S in
      if wr_ticks w - ws_last_claim st < s_claim_interval_s s then (st, Inr [])
      else
        (case claim_stale S consumer (s_claim_min_idle_ms s) (s_stream_batch_size s) (ws_redis st) of
           (r', claimed) \<Rightarrow> (st\<lparr> ws_redis := r', ws_last_claim := wr_ticks w \<rparr>, claimed)))"

text \<open>
  The \<open>for\<close> over the entries: the second component lists the entries whose transaction committed and
  whose \<open>XACK\<close> was sent. An interrupted transaction is committed or rolled back, and its entry is not
  acknowledged.
\<close>

fun handle_entries ::
  "'r stream_client \<Rightarrow> worker_round \<Rightarrow> (string \<times> ingest_message) list \<Rightarrow> 'r worker_state \<Rightarrow>
     'r worker_state \<times> (string \<times> ingest_message) list \<times> py_exc option" where
  "handle_entries S w [] st = (st, [], None)"
| "handle_entries S w ((entry_id, message) # entries) st =
     (case process (from_settings (sc_settings S)) (fst (wr_clock w entry_id)) (snd (wr_clock w entry_id))
             message (Some entry_id) (ws_db st) of
        Inl e \<Rightarrow> (st, [], Some (case wr_fault w entry_id of None \<Rightarrow> DbError e | Some (e', _) \<Rightarrow> e'))
      | Inr (d', _) \<Rightarrow>
          (case wr_fault w entry_id of
             Some (e, landed) \<Rightarrow> (if landed then st\<lparr> ws_db := d' \<rparr> else st, [], Some e)
           | None \<Rightarrow>
               (case ack S [entry_id] (ws_redis st) of
                  (r', acked) \<Rightarrow>
                    let st' = st\<lparr> ws_redis := r', ws_db := d' \<rparr> in
                    (case acked of
                       Inl e \<Rightarrow> (st', [(entry_id, message)], Some e)
                     | Inr _ \<Rightarrow>
                         if wr_stopped_after w entry_id then (st', [(entry_id, message)], None)
                         else
                           (case handle_entries S w entries st' of
                              (st'', handled, exc) \<Rightarrow> (st'', (entry_id, message) # handled, exc))))))"

text \<open>Without an interruption, and with Redis taking every \<open>XACK\<close>, it is the batch of \<open>Worker_Loop\<close>.\<close>

lemma handle_entries_run_batch:
  assumes "\<And>i. wr_fault w i = None" and "\<And>ids r. \<exists>n. snd (ack S ids r) = Inr n"
    and "run_batch (from_settings (sc_settings S)) (wr_clock w) (wr_stopped_after w) es (ws_db st) = (d', acked, err)"
  shows "\<exists>st' handled. handle_entries S w es st = (st', handled, map_option DbError err) \<and> ws_db st' = d' \<and>
    map fst handled = acked"
  using assms(3)
proof (induction es arbitrary: st d' acked err)
  case (Cons x es)
  obtain i m where x: "x = (i, m)" by force
  obtain r' n where a: "ack S [i] (ws_redis st) = (r', Inr n)" using assms(2) by (metis prod.collapse)
  let ?config = "from_settings (sc_settings S)"
  show ?case
  proof (cases "process ?config (fst (wr_clock w i)) (snd (wr_clock w i)) m (Some i) (ws_db st)")
    case (Inl e)
    then show ?thesis using Cons(2) assms(1) x by auto
  next
    case (Inr res)
    obtain d1 out where res: "res = (d1, out)" by force
    let ?st1 = "st\<lparr> ws_redis := r', ws_db := d1 \<rparr>"
    obtain d2 acked2 err2 where more: "run_batch ?config (wr_clock w) (wr_stopped_after w) es (ws_db ?st1) = (d2, acked2, err2)"
      by (metis prod_cases3)
    from Cons(1) [OF this] show ?thesis using Cons(2) assms(1) x Inr res a more by (auto split: if_splits)
  qed
qed auto

text \<open>\<open>_refresh_gauges\<close>: only a cancellation comes out of it.\<close>

definition refresh_gauges :: "'r stream_client \<Rightarrow> 'r \<Rightarrow> 'r \<times> py_exc option" where
  "refresh_gauges S r =
     (case depth S r of
        (r1, Inl e) \<Rightarrow> (r1, if e = CancelledError then Some e else None)
      | (r1, Inr _) \<Rightarrow>
          (case pending_count S r1 of
             (r2, Inl e) \<Rightarrow> (r2, if e = CancelledError then Some e else None)
           | (r2, Inr _) \<Rightarrow> (r2, None)))"

text \<open>The body of the \<open>try\<close>.\<close>

definition try_round ::
  "'r stream_client \<Rightarrow> string \<Rightarrow> worker_round \<Rightarrow> 'r worker_state \<Rightarrow>
     'r worker_state \<times> (string \<times> ingest_message) list \<times> py_exc option" where
  "try_round S consumer w st =
     (case maybe_claim S consumer w st of
        (st1, Inl e) \<Rightarrow> (st1, [], Some e)
      | (st1, Inr claimed) \<Rightarrow>
          (case read_new S consumer (Some (s_stream_batch_size (sc_settings S)))
                  (Some (s_stream_block_ms (sc_settings S))) (ws_redis st1) of
             (r2, Inl e) \<Rightarrow> (st1\<lparr> ws_redis := r2 \<rparr>, [], Some e)
           | (r2, Inr fresh) \<Rightarrow>
               (case handle_entries S w (claimed @ fresh) (st1\<lparr> ws_redis := r2 \<rparr>) of
                  (st3, handled, Some e) \<Rightarrow> (st3, handled, Some e)
                | (st3, handled, None) \<Rightarrow>
                    (case refresh_gauges S (ws_redis st3) of
                       (r4, exc) \<Rightarrow> (st3\<lparr> ws_redis := r4 \<rparr>, handled, exc)))))"

text \<open>The handlers of the loop: whether it goes on, after the group is made again or after a pause.\<close>

definition after_failure ::
  "'r stream_client \<Rightarrow> worker_round \<Rightarrow> py_exc \<Rightarrow> 'r \<Rightarrow> 'r \<times> py_exc option" where
  "after_failure S w exc r =
     (let pause = (r, if wr_pause_cancelled w then Some CancelledError else None) in
      case exc of
        CancelledError \<Rightarrow> (r, Some CancelledError)
      | ResponseError text \<Rightarrow> if py_contains ''NOGROUP'' text then ensure_group S r else pause
      | _ \<Rightarrow> pause)"

definition round_ends ::
  "'r stream_client \<Rightarrow> worker_round \<Rightarrow> py_exc option \<Rightarrow> 'r \<Rightarrow> 'r \<times> py_exc option" where
  "round_ends S w exc r = (case exc of None \<Rightarrow> (r, None) | Some e \<Rightarrow> after_failure S w e r)"

fun worker_loop ::
  "'r stream_client \<Rightarrow> string \<Rightarrow> worker_round list \<Rightarrow> 'r worker_state \<Rightarrow>
     'r worker_state \<times> (string \<times> ingest_message) list \<times> ending" where
  "worker_loop S consumer [] st = (st, [], Running)"
| "worker_loop S consumer (w # ws) st =
     (if wr_stop w then (st, [], Stopped)
      else
        (case try_round S consumer w st of
           (st1, handled, exc) \<Rightarrow>
             (case round_ends S w exc (ws_redis st1) of
                (r2, Some e) \<Rightarrow> (st1\<lparr> ws_redis := r2 \<rparr>, handled, Raised e)
              | (r2, None) \<Rightarrow>
                  (case worker_loop S consumer ws (st1\<lparr> ws_redis := r2 \<rparr>) of
                     (st3, later, fin) \<Rightarrow> (st3, handled @ later, fin)))))"

text \<open>\<open>run\<close>, with \<open>_last_claim\<close> as \<open>__init__\<close> leaves it.\<close>

definition worker_run ::
  "'r stream_client \<Rightarrow> string \<Rightarrow> worker_round list \<Rightarrow> 'r \<Rightarrow> db \<Rightarrow>
     'r worker_state \<times> (string \<times> ingest_message) list \<times> ending" where
  "worker_run S consumer ws r d =
     (case ensure_group S r of
        (r', Some e) \<Rightarrow> (\<lparr> ws_redis = r', ws_db = d, ws_last_claim = 0 \<rparr>, [], Raised e)
      | (r', None) \<Rightarrow> worker_loop S consumer ws \<lparr> ws_redis = r', ws_db = d, ws_last_claim = 0 \<rparr>)"

subsection \<open>An example server\<close>

text \<open>
  A server for examples: the ids not yet delivered and the pending ones, all of one message. The codec
  knows that message only.
\<close>

definition example_codec :: "ingest_message \<Rightarrow> codec" where
  "example_codec m = \<lparr> cd_dumps = (\<lambda>_. ''x''), cd_loads = (\<lambda>_. Some (to_payload m)), cd_decode = (\<lambda>_. None) \<rparr>"

definition example_redis :: "ingest_message \<Rightarrow> (string list \<times> string list) redis" where
  "example_redis m =
     \<lparr> rd_xadd = (\<lambda>k f n r. (r, Inr ''1-0'')),
       rd_pipeline = (\<lambda>k fs n r. (r, Inr (map (\<lambda>_. ''1-0'') fs))),
       rd_xgroup_create = (\<lambda>k g i r. (r, Some (ResponseError ''BUSYGROUP exists''))),
       rd_xreadgroup = (\<lambda>g c k n b r. (([], fst r @ snd r),
         Inr (Some [(k, map (\<lambda>i. (Str i, to_fields (example_codec m) m)) (fst r))]))),
       rd_xautoclaim = (\<lambda>k g c t n r. (r, Inr (Some []))),
       rd_xack = (\<lambda>k g ids r. ((fst r, filter (\<lambda>i. i \<notin> set ids) (snd r)), Inr (int (length ids)))),
       rd_xlen = (\<lambda>k r. (r, Inr (int (length (fst r) + length (snd r))))),
       rd_xpending = (\<lambda>k g r. (r, Inr (As_list (int (length (snd r)))))),
       rd_ping = (\<lambda>r. (r, None)) \<rparr>"

definition example_client :: "ingest_message \<Rightarrow> (string list \<times> string list) stream_client" where
  "example_client m = \<lparr> sc_redis = example_redis m, sc_codec = example_codec m, sc_settings = default_settings \<rparr>"

definition example_round :: "bool \<Rightarrow> worker_round" where
  "example_round stop = \<lparr> wr_stop = stop, wr_ticks = 0, wr_clock = (\<lambda>_. (9, 9)), wr_stopped_after = (\<lambda>_. False),
     wr_fault = (\<lambda>_. None), wr_pause_cancelled = False \<rparr>"

definition example_message :: ingest_message where
  "example_message = \<lparr> im_source = GATEWAY, im_row_id = 1, im_txn_id = ''t'', im_is_duplicate = False, im_submissions = 1 \<rparr>"

text \<open>The same server with reads that time out, and one that has lost its group and then its connection.\<close>

definition slow_client :: "(string list \<times> string list) stream_client" where
  "slow_client = (example_client example_message)
     \<lparr> sc_redis := (example_redis example_message)\<lparr> rd_xreadgroup := (\<lambda>g c k n b r. (r, Inl (OtherError ''timeout''))) \<rparr> \<rparr>"

definition lost_client :: "(string list \<times> string list) stream_client" where
  "lost_client = (example_client example_message)
     \<lparr> sc_redis := (example_redis example_message)
         \<lparr> rd_xgroup_create := (\<lambda>k g i r. (r, Some (OtherError ''connection refused''))),
           rd_xreadgroup := (\<lambda>g c k n b r. (r, Inl (ResponseError ''NOGROUP no such key''))) \<rparr> \<rparr>"

subsection \<open>How a run ends\<close>

text \<open>The calls that wait for Redis, and what they raise.\<close>

definition raises :: "'r redis \<Rightarrow> py_exc \<Rightarrow> bool" where
  "raises R e \<longleftrightarrow>
     (\<exists>g c k n b r. snd (rd_xreadgroup R g c k n b r) = Inl e) \<or>
     (\<exists>k g c m n r. snd (rd_xautoclaim R k g c m n r) = Inl e) \<or>
     (\<exists>k g ids r. snd (rd_xack R k g ids r) = Inl e) \<or>
     (\<exists>k r. snd (rd_xlen R k r) = Inl e) \<or> (\<exists>k g r. snd (rd_xpending R k g r) = Inl e)"

text \<open>No call of the loop and no pause is cancelled.\<close>

definition uncancelled :: "'r stream_client \<Rightarrow> worker_round list \<Rightarrow> bool" where
  "uncancelled S ws \<longleftrightarrow>
     \<not> raises (sc_redis S) CancelledError \<and>
     (\<forall>w \<in> set ws. \<not> wr_pause_cancelled w \<and> (\<forall>i landed. wr_fault w i \<noteq> Some (CancelledError, landed)))"

lemma readable_cancelled [simp]: "readable x \<noteq> Inl CancelledError"
  by (cases x) simp_all

lemma call_not_cancelled:
  assumes "\<not> raises (sc_redis S) CancelledError"
  shows "snd (maybe_claim S consumer w st) \<noteq> Inl CancelledError"
    and "snd (read_new S consumer n b r) \<noteq> Inl CancelledError"
    and "snd (ack S ids r) \<noteq> Inl CancelledError"
    and "snd (refresh_gauges S r) = None"
proof -
  have calls: "snd (rd_xreadgroup (sc_redis S) g c k n' b' r) \<noteq> Inl CancelledError"
    "snd (rd_xautoclaim (sc_redis S) k g c m' n' r) \<noteq> Inl CancelledError"
    "snd (rd_xack (sc_redis S) k g ids' r) \<noteq> Inl CancelledError"
    "snd (rd_xlen (sc_redis S) k r) \<noteq> Inl CancelledError"
    "snd (rd_xpending (sc_redis S) k g r) \<noteq> Inl CancelledError" for g c k m' n' b' ids' r
    using assms by (auto simp: raises_def)
  have "snd (claim_stale S c m' n' r') \<noteq> Inl CancelledError" for c m' n' r'
    using calls(2) [of "sc_key S" "sc_group S" c m' n' r']
    by (cases "rd_xautoclaim (sc_redis S) (sc_key S) (sc_group S) c m' n' r'")
      (auto simp: claim_stale_def split: sum.split)
  then show "snd (maybe_claim S consumer w st) \<noteq> Inl CancelledError"
    by (simp add: maybe_claim_def Let_def split_beta)
  show "snd (read_new S consumer n b r) \<noteq> Inl CancelledError"
    using calls(1) [of "sc_group S" consumer "sc_key S"]
    by (auto simp: read_new_def Let_def split_beta split: sum.split)
  show "snd (ack S ids r) \<noteq> Inl CancelledError" using calls(3) by (simp add: ack_def)
  have "snd (depth S r') \<noteq> Inl CancelledError" for r' using calls(4) by (simp add: depth_def)
  moreover have "snd (pending_count S r') \<noteq> Inl CancelledError" for r'
    using calls(5) [of "sc_key S" "sc_group S" r']
    by (cases "rd_xpending (sc_redis S) (sc_key S) (sc_group S) r'")
      (auto simp: pending_count_def split: sum.split py_exc.split)
  ultimately show "snd (refresh_gauges S r) = None"
    by (auto simp: refresh_gauges_def split_beta split: sum.split)
qed

lemma handle_entries_not_cancelled:
  assumes "\<not> raises (sc_redis S) CancelledError" and "\<And>i landed. wr_fault w i \<noteq> Some (CancelledError, landed)"
  shows "snd (snd (handle_entries S w entries st)) \<noteq> Some CancelledError"
proof (induction entries arbitrary: st)
  case (Cons x entries)
  obtain i m where x: "x = (i, m)" by force
  obtain r' a where "ack S [i] (ws_redis st) = (r', a)" "a \<noteq> Inl CancelledError"
    using call_not_cancelled(3) [OF assms(1)] by (metis prod.collapse)
  then show ?case
    using Cons assms(2) unfolding x by (auto simp: Let_def split_beta split: sum.split option.split)
qed simp

lemma try_round_not_cancelled:
  assumes "\<not> raises (sc_redis S) CancelledError" and "\<And>i landed. wr_fault w i \<noteq> Some (CancelledError, landed)"
  shows "snd (snd (try_round S consumer w st)) \<noteq> Some CancelledError"
proof -
  obtain st1 x where claim: "maybe_claim S consumer w st = (st1, x)" "x \<noteq> Inl CancelledError"
    using call_not_cancelled(1) [OF assms(1)] by (metis prod.collapse)
  obtain r2 y where read: "read_new S consumer (Some (s_stream_batch_size (sc_settings S)))
      (Some (s_stream_block_ms (sc_settings S))) (ws_redis st1) = (r2, y)" "y \<noteq> Inl CancelledError"
    using call_not_cancelled(2) [OF assms(1)] by (metis prod.collapse)
  show ?thesis
  proof (cases x)
    case (Inr claimed)
    show ?thesis
    proof (cases y)
      case (Inr fresh)
      obtain st3 handled exc where h: "handle_entries S w (claimed @ fresh) (st1\<lparr> ws_redis := r2 \<rparr>) = (st3, handled, exc)"
        by (metis prod_cases3)
      then have "exc \<noteq> Some CancelledError" using handle_entries_not_cancelled [OF assms] by (metis snd_conv)
      moreover obtain r4 where "refresh_gauges S (ws_redis st3) = (r4, None)"
        using call_not_cancelled(4) [OF assms(1)] by (metis prod.collapse)
      ultimately show ?thesis using claim(1) read(1) h \<open>x = Inr claimed\<close> Inr
        by (cases exc) (simp_all add: try_round_def)
    qed (use claim read Inr in \<open>simp add: try_round_def\<close>)
  qed (use claim in \<open>simp add: try_round_def\<close>)
qed

lemma after_failure_ends:
  "snd (after_failure S w exc r) = Some e \<Longrightarrow>
     e = CancelledError \<and> (exc = CancelledError \<or> wr_pause_cancelled w) \<or>
     (\<exists>text. exc = ResponseError text \<and> py_contains ''NOGROUP'' text \<and> snd (ensure_group S r) = Some e)"
  by (auto simp: after_failure_def Let_def split: py_exc.splits if_splits)

lemma worker_loop_Cons:
  assumes "\<not> wr_stop w" and "try_round S consumer w st = (st1, handled, exc)"
    and "round_ends S w exc (ws_redis st1) = (r2, out)"
  shows "snd (snd (worker_loop S consumer (w # ws) st)) =
    (case out of Some e \<Rightarrow> Raised e | None \<Rightarrow> snd (snd (worker_loop S consumer ws (st1\<lparr> ws_redis := r2 \<rparr>))))"
  using assms by (simp add: split_beta split: option.split)

lemma worker_loop_outlives:
  assumes "uncancelled S ws" and "\<And>r. snd (ensure_group S r) = None"
  shows "snd (snd (worker_loop S consumer ws st)) = (if \<exists>w \<in> set ws. wr_stop w then Stopped else Running)"
  using assms(1)
proof (induction ws arbitrary: st)
  case (Cons w ws)
  show ?case
  proof (cases "wr_stop w")
    case False
    obtain st1 handled exc where t: "try_round S consumer w st = (st1, handled, exc)" by (metis prod_cases3)
    obtain r2 out where go: "round_ends S w exc (ws_redis st1) = (r2, out)" by force
    have "exc \<noteq> Some CancelledError"
      using Cons(2) t try_round_not_cancelled [of S w consumer st] by (auto simp: uncancelled_def)
    moreover have "\<not> wr_pause_cancelled w" using Cons(2) by (simp add: uncancelled_def)
    ultimately have "out = None"
      using go after_failure_ends [of S w _ "ws_redis st1"] assms(2)
      by (cases exc; cases out) (force simp: round_ends_def)+
    moreover have "uncancelled S ws" using Cons(2) by (simp add: uncancelled_def)
    ultimately show ?thesis using worker_loop_Cons [OF False t go] Cons(1) False by simp
  qed simp
qed simp

lemma worker_loop_raised:
  "snd (snd (worker_loop S consumer ws st)) = Raised e \<Longrightarrow> e = CancelledError \<or> (\<exists>r'. snd (ensure_group S r') = Some e)"
proof (induction ws arbitrary: st)
  case (Cons w ws)
  show ?case
  proof (cases "wr_stop w")
    case False
    obtain st1 handled exc where t: "try_round S consumer w st = (st1, handled, exc)" by (metis prod_cases3)
    obtain r2 out where go: "round_ends S w exc (ws_redis st1) = (r2, out)" by force
    show ?thesis
    proof (cases out)
      case None
      then show ?thesis using Cons worker_loop_Cons [OF False t go] by simp
    next
      case (Some e')
      then have "e' = e" using Cons(2) worker_loop_Cons [OF False t go] by simp
      then obtain exc' where "exc = Some exc'" "snd (after_failure S w exc' (ws_redis st1)) = Some e"
        using Some go by (cases exc) (simp_all add: round_ends_def)
      then show ?thesis using after_failure_ends by metis
    qed
  qed (use Cons in simp)
qed simp

text \<open>
  C16. The worker outlives its failures. If the consumer group can be made and nothing is cancelled,
  then whatever the calls of Redis raise, whatever cannot be read, whatever the database refuses and
  wherever the connection is lost, in any of the rounds, the loop goes on: it leaves only at a round
  that finds the stop event set.
\<close>

theorem worker_outlives_failures:
  assumes "uncancelled S ws" and "\<And>r. snd (ensure_group S r) = None"
  shows "snd (snd (worker_run S consumer ws r d)) = (if \<exists>w \<in> set ws. wr_stop w then Stopped else Running)"
  using worker_loop_outlives [OF assms] assms(2) [of r]
  by (cases "ensure_group S r") (simp add: worker_run_def)

theorem worker_outlives_failures_witness:
  "snd (snd (worker_run slow_client ''w'' [example_round False, example_round False, example_round True] ([''1-0''], []) empty_db)) = Stopped"
proof -
  have calls: "\<not> raises (sc_redis slow_client) CancelledError" "snd (ensure_group slow_client r) = None" for r
    by (simp_all add: raises_def slow_client_def example_client_def example_redis_def ensure_group_def)
  then have "uncancelled slow_client [example_round False, example_round False, example_round True]"
    by (simp add: uncancelled_def example_round_def)
  from worker_outlives_failures [OF this calls(2)] show ?thesis by (simp add: example_round_def)
qed

text \<open>
  C38. Without that proviso it does not. An exception leaves the loop for one of two reasons only: a
  cancellation, or a failure to make the consumer group; and a reply \<open>NOGROUP\<close> while Redis then
  refuses or loses the \<open>XGROUP CREATE\<close> does end the worker, as that call stands in the handler, which
  no other handler guards.
\<close>

theorem worker_ends_with_its_group:
  "(snd (snd (worker_run S consumer ws r d)) = Raised e \<longrightarrow>
      e = CancelledError \<or> (\<exists>r'. snd (ensure_group S r') = Some e)) \<and>
   (\<not> wr_stop w \<and> try_round S consumer w st = (st', handled, Some (ResponseError text)) \<and> py_contains ''NOGROUP'' text \<and>
      snd (ensure_group S (ws_redis st')) = Some e \<longrightarrow>
      snd (snd (worker_loop S consumer (w # ws) st)) = Raised e)"
proof
  show "snd (snd (worker_run S consumer ws r d)) = Raised e \<longrightarrow>
      e = CancelledError \<or> (\<exists>r'. snd (ensure_group S r') = Some e)"
  proof (cases "ensure_group S r")
    case (Pair r' failed)
    have "snd (snd (worker_loop S consumer ws st)) = Raised e \<longrightarrow> e = CancelledError \<or> (\<exists>r'. snd (ensure_group S r') = Some e)" for st
      using worker_loop_raised by metis
    then show ?thesis using Pair by (cases failed) (auto simp: worker_run_def intro: exI [of _ r])
  qed
  show "\<not> wr_stop w \<and> try_round S consumer w st = (st', handled, Some (ResponseError text)) \<and>
      py_contains ''NOGROUP'' text \<and> snd (ensure_group S (ws_redis st')) = Some e \<longrightarrow>
      snd (snd (worker_loop S consumer (w # ws) st)) = Raised e"
  proof
    assume *: "\<not> wr_stop w \<and> try_round S consumer w st = (st', handled, Some (ResponseError text)) \<and>
      py_contains ''NOGROUP'' text \<and> snd (ensure_group S (ws_redis st')) = Some e"
    then have "round_ends S w (Some (ResponseError text)) (ws_redis st') = (fst (ensure_group S (ws_redis st')), Some e)"
      by (simp add: round_ends_def after_failure_def Let_def prod_eq_iff)
    then show "snd (snd (worker_loop S consumer (w # ws) st)) = Raised e"
      using * worker_loop_Cons [of w S consumer st st' handled "Some (ResponseError text)"]
      by (simp del: worker_loop.simps)
  qed
qed

theorem worker_ends_with_its_group_witness:
  "snd (snd (worker_loop lost_client ''w'' [example_round False] \<lparr> ws_redis = ([''1-0''], []), ws_db = empty_db, ws_last_claim = 0 \<rparr>)) =
     Raised (OtherError ''connection refused'')"
proof -
  let ?st = "\<lparr> ws_redis = ([''1-0''], []), ws_db = empty_db, ws_last_claim = 0 \<rparr>"
  have "try_round lost_client ''w'' (example_round False) ?st = (?st, [], Some (ResponseError ''NOGROUP no such key''))"
    by (simp add: try_round_def maybe_claim_def read_new_def lost_client_def example_client_def example_round_def
        default_settings_def seconds_def Let_def)
  moreover have "snd (ensure_group lost_client ([''1-0''], [])) = Some (OtherError ''connection refused'')"
    by (simp add: ensure_group_def lost_client_def)
  moreover have "py_contains ''NOGROUP'' ''NOGROUP no such key''" by code_simp
  moreover have "\<not> wr_stop (example_round False)" by (simp add: example_round_def)
  ultimately show ?thesis
    using worker_ends_with_its_group [of lost_client "''w''" "[]" "([''1-0''], [])" empty_db "OtherError ''connection refused''"
        "example_round False" ?st ?st "[]" "''NOGROUP no such key''"]
    by (simp del: worker_loop.simps)
qed

end
