(* ===== verification/Worker_Run_Laws.thy ===== *)
theory Worker_Run_Laws
  imports Refinement Worker_Run
begin

text \<open>
  The matcher worker with its stream: an entry leaves the pending list only when its message has been
  answered, and what a run commits is reached by steps.
\<close>

subsection \<open>Processing a message answers it\<close>

text \<open>
  A message read at \<open>d0\<close> is answered in \<open>d\<close>: its row, if there is one, has been acted on, or the message
  was no duplicate and no counterparty was there to match.
\<close>

definition answered :: "match_config \<Rightarrow> db \<Rightarrow> db \<Rightarrow> ingest_message \<Rightarrow> bool" where
  "answered config d0 d m \<longleftrightarrow>
     (\<forall>r \<in> set (model_rows (im_source m) d0). rt_id r = im_row_id m \<longrightarrow>
        (\<exists>r'. acted_on d m r') \<or>
        \<not> im_is_duplicate m \<and>
        decide (facts_of (im_source m) r) (find_counterparties d0 (facts_of (im_source m) r) config) config = None)"

lemma decide_message_open:
  assumes "decide_message config m c d = (Some dec, sides)" and "decided_id side dec = Some j"
  shows "side = tf_side c \<and> j = tf_row_id c \<or>
    \<not> im_is_duplicate m \<and> (\<exists>q \<in> set (model_rows side d). rt_id q = j \<and> rt_reconciled_at q = None)"
proof (cases "im_is_duplicate m")
  case True
  then have "dec = decide_duplicate c (im_submissions m)" using assms(1) by (simp add: decide_message_def)
  then show ?thesis using assms(2) by (simp add: decided_id_duplicate split: if_splits)
next
  case False
  then obtain sides' where sd: "sweep_decision config 0 c d = (dec, sides')"
    using assms(1) by (auto simp: decide_message_def sweep_decision_def Let_def split: option.splits)
  show ?thesis
  proof (cases "side = tf_side c")
    case True
    then show ?thesis using sweep_decision_shape(3) [OF sd] assms(2) by simp
  next
    case other: False
    then have "side = other_side (tf_side c)" by (cases side; cases "tf_side c") simp_all
    then show ?thesis using sweep_decision_shape(5) [OF sd, of j] assms(2) False by simp
  qed
qed

lemma process_answers:
  assumes "db_inv config d" and "process config tx now m mid d = Inr (d', out)"
  shows "answered config d d' m"
  unfolding answered_def
proof (intro ballI impI)
  let ?src = "im_source m"
  fix r
  assume r: "r \<in> set (model_rows ?src d)" "rt_id r = im_row_id m"
  let ?c = "facts_of ?src r"
  have loaded: "load_facts d ?src (im_row_id m) = Inr (Some ?c)"
    using load_facts_row [OF db_invD(1) [OF assms(1)] r(1)] r(2) by simp
  obtain found sides where dm: "decide_message config m ?c d = (found, sides)" by fastforce
  show "(\<exists>r'. acted_on d' m r') \<or> \<not> im_is_duplicate m \<and> decide ?c (find_counterparties d ?c config) config = None"
  proof (cases found)
    case None
    then show ?thesis using dm by (auto simp: decide_message_def Let_def split: if_splits option.splits)
  next
    case (Some dec)
    note dm = dm [unfolded Some]
    note shape = decide_message_shape [OF dm]
    obtain pr where ap: "apply_decision tx now dec (rt_tenant_id r) (Some (compute_latency_ms dec sides now)) mid d = Inr (d', pr)"
      using assms(2) dm by (auto simp: process_def loaded Let_def split: sum.splits prod.splits)
    have own: "decided_id ?src dec = Some (im_row_id m)" using shape(3) r(2) by simp
    obtain r' where r': "r' \<in> set (model_rows ?src d')" "rt_id r' = im_row_id m"
      using progress_row [OF progress_apply_decision [OF ap] r(1)] r(2) by (metis facts_of_sel(3))
    have "\<exists>res \<in> set (db_reconciliation_results d'). side_id ?src res = Some (im_row_id m) \<and>
        (rr_status res = DUPLICATE \<longleftrightarrow> im_is_duplicate m)"
      using ap
    proof (cases rule: apply_decision_cases)
      case taken
      obtain res side i where res: "res \<in> set (db_reconciliation_results d)" "side_id side res = Some i"
        "decided_id side dec = Some i" "rr_status res = DUPLICATE \<longleftrightarrow> dc_status dec = DUPLICATE"
        using result_conflictD [OF taken(1)] by blast
      have "\<not> (\<not> im_is_duplicate m \<and> (\<exists>q \<in> set (model_rows side d). rt_id q = i \<and> rt_reconciled_at q = None))"
        using reconciled_invD [OF db_invD(3) [OF assms(1)] _ res(1)] res(2,4) shape(4) by (auto simp: active_iff)
      then have "side = ?src" "i = im_row_id m" using decide_message_open [OF dm res(3)] r(2) by auto
      then show ?thesis using res shape(4) by (auto simp: taken(2))
    next
      case (written row)
      then show ?thesis using own shape(4) by (simp add: side_id_result_of)
    qed
    then show ?thesis using r' by (auto simp: acted_on_def)
  qed
qed

text \<open>What a worker does never takes an answer back.\<close>

definition later :: "db \<Rightarrow> db \<Rightarrow> bool" where
  "later d d' \<longleftrightarrow> progress d d' \<and> set (db_reconciliation_results d) \<subseteq> set (db_reconciliation_results d')"

lemma later_refl [simp]: "later d d"
  by (simp add: later_def)

lemma later_trans: "later d d1 \<Longrightarrow> later d1 d2 \<Longrightarrow> later d d2"
  using progress_trans by (auto simp: later_def)

lemma process_later:
  assumes "process config tx now m mid d = Inr (d', out)"
  shows "later d d'"
proof (cases "d' = d")
  case False
  then obtain dec t l pr where "apply_decision tx now dec t l mid d = Inr (d', pr)"
    using assms by (auto simp: process_def Let_def split: sum.splits option.splits prod.splits)
  note ap = this
  have "set (db_reconciliation_results d) \<subseteq> set (db_reconciliation_results d')"
    using ap by (cases rule: apply_decision_cases) auto
  then show ?thesis using progress_apply_decision [OF ap] by (simp add: later_def)
qed simp

lemma answered_later:
  assumes "answered config d0 d m" and "later d d'"
  shows "answered config d0 d' m"
proof -
  have "\<exists>q. acted_on d' m q" if acted: "acted_on d m r" for r
  proof -
    obtain q where "q \<in> set (model_rows (im_source m) d')" "rt_id q = rt_id r"
      using acted progress_row [of d d' r "im_source m"] assms(2) by (metis acted_on_def facts_of_sel(3) later_def)
    then show ?thesis using acted assms(2) by (auto simp: acted_on_def later_def)
  qed
  then show ?thesis using assms(1) by (auto simp: answered_def)
qed

subsection \<open>An entry leaves the pending list when its message is answered\<close>

text \<open>
  What the worker relies on Redis for. \<open>owed r\<close> are the ids the consumer group has still to have
  acknowledged, delivered or not: no command but \<open>XACK\<close> removes one, and \<open>XACK\<close> only those it names.
  \<open>entries\<close> is the content of the stream: a reply holds entries of it.
\<close>

definition keeps_entries :: "'r redis \<Rightarrow> ('r \<Rightarrow> string set) \<Rightarrow> bool" where
  "keeps_entries R owed \<longleftrightarrow>
     (\<forall>k g i r. owed r \<subseteq> owed (fst (rd_xgroup_create R k g i r))) \<and>
     (\<forall>g c k n b r. owed r \<subseteq> owed (fst (rd_xreadgroup R g c k n b r))) \<and>
     (\<forall>k g c m n r. owed r \<subseteq> owed (fst (rd_xautoclaim R k g c m n r))) \<and>
     (\<forall>k r. owed r \<subseteq> owed (fst (rd_xlen R k r))) \<and> (\<forall>k g r. owed r \<subseteq> owed (fst (rd_xpending R k g r))) \<and>
     (\<forall>k g ids r. owed r \<subseteq> owed (fst (rd_xack R k g ids r)) \<union> set ids)"

definition gives_entries :: "'r redis \<Rightarrow> codec \<Rightarrow> (string \<rightharpoonup> ingest_message) \<Rightarrow> bool" where
  "gives_entries R C entries \<longleftrightarrow>
     (\<forall>g c k n b r response out i m. snd (rd_xreadgroup R g c k n b r) = Inr response \<longrightarrow>
        flatten C response = Inr out \<longrightarrow> (i, m) \<in> set out \<longrightarrow> entries i = Some m) \<and>
     (\<forall>k g c t n r es out i m. snd (rd_xautoclaim R k g c t n r) = Inr (Some es) \<longrightarrow>
        decode_entries C es = Inr out \<longrightarrow> (i, m) \<in> set out \<longrightarrow> entries i = Some m)"

text \<open>Every acknowledged entry of a list was answered at a database that steps reach.\<close>

definition all_answered ::
  "settings \<Rightarrow> (string \<rightharpoonup> ingest_message) \<Rightarrow> ingest_message list \<Rightarrow> db \<Rightarrow> (string \<times> ingest_message) list \<Rightarrow> bool" where
  "all_answered s entries stream d handled \<longleftrightarrow>
     (\<forall>(i, m) \<in> set handled. entries i = Some m \<and>
        (\<exists>d0. reaches s stream {} d0 \<and> answered (from_settings s) d0 d m))"

lemma all_answered_Nil [simp]: "all_answered s entries stream d []"
  by (simp add: all_answered_def)

lemma all_answered_append:
  "all_answered s entries stream d (h1 @ h2) \<longleftrightarrow>
     all_answered s entries stream d h1 \<and> all_answered s entries stream d h2"
  unfolding all_answered_def set_append ball_Un ..

lemma all_answered_later:
  "all_answered s entries stream d handled \<Longrightarrow> later d d' \<Longrightarrow> all_answered s entries stream d' handled"
  using answered_later unfolding all_answered_def by fast

text \<open>A stretch of a run, from a database that steps reach.\<close>

definition worked ::
  "'r stream_client \<Rightarrow> ('r \<Rightarrow> string set) \<Rightarrow> (string \<rightharpoonup> ingest_message) \<Rightarrow> ingest_message list \<Rightarrow>
     'r worker_state \<Rightarrow> 'r worker_state \<Rightarrow> (string \<times> ingest_message) list \<Rightarrow> bool" where
  "worked S owed entries stream st st' handled \<longleftrightarrow>
     (reaches (sc_settings S) stream {} (ws_db st) \<longrightarrow>
        reaches (sc_settings S) stream {} (ws_db st') \<and> later (ws_db st) (ws_db st') \<and>
        owed (ws_redis st) \<subseteq> owed (ws_redis st') \<union> fst ` set handled \<and>
        all_answered (sc_settings S) entries stream (ws_db st') handled)"

lemma worked_trans:
  assumes "worked S owed entries stream st st1 h1" and "worked S owed entries stream st1 st2 h2"
  shows "worked S owed entries stream st st2 (h1 @ h2)"
  unfolding worked_def
proof (intro impI conjI)
  assume start: "reaches (sc_settings S) stream {} (ws_db st)"
  have one: "reaches (sc_settings S) stream {} (ws_db st1)" "later (ws_db st) (ws_db st1)"
    "owed (ws_redis st) \<subseteq> owed (ws_redis st1) \<union> fst ` set h1"
    "all_answered (sc_settings S) entries stream (ws_db st1) h1"
    using assms(1) start by (simp_all add: worked_def)
  have two: "reaches (sc_settings S) stream {} (ws_db st2)" "later (ws_db st1) (ws_db st2)"
    "owed (ws_redis st1) \<subseteq> owed (ws_redis st2) \<union> fst ` set h2"
    "all_answered (sc_settings S) entries stream (ws_db st2) h2"
    using assms(2) one(1) by (simp_all add: worked_def)
  show "reaches (sc_settings S) stream {} (ws_db st2)" by (rule two(1))
  show "later (ws_db st) (ws_db st2)" by (rule later_trans [OF one(2) two(2)])
  show "owed (ws_redis st) \<subseteq> owed (ws_redis st2) \<union> fst ` set (h1 @ h2)" using one(3) two(3) by auto
  show "all_answered (sc_settings S) entries stream (ws_db st2) (h1 @ h2)"
    using all_answered_later [OF one(4) two(2)] two(4) by (simp add: all_answered_append)
qed

lemma worked_redis:
  assumes "owed (ws_redis st) \<subseteq> owed (ws_redis st')" and "ws_db st' = ws_db st"
  shows "worked S owed entries stream st st' []"
  using assms by (simp add: worked_def)

text \<open>One entry: committed and acknowledged, or committed and interrupted.\<close>

lemma worked_process:
  assumes "process (from_settings (sc_settings S)) tx now m mid (ws_db st) = Inr (d', out)"
    and "m \<in> set stream" and "entries i = Some m"
    and "handled = [(i, m)] \<and> owed (ws_redis st) \<subseteq> owed r' \<union> {i} \<or> handled = [] \<and> r' = ws_redis st"
  shows "worked S owed entries stream st (st\<lparr> ws_redis := r', ws_db := d' \<rparr>) handled"
  unfolding worked_def
proof (intro impI)
  assume start: "reaches (sc_settings S) stream {} (ws_db st)"
  then obtain c where "reachable (sc_settings S) c" "sy_db c = ws_db st" unfolding reaches_def by blast
  then have "db_inv (from_settings (sc_settings S)) (ws_db st)" using reachable_db_inv by metis
  from process_answers [OF this assms(1)] process_reaches [OF start assms(2,1)] process_later [OF assms(1)] start assms(3,4)
  show "reaches (sc_settings S) stream {} (ws_db (st\<lparr> ws_redis := r', ws_db := d' \<rparr>)) \<and>
      later (ws_db st) (ws_db (st\<lparr> ws_redis := r', ws_db := d' \<rparr>)) \<and>
      owed (ws_redis st) \<subseteq> owed (ws_redis (st\<lparr> ws_redis := r', ws_db := d' \<rparr>)) \<union> fst ` set handled \<and>
      all_answered (sc_settings S) entries stream (ws_db (st\<lparr> ws_redis := r', ws_db := d' \<rparr>)) handled"
    by (auto simp: all_answered_def)
qed

lemma ack_owed:
  assumes "keeps_entries (sc_redis S) owed"
  shows "owed r \<subseteq> owed (fst (ack S ids r)) \<union> set ids"
  using assms by (simp add: ack_def keeps_entries_def)

lemma handle_entries_worked:
  assumes "keeps_entries (sc_redis S) owed" and "ran entries \<subseteq> set stream"
  shows "(\<forall>(i, m) \<in> set es. entries i = Some m) \<Longrightarrow> handle_entries S w es st = (st', handled, exc) \<Longrightarrow>
    worked S owed entries stream st st' handled"
proof (induction es arbitrary: st st' handled exc)
  case (Cons x es)
  obtain i m where x: "x = (i, m)" by force
  have im: "entries i = Some m" "m \<in> set stream" using Cons(2) x assms(2) by (auto simp: ranI)
  let ?p = "process (from_settings (sc_settings S)) (fst (wr_clock w i)) (snd (wr_clock w i)) m (Some i) (ws_db st)"
  show ?case
  proof (cases ?p)
    case (Inl e)
    then show ?thesis using Cons(3) x by (auto intro: worked_redis)
  next
    case (Inr res)
    obtain d' out where p: "?p = Inr (d', out)" using Inr by (cases res) simp
    have step: "worked S owed entries stream st (st\<lparr> ws_redis := r', ws_db := d' \<rparr>) h"
      if "h = [(i, m)] \<and> owed (ws_redis st) \<subseteq> owed r' \<union> {i} \<or> h = [] \<and> r' = ws_redis st" for r' h
      using worked_process [OF p im(2), of entries i h owed r'] im(1) that by blast
    show ?thesis
    proof (cases "wr_fault w i")
      case (Some f)
      then show ?thesis
        using Cons(3) x p step [of "[]" "ws_redis st"] by (auto split: if_splits prod.splits intro: worked_redis)
    next
      case None
      obtain r' acked where a: "ack S [i] (ws_redis st) = (r', acked)" by force
      have one: "worked S owed entries stream st (st\<lparr> ws_redis := r', ws_db := d' \<rparr>) [(i, m)]"
        using ack_owed [OF assms(1), of "ws_redis st" "[i]"] a by (intro step) simp
      obtain st2 h2 exc2 where more: "handle_entries S w es (st\<lparr> ws_redis := r', ws_db := d' \<rparr>) = (st2, h2, exc2)"
        by (metis prod_cases3)
      have two: "worked S owed entries stream (st\<lparr> ws_redis := r', ws_db := d' \<rparr>) st2 h2"
        using Cons(1) [OF _ more] Cons(2) by simp
      show ?thesis
        using Cons(3) x p None a more one worked_trans [OF one two]
        by (auto simp: Let_def split: sum.splits if_splits)
    qed
  qed
qed (auto intro: worked_redis)

text \<open>The other calls of a round leave the database and the owed entries.\<close>

lemma ensure_group_owed:
  assumes "keeps_entries (sc_redis S) owed"
  shows "owed r \<subseteq> owed (fst (ensure_group S r))"
proof -
  have "owed r \<subseteq> owed (fst (rd_xgroup_create (sc_redis S) (sc_key S) (sc_group S) ''0'' r))"
    using assms by (simp add: keeps_entries_def)
  then show ?thesis by (auto simp: ensure_group_def split: prod.split option.split py_exc.split)
qed

lemma read_new_owed:
  assumes "keeps_entries (sc_redis S) owed"
  shows "owed r \<subseteq> owed (fst (read_new S consumer n b r))"
proof -
  have "owed r \<subseteq> owed (fst (rd_xreadgroup (sc_redis S) g c k n' b' r))" for g c k n' b'
    using assms by (simp add: keeps_entries_def)
  then show ?thesis by (simp add: read_new_def Let_def split_beta split: sum.split)
qed

lemma read_new_entries:
  assumes "gives_entries (sc_redis S) (sc_codec S) entries" and "read_new S consumer n b r = (r', Inr out)"
  shows "\<forall>(i, m) \<in> set out. entries i = Some m"
proof -
  obtain n' b' r1 response where x: "rd_xreadgroup (sc_redis S) (sc_group S) consumer (sc_key S) n' b' r = (r1, Inr response)"
    "readable (flatten (sc_codec S) response) = Inr out"
    using assms(2) by (auto simp: read_new_def Let_def split: prod.splits sum.splits)
  then have flat: "flatten (sc_codec S) response = Inr out" by (cases "flatten (sc_codec S) response") simp_all
  have "snd (rd_xreadgroup (sc_redis S) (sc_group S) consumer (sc_key S) n' b' r) = Inr response" using x(1) by simp
  then have "entries i = Some m" if "(i, m) \<in> set out" for i m
    using assms(1) flat that unfolding gives_entries_def by blast
  then show ?thesis by blast
qed

lemma claim_stale_owed:
  assumes "keeps_entries (sc_redis S) owed"
  shows "owed r \<subseteq> owed (fst (claim_stale S consumer t n r))"
proof -
  have "owed r \<subseteq> owed (fst (rd_xautoclaim (sc_redis S) (sc_key S) (sc_group S) consumer t n r))"
    using assms by (simp add: keeps_entries_def)
  then show ?thesis by (simp add: claim_stale_def split_beta split: sum.split)
qed

lemma claim_stale_entries:
  assumes "gives_entries (sc_redis S) (sc_codec S) entries" and "claim_stale S consumer t n r = (r', Inr out)"
  shows "\<forall>(i, m) \<in> set out. entries i = Some m"
proof -
  obtain r1 claimed where x: "rd_xautoclaim (sc_redis S) (sc_key S) (sc_group S) consumer t n r = (r1, Inr claimed)"
    "readable (decode_entries (sc_codec S) (case claimed of None \<Rightarrow> [] | Some es \<Rightarrow> es)) = Inr out"
    using assms(2) by (auto simp: claim_stale_def split: prod.splits sum.splits)
  show ?thesis
  proof (cases claimed)
    case None
    then show ?thesis using x(2) by simp
  next
    case (Some es)
    then have out: "decode_entries (sc_codec S) es = Inr out" using x(2) by (cases "decode_entries (sc_codec S) es") simp_all
    have "snd (rd_xautoclaim (sc_redis S) (sc_key S) (sc_group S) consumer t n r) = Inr (Some es)" using x(1) Some by simp
    then have "entries i = Some m" if "(i, m) \<in> set out" for i m
      using assms(1) out that unfolding gives_entries_def by blast
    then show ?thesis by blast
  qed
qed

lemma maybe_claim_worked:
  assumes "keeps_entries (sc_redis S) owed" and "maybe_claim S consumer w st = (st', x)"
  shows "worked S owed entries stream st st' []"
    and "gives_entries (sc_redis S) (sc_codec S) entries \<Longrightarrow> x = Inr out \<Longrightarrow> \<forall>(i, m) \<in> set out. entries i = Some m"
proof -
  let ?claim = "claim_stale S consumer (s_claim_min_idle_ms (sc_settings S)) (s_stream_batch_size (sc_settings S)) (ws_redis st)"
  show "worked S owed entries stream st st' []"
  proof (cases "wr_ticks w - ws_last_claim st < s_claim_interval_s (sc_settings S)")
    case True
    then show ?thesis using assms(2) by (simp add: maybe_claim_def worked_redis)
  next
    case False
    then have "ws_redis st' = fst ?claim" "ws_db st' = ws_db st"
      using assms(2) by (auto simp: maybe_claim_def Let_def split: prod.splits)
    then show ?thesis using claim_stale_owed [OF assms(1)] by (intro worked_redis) simp_all
  qed
  show "\<forall>(i, m) \<in> set out. entries i = Some m"
    if "gives_entries (sc_redis S) (sc_codec S) entries" "x = Inr out"
    using assms(2) claim_stale_entries [OF that(1)] that(2)
    by (cases ?claim) (auto simp: maybe_claim_def Let_def split: if_splits)
qed

lemma refresh_gauges_owed:
  assumes "keeps_entries (sc_redis S) owed"
  shows "owed r \<subseteq> owed (fst (refresh_gauges S r))"
proof -
  have len: "owed r \<subseteq> owed (fst (depth S r))" for r using assms by (simp add: depth_def keeps_entries_def)
  have "owed r \<subseteq> owed (fst (rd_xpending (sc_redis S) (sc_key S) (sc_group S) r))" for r
    using assms by (simp add: keeps_entries_def)
  then have "owed r \<subseteq> owed (fst (pending_count S r))" for r
    by (auto simp: pending_count_def split_beta split: sum.split py_exc.split)
  then show ?thesis using len by (simp add: refresh_gauges_def split_beta split: sum.split) blast
qed

lemma round_ends_owed:
  assumes "keeps_entries (sc_redis S) owed"
  shows "owed r \<subseteq> owed (fst (round_ends S w exc r))"
  using ensure_group_owed [OF assms]
  by (cases exc) (simp_all add: round_ends_def after_failure_def Let_def split: py_exc.split)

lemma try_round_worked:
  assumes "keeps_entries (sc_redis S) owed" and "gives_entries (sc_redis S) (sc_codec S) entries"
    and "ran entries \<subseteq> set stream" and "try_round S consumer w st = (st', handled, exc)"
  shows "worked S owed entries stream st st' handled"
proof -
  obtain st1 x where claim: "maybe_claim S consumer w st = (st1, x)" by force
  note one = maybe_claim_worked [OF assms(1) claim]
  obtain r2 y where read: "read_new S consumer (Some (s_stream_batch_size (sc_settings S)))
      (Some (s_stream_block_ms (sc_settings S))) (ws_redis st1) = (r2, y)" by force
  have two: "worked S owed entries stream st (st1\<lparr> ws_redis := r2 \<rparr>) []"
  proof -
    have "owed (ws_redis st1) \<subseteq> owed r2" using read_new_owed [OF assms(1)] read by (metis fst_conv)
    then show ?thesis using worked_trans [OF one(1) worked_redis [of owed st1 "st1\<lparr> ws_redis := r2 \<rparr>"]] by simp
  qed
  show ?thesis
  proof (cases x)
    case (Inl e)
    then show ?thesis using assms(4) claim one(1) by (simp add: try_round_def)
  next
    case x: (Inr claimed)
    show ?thesis
    proof (cases y)
      case (Inl e)
      then show ?thesis using assms(4) claim read x two by (auto simp: try_round_def)
    next
      case (Inr fresh)
      obtain st3 h exc3 where h: "handle_entries S w (claimed @ fresh) (st1\<lparr> ws_redis := r2 \<rparr>) = (st3, h, exc3)"
        by (metis prod_cases3)
      have "\<forall>(i, m) \<in> set (claimed @ fresh). entries i = Some m"
        using one(2) [OF assms(2) x] read_new_entries [OF assms(2) read [unfolded Inr]] by auto
      from handle_entries_worked [OF assms(1,3) this h]
      have three: "worked S owed entries stream st st3 h" using worked_trans [OF two] by force
      obtain r4 g where gauges: "refresh_gauges S (ws_redis st3) = (r4, g)" by force
      have "owed (ws_redis st3) \<subseteq> owed r4" using refresh_gauges_owed [OF assms(1)] gauges by (metis fst_conv)
      then have four: "worked S owed entries stream st (st3\<lparr> ws_redis := r4 \<rparr>) h"
        using worked_trans [OF three worked_redis [of owed st3 "st3\<lparr> ws_redis := r4 \<rparr>"]] by simp
      show ?thesis
        using assms(4) claim read x Inr h gauges three four by (cases exc3) (auto simp: try_round_def)
    qed
  qed
qed

lemma worker_loop_worked:
  assumes "keeps_entries (sc_redis S) owed" and "gives_entries (sc_redis S) (sc_codec S) entries"
    and "ran entries \<subseteq> set stream"
  shows "worker_loop S consumer ws st = (st', handled, fin) \<Longrightarrow> worked S owed entries stream st st' handled"
proof (induction ws arbitrary: st st' handled fin)
  case (Cons w ws)
  show ?case
  proof (cases "wr_stop w")
    case False
    obtain st1 h exc where t: "try_round S consumer w st = (st1, h, exc)" by (metis prod_cases3)
    obtain r2 out where go: "round_ends S w exc (ws_redis st1) = (r2, out)" by force
    have "owed (ws_redis st1) \<subseteq> owed r2" using round_ends_owed [OF assms(1)] go by (metis fst_conv)
    then have one: "worked S owed entries stream st (st1\<lparr> ws_redis := r2 \<rparr>) h"
      using worked_trans [OF try_round_worked [OF assms t] worked_redis [of owed st1 "st1\<lparr> ws_redis := r2 \<rparr>"]] by simp
    show ?thesis
    proof (cases out)
      case (Some e)
      then show ?thesis using Cons(2) False t go one by simp
    next
      case None
      obtain st3 h3 fin3 where more: "worker_loop S consumer ws (st1\<lparr> ws_redis := r2 \<rparr>) = (st3, h3, fin3)"
        by (metis prod_cases3)
      show ?thesis using Cons(2) False t go None more worked_trans [OF one Cons(1) [OF more]] by simp
    qed
  qed (use Cons(2) in \<open>simp add: worked_redis\<close>)
qed (simp add: worked_redis)



end
