(* ===== verification/Process_Loops.thy ===== *)
theory Process_Loops
  imports Queue_Relay Queue_Streams Worker_Sweeper
begin

text \<open>
  The loops around the relay and the sweeper: \<open>OutboxRelay.run_forever\<close> (\<open>ledgerloop/queue/relay.py\<close>),
  \<open>Sweeper.run_forever\<close> (\<open>worker/sweeper.py\<close>) and the exit code of \<open>worker/sweep.py\<close>. As in
  \<open>Worker_Run\<close>, a round takes from outside what its record holds and a list of rounds is a part of a run.
\<close>

subsection \<open>The relay\<close>

text \<open>
  A round of the relay: whether the stop event is set when the loop looks, the clock, the rows other
  relays have locked, what Redis does with the pipeline, whether the commit succeeds, what is raised when
  one of the two fails, what the refresh of the gauge raises, and whether the pause is cancelled.
\<close>

record relay_round =
  rl_stop :: bool
  rl_now :: instant
  rl_locked :: "int set"
  rl_publish :: "ingest_message list \<Rightarrow> nat \<times> bool"
  rl_committed :: bool
  rl_exc :: py_exc
  rl_gauge :: "py_exc option"
  rl_pause_cancelled :: bool

text \<open>What the loop does before the next round: go straight round, poll, or back off, in microseconds.\<close>

datatype pause = Straight_on | Poll duration | Back_off duration

definition relay_back_off :: "settings \<Rightarrow> duration" where
  "relay_back_off s = min (5 * s_outbox_poll_interval_s s) (seconds 2)"

text \<open>The body of the \<open>try\<close> up to the pause: the database, what reached the stream, and the outcome.\<close>

definition relay_try :: "settings \<Rightarrow> relay_round \<Rightarrow> db \<Rightarrow> db \<times> ingest_message list \<times> (py_exc + pause)" where
  "relay_try s w d =
     (case drain_once s (rl_now w) (rl_locked w) (rl_publish w) (rl_committed w) d of
        (d', published, Inl (BadPayload e)) \<Rightarrow> (d', published, Inl (Unreadable (BadBody e)))
      | (d', published, Inl PublishFailed) \<Rightarrow> (d', published, Inl (rl_exc w))
      | (d', published, Inr n) \<Rightarrow>
          (d', published,
           if n < s_outbox_batch_size s \<or> n = 0
           then (case rl_gauge w of
                   Some e \<Rightarrow> Inl e
                 | None \<Rightarrow> Inr (if n = 0 then Poll (s_outbox_poll_interval_s s) else Straight_on))
           else Inr Straight_on))"

definition relay_pause :: "settings \<Rightarrow> relay_round \<Rightarrow> py_exc + pause \<Rightarrow> py_exc + pause" where
  "relay_pause s w out =
     (case out of
        Inl e \<Rightarrow>
          if e = CancelledError \<or> rl_pause_cancelled w then Inl CancelledError else Inr (Back_off (relay_back_off s))
      | Inr Straight_on \<Rightarrow> Inr Straight_on
      | Inr p \<Rightarrow> if rl_pause_cancelled w then Inl CancelledError else Inr p)"

fun relay_loop ::
  "settings \<Rightarrow> relay_round list \<Rightarrow> db \<Rightarrow> db \<times> ingest_message list \<times> pause list \<times> ending" where
  "relay_loop s [] d = (d, [], [], Running)"
| "relay_loop s (w # ws) d =
     (if rl_stop w then (d, [], [], Stopped)
      else
        (case relay_try s w d of
           (d', published, out) \<Rightarrow>
             (case relay_pause s w out of
                Inl e \<Rightarrow> (d', published, [], Raised e)
              | Inr p \<Rightarrow>
                  (case relay_loop s ws d' of
                     (d'', later, pauses, fin) \<Rightarrow> (d'', published @ later, p # pauses, fin)))))"

subsection \<open>The sweeper\<close>

text \<open>
  A round of the sweeper: the stop event, the clocks, what is raised before the pass has written
  anything (a database that cannot be reached), and whether the wait is cancelled.
\<close>

record sweeper_round =
  sw_stop :: bool
  sw_now :: instant
  sw_clock :: "txn_facts \<Rightarrow> instant"
  sw_ticks :: duration
  sw_fault :: "py_exc option"
  sw_wait_cancelled :: bool

definition sweeper_try ::
  "settings \<Rightarrow> nat \<Rightarrow> sweeper_round \<Rightarrow> db \<times> duration \<Rightarrow> (db \<times> duration) \<times> py_exc option" where
  "sweeper_try s limit w st =
     (case sw_fault w of
        Some e \<Rightarrow> (st, Some e)
      | None \<Rightarrow>
          (case sweep_once s limit (sw_now w) (sw_clock w) (sw_ticks w) st of
             (st', Inl e) \<Rightarrow> (st', Some (DbError e))
           | (st', Inr resolved) \<Rightarrow> (st', None)))"

fun sweeper_loop ::
  "settings \<Rightarrow> nat \<Rightarrow> sweeper_round list \<Rightarrow> db \<times> duration \<Rightarrow> (db \<times> duration) \<times> ending" where
  "sweeper_loop s limit [] st = (st, Running)"
| "sweeper_loop s limit (w # ws) st =
     (if sw_stop w then (st, Stopped)
      else
        (case sweeper_try s limit w st of
           (st', exc) \<Rightarrow>
             if exc = Some CancelledError \<or> sw_wait_cancelled w then (st', Raised CancelledError)
             else sweeper_loop s limit ws st'))"

text \<open>
  \<open>Sweeper\<close> starts with \<open>_last_demo_sweep = 0.0\<close> and a limit of 500. The exit code of the cron form:
  \<open>None\<close> is an interrupt from the keyboard.
\<close>

definition sweeper_run :: "settings \<Rightarrow> sweeper_round list \<Rightarrow> db \<Rightarrow> (db \<times> duration) \<times> ending" where
  "sweeper_run s ws d = sweeper_loop s 500 ws (d, 0)"

definition default_max_passes :: nat where
  "default_max_passes = 20"

definition sweep_exit :: "(db_error + nat \<times> nat \<times> bool) option \<Rightarrow> int" where
  "sweep_exit outcome = (case outcome of None \<Rightarrow> 130 | Some (Inl _) \<Rightarrow> 1 | Some (Inr _) \<Rightarrow> 0)"

definition sweep_main ::
  "settings \<Rightarrow> nat \<Rightarrow> (nat \<Rightarrow> instant \<times> (txn_facts \<Rightarrow> instant) \<times> duration) \<Rightarrow> db \<Rightarrow> db \<times> int" where
  "sweep_main s max_passes readings d =
     (case sweep_drain s 500 readings max_passes 0 0 (d, 0) of
        (st, outcome) \<Rightarrow> (fst st, sweep_exit (Some outcome)))"

subsection \<open>The loops outlive their failures\<close>

definition relay_uncancelled :: "relay_round \<Rightarrow> bool" where
  "relay_uncancelled w \<longleftrightarrow> rl_exc w \<noteq> CancelledError \<and> rl_gauge w \<noteq> Some CancelledError \<and> \<not> rl_pause_cancelled w"

lemma relay_try_uncancelled:
  assumes "relay_uncancelled w" and "relay_try s w d = (d', published, out)"
  shows "\<exists>p. relay_pause s w out = Inr p"
  using assms
  by (auto simp: relay_try_def relay_pause_def relay_uncancelled_def
      split: prod.splits sum.splits relay_error.splits option.splits if_splits pause.splits)

theorem relay_outlives_failures:
  assumes "\<forall>w \<in> set ws. relay_uncancelled w"
  shows "snd (snd (snd (relay_loop s ws d))) = (if \<exists>w \<in> set ws. rl_stop w then Stopped else Running)"
  using assms
proof (induction ws arbitrary: d)
  case (Cons w ws)
  obtain d' published out where t: "relay_try s w d = (d', published, out)" by (metis prod_cases3)
  obtain p where "relay_pause s w out = Inr p" using relay_try_uncancelled [OF _ t] Cons(2) by auto
  then show ?case using t Cons by (simp add: split_beta)
qed simp

theorem sweeper_outlives_failures:
  assumes "\<forall>w \<in> set ws. sw_fault w \<noteq> Some CancelledError \<and> \<not> sw_wait_cancelled w"
  shows "snd (sweeper_loop s limit ws st) = (if \<exists>w \<in> set ws. sw_stop w then Stopped else Running)"
  using assms
proof (induction ws arbitrary: st)
  case (Cons w ws)
  obtain st' exc where t: "sweeper_try s limit w st = (st', exc)" by (metis surj_pair)
  then have "exc \<noteq> Some CancelledError"
    using Cons(2) by (auto simp: sweeper_try_def split: option.splits prod.splits sum.splits)
  then show ?case using t Cons by simp
qed simp

text \<open>A failed sweep is visible: the exit code is 0 exactly when no pass raised.\<close>

theorem sweep_exit_reports:
  "snd (sweep_main s n readings d) = 0 \<longleftrightarrow> (\<exists>st out. sweep_drain s 500 readings n 0 0 (d, 0) = (st, Inr out))"
  by (auto simp: sweep_main_def sweep_exit_def split: prod.split sum.split)

end
