(* ===== verification/Process_Laws.thy ===== *)
theory Process_Laws
  imports Relay_Laws Refinement Process_Loops
begin

text \<open>
  The loops of the relay and the sweeper over the whole program: what they commit is reached by steps,
  and a relay that fails in any number of rounds still empties the outbox once enough of them succeed.
\<close>

subsection \<open>A relay that fails and recovers\<close>

text \<open>One batch keeps the outbox readable, and an event leaves the pending ones only with its message published.\<close>

lemma drain_once_keeps:
  assumes "readable_outbox d" and "drain_once s now locked pub landed d = (d', published, res)"
  shows "readable_outbox d'" and "set (pending d') \<subseteq> set (pending d)"
    and "ev \<in> set (pending d) \<Longrightarrow> ev \<in> set (pending d') \<or> (\<exists>m \<in> set published. from_payload (ob_payload ev) = Inr m)"
proof -
  let ?rows = "claimed (s_outbox_batch_size s) locked d"
  let ?mark = "update_where (\<lambda>e. ob_id e \<in> ob_id ` set ?rows) (publish_event now) (db_outbox_events d)"
  have "readable_outbox d' \<and> set (pending d') \<subseteq> set (pending d) \<and>
    (\<forall>ev \<in> set (pending d). ev \<in> set (pending d') \<or> (\<exists>m \<in> set published. from_payload (ob_payload ev) = Inr m))"
  proof (cases "d' = d")
    case True
    then show ?thesis using assms(1) by simp
  next
    case False
    have d': "d' = d\<lparr> db_outbox_events := ?mark \<rparr>" and msgs: "messages_of ?rows = Inr published"
      using assms(2) False by (auto simp: drain_once_def Let_def split: if_splits sum.splits prod.splits)
    have "readable_outbox d'"
      using assms(1) by (auto simp: readable_outbox_def d' map_update_where set_update_where simp del: set_map)
    moreover have "set (pending d') \<subseteq> set (pending d)"
      by (auto simp: pending_def d' set_update_where publish_event_def split: if_splits)
    moreover have "ev \<in> set (pending d') \<or> (\<exists>m \<in> set published. from_payload (ob_payload ev) = Inr m)"
      if ev: "ev \<in> set (pending d)" for ev
    proof (cases "ob_id ev \<in> ob_id ` set ?rows")
      case True
      then obtain r where r: "r \<in> set ?rows" "ob_id r = ob_id ev" by auto
      have "r \<in> set (db_outbox_events d)" using r(1) claimed_subset by blast
      moreover have "distinct (map ob_id (db_outbox_events d))" using assms(1) by (simp add: readable_outbox_def)
      ultimately have "r = ev" using distinct_map_eqD pending_subset [OF ev] r(2) by metis
      then show ?thesis using messages_of_member [OF msgs r(1)] by blast
    next
      case False
      then show ?thesis using ev by (force simp: pending_def d' set_update_where)
    qed
    ultimately show ?thesis by blast
  qed
  then show "readable_outbox d'" "set (pending d') \<subseteq> set (pending d)"
    "ev \<in> set (pending d) \<Longrightarrow> ev \<in> set (pending d') \<or> (\<exists>m \<in> set published. from_payload (ob_payload ev) = Inr m)"
    by blast+
qed

lemma readable_pending: "readable_outbox d \<Longrightarrow> distinct (pending d)"
  by (auto simp: readable_outbox_def pending_def distinct_map intro: distinct_filter)

lemma pending_shrinks:
  assumes "readable_outbox d" and "readable_outbox d'" and "set (pending d') \<subseteq> set (pending d)"
  shows "length (pending d') \<le> length (pending d)"
  using assms readable_pending card_mono [of "set (pending d)" "set (pending d')"] distinct_card
  by (metis List.finite_set)

text \<open>A round in which nothing fails and no other relay is at work.\<close>

definition good_round :: "relay_round \<Rightarrow> bool" where
  "good_round w \<longleftrightarrow> rl_locked w = {} \<and> rl_committed w \<and> (\<forall>ms. snd (rl_publish w ms))"

lemma drain_once_good:
  assumes "readable_outbox d" and "snd (publish_of (projr (messages_of (take (s_outbox_batch_size s) (pending d)))))"
    and "drain_once s now {} publish_of True d = (d', published, res)"
  shows "pending d' = drop (s_outbox_batch_size s) (pending d)"
proof -
  let ?rows = "take (s_outbox_batch_size s) (pending d)"
  have "\<forall>ev \<in> set ?rows. \<exists>m. from_payload (ob_payload ev) = Inr m"
    using assms(1) pending_subset in_set_takeD unfolding readable_outbox_def by metis
  then obtain ms where ms: "messages_of ?rows = Inr ms" using messages_of_readable by blast
  show ?thesis
  proof (cases "?rows = []")
    case True
    then have "d' = d" using assms(3) by (simp add: drain_once_def claimed_pending Let_def)
    then show ?thesis using True by auto
  next
    case False
    then have "d' = d\<lparr> db_outbox_events := update_where (\<lambda>e. ob_id e \<in> ob_id ` set ?rows) (publish_event now) (db_outbox_events d) \<rparr>"
      using assms(2,3) ms by (auto simp: drain_once_def claimed_pending Let_def split: prod.splits)
    then show ?thesis using assms(1) pending_marked by (simp add: readable_outbox_def)
  qed
qed

lemma relay_try_drain:
  assumes "relay_try s w d = (d', published, out)"
  obtains res where "drain_once s (rl_now w) (rl_locked w) (rl_publish w) (rl_committed w) d = (d', published, res)"
  using assms by (auto simp: relay_try_def split: prod.splits sum.splits relay_error.splits)

lemma relay_loop_recovers:
  assumes "\<forall>w \<in> set ws. relay_uncancelled w \<and> \<not> rl_stop w"
  shows "readable_outbox d \<Longrightarrow> length (pending d) \<le> length (filter good_round ws) * s_outbox_batch_size s \<Longrightarrow>
    relay_loop s ws d = (d', published, pauses, fin) \<Longrightarrow>
    pending d' = [] \<and> fin = Running \<and> (\<forall>ev \<in> set (pending d). \<exists>m \<in> set published. from_payload (ob_payload ev) = Inr m)"
  using assms
proof (induction ws arbitrary: d d' published pauses fin)
  case (Cons w ws)
  obtain d1 pub1 out where t: "relay_try s w d = (d1, pub1, out)" by (metis prod_cases3)
  then obtain res where dr: "drain_once s (rl_now w) (rl_locked w) (rl_publish w) (rl_committed w) d = (d1, pub1, res)"
    using relay_try_drain by blast
  obtain p where p: "relay_pause s w out = Inr p" using relay_try_uncancelled [OF _ t] Cons(5) by auto
  obtain d2 pub2 ps fin2 where more: "relay_loop s ws d1 = (d2, pub2, ps, fin2)" by (metis prod_cases4)
  note keeps = drain_once_keeps [OF Cons(2) dr]
  have "length (pending d1) \<le> length (filter good_round ws) * s_outbox_batch_size s"
  proof (cases "good_round w")
    case True
    have "pending d1 = drop (s_outbox_batch_size s) (pending d)"
      using True dr by (intro drain_once_good [OF Cons(2)]) (auto simp: good_round_def)
    then show ?thesis using Cons(3) True by simp
  next
    case False
    then show ?thesis using Cons(3) pending_shrinks [OF Cons(2) keeps(1,2)] by simp
  qed
  from Cons(1) [OF keeps(1) this more] Cons(5)
  have rest: "pending d2 = []" "fin2 = Running"
    "\<forall>ev \<in> set (pending d1). \<exists>m \<in> set pub2. from_payload (ob_payload ev) = Inr m" by simp_all
  have "d' = d2" "published = pub1 @ pub2" "fin = fin2" using Cons(4,5) t p more by simp_all
  then show ?case using rest keeps(3) by fastforce
qed simp

text \<open>
  C15. The relay recovers. From every reachable state, in a run whose rounds fail in any way and any number
  of times (Redis takes only a part of a pipeline or does not answer, the commit is lost, other relays
  hold rows, the gauge cannot be read), the loop goes on, and once as many rounds have succeeded as
  the backlog has batches, no event is left unpublished and the message of every one that was pending is in
  the stream.
\<close>

theorem relay_recovers:
  assumes "reachable s c" and "\<forall>w \<in> set ws. relay_uncancelled w \<and> \<not> rl_stop w"
    and "length (pending (sy_db c)) \<le> length (filter good_round ws) * s_outbox_batch_size s'"
  shows "\<exists>d' published pauses. relay_loop s' ws (sy_db c) = (d', published, pauses, Running) \<and>
    (\<forall>ev. ev \<in> set (db_outbox_events d') \<longrightarrow> ob_published_at ev \<noteq> None) \<and>
    (\<forall>ev. ev \<in> set (pending (sy_db c)) \<longrightarrow> (\<exists>m \<in> set published. from_payload (ob_payload ev) = Inr m))"
proof -
  have "readable_outbox (sy_db c)"
    using reachable_relay_inv [OF assms(1)] reachable_sys_inv [OF assms(1)]
    by (fastforce simp: readable_outbox_def relay_inv_def outbox_ids_def sys_inv_def outbox_sound_def)
  moreover obtain d' published pauses fin where run: "relay_loop s' ws (sy_db c) = (d', published, pauses, fin)"
    by (metis prod_cases4)
  ultimately have "pending d' = []" "fin = Running"
    "\<forall>ev \<in> set (pending (sy_db c)). \<exists>m \<in> set published. from_payload (ob_payload ev) = Inr m"
    using relay_loop_recovers [OF assms(2) _ assms(3)] by blast+
  moreover have "\<forall>ev \<in> set (db_outbox_events d'). ob_published_at ev \<noteq> None"
    using arg_cong [OF \<open>pending d' = []\<close>, of set] by (auto simp: pending_def)
  ultimately show ?thesis using run by blast
qed

text \<open>A round that loses its answer after Redis took the messages, then one that succeeds.\<close>

definition example_rounds :: "relay_round list" where
  "example_rounds =
     [\<lparr> rl_stop = False, rl_now = 9, rl_locked = {}, rl_publish = (\<lambda>ms. (length ms, False)), rl_committed = True,
        rl_exc = OtherError ''timeout'', rl_gauge = None, rl_pause_cancelled = False \<rparr>,
      \<lparr> rl_stop = False, rl_now = 10, rl_locked = {}, rl_publish = (\<lambda>ms. (length ms, True)), rl_committed = True,
        rl_exc = OtherError ''timeout'', rl_gauge = None, rl_pause_cancelled = False \<rparr>]"

theorem relay_recovers_witness:
  "\<exists>d' published pauses. relay_loop default_settings example_rounds run2 = (d', published, pauses, Running) \<and>
     length published = 2 \<and> (\<forall>ev. ev \<in> set (db_outbox_events d') \<longrightarrow> ob_published_at ev \<noteq> None)"
proof -
  have len: "length (pending (sy_db (initial\<lparr> sy_db := run1 \<rparr>\<lparr> sy_db := run2 \<rparr>))) = 1" by code_simp
  have "\<forall>w \<in> set example_rounds. relay_uncancelled w \<and> \<not> rl_stop w" "length (filter good_round example_rounds) = 1"
    by (simp_all add: example_rounds_def relay_uncancelled_def good_round_def)
  then have "\<exists>d' published pauses. relay_loop default_settings example_rounds run2 = (d', published, pauses, Running) \<and>
      (\<forall>ev. ev \<in> set (db_outbox_events d') \<longrightarrow> ob_published_at ev \<noteq> None)"
    using relay_recovers [OF run2_reachable, of example_rounds default_settings] len
    by (auto simp: default_settings_def)
  moreover have "length (fst (snd (relay_loop default_settings example_rounds run2))) = 2" by code_simp
  ultimately show ?thesis by fastforce
qed

subsection \<open>What the loops commit\<close>

lemma relay_loop_reachable:
  "reachable s c \<Longrightarrow> relay_loop s ws (sy_db c) = (d', published, pauses, fin) \<Longrightarrow>
     \<exists>c'. reachable s c' \<and> sy_db c' = d' \<and> sy_stream c' = sy_stream c @ published"
proof (induction ws arbitrary: c d' published pauses fin)
  case (Cons w ws)
  obtain d1 pub1 out where t: "relay_try s w (sy_db c) = (d1, pub1, out)" by (metis prod_cases3)
  then obtain res where "drain_once s (rl_now w) (rl_locked w) (rl_publish w) (rl_committed w) (sy_db c) = (d1, pub1, res)"
    using relay_try_drain by blast
  let ?c1 = "c\<lparr> sy_db := d1, sy_stream := sy_stream c @ pub1 \<rparr>"
  have one: "reachable s ?c1" by (rule reachable.step [OF Cons(2) step.relay]) fact
  obtain d2 pub2 ps fin2 where more: "relay_loop s ws d1 = (d2, pub2, ps, fin2)" by (metis prod_cases4)
  have "\<exists>c'. reachable s c' \<and> sy_db c' = d2 \<and> sy_stream c' = sy_stream c @ pub1 @ pub2"
    using Cons(1) [OF one, of d2 pub2 ps fin2] more by simp
  then show ?case using Cons(2,3) t more one by (auto split: if_splits sum.splits)
qed auto

lemma sweeper_loop_reaches:
  "reaches s stream {} (fst st) \<Longrightarrow> reaches s stream {} (fst (fst (sweeper_loop s limit ws st)))"
proof (induction ws arbitrary: st)
  case (Cons w ws)
  obtain st' exc where t: "sweeper_try s limit w st = (st', exc)" by (metis surj_pair)
  have "reaches s stream {} (fst st')"
    using t sweep_once_reaches [OF Cons(2), of limit "sw_now w" "sw_clock w" "sw_ticks w"] Cons(2)
    by (auto simp: sweeper_try_def split: option.splits prod.splits sum.splits)
  then show ?case using t Cons by simp
qed simp



end
