(* ===== verification/Processes.thy ===== *)
theory Processes
  imports Worker_Run Process_Loops
begin

text \<open>
  The processes that host the loops: \<open>ledgerloop/worker/main.py\<close>, \<open>ledgerloop/worker/embedded.py\<close> and
  the lifespan of \<open>ledgerloop/api/app.py\<close>. A task is one of the three loops; what a task has come to when
  a process looks is a \<open>task_end\<close>. What a process does with its engine, its Redis client and its tasks is
  a list of events; signals only set the stop event.
\<close>

datatype task = Matcher string | Relay_task | Sweeper_task

text \<open>\<open>default_consumer_name\<close>, with the host name and the process id.\<close>

definition default_consumer_name :: "string \<Rightarrow> nat \<Rightarrow> nat \<Rightarrow> string" where
  "default_consumer_name host pid index =
     host @ ''-'' @ py_str_int (int pid) @ ''-'' @ py_str_int (int index)"

text \<open>The tasks \<open>run_worker\<close> creates, by name.\<close>

definition worker_tasks :: "settings \<Rightarrow> string \<Rightarrow> nat \<Rightarrow> (string \<times> task) list" where
  "worker_tasks s host pid =
     map (\<lambda>index. (''matcher-'' @ py_str_int (int index), Matcher (default_consumer_name host pid index)))
       [0 ..< nat (s_worker_concurrency s)] @
     (if s_enable_relay s then [(''relay'', Relay_task)] else []) @
     (if s_enable_sweeper s then [(''sweeper'', Sweeper_task)] else [])"

text \<open>The tasks of \<open>EmbeddedWorker.start\<close>.\<close>

definition embedded_tasks :: "settings \<Rightarrow> string \<Rightarrow> nat \<Rightarrow> (string \<times> task) list" where
  "embedded_tasks s host pid =
     map (\<lambda>index. (''embedded-matcher-'' @ py_str_int (int index), Matcher (default_consumer_name host pid index)))
       [0 ..< nat (s_worker_concurrency s)] @
     (if s_enable_relay s then [(''embedded-relay'', Relay_task)] else []) @
     (if s_enable_sweeper s then [(''embedded-sweeper'', Sweeper_task)] else [])"

datatype task_end = Returned | Failed py_exc | Unfinished

text \<open>
  The end of \<open>run_worker\<close>: \<open>gather\<close> raises the first exception of a task, or is itself cancelled while
  tasks run, and the \<open>finally\<close> cancels every task that is not done. The result is the exception and the names of the cancelled tasks.
\<close>

definition run_worker_end :: "(string \<times> task_end) list \<Rightarrow> py_exc option \<times> string list" where
  "run_worker_end ends =
     (case List.find (\<lambda>(n, e). \<exists>x. e = Failed x) ends of
        Some (n, Failed x) \<Rightarrow> (Some x, map fst (filter (\<lambda>(n, e). e = Unfinished) ends))
      | _ \<Rightarrow>
          (if list_ex (\<lambda>(n, e). e = Unfinished) ends then Some CancelledError else None,
           map fst (filter (\<lambda>(n, e). e = Unfinished) ends)))"

text \<open>
  \<open>EmbeddedWorker.stop\<close>: the tasks that have not ended by the timeout are cancelled and awaited, then the
  exceptions of the others are looked at, and no task is kept. Looking at a task that was itself
  cancelled raises, and then the list stays. \<open>embedded_timeout\<close> is the number of seconds it waits, an
  exact rational here.
\<close>

definition embedded_timeout :: "settings \<Rightarrow> rat" where
  "embedded_timeout s = max (of_int (s_stream_block_ms s) / 1000 * 2) 10"

record embedded_worker =
  ew_stop :: bool
  ew_tasks :: "(string \<times> task) list"

definition embedded_init :: embedded_worker where
  "embedded_init = \<lparr> ew_stop = False, ew_tasks = [] \<rparr>"

definition embedded_start :: "settings \<Rightarrow> string \<Rightarrow> nat \<Rightarrow> embedded_worker \<Rightarrow> embedded_worker" where
  "embedded_start s host pid ew = ew\<lparr> ew_tasks := ew_tasks ew @ embedded_tasks s host pid \<rparr>"

definition embedded_stop ::
  "(string \<Rightarrow> task_end) \<Rightarrow> embedded_worker \<Rightarrow> embedded_worker \<times> string list \<times> py_exc option" where
  "embedded_stop ends ew =
     (if ew_tasks ew = [] then (ew, [], None)
      else
        (let cancelled = filter (\<lambda>n. ends n = Unfinished) (map fst (ew_tasks ew)) in
         if list_ex (\<lambda>(n, t). ends n = Failed CancelledError) (ew_tasks ew)
         then (ew\<lparr> ew_stop := True \<rparr>, cancelled, Some CancelledError)
         else (ew\<lparr> ew_stop := True, ew_tasks := [] \<rparr>, cancelled, None)))"

text \<open>
  The start of the API: the consumer group, whose failure is only logged, then the embedded worker when
  it is on. A cancellation is no \<open>Exception\<close> and goes through.
\<close>

record app_state =
  app_group_error :: "py_exc option"
  app_embedded :: "embedded_worker option"

definition lifespan_start ::
  "'r stream_client \<Rightarrow> string \<Rightarrow> nat \<Rightarrow> 'r \<Rightarrow> 'r \<times> (py_exc + app_state)" where
  "lifespan_start S host pid r =
     (case ensure_group S r of
        (r', err) \<Rightarrow>
          if err = Some CancelledError then (r', Inl CancelledError)
          else (r', Inr \<lparr> app_group_error = err,
                  app_embedded = (if s_embed_worker (sc_settings S)
                    then Some (embedded_start (sc_settings S) host pid embedded_init) else None) \<rparr>))"

subsection \<open>The same loops in both places\<close>

text \<open>
  The two processes host the same loops, under names that differ by a prefix, and within a process no
  two matchers have the same consumer name and no two tasks the same name.
\<close>

theorem embedded_hosts_the_same_loops:
  "map (\<lambda>(n, t). (''embedded-'' @ n, t)) (worker_tasks s host pid) = embedded_tasks s host pid \<and>
   distinct (map snd (worker_tasks s host pid)) \<and> distinct (map fst (worker_tasks s host pid))"
proof -
  have names: "inj (\<lambda>index. default_consumer_name host pid index)" "inj (\<lambda>index. ''matcher-'' @ py_str_int (int index))"
    by (auto simp: inj_on_def default_consumer_name_def)
  have "distinct (map (\<lambda>index. Matcher (default_consumer_name host pid index)) [0 ..< n])"
    "distinct (map (\<lambda>index. ''matcher-'' @ py_str_int (int index)) [0 ..< n])" for n
    using names by (auto simp: distinct_map inj_on_def)
  then show ?thesis by (auto simp: worker_tasks_def embedded_tasks_def comp_def)
qed

text \<open>
  The shutdown waits for at least two blocked reads, so a matcher in a read sees the stop event before
  it would be cancelled; stopping twice is stopping once, unless a task had been cancelled by another hand.
\<close>

theorem embedded_stop_waits:
  "2 * (of_int (s_stream_block_ms s) / 1000) \<le> embedded_timeout s \<and> 10 \<le> embedded_timeout s \<and>
   (case embedded_stop ends ew of
      (once, cancelled, None) \<Rightarrow> ew_tasks once = [] \<and> embedded_stop ends' once = (once, [], None)
    | (once, cancelled, Some e) \<Rightarrow> e = CancelledError \<and> (\<exists>(n, t) \<in> set (ew_tasks ew). ends n = Failed CancelledError))"
  by (auto simp: embedded_timeout_def embedded_stop_def Let_def list_ex_iff)

text \<open>A group that cannot be made does not keep the API from starting, with its embedded loops if they are on.\<close>

theorem api_starts_without_redis:
  assumes "snd (ensure_group S r) \<noteq> Some CancelledError"
  shows "\<exists>app. snd (lifespan_start S host pid r) = Inr app \<and>
    (app_embedded app = None \<longleftrightarrow> \<not> s_embed_worker (sc_settings S))"
  using assms by (cases "ensure_group S r") (auto simp: lifespan_start_def)

subsection \<open>What is open while a task runs\<close>

datatype event =
    BuildEngine
  | BuildRedis
  | StartTask string
  | SetStop
  | EndTask string
  | CancelTask string
  | CloseRedis
  | DisposeEngine

text \<open>
  \<open>run_worker\<close>. \<open>metrics\<close> is what starting the metrics server raised: an \<open>OSError\<close> is logged, another exception
  leaves before the \<open>try\<close>. \<open>ends\<close> is what the tasks have come to when \<open>gather\<close> is left; the ones that are
  not done are cancelled and awaited. \<open>closing\<close> is what closing the client raises.
\<close>

definition ended_before :: "(string \<Rightarrow> task_end) \<Rightarrow> string list \<Rightarrow> string list" where
  "ended_before ends names = filter (\<lambda>n. ends n \<noteq> Unfinished) names"

definition cancelled_of :: "(string \<Rightarrow> task_end) \<Rightarrow> string list \<Rightarrow> string list" where
  "cancelled_of ends names = filter (\<lambda>n. ends n = Unfinished) names"

text \<open>The tasks of \<open>run_worker\<close> at the end of \<open>gather\<close>, and those of \<open>EmbeddedWorker.stop\<close>.\<close>

definition worker_stopping :: "(string \<Rightarrow> task_end) \<Rightarrow> string list \<Rightarrow> event list" where
  "worker_stopping ends names =
     map EndTask (ended_before ends names) @ [SetStop] @ map CancelTask (cancelled_of ends names) @
     map EndTask (cancelled_of ends names)"

definition embedded_stopping :: "(string \<Rightarrow> task_end) \<Rightarrow> string list \<Rightarrow> event list" where
  "embedded_stopping ends names =
     (if names = [] then []
      else [SetStop] @ map EndTask (ended_before ends names) @ map CancelTask (cancelled_of ends names) @
        map EndTask (cancelled_of ends names))"

definition close_connections :: "py_exc option \<Rightarrow> event list" where
  "close_connections closing = CloseRedis # (case closing of None \<Rightarrow> [DisposeEngine] | Some _ \<Rightarrow> [])"

definition run_worker ::
  "settings \<Rightarrow> string \<Rightarrow> nat \<Rightarrow> (py_exc \<times> bool) option \<Rightarrow> (string \<Rightarrow> task_end) \<Rightarrow> py_exc option \<Rightarrow> event list \<times> py_exc option" where
  "run_worker s host pid metrics ends closing =
     (case metrics of
        Some (e, False) \<Rightarrow> ([BuildEngine, BuildRedis], Some e)
      | _ \<Rightarrow>
          (let names = map fst (worker_tasks s host pid) in
           ([BuildEngine, BuildRedis] @ map StartTask names @ worker_stopping ends names @ close_connections closing,
            case closing of Some e \<Rightarrow> Some e | None \<Rightarrow> fst (run_worker_end (map (\<lambda>n. (n, ends n)) names)))))"

text \<open>\<open>main\<close>: an interrupt from the keyboard is 130, another exception a traceback and 1.\<close>

definition worker_main_exit :: "bool \<Rightarrow> py_exc option \<Rightarrow> int" where
  "worker_main_exit interrupted raised =
     (if interrupted then 130 else case raised of None \<Rightarrow> 0 | Some _ \<Rightarrow> 1)"

text \<open>The lifespan of the API: a start that is cancelled closes nothing, a stop that raises neither.\<close>

definition lifespan ::
  "'r stream_client \<Rightarrow> string \<Rightarrow> nat \<Rightarrow> 'r \<Rightarrow> (string \<Rightarrow> task_end) \<Rightarrow> py_exc option \<Rightarrow> event list \<times> py_exc option" where
  "lifespan S host pid r ends closing =
     (case snd (lifespan_start S host pid r) of
        Inl e \<Rightarrow> ([BuildEngine, BuildRedis], Some e)
      | Inr app \<Rightarrow>
          (case app_embedded app of
             None \<Rightarrow> ([BuildEngine, BuildRedis] @ close_connections closing, closing)
           | Some ew \<Rightarrow>
               (let names = map fst (ew_tasks ew); stopping = embedded_stopping ends names in
                case snd (snd (embedded_stop ends ew)) of
                  Some e \<Rightarrow> ([BuildEngine, BuildRedis] @ map StartTask names @ stopping, Some e)
                | None \<Rightarrow>
                    ([BuildEngine, BuildRedis] @ map StartTask names @ stopping @ close_connections closing, closing))))"

text \<open>
  A monitor of a trace: the tasks that run, and whether the client and the engine are open. It refuses a
  task that starts without both, and the closing of either while a task runs or twice.
\<close>

fun monitor :: "event list \<Rightarrow> string list \<Rightarrow> bool \<Rightarrow> bool \<Rightarrow> (string list \<times> bool \<times> bool) option" where
  "monitor [] tasks redis engine = Some (tasks, redis, engine)"
| "monitor (BuildEngine # es) tasks redis engine = (if engine then None else monitor es tasks redis True)"
| "monitor (BuildRedis # es) tasks redis engine = (if redis then None else monitor es tasks True engine)"
| "monitor (StartTask n # es) tasks redis engine =
     (if redis \<and> engine \<and> n \<notin> set tasks then monitor es (n # tasks) redis engine else None)"
| "monitor (SetStop # es) tasks redis engine = monitor es tasks redis engine"
| "monitor (EndTask n # es) tasks redis engine =
     (if n \<in> set tasks then monitor es (remove1 n tasks) redis engine else None)"
| "monitor (CancelTask n # es) tasks redis engine =
     (if n \<in> set tasks then monitor es tasks redis engine else None)"
| "monitor (CloseRedis # es) tasks redis engine =
     (if redis \<and> tasks = [] then monitor es tasks False engine else None)"
| "monitor (DisposeEngine # es) tasks redis engine =
     (if engine \<and> tasks = [] then monitor es tasks redis False else None)"

lemma monitor_append:
  "monitor (es @ es') tasks redis engine =
     (case monitor es tasks redis engine of
        None \<Rightarrow> None
      | Some (tasks', redis', engine') \<Rightarrow> monitor es' tasks' redis' engine')"
  by (induction es tasks redis engine rule: monitor.induct) auto

lemma monitor_starts:
  "distinct (names @ tasks) \<Longrightarrow> monitor (map StartTask names) tasks True True = Some (rev names @ tasks, True, True)"
  by (induction names arbitrary: tasks) auto

lemma monitor_ends:
  "distinct names \<Longrightarrow> set names \<subseteq> set tasks \<Longrightarrow> distinct tasks \<Longrightarrow>
     monitor (map EndTask names) tasks r e = Some (filter (\<lambda>n. n \<notin> set names) tasks, r, e)"
proof (induction names arbitrary: tasks)
  case (Cons n names)
  have "set names \<subseteq> set (remove1 n tasks)" using Cons(2-4) by auto
  moreover have "filter (\<lambda>m. m \<notin> set names) (remove1 n tasks) = filter (\<lambda>m. m \<notin> set (n # names)) tasks"
    using Cons(4) by (simp add: distinct_remove1_removeAll removeAll_filter_not_eq) metis
  ultimately show ?case using Cons by simp
qed simp

lemma monitor_cancels:
  "set names \<subseteq> set tasks \<Longrightarrow> monitor (map CancelTask names) tasks r e = Some (tasks, r, e)"
  by (induction names) auto

lemma monitor_stopped:
  assumes "distinct names"
  shows "monitor (worker_stopping ends names) (rev names) True True = Some ([], True, True)"
    and "monitor (embedded_stopping ends names) (rev names) True True = Some ([], True, True)"
proof -
  let ?left = "filter (\<lambda>n. n \<notin> set (ended_before ends names)) (rev names)"
  have early: "monitor (map EndTask (ended_before ends names)) (rev names) True True = Some (?left, True, True)"
    using assms by (intro monitor_ends) (auto simp: ended_before_def)
  have cancels: "set (cancelled_of ends names) \<subseteq> set ?left" by (auto simp: ended_before_def cancelled_of_def)
  have "monitor (map EndTask (cancelled_of ends names)) ?left True True =
      Some (filter (\<lambda>n. n \<notin> set (cancelled_of ends names)) ?left, True, True)"
    using assms cancels by (intro monitor_ends) (simp_all add: cancelled_of_def)
  moreover have "filter (\<lambda>n. n \<notin> set (cancelled_of ends names)) ?left = []"
    by (auto simp: filter_empty_conv ended_before_def cancelled_of_def)
  ultimately show "monitor (worker_stopping ends names) (rev names) True True = Some ([], True, True)"
    "monitor (embedded_stopping ends names) (rev names) True True = Some ([], True, True)"
    using early monitor_cancels [OF cancels] by (simp_all add: worker_stopping_def embedded_stopping_def monitor_append)
qed

lemma monitor_whole:
  assumes "distinct names" and "monitor stopping (rev names) True True = Some ([], True, True)"
  shows "monitor ([BuildEngine, BuildRedis] @ map StartTask names @ stopping @ rest) [] False False = monitor rest [] True True"
  using monitor_starts [of names "[]"] assms by (simp add: monitor_append)

lemma embedded_names_distinct: "distinct (map fst (embedded_tasks s host pid))"
proof -
  have "map fst (embedded_tasks s host pid) = map (\<lambda>n. ''embedded-'' @ n) (map fst (worker_tasks s host pid))"
    by (simp add: worker_tasks_def embedded_tasks_def comp_def)
  then show ?thesis using embedded_hosts_the_same_loops [of s host pid] by (simp add: distinct_map inj_on_def)
qed

text \<open>
  In both processes, whatever the tasks come to and whatever raises: a task runs only while the client
  and the engine are open, every task has ended before either is closed, and none is left running. Both
  are closed at the end, unless the metrics server failed with more than an \<open>OSError\<close>, the start was
  cancelled, a task had been cancelled by another hand, or the closing of the client itself raised.
\<close>

theorem connections_outlive_tasks:
  "(\<exists>redis engine. monitor (fst (run_worker s host pid metrics ends closing)) [] False False = Some ([], redis, engine) \<and>
      ((\<forall>e. metrics \<noteq> Some (e, False)) \<longrightarrow> \<not> redis \<and> (engine \<longleftrightarrow> closing \<noteq> None))) \<and>
   (\<exists>redis engine. monitor (fst (lifespan S host pid r ends closing)) [] False False = Some ([], redis, engine) \<and>
      (snd (lifespan S host pid r ends closing) = closing \<and> closing \<noteq> Some CancelledError \<longrightarrow>
         \<not> redis \<and> (engine \<longleftrightarrow> closing \<noteq> None)))"
proof
  have closes: "monitor (close_connections closing) [] True True = Some ([], False, closing \<noteq> None)"
    by (simp add: close_connections_def split: option.split)
  let ?names = "map fst (worker_tasks s host pid)"
  have d: "distinct ?names" using embedded_hosts_the_same_loops by blast
  have "monitor ([BuildEngine, BuildRedis] @ map StartTask ?names @ worker_stopping ends ?names @ close_connections closing)
      [] False False = Some ([], False, closing \<noteq> None)"
    unfolding monitor_whole [OF d monitor_stopped(1) [OF d]] by (rule closes)
  then show "\<exists>redis engine. monitor (fst (run_worker s host pid metrics ends closing)) [] False False = Some ([], redis, engine) \<and>
      ((\<forall>e. metrics \<noteq> Some (e, False)) \<longrightarrow> \<not> redis \<and> (engine \<longleftrightarrow> closing \<noteq> None))"
    by (cases metrics) (auto simp: run_worker_def Let_def split: bool.split)
  show "\<exists>redis engine. monitor (fst (lifespan S host pid r ends closing)) [] False False = Some ([], redis, engine) \<and>
      (snd (lifespan S host pid r ends closing) = closing \<and> closing \<noteq> Some CancelledError \<longrightarrow>
         \<not> redis \<and> (engine \<longleftrightarrow> closing \<noteq> None))"
  proof (cases "snd (lifespan_start S host pid r)")
    case (Inl e)
    then have "e = CancelledError" by (auto simp: lifespan_start_def split: prod.splits if_splits)
    then show ?thesis using Inl by (auto simp: lifespan_def)
  next
    case (Inr app)
    show ?thesis
    proof (cases "app_embedded app")
      case None
      then show ?thesis using Inr closes by (auto simp: lifespan_def)
    next
      case (Some ew)
      have "ew_tasks ew = embedded_tasks (sc_settings S) host pid"
        using Inr Some by (auto simp: lifespan_start_def embedded_start_def embedded_init_def split: prod.splits if_splits)
      then have e: "distinct (map fst (ew_tasks ew))" using embedded_names_distinct by simp
      note part = monitor_whole [OF e monitor_stopped(2) [OF e, of ends]]
      show ?thesis
      proof (cases "snd (snd (embedded_stop ends ew))")
        case None
        then show ?thesis using part [of "close_connections closing"] closes Inr Some by (auto simp: lifespan_def Let_def)
      next
        case raised: (Some x)
        then have "x = CancelledError" by (auto simp: embedded_stop_def Let_def split: if_splits)
        then show ?thesis using part [of "[]"] raised Inr Some by (auto simp: lifespan_def Let_def)
      qed
    qed
  qed
qed

end
