(* ===== verification/Routes_Ops.thy ===== *)
theory Routes_Ops
  imports Queue_Streams
begin

text \<open>
  \<open>ledgerloop/api/routes_ops.py\<close>: the probes and the gauges sampled at a scrape. A dependency's failure
  is the class and the text of its exception. The text of the exposition is the library's.
\<close>

record health_out =
  ho_status :: string
  ho_service :: string

definition health :: "settings \<Rightarrow> health_out" where
  "health s = \<lparr> ho_status = ''ok'', ho_service = s_service_name s \<rparr>"

record dependency_status =
  ds_ok :: bool
  ds_detail :: "string option"

record ready_out =
  ro_ready :: bool
  ro_database :: dependency_status
  ro_redis :: dependency_status

definition dependency :: "(string \<times> string) option \<Rightarrow> dependency_status" where
  "dependency failure =
     (case failure of
        None \<Rightarrow> \<lparr> ds_ok = True, ds_detail = None \<rparr>
      | Some (cls, text) \<Rightarrow> \<lparr> ds_ok = False, ds_detail = Some (cls @ '': '' @ text) \<rparr>)"

definition ready :: "(string \<times> string) option \<Rightarrow> (string \<times> string) option \<Rightarrow> nat \<times> ready_out" where
  "ready select_failure ping_failure =
     (let database = dependency select_failure;
          redis = dependency ping_failure;
          is_ready = (ds_ok database \<and> ds_ok redis)
      in (if is_ready then 200 else 503,
          \<lparr> ro_ready = is_ready, ro_database = database, ro_redis = redis \<rparr>))"

record gauges =
  queue_depth :: int
  queue_pending :: int
  outbox_backlog :: int

text \<open>
  \<open>/metrics\<close>: the two gauges of the queue, then that of the outbox, each left as it was when its source
  cannot be read; a cancellation is not caught.
\<close>

definition sample_queue :: "'r stream_client \<Rightarrow> 'r \<Rightarrow> gauges \<Rightarrow> 'r \<times> (py_exc + gauges)" where
  "sample_queue S r g =
     (case depth S r of
        (r1, Inl e) \<Rightarrow> (r1, if e = CancelledError then Inl e else Inr g)
      | (r1, Inr n) \<Rightarrow>
          (let g1 = g\<lparr> queue_depth := n \<rparr> in
           case pending_count S r1 of
             (r2, Inl e) \<Rightarrow> (r2, if e = CancelledError then Inl e else Inr g1)
           | (r2, Inr k) \<Rightarrow> (r2, Inr (g1\<lparr> queue_pending := k \<rparr>))))"

definition unpublished :: "db \<Rightarrow> int" where
  "unpublished d = int (length (filter (\<lambda>ev. ob_published_at ev = None) (db_outbox_events d)))"

definition metrics :: "'r stream_client \<Rightarrow> py_exc option \<Rightarrow> db \<Rightarrow> 'r \<Rightarrow> gauges \<Rightarrow> 'r \<times> (py_exc + gauges)" where
  "metrics S failure d r g =
     (case sample_queue S r g of
        (r', Inl e) \<Rightarrow> (r', Inl e)
      | (r', Inr g1) \<Rightarrow>
          (r', case failure of
                 None \<Rightarrow> Inr (g1\<lparr> outbox_backlog := unpublished d \<rparr>)
               | Some e \<Rightarrow> if e = CancelledError then Inl e else Inr g1))"

text \<open>
  Readiness is 200 exactly when both dependencies answer, and a failed one names its exception; liveness
  asks neither.
\<close>

theorem readiness_reports:
  "(fst (ready a b) = 200 \<longleftrightarrow> a = None \<and> b = None) \<and> ro_ready (snd (ready a b)) = (fst (ready a b) = 200) \<and>
   (ds_detail (ro_database (snd (ready a b))) = None \<longleftrightarrow> a = None) \<and>
   (ds_detail (ro_redis (snd (ready a b))) = None \<longleftrightarrow> b = None)"
  by (auto simp: ready_def dependency_def Let_def split: option.split prod.split)

text \<open>A scrape answers whatever Redis raises, and the backlog it shows is that of the outbox.\<close>

theorem scrape_answers:
  assumes "snd (depth S r) \<noteq> Inl CancelledError" and "\<And>r'. snd (pending_count S r') \<noteq> Inl CancelledError"
  shows "\<exists>r' g'. metrics S None d r g = (r', Inr g') \<and> outbox_backlog g' = unpublished d"
proof -
  obtain r1 x where x: "depth S r = (r1, x)" by force
  obtain r2 y where y: "pending_count S r1 = (r2, y)" by force
  have "x \<noteq> Inl CancelledError" "y \<noteq> Inl CancelledError" using assms(1) assms(2) [of r1] x y by simp_all
  then show ?thesis using x y by (cases x; cases y) (simp_all add: metrics_def sample_queue_def Let_def)
qed

end
