(* ===== verification/Script_Commands.thy ===== *)
theory Script_Commands
  imports Load_Generator Sources Db_Invariant
begin

text \<open>
  The command lines under \<open>src/backend/scripts\<close>: \<open>create_api_key.py\<close>, \<open>create_webhook_source.py\<close>, the reset
  and the exit code of \<open>benchmark.py\<close>, and the checks, the percentile and the exit code of
  \<open>generate_load.py\<close>. A command returns the database it leaves, its exit code and what it prints on
  standard output.
\<close>

subsection \<open>Issuing a key\<close>

definition create_api_key_main ::
  "instant \<Rightarrow> string \<Rightarrow> string \<Rightarrow> string \<Rightarrow> db \<Rightarrow> db \<times> int \<times> string option" where
  "create_api_key_main now token account label d =
     (case issue_api_key now token account label d of
        Inl _ \<Rightarrow> (d, 1, None)
      | Inr (d', raw, t) \<Rightarrow>
          (d', 0, Some (raw @ char_of (10::nat) # ''account: '' @ tn_name t @ '' (id '' @ py_str_int (tn_account_id t) @
             '', kind '' @ account_kind_value (tn_kind t) @ '')'')))"

subsection \<open>Registering a source\<close>

definition create_webhook_source_main ::
  "instant \<Rightarrow> string \<Rightarrow> string \<Rightarrow> string \<Rightarrow> webhook_provider \<Rightarrow> string \<Rightarrow> string option \<Rightarrow> db \<Rightarrow>
     db \<times> int \<times> string option" where
  "create_webhook_source_main now token secret_token account provider label signing_secret d =
     (if provider \<noteq> CUSTOM \<and> (signing_secret = None \<or> signing_secret = Some []) then (d, 2, None)
      else
        (case register now token secret_token account provider label signing_secret d of
           Inl _ \<Rightarrow> (d, 1, None)
         | Inr (d', source_token, secret) \<Rightarrow> (d', 0, if provider = CUSTOM then Some secret else None)))"

text \<open>The URL it prints: \<open>base_url.rstrip('/')\<close>, the route and the token.\<close>

definition delivery_url :: "string \<Rightarrow> string \<Rightarrow> string" where
  "delivery_url base_url token =
     rev (dropWhile (\<lambda>c. c = CHR ''/'') (rev base_url)) @ ''/v1/gateway/webhook/'' @ token"

subsection \<open>The load generator\<close>

text \<open>\<open>parse_args\<close>: an error of the parser exits with 2.\<close>

definition load_args_ok :: "load_config \<Rightarrow> rat \<Rightarrow> bool" where
  "load_args_ok cfg rate \<longleftrightarrow>
     list_all (\<lambda>v. 0 \<le> v \<and> v \<le> 1) [lc_drop_rate cfg, lc_duplicate_rate cfg, lc_drift_rate cfg] \<and> 0 < rate"

text \<open>\<open>round(x)\<close>: half to even. \<open>percentile\<close> is over exact rationals here.\<close>

definition py_round :: "rat \<Rightarrow> int" where
  "py_round x =
     (let n = \<lfloor>x\<rfloor>; r = x - of_int n in
      if r < 1 / 2 \<or> (r = 1 / 2 \<and> even n) then n else n + 1)"

definition percentile :: "rat list \<Rightarrow> rat \<Rightarrow> rat option" where
  "percentile values pct =
     (if values = [] then None
      else
        let ordered = sort values;
            index = min (nat (py_round (pct / 100 * of_nat (length ordered - 1)))) (length ordered - 1)
        in Some (ordered ! index))"

subsection \<open>The benchmark\<close>

text \<open>
  \<open>reset\<close>: \<open>TRUNCATE .. RESTART IDENTITY CASCADE\<close> of five tables. The tables that reference one of them
  are among them, so the cascade reaches no other.
\<close>

definition TABLES :: "table list" where
  "TABLES = [T_exceptions, T_reconciliation_results, T_outbox_events, T_gateway_transactions, T_ledger_entries]"

fun truncate_rows :: "table \<Rightarrow> db \<Rightarrow> db" where
  "truncate_rows T_accounts d = d\<lparr> db_accounts := [] \<rparr>"
| "truncate_rows T_api_keys d = d\<lparr> db_api_keys := [] \<rparr>"
| "truncate_rows T_webhook_sources d = d\<lparr> db_webhook_sources := [] \<rparr>"
| "truncate_rows T_gateway_transactions d = d\<lparr> db_gateway_transactions := [] \<rparr>"
| "truncate_rows T_ledger_entries d = d\<lparr> db_ledger_entries := [] \<rparr>"
| "truncate_rows T_outbox_events d = d\<lparr> db_outbox_events := [] \<rparr>"
| "truncate_rows T_reconciliation_results d = d\<lparr> db_reconciliation_results := [] \<rparr>"
| "truncate_rows T_exceptions d = d\<lparr> db_exceptions := [] \<rparr>"

definition truncate_table :: "table \<Rightarrow> db \<Rightarrow> db" where
  "truncate_table t d = (truncate_rows t d)\<lparr> db_next := (db_next d)(t := 1) \<rparr>"

definition reset_tables :: "db \<Rightarrow> db" where
  "reset_tables d = fold truncate_table TABLES d"

text \<open>The exit code of \<open>main_async\<close>: the answer of \<open>/ready\<close> (\<open>None\<close>: it did not answer), then the runs.\<close>

definition benchmark_exit :: "nat option \<Rightarrow> bool list \<Rightarrow> int" where
  "benchmark_exit ready correct =
     (case ready of
        None \<Rightarrow> 2
      | Some status \<Rightarrow> if status \<noteq> 200 then 2 else if list_ex Not correct then 1 else 0)"

subsection \<open>What the commands guarantee\<close>

text \<open>
  A source of Stripe or Razorpay is registered only with the secret the operator gave, and no secret of
  theirs is printed; a generated secret is printed, and it is the one stored.
\<close>

theorem registered_secret_is_the_given_one:
  assumes "create_webhook_source_main now token secret_token account provider label signing_secret d = (d', code, out)"
  shows "(code \<noteq> 0 \<longrightarrow> d' = d \<and> out = None) \<and>
    (code = 0 \<longrightarrow> (\<exists>s \<in> set (db_webhook_sources d'). ws_source_token s = token \<and> ws_provider s = provider \<and>
       (if provider = CUSTOM then out = Some (ws_signing_secret s)
        else out = None \<and> signing_secret = Some (ws_signing_secret s))))"
  using assms
  by (auto simp: create_webhook_source_main_def register_def create_source_def nextval_def Let_def
      split: if_splits sum.splits list.splits option.splits)

text \<open>
  The reset empties the five tables and restarts their ids, keeps the accounts with their keys and
  sources, and leaves a database that satisfies the invariant.
\<close>

theorem reset_starts_clean:
  "db_inv config (reset_tables d) \<and> db_accounts (reset_tables d) = db_accounts d \<and>
   db_api_keys (reset_tables d) = db_api_keys d \<and> db_webhook_sources (reset_tables d) = db_webhook_sources d \<and>
   db_outbox_events (reset_tables d) = [] \<and> model_rows GATEWAY (reset_tables d) = [] \<and> model_rows LEDGER (reset_tables d) = [] \<and>
   db_reconciliation_results (reset_tables d) = [] \<and> db_exceptions (reset_tables d) = [] \<and>
   (\<forall>t \<in> set TABLES. db_next (reset_tables d) t = 1)"
proof -
  have r: "reset_tables d = d\<lparr> db_gateway_transactions := [], db_ledger_entries := [], db_outbox_events := [],
      db_reconciliation_results := [], db_exceptions := [],
      db_next := (db_next d)(T_exceptions := 1, T_reconciliation_results := 1, T_outbox_events := 1,
        T_gateway_transactions := 1, T_ledger_entries := 1) \<rparr>"
    by (simp add: reset_tables_def TABLES_def truncate_table_def)
  have rows: "model_rows side (reset_tables d) = []" for side by (cases side) (simp_all add: r model_rows_def)
  have "rows_inv (reset_tables d)" by (simp add: rows_inv_def rows raw_table_ok_def index_ok_def)
  moreover have "reconciled_inv (reset_tables d)" by (simp add: reconciled_inv_def rows)
  moreover have "results_inv config (reset_tables d)" "exceptions_inv (reset_tables d)"
    by (simp_all add: results_inv_def exceptions_inv_def r index_ok_def)
  ultimately show ?thesis using rows by (auto simp: db_inv_def r TABLES_def)
qed

lemma py_round_mono: "x \<le> y \<Longrightarrow> py_round x \<le> py_round y"
proof (cases "\<lfloor>x\<rfloor> = \<lfloor>y\<rfloor>")
  case True
  then show "x \<le> y \<Longrightarrow> ?thesis" by (auto simp: py_round_def Let_def)
next
  case False
  assume "x \<le> y"
  then have "\<lfloor>x\<rfloor> + 1 \<le> \<lfloor>y\<rfloor>" using False floor_mono [of x y] by linarith
  moreover have "py_round x \<le> \<lfloor>x\<rfloor> + 1" "\<lfloor>y\<rfloor> \<le> py_round y" by (simp_all add: py_round_def Let_def)
  ultimately show ?thesis by linarith
qed

text \<open>A percentile is one of the samples, and a higher percentile is no smaller.\<close>

theorem percentile_of_samples:
  assumes "values \<noteq> []" and "p \<le> q"
  shows "\<exists>a b. percentile values p = Some a \<and> percentile values q = Some b \<and> a \<in> set values \<and> b \<in> set values \<and> a \<le> b"
proof -
  let ?n = "length values - 1"
  let ?i = "\<lambda>pct. min (nat (py_round (pct / 100 * of_nat ?n))) ?n"
  have n: "?n < length (sort values)" using assms(1) by (simp add: Suc_leI)
  then have i: "?i pct < length (sort values)" for pct by linarith
  have "p / 100 * of_nat ?n \<le> q / 100 * of_nat ?n" using assms(2) by (intro mult_right_mono divide_right_mono) simp_all
  then have "?i p \<le> ?i q" using py_round_mono nat_mono min.mono by blast
  from sorted_nth_mono [OF sorted_sort this i] have "sort values ! ?i p \<le> sort values ! ?i q" .
  moreover have "sort values ! ?i pct \<in> set values" for pct using nth_mem [OF i [of pct]] by simp
  ultimately show ?thesis using assms(1) by (simp add: percentile_def Let_def)
qed

theorem percentile_of_samples_witness:
  "percentile [30, 10, 20, 40] 50 = Some 30 \<and> (\<exists>b. percentile [30, 10, 20, 40] 99 = Some b \<and> 30 \<le> b)"
proof -
  have "percentile [30, 10, 20, 40] 50 = Some 30" by code_simp
  with percentile_of_samples [of "[30, 10, 20, 40]" 50 99] show ?thesis by auto
qed

end
