(* ===== verification/Observability.thy ===== *)
theory Observability
  imports Refinement Worker_Run Process_Loops
begin

text \<open>
  \<open>ledgerloop/observability\<close>: the collectors of \<open>metrics.py\<close>, the places of the program that count into
  them, and the configuration of \<open>logging.py\<close>. A counter is a number for each list of label values,
  as the Prometheus client keeps it; the histogram of the match latency is the list of its samples. The
  wall-clock timings of requests and messages are left out, and so is the text of the log lines.
\<close>

subsection \<open>The collectors\<close>

datatype collector =
    INGEST_TOTAL
  | INGEST_REQUEST_SECONDS
  | OUTBOX_PUBLISHED_TOTAL
  | OUTBOX_BACKLOG
  | QUEUE_DEPTH
  | QUEUE_PENDING
  | MATCHER_MESSAGES_TOTAL
  | MATCHER_DURATION_SECONDS
  | MATCH_LATENCY_SECONDS
  | SWEEPER_MARKED_TOTAL
  | SWEEPER_RUNS_TOTAL
  | ERRORS_TOTAL

text \<open>What a collector is; a histogram has the upper bounds of its buckets, in microseconds.\<close>

datatype collector_kind = Counter | Gauge | Histogram "int list"

text \<open>The class, the name and the labels each is made with.\<close>

fun collector_spec :: "collector \<Rightarrow> collector_kind \<times> string \<times> string list" where
  "collector_spec INGEST_TOTAL = (Counter, ''ledgerloop_ingest_total'', [''endpoint'', ''outcome''])"
| "collector_spec INGEST_REQUEST_SECONDS =
     (Histogram [1000, 5000, 10000, 25000, 50000, 100000, 250000, 500000, 1000000, 2500000, 5000000],
      ''ledgerloop_ingest_request_seconds'', [''endpoint''])"
| "collector_spec OUTBOX_PUBLISHED_TOTAL = (Counter, ''ledgerloop_outbox_published_total'', [])"
| "collector_spec OUTBOX_BACKLOG = (Gauge, ''ledgerloop_outbox_backlog'', [])"
| "collector_spec QUEUE_DEPTH = (Gauge, ''ledgerloop_queue_depth'', [])"
| "collector_spec QUEUE_PENDING = (Gauge, ''ledgerloop_queue_pending'', [])"
| "collector_spec MATCHER_MESSAGES_TOTAL =
     (Counter, ''ledgerloop_matcher_messages_total'', [''status'', ''layer''])"
| "collector_spec MATCHER_DURATION_SECONDS =
     (Histogram [1000, 2500, 5000, 10000, 25000, 50000, 100000, 250000, 500000, 1000000, 2500000, 5000000],
      ''ledgerloop_matcher_duration_seconds'', [])"
| "collector_spec MATCH_LATENCY_SECONDS =
     (Histogram [10000, 50000, 100000, 250000, 500000, 1000000, 2500000, 5000000, 10000000, 30000000, 60000000, 300000000],
      ''ledgerloop_match_latency_seconds'', [])"
| "collector_spec SWEEPER_MARKED_TOTAL = (Counter, ''ledgerloop_sweeper_marked_total'', [''status''])"
| "collector_spec SWEEPER_RUNS_TOTAL = (Counter, ''ledgerloop_sweeper_runs_total'', [])"
| "collector_spec ERRORS_TOTAL = (Counter, ''ledgerloop_errors_total'', [''component'', ''type''])"

definition all_collectors :: "collector list" where
  "all_collectors =
     [INGEST_TOTAL, INGEST_REQUEST_SECONDS, OUTBOX_PUBLISHED_TOTAL, OUTBOX_BACKLOG, QUEUE_DEPTH, QUEUE_PENDING,
      MATCHER_MESSAGES_TOTAL, MATCHER_DURATION_SECONDS, MATCH_LATENCY_SECONDS, SWEEPER_MARKED_TOTAL,
      SWEEPER_RUNS_TOTAL, ERRORS_TOTAL]"

text \<open>A registry refuses a second collector of a name: these are apart, and buckets ascend.\<close>

lemma collectors_register:
  "distinct (map (fst \<circ> snd \<circ> collector_spec) all_collectors) \<and>
   (\<forall>c \<in> set all_collectors. case fst (collector_spec c) of Histogram bs \<Rightarrow> sorted bs \<and> distinct bs | _ \<Rightarrow> True)"
  by code_simp

record registry =
  rg_counters :: "collector \<Rightarrow> string list \<Rightarrow> nat"
  rg_match_latency :: "rat list"

definition fresh_registry :: registry where
  "fresh_registry = \<lparr> rg_counters = (\<lambda>_ _. 0), rg_match_latency = [] \<rparr>"

definition inc_by :: "collector \<Rightarrow> string list \<Rightarrow> nat \<Rightarrow> registry \<Rightarrow> registry" where
  "inc_by c labels n reg =
     reg\<lparr> rg_counters := (rg_counters reg)(c := (rg_counters reg c)(labels := rg_counters reg c labels + n)) \<rparr>"

text \<open>\<open>record_error\<close>, with the name of the exception's class.\<close>

definition record_error :: "string \<Rightarrow> string \<Rightarrow> registry \<Rightarrow> registry" where
  "record_error component exc_type = inc_by ERRORS_TOTAL [component, exc_type] 1"

subsection \<open>What the components count\<close>

definition ingest_outcome_label :: "ingest_outcome \<Rightarrow> string" where
  "ingest_outcome_label outcome = (if io_duplicate outcome then ''duplicate'' else ''accepted'')"

definition count_gateway_webhook :: "http_error + gateway_webhook_accepted \<Rightarrow> registry \<Rightarrow> registry" where
  "count_gateway_webhook answer =
     (case answer of
        Inl _ \<Rightarrow> id
      | Inr acc \<Rightarrow> inc_by INGEST_TOTAL [''gateway_webhook'', ingest_outcome_label (ga_result acc)] 1)"

definition count_ledger_sync :: "http_error + ledger_sync_accepted \<Rightarrow> registry \<Rightarrow> registry" where
  "count_ledger_sync answer =
     (case answer of
        Inl _ \<Rightarrow> id
      | Inr acc \<Rightarrow>
          (if ls_duplicates acc = 0 then id
           else inc_by INGEST_TOTAL [''ledger_sync'', ''duplicate''] (nat (ls_duplicates acc))) \<circ>
          inc_by INGEST_TOTAL [''ledger_sync'', ''accepted''] (nat (ls_accepted acc)))"

definition count_provider_webhook :: "http_error + webhook_accepted \<Rightarrow> registry \<Rightarrow> registry" where
  "count_provider_webhook answer =
     (case answer of
        Inl _ \<Rightarrow> id
      | Inr acc \<Rightarrow> inc_by INGEST_TOTAL [''provider_webhook'', ingest_outcome_label (wa_result acc)] 1)"

text \<open>The end of \<open>drain_once\<close>: a batch that was published and marked, unless there was none.\<close>

definition count_drained :: "relay_error + nat \<Rightarrow> registry \<Rightarrow> registry" where
  "count_drained drained =
     (case drained of Inl _ \<Rightarrow> id | Inr n \<Rightarrow> if n = 0 then id else inc_by OUTBOX_PUBLISHED_TOTAL [] n)"

text \<open>The end of \<open>process\<close>, which a message whose row is gone does not come to.\<close>

definition count_processed :: "bool \<Rightarrow> process_outcome \<Rightarrow> registry \<Rightarrow> registry" where
  "count_processed row_found outcome reg =
     (if \<not> row_found then reg
      else
        (case outcome_label outcome of
           (status, layer) \<Rightarrow>
             let reg' = inc_by MATCHER_MESSAGES_TOTAL [status, layer] 1 reg in
             (case po_latency_ms outcome of
                Some ms \<Rightarrow>
                  if po_written outcome
                  then reg'\<lparr> rg_match_latency := rg_match_latency reg' @ [of_int ms / 1000] \<rparr> else reg'
              | None \<Rightarrow> reg')))"

subsection \<open>The operations with their counting\<close>

text \<open>A run of gateway submissions through the handler.\<close>

fun observe_gateway :: "gateway_submission list \<Rightarrow> db \<times> registry \<Rightarrow> db \<times> registry \<times> nat" where
  "observe_gateway [] (d, reg) = (d, reg, 0)"
| "observe_gateway ((now, t, p, k, body) # xs) (d, reg) =
     (case gateway_webhook now t p k body d of
        (d1, answer) \<Rightarrow>
          (case observe_gateway xs (d1, count_gateway_webhook answer reg) of
             (d2, reg2, n) \<Rightarrow> (d2, reg2, n + (case answer of Inl _ \<Rightarrow> 0 | Inr _ \<Rightarrow> 1))))"

definition row_found :: "ingest_message \<Rightarrow> db \<Rightarrow> bool" where
  "row_found m d \<longleftrightarrow> (\<exists>c. load_facts d (im_source m) (im_row_id m) = Inr (Some c))"

text \<open>A run of messages through \<open>process\<close>, up to the first that fails, with how many had their row.\<close>

fun observe_messages ::
  "match_config \<Rightarrow> (instant \<times> instant \<times> ingest_message \<times> string option) list \<Rightarrow> db \<times> registry \<Rightarrow> db \<times> registry \<times> nat" where
  "observe_messages config [] (d, reg) = (d, reg, 0)"
| "observe_messages config ((tx, now, m, mid) # ms) (d, reg) =
     (case process config tx now m mid d of
        Inl _ \<Rightarrow> (d, reg, 0)
      | Inr (d1, outcome) \<Rightarrow>
          (case observe_messages config ms (d1, count_processed (row_found m d) outcome reg) of
             (d2, reg2, n) \<Rightarrow> (d2, reg2, n + (if row_found m d then 1 else 0))))"

text \<open>The rows of a sweep, with what each adds to \<open>SWEEPER_MARKED_TOTAL\<close>.\<close>

fun observe_sweep_rows ::
  "match_config \<Rightarrow> (txn_facts \<Rightarrow> instant) \<Rightarrow> txn_facts list \<Rightarrow> nat \<Rightarrow> db \<times> registry \<Rightarrow> (db \<times> registry) \<times> (db_error + nat)" where
  "observe_sweep_rows config clock [] resolved st = (st, Inr resolved)"
| "observe_sweep_rows config clock (candidate # stale) resolved (d, reg) =
     (case sweep_row config clock candidate d of
        Inl e \<Rightarrow> ((d, reg), Inl e)
      | Inr (d', written) \<Rightarrow>
          (let status = dc_status (fst (sweep_decision config (clock candidate) candidate d)) in
           observe_sweep_rows config clock stale (if written then resolved + 1 else resolved)
             (d', if written then inc_by SWEEPER_MARKED_TOTAL [recon_status_value status] 1 reg else reg)))"

subsection \<open>The counters agree with the tables\<close>

lemma counters_inc_by:
  "rg_counters (inc_by c labels n reg) c' labels' =
     rg_counters reg c' labels' + (if c' = c \<and> labels' = labels then n else 0)"
  by (simp add: inc_by_def)

lemma latency_inc_by [simp]: "rg_match_latency (inc_by c labels n reg) = rg_match_latency reg"
  by (simp add: inc_by_def)

text \<open>A gateway row is inserted exactly when the outcome says it is no duplicate.\<close>

lemma ingest_gateway_grows:
  assumes "ingest_gateway now t p k body d = Inr (d', out)"
  shows "length (db_gateway_transactions d') = length (db_gateway_transactions d) + (if io_duplicate out then 0 else 1)"
  using assms
  by (auto simp: ingest_gateway_def nextval_def raw_insert_def insert_unless_conflict_def Let_def
      simp del: enqueue.simps split: option.splits if_splits prod.splits sum.splits list.splits)

text \<open>A result is added exactly when a decision reports it written, with the decision's status.\<close>

lemma apply_decision_grows:
  assumes "apply_decision tx now dec t l m d = Inr (d', pr)"
  shows "\<exists>rs. db_reconciliation_results d' = db_reconciliation_results d @ rs \<and>
    (if pr_written pr then \<exists>r. rs = [r] \<and> rr_status r = dc_status dec else rs = [])"
  using assms by (cases rule: apply_decision_cases) (auto simp: result_of_sel)

text \<open>
  What the gateway endpoint counts. Over any run of submissions, on any database and with whatever
  errors: the accepted ones are exactly the rows that were added, and the accepted and the duplicate
  ones together are the submissions that were answered with a 202.
\<close>

theorem gateway_counter_counts_rows:
  assumes "observe_gateway xs (d, reg) = (d', reg', n)"
  defines "tally \<equiv> \<lambda>r outcome. rg_counters r INGEST_TOTAL [''gateway_webhook'', outcome]"
  shows "tally reg' ''accepted'' + length (db_gateway_transactions d) =
      tally reg ''accepted'' + length (db_gateway_transactions d') \<and>
    tally reg' ''accepted'' + tally reg' ''duplicate'' = tally reg ''accepted'' + tally reg ''duplicate'' + n"
  using assms(1)
proof (induction xs arbitrary: d reg n)
  case (Cons x xs)
  obtain now t p k body where x: "x = (now, t, p, k, body)" by (metis prod_cases5)
  obtain d1 answer where h: "gateway_webhook now t p k body d = (d1, answer)" by force
  let ?reg1 = "count_gateway_webhook answer reg"
  obtain d2 reg2 m where more: "observe_gateway xs (d1, ?reg1) = (d2, reg2, m)" by (metis prod_cases3)
  have step: "tally ?reg1 ''accepted'' + length (db_gateway_transactions d) =
      tally reg ''accepted'' + length (db_gateway_transactions d1)"
    "tally ?reg1 ''accepted'' + tally ?reg1 ''duplicate'' =
      tally reg ''accepted'' + tally reg ''duplicate'' + (case answer of Inl _ \<Rightarrow> 0 | Inr _ \<Rightarrow> 1)"
    using h ingest_gateway_grows
    by (auto simp: gateway_webhook_def count_gateway_webhook_def tally_def ingest_outcome_label_def counters_inc_by
        split: sum.splits)
  have eq: "d2 = d'" "reg2 = reg'" "n = m + (case answer of Inl _ \<Rightarrow> 0 | Inr _ \<Rightarrow> 1)"
    using Cons(2) x h more by auto
  then show ?case using Cons(1) [OF more [unfolded eq(1,2)]] step by linarith
qed simp

text \<open>
  What the matcher counts. Over any run of messages: every message whose row exists adds one under one
  of the labels, and the latency histogram has a sample for each result the run wrote.
\<close>

definition matcher_labels :: "(string \<times> string) list" where
  "matcher_labels = (''deferred'', ''deferred'') #
     [(recon_status_value st, match_layer_value l).
        st \<leftarrow> [MATCHED, UNMATCHED_GATEWAY_ONLY, UNMATCHED_LEDGER_ONLY, DUPLICATE, AMOUNT_DRIFT, TIME_DRIFT],
        l \<leftarrow> [L_EXACT, L_TIME_DRIFT, L_AMOUNT_DRIFT, L_DUPLICATE, L_UNMATCHED_SWEEP]]"

definition matcher_total :: "registry \<Rightarrow> nat" where
  "matcher_total reg =
     sum_list (map (\<lambda>(status, layer). rg_counters reg MATCHER_MESSAGES_TOTAL [status, layer]) matcher_labels)"

lemma outcome_label_in: "outcome_label out \<in> set matcher_labels"
proof (cases "po_decision out")
  case (Some dec)
  then show ?thesis
    by (cases "dc_status dec"; cases "dc_layer dec") (simp_all add: outcome_label_def matcher_labels_def)
qed (simp add: outcome_label_def matcher_labels_def)

lemma matcher_labels_distinct: "distinct matcher_labels"
  by code_simp

lemma sum_list_update:
  assumes "distinct xs" and "y \<in> set xs"
  shows "sum_list (map (\<lambda>x. f x + (if x = y then n else 0)) xs) = sum_list (map f xs) + (n::nat)"
  using assms
proof (induction xs)
  case (Cons x xs)
  have "sum_list (map (\<lambda>x. f x + (if x = y then n else 0)) xs) = sum_list (map f xs)" if "y \<notin> set xs"
    using that by (intro arg_cong [where f = sum_list] map_cong) auto
  with Cons show ?case by auto
qed simp

lemma matcher_total_inc:
  "matcher_total (inc_by MATCHER_MESSAGES_TOTAL [fst (outcome_label out), snd (outcome_label out)] 1 reg) =
     matcher_total reg + 1"
proof -
  have "rg_counters (inc_by MATCHER_MESSAGES_TOTAL [fst l, snd l] 1 reg) MATCHER_MESSAGES_TOTAL [fst x, snd x] =
      rg_counters reg MATCHER_MESSAGES_TOTAL [fst x, snd x] + (if x = l then 1 else 0)" for l x
    by (auto simp: counters_inc_by prod_eq_iff)
  then show ?thesis
    unfolding matcher_total_def split_beta
    by (simp only: sum_list_update [OF matcher_labels_distinct outcome_label_in])
qed

lemma process_grows:
  assumes "process config tx now m mid d = Inr (d', out)"
  shows "length (db_reconciliation_results d') = length (db_reconciliation_results d) + (if po_written out then 1 else 0)"
    and "po_written out \<Longrightarrow> po_latency_ms out \<noteq> None" and "\<not> row_found m d \<Longrightarrow> \<not> po_written out"
  using assms apply_decision_grows
  by (fastforce simp: process_def deferred_def row_found_def Let_def split: sum.splits option.splits prod.splits)+

theorem matcher_counts_its_results:
  assumes "observe_messages config ms (d, reg) = (d', reg', n)"
  shows "length (rg_match_latency reg') + length (db_reconciliation_results d) =
      length (rg_match_latency reg) + length (db_reconciliation_results d') \<and>
    matcher_total reg' = matcher_total reg + n"
  using assms
proof (induction ms arbitrary: d reg n)
  case (Cons x ms)
  obtain tx now m mid where x: "x = (tx, now, m, mid)" by (metis prod_cases4)
  show ?case
  proof (cases "process config tx now m mid d")
    case (Inl e)
    then show ?thesis using Cons(2) x by simp
  next
    case (Inr res)
    obtain d1 out where p: "process config tx now m mid d = Inr (d1, out)" using Inr by (cases res) simp
    let ?reg1 = "count_processed (row_found m d) out reg"
    obtain d2 reg2 k where more: "observe_messages config ms (d1, ?reg1) = (d2, reg2, k)" by (metis prod_cases3)
    have eq: "d2 = d'" "reg2 = reg'" "n = k + (if row_found m d then 1 else 0)" using Cons(2) x p more by auto
    note grows = process_grows [OF p]
    have "matcher_total (r\<lparr> rg_match_latency := ls \<rparr>) = matcher_total r" for r ls by (simp add: matcher_total_def)
    then have tot: "matcher_total ?reg1 = matcher_total reg + (if row_found m d then 1 else 0)"
      using matcher_total_inc [of out reg] by (auto simp: count_processed_def Let_def split_beta split: option.split)
    have "length (rg_match_latency ?reg1) = length (rg_match_latency reg) + (if po_written out then 1 else 0)"
      using grows(2,3) by (auto simp: count_processed_def Let_def split_beta split: option.split)
    with tot grows(1) eq(3) Cons(1) [OF more [unfolded eq(1,2)]] show ?thesis by linarith
  qed
qed simp

text \<open>
  What the sweeper counts. The counted pass is the pass, and each status counts exactly the results of
  that status the pass added.
\<close>

definition results_with :: "recon_status \<Rightarrow> db \<Rightarrow> nat" where
  "results_with st d = length (filter (\<lambda>r. rr_status r = st) (db_reconciliation_results d))"

lemma recon_status_value_inject [simp]: "recon_status_value a = recon_status_value b \<longleftrightarrow> a = b"
  by (cases a; cases b) simp_all

theorem sweep_counts_its_results:
  assumes "observe_sweep_rows config clock stale resolved (d, reg) = ((d', reg'), out)"
  shows "sweep_rows config clock stale resolved d = (d', out) \<and>
    rg_counters reg' SWEEPER_MARKED_TOTAL [recon_status_value st] + results_with st d =
      rg_counters reg SWEEPER_MARKED_TOTAL [recon_status_value st] + results_with st d'"
  using assms
proof (induction stale arbitrary: resolved d reg)
  case (Cons c stale)
  show ?case
  proof (cases "sweep_row config clock c d")
    case (Inl e)
    then show ?thesis using Cons(2) by simp
  next
    case (Inr res)
    obtain d1 written where p: "sweep_row config clock c d = Inr (d1, written)" using Inr by (cases res) simp
    let ?dec = "fst (sweep_decision config (clock c) c d)"
    obtain rs where rs: "db_reconciliation_results d1 = db_reconciliation_results d @ rs"
      "if written then \<exists>r. rs = [r] \<and> rr_status r = dc_status ?dec else rs = []"
      using p apply_decision_grows by (fastforce simp: sweep_row_def Let_def split: prod.splits sum.splits)
    then have "results_with st d1 = results_with st d + (if written \<and> dc_status ?dec = st then 1 else 0)"
      by (auto simp: results_with_def split: if_splits)
    moreover note more = Cons(2) [unfolded observe_sweep_rows.simps p sum.case prod.case Let_def]
    ultimately show ?thesis using Cons(1) [OF more] p by (cases written) (auto simp: counters_inc_by split: if_splits)
  qed
qed simp

text \<open>
  What the ledger endpoint counts. A valid batch is answered with a 202; its accepted and duplicate
  entries are all its entries. But the rows it adds are the accepted entries \<^emph>\<open>and\<close> the new keys that
  the batch itself repeats: for each of those a row is stored and no entry is counted as accepted.
\<close>

definition repeated_new_keys :: "int \<Rightarrow> ledger_entry list \<Rightarrow> ledger_entry_in list \<Rightarrow> string set" where
  "repeated_new_keys t rows es = {k \<in> fresh_keys t rows es. 1 < submissions_per_key es k}"

lemma fresh_rows_length:
  "length (fresh_rows dump i now t rows es) =
     length (filter (\<lambda>e. row_of_key rows (t, li_idempotency_key e) = None) es)"
  by (induction es arbitrary: i) simp_all

lemma fresh_keys_card:
  "length (filter (\<lambda>e. row_of_key rows (t, li_idempotency_key e) = None) (map snd (first_by_key es))) =
     card (fresh_keys t rows es)"
proof -
  let ?ks = "filter (\<lambda>k. row_of_key rows (t, k) = None) (map fst (first_by_key es))"
  have "map li_idempotency_key (filter (\<lambda>e. row_of_key rows (t, li_idempotency_key e) = None) (map snd (first_by_key es))) = ?ks"
    unfolding first_by_key_fst [symmetric] by (simp add: filter_map comp_def)
  then have "length (filter (\<lambda>e. row_of_key rows (t, li_idempotency_key e) = None) (map snd (first_by_key es))) = length ?ks"
    by (metis length_map)
  moreover have "set ?ks = fresh_keys t rows es"
    using first_by_key_keys [of es] by (auto simp: fresh_keys_def)
  moreover have "distinct ?ks" using first_by_key_distinct by simp
  ultimately show ?thesis by (metis distinct_card)
qed

lemma distinct_filter_once:
  "(\<And>k. Q k \<Longrightarrow> count_list ks k \<le> 1) \<Longrightarrow> distinct (filter Q ks)"
proof (induction ks)
  case (Cons a ks)
  have "count_list ks k \<le> 1" if "Q k" for k using Cons(2) [OF that] by (simp split: if_splits)
  moreover have "a \<notin> set ks" if "Q a"
    using Cons(2) [OF that] count_list_0_iff [of ks a] by simp
  ultimately show ?case using Cons(1) by simp
qed simp

lemma once_submitted_card:
  "length (filter (\<lambda>e. P (li_idempotency_key e) \<and> submissions_per_key es (li_idempotency_key e) = 1) es) =
     card {k \<in> li_idempotency_key ` set es. P k \<and> submissions_per_key es k = 1}"
proof -
  let ?ks = "filter (\<lambda>k. P k \<and> submissions_per_key es k = 1) (map li_idempotency_key es)"
  have "length ?ks = length (filter (\<lambda>e. P (li_idempotency_key e) \<and> submissions_per_key es (li_idempotency_key e) = 1) es)"
    by (simp add: filter_map comp_def)
  moreover have "distinct ?ks" by (rule distinct_filter_once) (simp add: submissions_per_key_def)
  moreover have "set ?ks = {k \<in> li_idempotency_key ` set es. P k \<and> submissions_per_key es k = 1}" by auto
  ultimately show ?thesis by (metis distinct_card)
qed

theorem ledger_counter_undercounts:
  assumes "ledger_table_ok d" and "ledger_sync_ok es" and "has_account d (tn_account_id t)"
    and "ledger_sync dump now t es d = (d', answer)"
  shows "\<exists>acc. answer = Inr acc \<and> ls_accepted acc + ls_duplicates acc = int (length es) \<and>
    rg_counters (count_ledger_sync answer reg) INGEST_TOTAL [''ledger_sync'', ''accepted''] =
      rg_counters reg INGEST_TOTAL [''ledger_sync'', ''accepted''] + nat (ls_accepted acc) \<and>
    int (length (db_ledger_entries d')) = int (length (db_ledger_entries d)) + ls_accepted acc +
      int (card (repeated_new_keys (tn_account_id t) (db_ledger_entries d) es))"
proof -
  let ?t = "tn_account_id t" and ?rows = "db_ledger_entries d"
  have es: "es \<noteq> []" and st: "list_all ledger_storable es"
    using assms(2) ledger_storableI by (auto simp: ledger_sync_ok_def list_all_iff)
  have ok: "raw_table_ok (db_next d T_ledger_entries) ?rows" using assms(1) by (simp add: ledger_table_ok_def)
  note batch = ingest_ledger_batch_eq [OF es st assms(3) ok, of dump now]
  let ?out = "\<lambda>e. batch_response dump now ?t es d (li_idempotency_key e)"
  let ?outs = "map ?out es"
  let ?once = "\<lambda>e. row_of_key ?rows (?t, li_idempotency_key e) = None \<and> submissions_per_key es (li_idempotency_key e) = 1"
  obtain acc where acc: "answer = Inr acc" "ls_duplicates acc = int (length (filter io_duplicate ?outs))"
    "ls_accepted acc = int (length es) - ls_duplicates acc" "db_ledger_entries d' = batch_rows dump now ?t es d"
    using assms(4) batch by (auto simp: ledger_sync_def Let_def simp del: enqueue.simps)
  have dup: "io_duplicate (?out e) \<longleftrightarrow> \<not> ?once e" if "e \<in> set es" for e
  proof -
    have "0 < submissions_per_key es (li_idempotency_key e)" using that by (simp add: submissions_per_key_iff)
    then show ?thesis using batch_response_sel [OF that, of dump now ?t d] by (metis One_nat_def int_one_le_iff_zero_less order_less_le zero_less_one)
  qed
  have "length (filter (\<lambda>e. \<not> io_duplicate (?out e)) es) = length (filter ?once es)"
    using dup by (intro arg_cong [where f = length] filter_cong) auto
  moreover have "length (filter io_duplicate ?outs) + length (filter (\<lambda>e. \<not> io_duplicate (?out e)) es) = length es"
    using sum_length_filter_compl [of "\<lambda>e. io_duplicate (?out e)" es] by (simp add: filter_map comp_def)
  ultimately have accepted: "ls_accepted acc = int (length (filter ?once es))" using acc(2,3) by simp
  let ?F = "fresh_keys ?t ?rows es"
  have one: "{k \<in> li_idempotency_key ` set es. row_of_key ?rows (?t, k) = None \<and> submissions_per_key es k = 1} =
      ?F - repeated_new_keys ?t ?rows es"
    using submissions_per_key_iff [of es] by (force simp: repeated_new_keys_def fresh_keys_def)
  have fin: "finite ?F" by (simp add: fresh_keys_def)
  have sub: "repeated_new_keys ?t ?rows es \<subseteq> ?F" by (auto simp: repeated_new_keys_def)
  have "length (filter ?once es) = card ?F - card (repeated_new_keys ?t ?rows es)"
    using once_submitted_card [of "\<lambda>k. row_of_key ?rows (?t, k) = None" es] card_Diff_subset [OF finite_subset [OF sub fin] sub]
    by (simp add: one)
  moreover have "card (repeated_new_keys ?t ?rows es) \<le> card ?F" by (rule card_mono [OF fin sub])
  moreover have "length (batch_rows dump now ?t es d) = length ?rows + card ?F"
    unfolding batch_rows_def length_map length_append fresh_rows_length fresh_keys_card ..
  moreover have "rg_counters (count_ledger_sync answer reg) INGEST_TOTAL [''ledger_sync'', ''accepted''] =
      rg_counters reg INGEST_TOTAL [''ledger_sync'', ''accepted''] + nat (ls_accepted acc)"
    by (simp add: acc(1) count_ledger_sync_def counters_inc_by)
  ultimately show ?thesis using acc accepted by auto
qed

subsection \<open>Logging\<close>

text \<open>
  \<open>configure_logging\<close>: the level, the loggers of the server whose handlers are cleared, and the chain of
  processors. \<open>level_named\<close> is the lookup of a level in the module \<open>logging\<close>; an unknown one is \<open>INFO\<close>.
\<close>

datatype processor =
    MergeContextvars
  | AddLogLevel
  | AddLoggerName
  | TimeStamperIsoUtc
  | StackInfoRenderer
  | FormatExcInfo
  | JsonRenderer
  | ConsoleRenderer

record log_setup =
  lg_level :: int
  lg_cleared :: "string list"
  lg_processors :: "processor list"

definition INFO :: int where
  "INFO = 20"

definition configure_logging :: "(string \<Rightarrow> int option) \<Rightarrow> settings \<Rightarrow> log_setup option \<Rightarrow> log_setup option" where
  "configure_logging level_named s configured =
     (case configured of
        Some setup \<Rightarrow> Some setup
      | None \<Rightarrow>
          Some \<lparr> lg_level = (case level_named (py_upper (s_log_level s)) of None \<Rightarrow> INFO | Some n \<Rightarrow> n),
                 lg_cleared = [''uvicorn.access'', ''uvicorn.error''],
                 lg_processors =
                   [MergeContextvars, AddLogLevel, AddLoggerName, TimeStamperIsoUtc, StackInfoRenderer, FormatExcInfo] @
                   [if s_log_json s then JsonRenderer else ConsoleRenderer] \<rparr>)"

text \<open>Both entry points may configure it, in either order: the first one's settings stay.\<close>

lemma configure_logging_once:
  "configure_logging level_named s2 (configure_logging level_named s1 c) = configure_logging level_named s1 c"
  by (simp add: configure_logging_def split: option.split)

end
