(* ===== verification/Db_Session.thy ===== *)
theory Db_Session
  imports Settings
begin

text \<open>
  \<open>ledgerloop/db/session.py\<close>: the engine and the session factory a process keeps in module variables.
  Engines are numbered in the order they are built. \<open>dispose_engine\<close> awaits the disposal between its
  test and the reset of the variables, so it is two steps, and any other call may come in between.
\<close>

record engine_options =
  eo_url :: string
  eo_echo :: bool
  eo_pool_size :: int
  eo_max_overflow :: int
  eo_pool_pre_ping :: bool

definition build_engine :: "settings \<Rightarrow> engine_options" where
  "build_engine s =
     \<lparr> eo_url = s_database_url s, eo_echo = s_db_echo s, eo_pool_size = s_db_pool_size s,
       eo_max_overflow = s_db_max_overflow s, eo_pool_pre_ping = True \<rparr>"

text \<open>A session factory, by the engine it is bound to.\<close>

record session_factory =
  sf_engine :: nat
  sf_expire_on_commit :: bool
  sf_autoflush :: bool

definition build_sessionmaker :: "nat \<Rightarrow> session_factory" where
  "build_sessionmaker engine = \<lparr> sf_engine = engine, sf_expire_on_commit = False, sf_autoflush = False \<rparr>"

text \<open>
  The module: its two variables, how many engines it has built, those whose disposal has begun, and the
  number of disposals under way.
\<close>

record session_module =
  sm_engine :: "nat option"
  sm_sessionmaker :: "session_factory option"
  sm_built :: nat
  sm_disposed :: "nat list"
  sm_disposing :: nat

definition module_start :: session_module where
  "module_start = \<lparr> sm_engine = None, sm_sessionmaker = None, sm_built = 0, sm_disposed = [], sm_disposing = 0 \<rparr>"

definition get_engine :: "session_module \<Rightarrow> session_module \<times> nat" where
  "get_engine m =
     (case sm_engine m of
        Some e \<Rightarrow> (m, e)
      | None \<Rightarrow> (m\<lparr> sm_engine := Some (sm_built m), sm_built := sm_built m + 1 \<rparr>, sm_built m))"

definition get_sessionmaker :: "session_module \<Rightarrow> session_module \<times> session_factory" where
  "get_sessionmaker m =
     (case sm_sessionmaker m of
        Some f \<Rightarrow> (m, f)
      | None \<Rightarrow>
          (case get_engine m of
             (m', e) \<Rightarrow> (m'\<lparr> sm_sessionmaker := Some (build_sessionmaker e) \<rparr>, build_sessionmaker e)))"

text \<open>Without an engine there is nothing to await, and \<open>dispose_engine\<close> resets the variables at once.\<close>

definition dispose_begin :: "session_module \<Rightarrow> session_module" where
  "dispose_begin m =
     (case sm_engine m of
        None \<Rightarrow> m\<lparr> sm_sessionmaker := None \<rparr>
      | Some e \<Rightarrow> m\<lparr> sm_disposed := e # sm_disposed m, sm_disposing := sm_disposing m + 1 \<rparr>)"

definition dispose_end :: "session_module \<Rightarrow> session_module" where
  "dispose_end m = m\<lparr> sm_engine := None, sm_sessionmaker := None, sm_disposing := sm_disposing m - 1 \<rparr>"

subsection \<open>One engine at a time\<close>

text \<open>The states calls can lead to, with at most one disposal under way.\<close>

inductive module_reaches :: "session_module \<Rightarrow> bool" where
  start: "module_reaches module_start"
| engine: "module_reaches m \<Longrightarrow> module_reaches (fst (get_engine m))"
| sessionmaker: "module_reaches m \<Longrightarrow> module_reaches (fst (get_sessionmaker m))"
| dispose_begin: "module_reaches m \<Longrightarrow> sm_disposing m = 0 \<Longrightarrow> module_reaches (dispose_begin m)"
| dispose_end: "module_reaches m \<Longrightarrow> sm_disposing m \<noteq> 0 \<Longrightarrow> module_reaches (dispose_end m)"

text \<open>
  The factory is bound to the current engine; every engine built is the current one or was disposed; and
  the current one is live unless a disposal is under way.
\<close>

theorem one_live_engine:
  assumes "module_reaches m"
  shows "(\<forall>f. sm_sessionmaker m = Some f \<longrightarrow> sm_engine m = Some (sf_engine f)) \<and>
    (\<forall>e < sm_built m. e \<in> set (sm_disposed m) \<or> sm_engine m = Some e) \<and>
    (\<forall>e \<in> set (sm_disposed m). e < sm_built m) \<and>
    (\<forall>e. sm_engine m = Some e \<longrightarrow> e < sm_built m \<and> (e \<in> set (sm_disposed m) \<longleftrightarrow> sm_disposing m \<noteq> 0)) \<and>
    (sm_engine m = None \<longrightarrow> sm_disposing m = 0) \<and> sm_disposing m \<le> 1"
  using assms
  by (induction rule: module_reaches.induct)
    (fastforce simp: module_start_def get_engine_def get_sessionmaker_def dispose_begin_def dispose_end_def
      build_sessionmaker_def less_Suc_eq split: option.splits prod.splits)+

text \<open>
  A second disposal while the first is awaited breaks this: the second reset forgets an engine built in
  between, and nothing disposes it.
\<close>

theorem two_disposals_forget_an_engine:
  "let m = dispose_end (fst (get_engine (dispose_end (dispose_begin (dispose_begin (fst (get_engine module_start))))))) in
   sm_built m = 2 \<and> sm_engine m = None \<and> 1 \<notin> set (sm_disposed m)"
  by code_simp

end
