(* ===== verification/Migration_Env.thy ===== *)
theory Migration_Env
  imports Py_Substrings
begin

text \<open>
  \<open>src/backend/alembic/env.py\<close>: how the migrations get the database URL. \<open>set_main_option\<close> stores it in
  a \<open>ConfigParser\<close>, whose interpolation reads \<open>%\<close>: a value is accepted when every \<open>%\<close> is doubled or opens
  a reference \<open>%(name)s\<close>, and anything else is a \<open>ValueError\<close> (the \<open>None\<close> here).
\<close>

text \<open>\<open>_KEYCRE = %\([^)]+\)s\<close> at the start of a text: what is left after it.\<close>

definition after_reference :: "string \<Rightarrow> string option" where
  "after_reference s =
     (if py_startswith s ''%('' then
        (case dropWhile (\<lambda>c. c \<noteq> CHR '')'') (drop 2 s) of
           c # d # rest \<Rightarrow> if d = CHR ''s'' \<and> takeWhile (\<lambda>c. c \<noteq> CHR '')'') (drop 2 s) \<noteq> [] then Some rest else None
         | _ \<Rightarrow> None)
      else None)"

lemma after_reference_shorter: "after_reference s = Some rest \<Longrightarrow> length rest < length s"
proof -
  assume "after_reference s = Some rest"
  then obtain c d where "dropWhile (\<lambda>c. c \<noteq> CHR '')'') (drop 2 s) = c # d # rest"
    by (auto simp: after_reference_def split: if_splits list.splits)
  then have "length (drop 2 s) = length (takeWhile (\<lambda>c. c \<noteq> CHR '')'') (drop 2 s)) + 2 + length rest"
    by (metis (no_types, lifting) append.assoc length_append length_Cons add.assoc add_Suc_right numeral_2_eq_2
        plus_nat.add_0 takeWhile_dropWhile_id One_nat_def add_Suc)
  then show ?thesis by simp
qed

text \<open>\<open>_KEYCRE.sub('', ..)\<close>: the references are taken out from the left.\<close>

function without_references :: "string \<Rightarrow> string" where
  "without_references [] = []"
| "without_references (c # s) =
     (case after_reference (c # s) of
        Some rest \<Rightarrow> without_references rest
      | None \<Rightarrow> c # without_references s)"
  by pat_completeness auto
termination
  by (relation "measure length") (auto dest: after_reference_shorter)

definition set_main_option :: "string \<Rightarrow> string option" where
  "set_main_option value =
     (if CHR ''%'' \<in> set (without_references (py_replace ''%%'' [] value)) then None else Some value)"

text \<open>
  A URL without \<open>%\<close> is stored as it is. One with a character of its password percent-encoded, as a URL
  must have it, is refused, so no migration can run against that database.
\<close>

theorem plain_url_is_stored:
  assumes "CHR ''%'' \<notin> set url"
  shows "set_main_option url = Some url"
proof -
  have "replace_from 0 ''%%'' [] s = s" if "CHR ''%'' \<notin> set s" for s
    using that by (induction s) auto
  then have "py_replace ''%%'' [] url = url" using assms by (simp add: py_replace_def)
  moreover have "without_references s = s" if "CHR ''%'' \<notin> set s" for s
    using that
  proof (induction s)
    case (Cons c s)
    then have "after_reference (c # s) = None" by (auto simp: after_reference_def)
    with Cons show ?case by simp
  qed simp
  ultimately show ?thesis using assms by (simp add: set_main_option_def)
qed

theorem encoded_password_is_refused:
  "set_main_option ''postgresql+asyncpg://u:p%40w@db:5432/ledgerloop'' = None"
  by code_simp

end
