(* ===== verification/Benchmark_Report.thy ===== *)
theory Benchmark_Report
  imports Script_Commands Py_Substrings
begin

text \<open>
  \<open>src/backend/scripts/benchmark.py\<close> from a run to the line that reports it: \<open>RunResult\<close>, \<open>run_one\<close> and
  the two tables of \<open>render\<close>. Rates and timings are exact rationals, as the values of the floats they
  are. The answers of the API, the clock and the truth of the load run are arguments; the fixed text of the
  report is left out.
\<close>

subsection \<open>Numbers as the report prints them\<close>

text \<open>The digits of a number, last one first, with a comma after every three.\<close>

fun group3 :: "string \<Rightarrow> string" where
  "group3 (a # b # c # d # ds) = a # b # c # CHR '','' # group3 (d # ds)"
| "group3 ds = ds"

text \<open>\<open>f"{n:,}"\<close> and \<open>f"{n:+,}"\<close>.\<close>

definition thousands :: "int \<Rightarrow> string" where
  "thousands n = (if n < 0 then ''-'' else []) @ rev (group3 (rev (nat_digits (nat \<bar>n\<bar>))))"

definition signed_thousands :: "int \<Rightarrow> string" where
  "signed_thousands n = (if n < 0 then ''-'' else ''+'') @ rev (group3 (rev (nat_digits (nat \<bar>n\<bar>))))"

text \<open>\<open>f"{x:,.{digits}f}"\<close>: the exact value, rounded half to even.\<close>

definition fixed :: "nat \<Rightarrow> rat \<Rightarrow> string" where
  "fixed digits x =
     (let n = nat (py_round (\<bar>x\<bar> * 10 ^ digits)); frac = nat_digits (n mod 10 ^ digits) in
      (if x < 0 then ''-'' else []) @ rev (group3 (rev (nat_digits (n div 10 ^ digits)))) @
      (if digits = 0 then [] else CHR ''.'' # replicate (digits - length frac) CHR ''0'' @ frac))"

text \<open>\<open>_fmt\<close>.\<close>

definition fmt :: "rat option \<Rightarrow> string" where
  "fmt v = (case v of None \<Rightarrow> ''n/a'' | Some x \<Rightarrow> fixed 1 x)"

subsection \<open>A run\<close>

record run_result =
  rn_rate :: rat
  rn_duration :: rat
  rn_truth :: ground_truth
  rn_stats :: "stats_row option"
  rn_achieved_rate :: rat
  rn_settled_in_s :: rat
  rn_correct :: bool
  rn_latencies_ms :: "rat list"

definition engine_total :: "run_result \<Rightarrow> nat" where
  "engine_total result =
     (case rn_stats result of
        None \<Rightarrow> 0
      | Some st \<Rightarrow> st_matched st + st_unmatched st + st_drift st + st_duplicates st)"

text \<open>
  \<open>run_one\<close> after the reset: \<open>wall\<close> is what the load took, \<open>polls\<close> the statistics read before the
  deadline, \<open>settled_in\<close> how long the polling took.
\<close>

definition run_one ::
  "rat \<Rightarrow> rat \<Rightarrow> ground_truth \<Rightarrow> rat list \<Rightarrow> rat \<Rightarrow> stats_row list \<Rightarrow> rat \<Rightarrow> run_result" where
  "run_one rate duration truth latencies wall polls settled_in =
     (let stats = wait_for_settlement (expected_results truth) None polls in
      \<lparr> rn_rate = rate, rn_duration = duration, rn_truth = truth, rn_stats = stats,
        rn_achieved_rate = (if wall \<noteq> 0 then of_nat (gt_transactions_planned truth) / wall else 0),
        rn_settled_in_s = settled_in, rn_correct = run_correct truth stats, rn_latencies_ms = latencies \<rparr>)"

subsection \<open>The tables\<close>

definition result_line :: "run_result \<Rightarrow> string list" where
  "result_line result =
     (let latency = (\<lambda>f. Option.bind (rn_stats result) f);
          ms = (\<lambda>v. fmt v @ '' ms'') in
      [fixed 0 (rn_rate result), fmt (Some (rn_achieved_rate result)),
       thousands (int (gt_transactions_planned (rn_truth result))),
       ms (percentile (rn_latencies_ms result) 50), ms (percentile (rn_latencies_ms result) 95),
       ms (percentile (rn_latencies_ms result) 99),
       ms (latency st_p50), ms (latency st_p95), ms (latency st_p99),
       fixed 4 (case rn_stats result of None \<Rightarrow> 0 | Some st \<Rightarrow> match_rate st),
       fixed 1 (rn_settled_in_s result) @ '' s'',
       if rn_correct result then ''PASS'' else ''**FAIL**''])"

definition correctness_counts :: "run_result \<Rightarrow> (string \<times> nat \<times> nat) list" where
  "correctness_counts result =
     (let truth = rn_truth result; engine = (\<lambda>f. case rn_stats result of None \<Rightarrow> 0 | Some st \<Rightarrow> f st) in
      [(''matched'', gt_matched truth, engine st_matched),
       (''amount drift'', gt_amount_drift truth, engine st_drift),
       (''unmatched'', gt_unmatched_gateway_only truth + gt_unmatched_ledger_only truth, engine st_unmatched),
       (''duplicates'', gt_duplicates truth, engine st_duplicates)])"

definition correctness_lines :: "run_result \<Rightarrow> string list list" where
  "correctness_lines result =
     map (\<lambda>(label, injected, engine).
       [fixed 0 (rn_rate result), label, thousands (int injected), thousands (int engine),
        signed_thousands (int engine - int injected)]) (correctness_counts result)"

text \<open>A line of a table.\<close>

definition table_line :: "string list \<Rightarrow> string" where
  "table_line cells = ''| '' @ concat (map (\<lambda>c. c @ '' | '') (butlast cells)) @ last cells @ '' |''"

definition report_tables :: "run_result list \<Rightarrow> string list \<times> string list" where
  "report_tables results =
     (map (table_line \<circ> result_line) results, map table_line (concat (map correctness_lines results)))"

text \<open>The rates of \<open>--rates\<close>; \<open>to_float\<close> is \<open>float\<close>, which raises on a text that is no number.\<close>

fun parse_rates :: "(string \<Rightarrow> rat option) \<Rightarrow> string list \<Rightarrow> rat list option" where
  "parse_rates to_float [] = Some []"
| "parse_rates to_float (v # vs) =
     (if py_strip v = [] then parse_rates to_float vs
      else
        (case to_float v of
           None \<Rightarrow> None
         | Some x \<Rightarrow> (case parse_rates to_float vs of None \<Rightarrow> None | Some xs \<Rightarrow> Some (x # xs))))"

subsection \<open>The report says what the run was\<close>

lemma group3_digits: "CHR '','' \<notin> set ds \<Longrightarrow> filter (\<lambda>c. c \<noteq> CHR '','') (group3 ds) = ds"
  by (induction ds rule: group3.induct) auto

lemma nat_digits_no_comma: "CHR '','' \<notin> set (nat_digits n)"
  using nat_digits_plain by blast

text \<open>Without its commas a printed number is \<open>str\<close> of it, so it can be read back.\<close>

theorem thousands_reads_back:
  "filter (\<lambda>c. c \<noteq> CHR '','') (thousands n) = py_str_int n"
proof -
  have "filter (\<lambda>c. c \<noteq> CHR '','') (rev (group3 (rev (nat_digits k)))) = nat_digits k" for k
    using group3_digits [of "rev (nat_digits k)"] nat_digits_no_comma [of k] by (simp flip: rev_filter)
  then show ?thesis by (simp add: thousands_def py_str_int_def)
qed

lemma signed_zero: "signed_thousands d = ''+0'' \<longleftrightarrow> d = 0"
proof
  assume "signed_thousands d = ''+0''"
  then have "rev (group3 (rev (nat_digits (nat \<bar>d\<bar>)))) = ''0''" by (auto simp: signed_thousands_def split: if_splits)
  then have "filter (\<lambda>c. c \<noteq> CHR '','') (thousands \<bar>d\<bar>) = ''0''" by (simp add: thousands_def)
  then have "py_str_int \<bar>d\<bar> = py_str_int 0" unfolding thousands_reads_back by (simp add: py_str_int_def nat_digits.simps digit_char_def)
  then show "d = 0" by simp
next
  have "signed_thousands 0 = ''+0''" by code_simp
  then show "d = 0 \<Longrightarrow> signed_thousands d = ''+0''" by simp
qed

text \<open>
  A run that read the statistics is reported as passed exactly when every line of its correctness detail
  ends in \<open>+0\<close>; one that never read them is reported as failed.
\<close>

theorem report_shows_failures:
  fixes rate duration wall settled_in :: rat and truth :: ground_truth and latencies :: "rat list" and polls :: "stats_row list"
  defines "result \<equiv> run_one rate duration truth latencies wall polls settled_in"
  shows "last (result_line result) = ''PASS'' \<longleftrightarrow>
    polls \<noteq> [] \<and> (\<forall>line \<in> set (correctness_lines result). last line = ''+0'')"
proof -
  have polled: "wait_for_settlement n seen ps = None \<longleftrightarrow> seen = None \<and> ps = []" for n seen ps
    by (induction n seen ps rule: wait_for_settlement.induct) auto
  have pass: "last (result_line result) = ''PASS'' \<longleftrightarrow> rn_correct result"
    by (simp add: result_line_def Let_def)
  show ?thesis
  proof (cases "rn_stats result")
    case None
    then have "polls = []" "\<not> rn_correct result"
      using polled by (auto simp: result_def run_one_def run_correct_def Let_def)
    then show ?thesis using pass by simp
  next
    case (Some st)
    then have "polls \<noteq> []" using polled by (auto simp: result_def run_one_def Let_def)
    moreover have "rn_correct result \<longleftrightarrow> (\<forall>(label, injected, engine) \<in> set (correctness_counts result). engine = injected)"
      using Some by (auto simp: result_def run_one_def run_correct_def correctness_counts_def Let_def)
    moreover have "(\<forall>line \<in> set (correctness_lines result). last line = ''+0'') \<longleftrightarrow>
        (\<forall>(label, injected, engine) \<in> set (correctness_counts result). engine = injected)"
      by (auto simp: correctness_lines_def signed_zero)
    ultimately show ?thesis using pass by simp
  qed
qed

end
