(* ===== verification/Executions.thy ===== *)
theory Executions
  imports Relay_Laws
begin

text \<open>
  Whole executions of the program: the states it goes through, one step of \<open>System\<close> after the other.
  What the two rows of a payment come to once the worker has handled the message of each, whatever else
  commits between a worker's reading, its decision and its write.
\<close>

subsection \<open>Executions\<close>

definition execution :: "settings \<Rightarrow> sys list \<Rightarrow> bool" where
  "execution s xs \<longleftrightarrow> xs \<noteq> [] \<and> hd xs = initial \<and> (\<forall>i. Suc i < length xs \<longrightarrow> step s (xs ! i) (xs ! Suc i))"

lemma execution_reachable: "execution s xs \<Longrightarrow> i < length xs \<Longrightarrow> reachable s (xs ! i)"
proof (induction i)
  case 0
  then have "xs ! 0 = initial" unfolding execution_def by (metis hd_conv_nth)
  then show ?case by (simp add: reachable.start)
next
  case (Suc i)
  then show ?case by (auto simp: execution_def intro: reachable.step)
qed

lemma execution_db_inv: "execution s xs \<Longrightarrow> i < length xs \<Longrightarrow> db_inv (from_settings s) (sy_db (xs ! i))"
  by (rule reachable_db_inv [OF execution_reachable])

lemma execution_rows_inv: "execution s xs \<Longrightarrow> i < length xs \<Longrightarrow> rows_inv (sy_db (xs ! i))"
  by (rule db_invD(1) [OF execution_db_inv])

lemma step_evolves:
  assumes "sys_inv s c" and "step s c c'"
  shows "evolves (sy_db c) (sy_db c')"
  using assms(2)
proof cases
  have rows: "rows_inv (sy_db c)" using assms(1) unfolding sys_inv_def db_inv_def by blast
  have same: "evolves d d" for d by (rule evolves_frame) simp_all
  {
    case account
    then show ?thesis using core_frame_evolves [OF upsert_core_frame] by auto
  next
    case touch
    then show ?thesis using core_frame_evolves [OF touch_core_frame] by auto
  next
    case key
    then show ?thesis using core_frame_evolves [OF issue_key_core_frame] by auto
  next
    case source
    then show ?thesis using core_frame_evolves [OF create_source_core_frame] by auto
  next
    case delivery
    then show ?thesis using core_frame_evolves [OF record_delivery_core_frame] by auto
  next
    case (gateway p now tn k body d' res)
    then show ?thesis
      using ingests_evolves [OF ingest_gateway_ingests [OF rows gateway_storable_accepted [OF gateway(2,3)] gateway(3)]] by simp
  next
    case (ledger es dump now tn d' outs)
    from ingests_evolves [OF ingest_ledger_batch_ingests
        [OF rows ledger_storable_accepted [OF rows ledger(2,3)] ledger(3)]] show ?thesis
      using ledger(1) by simp
  next
    case (relay now locked publish committed d' published res)
    obtain p where d': "d' = (sy_db c)\<lparr> db_outbox_events := update_where p (publish_event now) (db_outbox_events (sy_db c)) \<rparr>"
      using drain_once_db [OF relay(2)] by blast
    have "db_inv (from_settings s) (sy_db c)" using assms(1) by (simp add: sys_inv_def)
    then show ?thesis using relay_outbox_frame(2) [OF d'] relay(1) by simp
  next
    case write_decision
    then show ?thesis using apply_decision_evolves by auto
  next
    case retention
    then show ?thesis using without_tenant_evolves delete_demo_account_Inr by fastforce
  next
    case (close_exc now t i memo d' x)
    have d': "d' = (sy_db c)\<lparr> db_exceptions := update_where (closable t i) (close_row now memo) (db_exceptions (sy_db c)) \<rparr>"
      by (rule close_exception_db [OF close_exc(2)])
    have "model_rows side d' = model_rows side (sy_db c)" for side by (cases side) (simp_all add: d' model_rows_sel)
    then have "evolves (sy_db c) d'" by (intro evolves_frame) (simp_all add: d')
    then show ?thesis using close_exc(1) by simp
  }
qed (simp_all add: evolves_frame)

lemma evolves_trans:
  assumes "evolves d d1" and "evolves d1 d2"
  shows "evolves d d2"
  unfolding evolves_def
proof (intro allI conjI ballI)
  fix side
  have n: "db_next d (raw_table side) \<le> db_next d1 (raw_table side)" "db_next d1 (raw_table side) \<le> db_next d2 (raw_table side)"
    using assms by (simp_all add: evolves_def)
  then show "db_next d (raw_table side) \<le> db_next d2 (raw_table side)" by simp
  fix r
  assume r: "r \<in> set (model_rows side d2)"
  show "(\<exists>q \<in> set (model_rows side d). facts_of side r = facts_of side q \<and> rt_duplicate_count q \<le> rt_duplicate_count r) \<or>
      db_next d (raw_table side) \<le> rt_id r"
  proof (cases "db_next d1 (raw_table side) \<le> rt_id r")
    case False
    then obtain q where q: "q \<in> set (model_rows side d1)" "facts_of side r = facts_of side q" "rt_duplicate_count q \<le> rt_duplicate_count r"
      using assms(2) r unfolding evolves_def by blast
    have "(\<exists>p \<in> set (model_rows side d). facts_of side q = facts_of side p \<and> rt_duplicate_count p \<le> rt_duplicate_count q) \<or>
        db_next d (raw_table side) \<le> rt_id q"
      using assms(1) q(1) unfolding evolves_def by blast
    then show ?thesis using q(2,3) facts_of_id [OF q(2)] by (metis order_trans)
  qed (use n in auto)
qed

lemma execution_evolves:
  assumes "execution s xs" and "i \<le> j" and "j < length xs"
  shows "evolves (sy_db (xs ! i)) (sy_db (xs ! j))"
  using assms(2,3)
proof (induction j rule: dec_induct)
  case base
  show ?case by (rule evolves_frame) simp_all
next
  case (step j)
  have "sys_inv s (xs ! j)" using execution_reachable [OF assms(1)] step(4) by (simp add: reachable_sys_inv)
  moreover have "step s (xs ! j) (xs ! Suc j)" using assms(1) step(4) by (simp add: execution_def)
  ultimately show ?case using evolves_trans [OF step(3)] step(4) step_evolves by simp
qed

subsection \<open>A row between two moments\<close>

lemma was_there:
  assumes "execution s xs" and "i \<le> j" and "j < length xs"
    and "r \<in> set (model_rows side (sy_db (xs ! j)))" and "rt_id r < db_next (sy_db (xs ! i)) (raw_table side)"
  shows "\<exists>q \<in> set (model_rows side (sy_db (xs ! i))). facts_of side r = facts_of side q"
proof -
  have "\<not> db_next (sy_db (xs ! i)) (raw_table side) \<le> rt_id r" using assms(5) by simp
  then show ?thesis using execution_evolves [OF assms(1-3)] assms(4) unfolding evolves_def by blast
qed

lemma owner_there:
  assumes "execution s xs" and "i \<le> k" and "k \<le> j" and "j < length xs"
    and "r \<in> set (model_rows side (sy_db (xs ! j)))" and "rt_id r < db_next (sy_db (xs ! i)) (raw_table side)"
  shows "has_account (sy_db (xs ! k)) (rt_tenant_id r)"
proof -
  have k: "k < length xs" using assms(3,4) by simp
  have "db_next (sy_db (xs ! i)) (raw_table side) \<le> db_next (sy_db (xs ! k)) (raw_table side)"
    using execution_evolves [OF assms(1,2) k] by (simp add: evolves_def)
  then obtain q where "q \<in> set (model_rows side (sy_db (xs ! k)))" "facts_of side r = facts_of side q"
    using was_there [OF assms(1,3,4,5)] assms(6) by fastforce
  then show ?thesis using rows_invD(2) [OF execution_rows_inv [OF assms(1) k]] facts_of_id by metis
qed

lemma kept_row_trans: "kept_row side r r1 \<Longrightarrow> kept_row side r1 r2 \<Longrightarrow> kept_row side r r2"
  by (auto simp: kept_row_def)

lemma row_stays:
  assumes "execution s xs" and "i \<le> j" and "j < length xs" and "r \<in> set (model_rows side (sy_db (xs ! i)))"
    and "\<And>k. i \<le> k \<Longrightarrow> k \<le> j \<Longrightarrow> has_account (sy_db (xs ! k)) (rt_tenant_id r)"
  shows "\<exists>r' \<in> set (model_rows side (sy_db (xs ! j))). kept_row side r r'"
  using assms(2,3,5)
proof (induction j rule: dec_induct)
  case base
  show ?case using assms(4) by (auto intro: kept_row_refl)
next
  case (step j)
  obtain q where q: "q \<in> set (model_rows side (sy_db (xs ! j)))" "kept_row side r q"
    using step(3) [OF Suc_lessD [OF step(4)] step(5)] by (meson le_SucI)
  have "kept (sy_db (xs ! j)) (sy_db (xs ! Suc j))"
    using kept_step [OF reachable_sys_inv [OF execution_reachable [OF assms(1)]]] step(4) assms(1)
    by (simp add: execution_def)
  moreover have "has_account (sy_db (xs ! Suc j)) (rt_tenant_id q)"
    using step(5) [of "Suc j"] step(1) q(2) facts_of_id unfolding kept_row_def by (metis le_SucI order_refl)
  ultimately show ?case using q kept_row_trans unfolding kept_def by blast
qed

lemma reconciled_stays:
  assumes "execution s xs" and "i \<le> j" and "j < length xs"
    and "r \<in> set (model_rows side (sy_db (xs ! j)))" and "q \<in> set (model_rows side (sy_db (xs ! i)))"
    and "rt_id q = rt_id r" and "rt_reconciled_at q \<noteq> None"
  shows "rt_reconciled_at r \<noteq> None"
proof -
  have i: "i < length xs" using assms(2,3) by simp
  have "rt_id r < db_next (sy_db (xs ! i)) (raw_table side)"
    using rows_invD(3) [OF execution_rows_inv [OF assms(1) i] assms(5)] assms(6) by simp
  note below = this
  obtain p where p: "p \<in> set (model_rows side (sy_db (xs ! i)))" "facts_of side r = facts_of side p"
    using was_there [OF assms(1-4) below] by blast
  then have "p = q" using rows_invD(4) [OF execution_rows_inv [OF assms(1) i]] assms(5,6) facts_of_id by metis
  then have "rt_tenant_id q = rt_tenant_id r" using facts_of_id [OF p(2)] by simp
  then obtain r' where r': "r' \<in> set (model_rows side (sy_db (xs ! j)))" "kept_row side q r'"
    using row_stays [OF assms(1-3,5)] owner_there [OF assms(1) _ _ assms(3,4) below] by auto
  have "rt_id r' = rt_id q" using r'(2) facts_of_id unfolding kept_row_def by metis
  then have "r' = r" using rows_invD(4) [OF execution_rows_inv [OF assms(1,3)] r'(1) assms(4)] assms(6) by simp
  then show ?thesis using r'(2) assms(7) by (auto simp: kept_row_def)
qed


subsection \<open>A message for every row\<close>

text \<open>
  A row is announced when the outbox holds a message for it that is not marked a duplicate: one that makes
  the worker look for its counterparty.
\<close>

definition announced :: "db \<Rightarrow> ingest_source \<Rightarrow> int \<Rightarrow> bool" where
  "announced d side i \<longleftrightarrow>
     (\<exists>ev \<in> set (db_outbox_events d). \<exists>m. from_payload (ob_payload ev) = Inr m \<and>
        im_source m = side \<and> im_row_id m = i \<and> \<not> im_is_duplicate m)"

lemma announced_payloads:
  "ob_payload ` set (db_outbox_events d) \<subseteq> ob_payload ` set (db_outbox_events d') \<Longrightarrow> announced d side i \<Longrightarrow> announced d' side i"
  unfolding announced_def by (metis (no_types, lifting) image_iff subset_iff)

text \<open>Every gateway row is, and every ledger row that was submitted once.\<close>

definition rows_announced :: "db \<Rightarrow> bool" where
  "rows_announced d \<longleftrightarrow>
     (\<forall>side. \<forall>r \<in> set (model_rows side d). side = GATEWAY \<or> rt_duplicate_count r = 0 \<longrightarrow> announced d side (rt_id r))"

lemma rows_announcedI:
  assumes "rows_inv d" and "rows_announced d" and "evolves d d'"
    and "ob_payload ` set (db_outbox_events d) \<subseteq> ob_payload ` set (db_outbox_events d')"
    and "\<And>side r. r \<in> set (model_rows side d') \<Longrightarrow> db_next d (raw_table side) \<le> rt_id r \<Longrightarrow>
      side = GATEWAY \<or> rt_duplicate_count r = 0 \<Longrightarrow> announced d' side (rt_id r)"
  shows "rows_announced d'"
  unfolding rows_announced_def
proof (intro allI ballI impI)
  fix side r
  assume r: "r \<in> set (model_rows side d')" "side = GATEWAY \<or> rt_duplicate_count r = 0"
  show "announced d' side (rt_id r)"
  proof (cases "db_next d (raw_table side) \<le> rt_id r")
    case False
    then obtain q where q: "q \<in> set (model_rows side d)" "facts_of side r = facts_of side q" "rt_duplicate_count q \<le> rt_duplicate_count r"
      using assms(3) r(1) unfolding evolves_def by blast
    have "side = GATEWAY \<or> rt_duplicate_count q = 0" using r(2) q(3) rows_invD(5) [OF assms(1) q(1)] by linarith
    then have "announced d side (rt_id q)" using assms(2) q(1) unfolding rows_announced_def by blast
    then show ?thesis using announced_payloads [OF assms(4)] facts_of_id [OF q(2)] by simp
  qed (use assms(5) r in blast)
qed

lemma rows_announced_frame:
  assumes "rows_inv d" and "rows_announced d" and "evolves d d'"
    and "ob_payload ` set (db_outbox_events d') = ob_payload ` set (db_outbox_events d)"
    and "\<And>side r. r \<in> set (model_rows side d') \<Longrightarrow> rt_id r < db_next d (raw_table side)"
  shows "rows_announced d'"
  by (rule rows_announcedI [OF assms(1-3)]) (use assms(4,5) in \<open>auto simp: not_le [symmetric]\<close>)

lemma has_event_announced: "has_event d side i False \<Longrightarrow> announced d side i"
  unfolding has_event_def announced_def by auto

text \<open>The first receipt of a key is announced.\<close>

lemma gateway_announces:
  assumes "rows_inv d" and "gateway_storable p k" and "ingest_gateway now tn p k body d = Inr (d', out)"
    and "r \<in> set (model_rows GATEWAY d')" and "db_next d (raw_table GATEWAY) \<le> rt_id r"
  shows "announced d' GATEWAY (rt_id r)"
proof -
  let ?t = "tn_account_id tn" and ?n = "db_next d T_gateway_transactions" and ?rows = "db_gateway_transactions d"
  have ok: "raw_table_ok ?n ?rows"
    using rows_invD(1) [OF assms(1), of GATEWAY] by (simp add: model_rows_sel raw_table_ok_truncate)
  have old: "rt_id q < ?n" if "q \<in> set ?rows" for q by (rule raw_table_okD(3) [OF ok that])
  show ?thesis
  proof (cases "row_of_key ?rows (?t, k)")
    case None
    obtain a where a: "numeric_18_2 (gw_amount p) = Some a" using assms(2) by (auto simp: gateway_storable_def)
    have acc: "has_account d ?t" by (rule ingest_gateway_has_account [OF assms(2) None assms(3)])
    let ?d1 = "d\<lparr> db_next := (db_next d)(T_gateway_transactions := ?n + 1),
      db_gateway_transactions := ?rows @ [gateway_row ?n now tn p a k body] \<rparr>"
    have d': "d' = enqueue now GATEWAY [out] ?d1" and out: "io_row_id out = ?n" "\<not> io_duplicate out"
      using assms(3) unfolding ingest_gateway_fresh [OF assms(2) a acc None] by (auto simp del: enqueue.simps)
    have "has_event d' GATEWAY ?n False"
      using has_event_enqueue [of out "[out]" now GATEWAY ?d1] out unfolding d' by simp
    moreover have "rt_id r = ?n"
      using assms(4,5) by (auto simp: d' model_rows_sel gateway_row_def simp del: enqueue.simps dest!: old)
    ultimately show ?thesis using has_event_announced by simp
  next
    case (Some q)
    let ?rows' = "update_where (holds_key ?t k) (bump 1) ?rows"
    let ?d1 = "d\<lparr> db_next := (db_next d)(T_gateway_transactions := ?n + 1), db_gateway_transactions := ?rows' \<rparr>"
    have d': "d' = enqueue now GATEWAY [out] ?d1"
      using assms(3) unfolding ingest_gateway_again [OF assms(2) raw_table_okD(1) [OF ok] Some]
      by (auto simp del: enqueue.simps)
    have "rt_id r < ?n"
      using assms(4) old by (auto simp: d' model_rows_sel set_update_where simp del: enqueue.simps)
    then show ?thesis using assms(5) by simp
  qed
qed

text \<open>A ledger row whose only message is a duplicate marker was submitted again in its own batch.\<close>

lemma ledger_announces:
  assumes "rows_inv d" and "ledger_sync_ok es" and "ingest_ledger_batch dump now tn es d = Inr (d', outs)"
    and "outbox_sound d'" and "r \<in> set (model_rows LEDGER d')" and "db_next d (raw_table LEDGER) \<le> rt_id r"
    and "rt_duplicate_count r = 0"
  shows "announced d' LEDGER (rt_id r)"
proof -
  have ok: "ledger_table_ok d"
    using rows_invD(1) [OF assms(1), of LEDGER] by (simp add: ledger_table_ok_def model_rows_sel raw_table_ok_truncate)
  have acc: "has_account d (tn_account_id tn)" by (rule ledger_storable_accepted(2) [OF assms(1-3)])
  obtain q where q: "q \<in> set (db_ledger_entries d')" "r = raw_txn.truncate q"
    using assms(5) by (auto simp: model_rows_sel)
  have id: "rt_id q = rt_id r" unfolding q(2) by simp
  have "rt_id p < db_next d (raw_table LEDGER)" if "p \<in> set (db_ledger_entries d)" for p
    using raw_table_okD(3) [OF ok [unfolded ledger_table_ok_def] that] by simp
  then have "rt_id q \<notin> rt_id ` set (db_ledger_entries d)" using assms(6) id by force
  then have event: "\<exists>dup. has_event d' LEDGER (rt_id q) dup"
    using batch_row_has_event [OF ok assms(2) acc, of dump now] assms(3) q(1) by auto
  moreover have "\<not> has_event d' LEDGER (rt_id q) True"
  proof
    assume "has_event d' LEDGER (rt_id q) True"
    then obtain ev m where m: "ev \<in> set (db_outbox_events d')" "from_payload (ob_payload ev) = Inr m"
      "im_source m = LEDGER" "im_row_id m = rt_id r" "im_is_duplicate m"
      by (auto simp: has_event_def id)
    then have "message_sound d' m" using assms(4) unfolding outbox_sound_def by (metis from_to_payload sum.inject(2))
    then show False using m(3-5) assms(5,7) by (auto simp: message_sound_def)
  qed
  ultimately have "has_event d' LEDGER (rt_id r) False" unfolding id by (metis (full_types))
  then show ?thesis by (rule has_event_announced)
qed

text \<open>What an ingestion leaves alone: the other side, and the events there were.\<close>

lemma enqueue_payloads:
  "ob_payload ` set (db_outbox_events d) \<subseteq> ob_payload ` set (db_outbox_events (enqueue now src outs d))"
  using enqueue_outbox [of now src outs d] by auto

lemma ingest_gateway_leaves:
  assumes "ingest_gateway now tn p k body d = Inr (d', out)"
  shows "model_rows LEDGER d' = model_rows LEDGER d"
    and "ob_payload ` set (db_outbox_events d) \<subseteq> ob_payload ` set (db_outbox_events d')"
proof -
  obtain d1 where d1: "d' = enqueue now GATEWAY [out] d1" "db_ledger_entries d1 = db_ledger_entries d"
    "db_outbox_events d1 = db_outbox_events d"
    using assms by (auto simp: ingest_gateway_def nextval_def Let_def simp del: enqueue.simps split: option.splits if_splits sum.splits prod.splits list.splits bool.splits)
  show "model_rows LEDGER d' = model_rows LEDGER d" by (simp add: d1(1,2) model_rows_sel del: enqueue.simps)
  show "ob_payload ` set (db_outbox_events d) \<subseteq> ob_payload ` set (db_outbox_events d')"
    using enqueue_payloads [of d1] unfolding d1(1,3) .
qed

lemma ingest_ledger_batch_leaves:
  assumes "rows_inv d" and "ledger_sync_ok es" and "ingest_ledger_batch dump now tn es d = Inr (d', outs)"
  shows "model_rows GATEWAY d' = model_rows GATEWAY d"
    and "ob_payload ` set (db_outbox_events d) \<subseteq> ob_payload ` set (db_outbox_events d')"
proof -
  have ok: "raw_table_ok (db_next d T_ledger_entries) (db_ledger_entries d)"
    using rows_invD(1) [OF assms(1), of LEDGER] by (simp add: model_rows_sel raw_table_ok_truncate)
  have es: "es \<noteq> []" using assms(2) by (auto simp: ledger_sync_ok_def)
  obtain d1 outs' where d1: "d' = enqueue now LEDGER outs' d1" "db_gateway_transactions d1 = db_gateway_transactions d"
    "db_outbox_events d1 = db_outbox_events d"
    using assms(3) unfolding ingest_ledger_batch_eq [OF es ledger_storable_accepted [OF assms] ok]
    by (auto simp del: enqueue.simps)
  show "model_rows GATEWAY d' = model_rows GATEWAY d" by (simp add: d1(1,2) model_rows_sel del: enqueue.simps)
  show "ob_payload ` set (db_outbox_events d) \<subseteq> ob_payload ` set (db_outbox_events d')"
    using enqueue_payloads [of d1] unfolding d1(1,3) .
qed

lemma rows_announced_rows:
  assumes "rows_announced d" and "\<And>side. model_rows side d' = model_rows side d"
    and "ob_payload ` set (db_outbox_events d) \<subseteq> ob_payload ` set (db_outbox_events d')"
  shows "rows_announced d'"
  using assms(1) announced_payloads [OF assms(3)] unfolding rows_announced_def assms(2) by blast

lemma step_announces:
  assumes "sys_inv s c" and "step s c c'" and "rows_announced (sy_db c)"
  shows "rows_announced (sy_db c')"
  using assms(2)
proof cases
  have rows: "rows_inv (sy_db c)" using assms(1) unfolding sys_inv_def db_inv_def by blast
  have ev: "evolves (sy_db c) (sy_db c')" by (rule step_evolves [OF assms(1,2)])
  have sound: "outbox_sound (sy_db c')" using step_sys_inv [OF assms(1,2)] by (simp add: sys_inv_def)
  have frame: "rows_announced d'" if "core_frame (sy_db c) d'" for d'
    by (rule rows_announced_rows [OF assms(3) core_frame_rows [OF that]]) (use that in \<open>simp add: core_frame_def\<close>)
  {
    case account
    then show ?thesis using frame [OF upsert_core_frame] by auto
  next
    case touch
    then show ?thesis using frame [OF touch_core_frame] by auto
  next
    case key
    then show ?thesis using frame [OF issue_key_core_frame] by auto
  next
    case source
    then show ?thesis using frame [OF create_source_core_frame] by auto
  next
    case delivery
    then show ?thesis using frame [OF record_delivery_core_frame] by auto
  next
    case (gateway p now tn k body d' out)
    note leaves = ingest_gateway_leaves [OF gateway(3)]
    have "rows_announced d'"
    proof (rule rows_announcedI [OF rows assms(3) _ leaves(2)])
      show "evolves (sy_db c) d'" using ev gateway(1) by simp
      show "announced d' side (rt_id r)"
        if "r \<in> set (model_rows side d')" "db_next (sy_db c) (raw_table side) \<le> rt_id r" for side r
        using that gateway_announces [OF rows gateway_storable_accepted [OF gateway(2,3)] gateway(3)]
          rows_invD(3) [OF rows, of r LEDGER] leaves(1) by (cases side) auto
    qed
    then show ?thesis using gateway(1) by simp
  next
    case (ledger es dump now tn d' outs)
    note leaves = ingest_ledger_batch_leaves [OF rows ledger(2,3)]
    have "outbox_sound d'" using sound ledger(1) by simp
    note fresh = ledger_announces [OF rows ledger(2,3) this]
    have "rows_announced d'"
    proof (rule rows_announcedI [OF rows assms(3) _ leaves(2)])
      show "evolves (sy_db c) d'" using ev ledger(1) by simp
      show "announced d' side (rt_id r)"
        if "r \<in> set (model_rows side d')" "db_next (sy_db c) (raw_table side) \<le> rt_id r"
          "side = GATEWAY \<or> rt_duplicate_count r = 0" for side r
        using that fresh rows_invD(3) [OF rows, of r GATEWAY] leaves(1) by (cases side) auto
    qed
    then show ?thesis using ledger(1) by simp
  next
    case (relay now locked publish committed d' published res)
    obtain p where d': "d' = (sy_db c)\<lparr> db_outbox_events := update_where p (publish_event now) (db_outbox_events (sy_db c)) \<rparr>"
      using drain_once_db [OF relay(2)] by blast
    have "model_rows side d' = model_rows side (sy_db c)" for side by (cases side) (simp_all add: d' model_rows_sel)
    moreover have "map ob_payload (db_outbox_events d') = map ob_payload (db_outbox_events (sy_db c))"
      unfolding d' by (simp add: map_update_where publish_event_def)
    then have "ob_payload ` set (db_outbox_events d') = ob_payload ` set (db_outbox_events (sy_db c))" by (metis set_map)
    ultimately show ?thesis using rows_announced_rows [OF assms(3), of d'] relay(1) by simp
  next
    case (write_decision t dec tx now latency mid d' pr)
    have "db_outbox_events d' = db_outbox_events (sy_db c)"
      using write_decision(3) by (cases rule: apply_decision_cases) simp_all
    moreover have "rt_id r < db_next (sy_db c) (raw_table side)" if "r \<in> set (model_rows side d')" for side r
      using progress_row_back [OF progress_apply_decision [OF write_decision(3)] that] rows_invD(3) [OF rows]
      by (metis facts_of_id)
    ultimately have "rows_announced d'"
      using rows_announced_frame [OF rows assms(3), of d'] ev write_decision(1) by simp
    then show ?thesis using write_decision(1) by simp
  next
    case (retention a d')
    have d': "d' = without_tenant a (sy_db c)" by (rule delete_demo_account_Inr [OF retention(2)])
    have "rt_id r < db_next (sy_db c) (raw_table side)" if "r \<in> set (model_rows side d')" for side r
      using that rows_invD(3) [OF rows, of r side] by (simp add: d' without_tenant_rows)
    moreover have "db_outbox_events d' = db_outbox_events (sy_db c)" by (simp add: d' without_tenant_def)
    ultimately have "rows_announced d'"
      using rows_announced_frame [OF rows assms(3), of d'] ev retention(1) by simp
    then show ?thesis using retention(1) by simp
  next
    case (close_exc now t i memo d' x)
    have d': "d' = (sy_db c)\<lparr> db_exceptions := update_where (closable t i) (close_row now memo) (db_exceptions (sy_db c)) \<rparr>"
      by (rule close_exception_db [OF close_exc(2)])
    have "model_rows side d' = model_rows side (sy_db c)" for side by (cases side) (simp_all add: d' model_rows_sel)
    then show ?thesis using rows_announced_rows [OF assms(3), of d'] close_exc(1) by (simp add: d')
  }
qed (use assms(3) in simp_all)

lemma reachable_announced: "reachable s c \<Longrightarrow> rows_announced (sy_db c)"
proof (induction rule: reachable.induct)
  case start
  show ?case by (simp add: rows_announced_def initial_def empty_db_def model_rows_def split: ingest_source.split)
next
  case (step c c')
  then show ?case using step_announces [OF reachable_sys_inv] by blast
qed

lemma row_in_stream:
  assumes "reachable s c" and "\<forall>ev \<in> set (db_outbox_events (sy_db c)). ob_published_at ev \<noteq> None"
    and "r \<in> set (model_rows side (sy_db c))" and "side = GATEWAY \<or> rt_duplicate_count r = 0"
  shows "\<exists>m \<in> set (sy_stream c). im_source m = side \<and> im_row_id m = rt_id r \<and> \<not> im_is_duplicate m"
proof -
  obtain ev m where m: "ev \<in> set (db_outbox_events (sy_db c))" "from_payload (ob_payload ev) = Inr m"
    "im_source m = side" "im_row_id m = rt_id r" "\<not> im_is_duplicate m"
    using reachable_announced [OF assms(1)] assms(3,4) unfolding rows_announced_def announced_def by blast
  then show ?thesis using reachable_relay_inv [OF assms(1)] assms(2) by (fastforce simp: relay_inv_def delivered_def)
qed

subsection \<open>The two rows of a payment\<close>

text \<open>
  A message is handled when the worker, having read its row, found at moment \<open>i\<close> that there was nothing
  to decide, or when what it decided there came to a write that returned, at some later step.
\<close>

definition handled :: "settings \<Rightarrow> sys list \<Rightarrow> ingest_message \<Rightarrow> txn_facts \<Rightarrow> nat \<Rightarrow> bool" where
  "handled s xs m f i \<longleftrightarrow>
     i < length xs \<and> (f, Some m) \<in> set (sy_loaded (xs ! i)) \<and>
     (case fst (decide_message (from_settings s) m f (sy_db (xs ! i))) of
        None \<Rightarrow> True
      | Some dec \<Rightarrow>
          \<exists>k tx now latency mid pr. i \<le> k \<and> Suc k < length xs \<and>
            apply_decision tx now dec (tf_tenant_id f) latency mid (sy_db (xs ! k)) = Inr (sy_db (xs ! Suc k), pr))"

lemma handled_known:
  assumes "execution s xs" and "handled s xs m (facts_of side x) i"
  shows "rt_id x < db_next (sy_db (xs ! i)) (raw_table side)"
proof -
  have "sys_inv s (xs ! i)"
    using reachable_sys_inv [OF execution_reachable [OF assms(1)]] assms(2) by (simp add: handled_def)
  then have "loaded_sound (sy_db (xs ! i)) (facts_of side x, Some m)"
    using assms(2) unfolding sys_inv_def handled_def by blast
  then show ?thesis by (simp add: loaded_sound_def known_def)
qed

text \<open>A row that is there and open is among the counterparties of a row it matches.\<close>

lemma open_counterparty:
  assumes "q \<in> set (model_rows (other_side (tf_side f)) d)" and "rt_reconciled_at q = None"
    and "classify_pair f (facts_of (other_side (tf_side f)) q) config \<noteq> None"
    and "mc_exact_window config \<le> mc_drift_window config"
  shows "facts_of (other_side (tf_side f)) q \<in> set (find_counterparties d f config)"
proof -
  obtain st l where "classify_pair f (facts_of (other_side (tf_side f)) q) config = Some (st, l)"
    using assms(3) by auto
  note pair = classify_pair_SomeD [OF this]
  let ?p = "\<lambda>r. rt_tenant_id r = tf_tenant_id f \<and> rt_txn_id r = tf_txn_id f \<and>
    tf_occurred_at f - mc_drift_window config \<le> rt_occurred_at r \<and>
    rt_occurred_at r \<le> tf_occurred_at f + mc_drift_window config \<and> rt_reconciled_at r = None"
  have "?p q" using pair(1,3,5) assms(2,4) by (auto simp: facts_of_def time_delta_def)
  then have "q \<in> set (filter ?p (model_rows (other_side (tf_side f)) d))" using assms(1) by simp
  then show ?thesis unfolding find_counterparties_def Let_def set_map by (rule imageI)
qed

text \<open>A write of a pair that returns leaves one of the two reconciled: it did it, or it was done before.\<close>

lemma write_settles:
  assumes "db_inv config d" and "apply_decision tx now dec t l m d = Inr (d', pr)" and "dc_status dec \<noteq> DUPLICATE"
    and "decided_id side dec = Some (rt_id x)" and "decided_id (other_side side) dec = Some (rt_id y)"
    and "x \<in> set (model_rows side d)" and "y \<in> set (model_rows (other_side side) d)"
  shows "(\<exists>r \<in> set (model_rows side d'). rt_id r = rt_id x \<and> rt_reconciled_at r \<noteq> None) \<or>
    (\<exists>r \<in> set (model_rows (other_side side) d'). rt_id r = rt_id y \<and> rt_reconciled_at r \<noteq> None)"
  using assms(2)
proof (cases rule: apply_decision_cases)
  case taken
  obtain res S i where res: "res \<in> set (db_reconciliation_results d)" "side_id S res = Some i"
    "decided_id S dec = Some i" "active res"
    using result_conflictD [OF taken(1)] assms(3) by (auto simp: active_iff)
  have rows: "model_rows S d' = model_rows S d" for S by (cases S) (simp_all add: taken(2) model_rows_sel)
  have "S = side \<or> S = other_side side" by (cases S; cases side) simp_all
  then show ?thesis
  proof
    assume S: "S = side"
    then have "rt_reconciled_at x \<noteq> None"
      using reconciled_invD [OF db_invD(3) [OF assms(1)] assms(6) res(1,4)] res(2,3) assms(4) by simp
    then show ?thesis using assms(6) rows by auto
  next
    assume S: "S = other_side side"
    then have "rt_reconciled_at y \<noteq> None"
      using reconciled_invD [OF db_invD(3) [OF assms(1)] assms(7) res(1,4)] res(2,3) assms(5) by simp
    then show ?thesis using assms(7) rows by auto
  qed
next
  case (written row)
  have "settled now dec side x \<in> set (model_rows side d')" unfolding written(9) using assms(6) by simp
  moreover have "rt_reconciled_at (settled now dec side x) \<noteq> None"
    using settled_reconciled [of now dec side x] assms(3,4) by simp
  ultimately show ?thesis using settled_sel(1) [of now dec side x] by blast
qed

lemma handled_finds:
  assumes "execution s xs" and "handled s xs m (facts_of side x) i" and "\<not> im_is_duplicate m"
    and "x \<in> set (model_rows side (sy_db (last xs)))" and "y \<in> set (model_rows (other_side side) (sy_db (last xs)))"
    and "rt_id y < db_next (sy_db (xs ! i)) (raw_table (other_side side))"
    and "classify_pair (facts_of side x) (facts_of (other_side side) y) (from_settings s) \<noteq> None"
    and "\<And>q. q \<in> set (model_rows (other_side side) (sy_db (last xs))) \<Longrightarrow>
      classify_pair (facts_of side x) (facts_of (other_side side) q) (from_settings s) \<noteq> None \<Longrightarrow> q = y"
    and "mc_exact_window (from_settings s) \<le> mc_drift_window (from_settings s)"
  shows "rt_reconciled_at x \<noteq> None \<or> rt_reconciled_at y \<noteq> None"
proof -
  let ?c = "from_settings s" and ?n = "length xs - 1" and ?o = "other_side side"
  let ?f = "facts_of side x" and ?di = "sy_db (xs ! i)"
  have i: "i \<le> ?n" and n: "?n < length xs" using assms(2) by (auto simp: handled_def)
  have lst: "last xs = xs ! ?n" using n by (metis last_conv_nth list.size(3) not_less0)
  note x = assms(4) [unfolded lst] and y = assms(5) [unfolded lst]
  have ids: "r \<in> set (model_rows S (sy_db (xs ! ?n))) \<Longrightarrow> q \<in> set (model_rows S (sy_db (xs ! ?n))) \<Longrightarrow> rt_id r = rt_id q \<Longrightarrow> r = q"
    for r q S by (rule rows_invD(4) [OF execution_rows_inv [OF assms(1) n]])
  obtain yi where yi: "yi \<in> set (model_rows ?o ?di)" "facts_of ?o y = facts_of ?o yi"
    using was_there [OF assms(1) i n y assms(6)] by blast
  show ?thesis
  proof (cases "rt_reconciled_at yi = None")
    case False
    then show ?thesis using reconciled_stays [OF assms(1) i n y yi(1)] facts_of_id [OF yi(2)] by simp
  next
    case True
    let ?os = "find_counterparties ?di ?f ?c"
    have "facts_of ?o yi \<in> set ?os"
      using open_counterparty [of yi ?f ?di ?c] yi True assms(7,9) by simp
    then have "decide ?f ?os ?c \<noteq> None" using assms(7) yi(2) by (auto simp: decide_None_iff)
    then obtain dec where dec: "decide ?f ?os ?c = Some dec" by auto
    have found: "fst (decide_message ?c m ?f ?di) = Some dec" using dec assms(3) by (simp add: decide_message_def Let_def)
    obtain k tx now latency mid pr where k: "i \<le> k" "Suc k < length xs"
      "apply_decision tx now dec (tf_tenant_id ?f) latency mid (sy_db (xs ! k)) = Inr (sy_db (xs ! Suc k), pr)"
      using assms(2) by (auto simp: handled_def found)
    obtain q where q: "q \<in> set ?os" "classify_pair ?f q ?c = Some (dc_status dec, dc_layer dec)"
      and qid: "decided_id side dec = Some (rt_id x)" "decided_id ?o dec = Some (tf_row_id q)"
      using decide_SomeD [OF dec] by (cases side) (auto simp: decided_id_def)
    obtain p where p: "p \<in> set (model_rows ?o ?di)" "q = facts_of ?o p"
      using q(1) by (auto simp: find_counterparties_def Let_def)
    have own: "has_account (sy_db (xs ! j)) (rt_tenant_id x)" if "i \<le> j" "j \<le> ?n" for j
      by (rule owner_there [OF assms(1) that n x handled_known [OF assms(1,2)]])
    have tenant: "rt_tenant_id p = rt_tenant_id x" using classify_pair_SomeD(1) [OF q(2)] p(2) by simp
    obtain pn where pn: "pn \<in> set (model_rows ?o (sy_db (xs ! ?n)))" "kept_row ?o p pn"
      using row_stays [OF assms(1) i n p(1)] own tenant by auto
    have "pn = y" using assms(8) [of pn] pn q(2) p(2) by (simp add: lst kept_row_def)
    then have py: "rt_id y = rt_id p" using pn(2) facts_of_id unfolding kept_row_def by metis
    have kn: "k \<le> ?n" "k < length xs" "Suc k \<le> ?n" using k(2) by simp_all
    have grow: "db_next ?di (raw_table S) \<le> db_next (sy_db (xs ! k)) (raw_table S)" for S
      using execution_evolves [OF assms(1) k(1) kn(2)] by (simp add: evolves_def)
    obtain xk where xk: "xk \<in> set (model_rows side (sy_db (xs ! k)))" "facts_of side x = facts_of side xk"
      using was_there [OF assms(1) kn(1) n x] handled_known [OF assms(1,2)] grow [of side] by fastforce
    obtain yk where yk: "yk \<in> set (model_rows ?o (sy_db (xs ! k)))" "facts_of ?o y = facts_of ?o yk"
      using was_there [OF assms(1) kn(1) n y] assms(6) grow [of ?o] by fastforce
    have same: "rt_id xk = rt_id x" "rt_id yk = rt_id y" using facts_of_id [OF xk(2)] facts_of_id [OF yk(2)] by simp_all
    have "dc_status dec \<noteq> DUPLICATE" using classify_pair_SomeD(6) [OF q(2)] by auto
    from write_settles [OF execution_db_inv [OF assms(1) kn(2)] k(3) this, of side xk yk]
    have "(\<exists>r \<in> set (model_rows side (sy_db (xs ! Suc k))). rt_id r = rt_id x \<and> rt_reconciled_at r \<noteq> None) \<or>
        (\<exists>r \<in> set (model_rows ?o (sy_db (xs ! Suc k))). rt_id r = rt_id y \<and> rt_reconciled_at r \<noteq> None)"
      using xk(1) yk(1) qid same py p(2) by simp
    then show ?thesis
      using reconciled_stays [OF assms(1) kn(3) n x] reconciled_stays [OF assms(1) kn(3) n y] by blast
  qed
qed


text \<open>
  Two rows that match each other and no third row: once the worker has handled a message for each that
  was not marked a duplicate, one of the two is reconciled. The drift window must be at least the exact
  one, as it is by default.
\<close>

lemma no_pair_missed:
  assumes "execution s xs"
    and "handled s xs ma (facts_of GATEWAY a) i" and "\<not> im_is_duplicate ma"
    and "handled s xs mb (facts_of LEDGER b) j" and "\<not> im_is_duplicate mb"
    and "a \<in> set (model_rows GATEWAY (sy_db (last xs)))" and "b \<in> set (model_rows LEDGER (sy_db (last xs)))"
    and "classify_pair (facts_of GATEWAY a) (facts_of LEDGER b) (from_settings s) \<noteq> None"
    and "\<forall>q \<in> set (model_rows LEDGER (sy_db (last xs))).
      classify_pair (facts_of GATEWAY a) (facts_of LEDGER q) (from_settings s) \<noteq> None \<longrightarrow> q = b"
    and "\<forall>q \<in> set (model_rows GATEWAY (sy_db (last xs))).
      classify_pair (facts_of GATEWAY q) (facts_of LEDGER b) (from_settings s) \<noteq> None \<longrightarrow> q = a"
    and "mc_exact_window (from_settings s) \<le> mc_drift_window (from_settings s)"
  shows "rt_reconciled_at a \<noteq> None \<or> rt_reconciled_at b \<noteq> None"
proof -
  have i: "i < length xs" "j < length xs" using assms(2,4) by (simp_all add: handled_def)
  have grow: "db_next (sy_db (xs ! p)) (raw_table S) \<le> db_next (sy_db (xs ! q)) (raw_table S)"
    if "p \<le> q" "q < length xs" for p q S
    using execution_evolves [OF assms(1) that] by (simp add: evolves_def)
  note a = handled_known [OF assms(1,2)] and b = handled_known [OF assms(1,4)]
  show ?thesis
  proof (cases "i \<le> j")
    case True
    have "rt_id a < db_next (sy_db (xs ! j)) (raw_table GATEWAY)" using a grow [OF True i(2), of GATEWAY] by simp
    note below = this
    have commute: "classify_pair (facts_of LEDGER b) (facts_of GATEWAY q) (from_settings s) =
        classify_pair (facts_of GATEWAY q) (facts_of LEDGER b) (from_settings s)" for q
      by (rule classify_pair_commute)
    have "rt_reconciled_at b \<noteq> None \<or> rt_reconciled_at a \<noteq> None"
    proof (rule handled_finds [OF assms(1,4,5,7)])
      show "a \<in> set (model_rows (other_side LEDGER) (sy_db (last xs)))" using assms(6) by simp
      show "rt_id a < db_next (sy_db (xs ! j)) (raw_table (other_side LEDGER))" using below by simp
      show "classify_pair (facts_of LEDGER b) (facts_of (other_side LEDGER) a) (from_settings s) \<noteq> None"
        using assms(8) by (simp add: commute)
      show "q = a" if "q \<in> set (model_rows (other_side LEDGER) (sy_db (last xs)))"
        "classify_pair (facts_of LEDGER b) (facts_of (other_side LEDGER) q) (from_settings s) \<noteq> None" for q
        using that assms(10) by (simp add: commute)
    qed (rule assms(11))
    then show ?thesis by blast
  next
    case False
    then have "rt_id b < db_next (sy_db (xs ! i)) (raw_table LEDGER)" using b grow [of j i LEDGER] i(1) by simp
    note below = this
    show ?thesis
    proof (rule handled_finds [OF assms(1,2,3,6)])
      show "b \<in> set (model_rows (other_side GATEWAY) (sy_db (last xs)))" using assms(7) by simp
      show "rt_id b < db_next (sy_db (xs ! i)) (raw_table (other_side GATEWAY))" using below by simp
      show "classify_pair (facts_of GATEWAY a) (facts_of (other_side GATEWAY) b) (from_settings s) \<noteq> None"
        using assms(8) by simp
      show "q = b" if "q \<in> set (model_rows (other_side GATEWAY) (sy_db (last xs)))"
        "classify_pair (facts_of GATEWAY a) (facts_of (other_side GATEWAY) q) (from_settings s) \<noteq> None" for q
        using that assms(9) by simp
    qed (rule assms(11))
  qed
qed


subsection \<open>A ledger entry that comes late\<close>

text \<open>
  An account; the gateway submits and its message is handled, with nothing to match yet; a batch of
  the ledger comes in, is published, and its first message is handled.
\<close>

definition relayed :: "db \<Rightarrow> db \<times> ingest_message list \<times> (relay_error + nat)" where
  "relayed d = drain_once default_settings 7 {} (\<lambda>ms. (length ms, True)) True d"

definition early :: "db \<times> ingest_message list \<times> (relay_error + nat)" where
  "early = relayed run2"

definition early_message :: ingest_message where
  "early_message = hd (fst (snd early))"

definition facts_for :: "db \<Rightarrow> ingest_message \<Rightarrow> txn_facts" where
  "facts_for d m = the (projr (load_facts d (im_source m) (im_row_id m)))"

definition early_facts :: txn_facts where
  "early_facts = facts_for (fst early) early_message"

definition late_batch :: "ledger_entry_in list \<Rightarrow> db" where
  "late_batch es = fst (projr (ingest_ledger_batch (\<lambda>_. JNull) 8 example_tenant es (fst early)))"

definition late_relayed :: "ledger_entry_in list \<Rightarrow> db \<times> ingest_message list \<times> (relay_error + nat)" where
  "late_relayed es = relayed (late_batch es)"

definition late_message :: "ledger_entry_in list \<Rightarrow> ingest_message" where
  "late_message es = hd (fst (snd (late_relayed es)))"

definition late_facts :: "ledger_entry_in list \<Rightarrow> txn_facts" where
  "late_facts es = facts_for (fst (late_relayed es)) (late_message es)"

definition late_decision :: "ledger_entry_in list \<Rightarrow> decision" where
  "late_decision es =
     the (fst (decide_message (from_settings default_settings) (late_message es) (late_facts es) (fst (late_relayed es))))"

definition late_db :: "ledger_entry_in list \<Rightarrow> db" where
  "late_db es =
     fst (projr (apply_decision 9 9 (late_decision es) (tf_tenant_id (late_facts es)) (Some 3) None (fst (late_relayed es))))"

definition late_run :: "ledger_entry_in list \<Rightarrow> sys list" where
  "late_run es =
     (let ms1 = fst (snd early); ms2 = ms1 @ fst (snd (late_relayed es));
          ld1 = [(early_facts, Some early_message)]; ld2 = (late_facts es, Some (late_message es)) # ld1 in
      [initial,
       \<lparr> sy_db = run1, sy_stream = [], sy_loaded = [], sy_decided = [] \<rparr>,
       \<lparr> sy_db = run2, sy_stream = [], sy_loaded = [], sy_decided = [] \<rparr>,
       \<lparr> sy_db = fst early, sy_stream = ms1, sy_loaded = [], sy_decided = [] \<rparr>,
       \<lparr> sy_db = fst early, sy_stream = ms1, sy_loaded = ld1, sy_decided = [] \<rparr>,
       \<lparr> sy_db = late_batch es, sy_stream = ms1, sy_loaded = ld1, sy_decided = [] \<rparr>,
       \<lparr> sy_db = fst (late_relayed es), sy_stream = ms2, sy_loaded = ld1, sy_decided = [] \<rparr>,
       \<lparr> sy_db = fst (late_relayed es), sy_stream = ms2, sy_loaded = ld2, sy_decided = [] \<rparr>,
       \<lparr> sy_db = fst (late_relayed es), sy_stream = ms2, sy_loaded = ld2,
         sy_decided = [(tf_tenant_id (late_facts es), late_decision es)] \<rparr>,
       \<lparr> sy_db = late_db es, sy_stream = ms2, sy_loaded = ld2,
         sy_decided = [(tf_tenant_id (late_facts es), late_decision es)] \<rparr>])"

text \<open>What has to be computed of a batch for it to be an execution.\<close>

definition late_ok :: "ledger_entry_in list \<Rightarrow> bool" where
  "late_ok es \<longleftrightarrow>
     \<not> isl (ingest_ledger_batch (\<lambda>_. JNull) 8 example_tenant es (fst early)) \<and>
     late_message es \<in> set (fst (snd (late_relayed es))) \<and>
     load_facts (fst (late_relayed es)) (im_source (late_message es)) (im_row_id (late_message es)) =
       Inr (Some (late_facts es)) \<and>
     fst (decide_message (from_settings default_settings) (late_message es) (late_facts es) (fst (late_relayed es))) =
       Some (late_decision es) \<and>
     \<not> isl (apply_decision 9 9 (late_decision es) (tf_tenant_id (late_facts es)) (Some 3) None (fst (late_relayed es)))"

lemma early_checks:
  "early_message \<in> set (fst (snd early))"
  "load_facts (fst early) (im_source early_message) (im_row_id early_message) = Inr (Some early_facts)"
  "fst (decide_message (from_settings default_settings) early_message early_facts (fst early)) = None"
  by code_simp+

lemma late_oks: "late_ok [example_entry ''e'']" "late_ok [example_entry ''e'', example_entry ''e'']"
  by code_simp+


lemma late_execution:
  assumes "ledger_sync_ok es" and "late_ok es"
  shows "execution default_settings (late_run es)"
proof -
  let ?s = default_settings
  have batch: "ingest_ledger_batch (\<lambda>_. JNull) 8 example_tenant es (fst early) =
      Inr (late_batch es, snd (projr (ingest_ledger_batch (\<lambda>_. JNull) 8 example_tenant es (fst early))))"
    and loaded: "late_message es \<in> set (fst (snd (late_relayed es)))"
      "load_facts (fst (late_relayed es)) (im_source (late_message es)) (im_row_id (late_message es)) = Inr (Some (late_facts es))"
    and found: "fst (decide_message (from_settings ?s) (late_message es) (late_facts es) (fst (late_relayed es))) = Some (late_decision es)"
    and wrote: "apply_decision 9 9 (late_decision es) (tf_tenant_id (late_facts es)) (Some 3) None (fst (late_relayed es)) =
      Inr (late_db es, snd (projr (apply_decision 9 9 (late_decision es) (tf_tenant_id (late_facts es)) (Some 3) None (fst (late_relayed es)))))"
    using assms(2) not_isl by (auto simp: late_ok_def late_batch_def late_db_def)
  have drain: "drain_once ?s 7 {} (\<lambda>ms. (length ms, True)) True d = (fst (relayed d), fst (snd (relayed d)), snd (snd (relayed d)))"
    for d by (simp add: relayed_def)
  have steps: "step ?s (late_run es ! 0) (late_run es ! 1)" "step ?s (late_run es ! 1) (late_run es ! 2)"
    "step ?s (late_run es ! 2) (late_run es ! 3)" "step ?s (late_run es ! 3) (late_run es ! 4)"
    "step ?s (late_run es ! 4) (late_run es ! 5)" "step ?s (late_run es ! 5) (late_run es ! 6)"
    "step ?s (late_run es ! 6) (late_run es ! 7)" "step ?s (late_run es ! 7) (late_run es ! 8)"
    "step ?s (late_run es ! 8) (late_run es ! 9)"
    using step.account [of 0 "''acme''" REAL initial run1 _ ?s] run_steps(1)
      step.gateway [OF example_payload_ok, of 5 example_tenant "''k''" JNull "late_run es ! 1" run2 _ ?s] run_steps(2)
      step.relay [OF drain [of "sy_db (late_run es ! 2)"]]
      step.worker_load [of early_message "late_run es ! 3" early_facts ?s] early_checks(1,2)
      step.ledger [OF assms(1), of "\<lambda>_. JNull" 8 example_tenant "late_run es ! 4" "late_batch es" _ ?s] batch
      step.relay [OF drain [of "sy_db (late_run es ! 5)"]]
      step.worker_load [of "late_message es" "late_run es ! 6" "late_facts es" ?s] loaded
      step.worker_decide [of "late_facts es" "late_message es" "late_run es ! 7" ?s "late_decision es"] found
      step.write_decision [of "tf_tenant_id (late_facts es)" "late_decision es" "late_run es ! 8" 9 9 _ _ "late_db es" _ ?s] wrote
    by (simp_all add: late_run_def Let_def initial_def early_def late_relayed_def prod_eq_iff)
  then have "successively (step ?s) (late_run es)" by (simp add: late_run_def Let_def)
  then show ?thesis by (simp add: execution_def successively_conv_nth late_run_def Let_def)
qed


lemma late_sync_ok: "ledger_sync_ok [example_entry ''e'']" "ledger_sync_ok [example_entry ''e'', example_entry ''e'']"
  by (simp_all add: ledger_sync_ok_def example_entry_ok)

text \<open>Both messages of that execution are handled, the first at moment 4, the second at moment 7.\<close>

lemma late_handled:
  assumes "late_ok es"
  shows "handled default_settings (late_run es) early_message early_facts 4"
    and "handled default_settings (late_run es) (late_message es) (late_facts es) 7"
proof -
  have wrote: "apply_decision 9 9 (late_decision es) (tf_tenant_id (late_facts es)) (Some 3) None (fst (late_relayed es)) =
      Inr (late_db es, snd (projr (apply_decision 9 9 (late_decision es) (tf_tenant_id (late_facts es)) (Some 3) None (fst (late_relayed es)))))"
    and found: "fst (decide_message (from_settings default_settings) (late_message es) (late_facts es) (fst (late_relayed es))) = Some (late_decision es)"
    using assms not_isl by (auto simp: late_ok_def late_db_def)
  show "handled default_settings (late_run es) early_message early_facts 4"
    using early_checks(3) by (simp add: handled_def late_run_def Let_def)
  have here: "7 < length (late_run es)" "Suc 8 < length (late_run es)"
    "(late_facts es, Some (late_message es)) \<in> set (sy_loaded (late_run es ! 7))"
    "sy_db (late_run es ! 7) = fst (late_relayed es)" "sy_db (late_run es ! 8) = fst (late_relayed es)"
    "sy_db (late_run es ! Suc 8) = late_db es"
    by (simp_all add: late_run_def Let_def)
  have "\<exists>k tx now latency mid pr. 7 \<le> k \<and> Suc k < length (late_run es) \<and>
      apply_decision tx now (late_decision es) (tf_tenant_id (late_facts es)) latency mid (sy_db (late_run es ! k)) =
        Inr (sy_db (late_run es ! Suc k), pr)"
    by (intro exI [of _ 8] exI conjI) (simp, rule here(2), unfold here(5,6), rule wrote)
  then show "handled default_settings (late_run es) (late_message es) (late_facts es) 7"
    unfolding handled_def here(4) found option.case using here(1,3) by blast
qed

definition late_row :: "ingest_source \<Rightarrow> ledger_entry_in list \<Rightarrow> raw_txn" where
  "late_row side es = hd (model_rows side (late_db es))"


text \<open>
  That the messages are no duplicate markers matters. A batch that repeats a new key enqueues one message
  for its row, and that one is marked a duplicate, so the row never looks for its counterparty: when the
  gateway came first, every message is handled and both rows, which match, are left to the sweep.
\<close>

theorem repeated_entry_left_to_the_sweep:
  "\<exists>xs ma mb a b i j.
     execution default_settings xs \<and>
     model_rows GATEWAY (sy_db (last xs)) = [a] \<and> model_rows LEDGER (sy_db (last xs)) = [b] \<and>
     handled default_settings xs ma (facts_of GATEWAY a) i \<and> handled default_settings xs mb (facts_of LEDGER b) j \<and>
     set (sy_stream (last xs)) = {ma, mb} \<and>
     list_all (\<lambda>ev. ob_published_at ev \<noteq> None) (db_outbox_events (sy_db (last xs))) \<and>
     classify_pair (facts_of GATEWAY a) (facts_of LEDGER b) (from_settings default_settings) \<noteq> None \<and>
     rt_reconciled_at a = None \<and> rt_reconciled_at b = None"
proof -
  let ?es = "[example_entry ''e'', example_entry ''e'']"
  note ok = late_oks(2)
  have rows: "model_rows GATEWAY (late_db ?es) = [late_row GATEWAY ?es]" "model_rows LEDGER (late_db ?es) = [late_row LEDGER ?es]"
    "early_facts = facts_of GATEWAY (late_row GATEWAY ?es)" "late_facts ?es = facts_of LEDGER (late_row LEDGER ?es)"
    "fst (snd early) = [early_message]" "fst (snd (late_relayed ?es)) = [late_message ?es]"
    "list_all (\<lambda>ev. ob_published_at ev \<noteq> None) (db_outbox_events (late_db ?es))"
    "classify_pair (facts_of GATEWAY (late_row GATEWAY ?es)) (facts_of LEDGER (late_row LEDGER ?es)) (from_settings default_settings) \<noteq> None"
    "rt_reconciled_at (late_row GATEWAY ?es) = None" "rt_reconciled_at (late_row LEDGER ?es) = None"
    by code_simp+
  have lst: "sy_db (last (late_run ?es)) = late_db ?es"
    "sy_stream (last (late_run ?es)) = fst (snd early) @ fst (snd (late_relayed ?es))"
    by (simp_all add: late_run_def Let_def)
  note both = late_handled [OF ok, unfolded rows(3,4)]
  have stream: "set (sy_stream (last (late_run ?es))) = {early_message, late_message ?es}"
    unfolding lst(2) rows(5,6) by auto
  show ?thesis
    by (rule exI [of _ "late_run ?es"], rule exI [of _ early_message], rule exI [of _ "late_message ?es"],
        rule exI [of _ "late_row GATEWAY ?es"], rule exI [of _ "late_row LEDGER ?es"], rule exI [of _ 4], rule exI [of _ 7])
      (intro conjI late_execution [OF late_sync_ok(2) ok] both stream rows(8-10) rows(1,2,7) [folded lst(1)])
qed

end
