(* ===== verification/Load_Run.thy ===== *)
theory Load_Run
  imports Benchmark_Report Load_Truth
begin

text \<open>
  A run of \<open>src/backend/scripts/generate_load.py\<close> around the plan: the arguments with their checks, \<open>run\<close>,
  which hands the planned transactions to its senders over two queues, and the comparison that is printed
  at the end. Times are exact rationals; the wall clock and the answers of the API are arguments.
\<close>

subsection \<open>The arguments\<close>

text \<open>What \<open>argparse\<close> returns, and its defaults.\<close>

record load_args =
  la_base_url :: string
  la_rate :: rat
  la_duration :: rat
  la_drop_rate :: rat
  la_duplicate_rate :: rat
  la_drift_rate :: rat
  la_time_skew_ms :: rat
  la_currency :: string
  la_ledger_batch :: int
  la_ledger_flush_ms :: rat
  la_concurrency :: int
  la_seed :: "int option"
  la_verify :: bool
  la_settle :: rat
  la_json_out :: "string option"

definition default_load_args :: load_args where
  "default_load_args =
     \<lparr> la_base_url = ''http://localhost:8000'', la_rate = 100, la_duration = 30, la_drop_rate = 0,
       la_duplicate_rate = 0, la_drift_rate = 0, la_time_skew_ms = 0, la_currency = ''INR'',
       la_ledger_batch = 50, la_ledger_flush_ms = 200, la_concurrency = 32, la_seed = None,
       la_verify = False, la_settle = 10, la_json_out = None \<rparr>"

text \<open>The checks after the parsing, in order: the first that fails ends the program with its message.\<close>

definition load_args_error :: "load_args \<Rightarrow> string option" where
  "load_args_error args =
     (case List.find (\<lambda>(_, v). \<not> (0 \<le> v \<and> v \<le> 1))
         [(''drop-rate'', la_drop_rate args), (''duplicate-rate'', la_duplicate_rate args),
          (''drift-rate'', la_drift_rate args)] of
        Some (name, _) \<Rightarrow> Some (''--'' @ name @ '' must be between 0 and 1'')
      | None \<Rightarrow> if la_rate args \<le> 0 then Some ''--rate must be positive'' else None)"

text \<open>What the plan reads of them; a batch size below one flushes after every entry, as one does.\<close>

definition load_config_of :: "load_args \<Rightarrow> load_config" where
  "load_config_of args =
     \<lparr> lc_drop_rate = la_drop_rate args, lc_duplicate_rate = la_duplicate_rate args,
       lc_drift_rate = la_drift_rate args, lc_currency = la_currency args,
       lc_ledger_batch = nat (la_ledger_batch args) \<rparr>"

lemma load_args_error_iff:
  "load_args_error args = None \<longleftrightarrow> load_args_ok (load_config_of args) (la_rate args)"
  by (auto simp: load_args_error_def load_args_ok_def load_config_of_def not_le)

lemma default_load_args_pass: "load_args_error default_load_args = None"
  by code_simp

subsection \<open>Handing out\<close>

text \<open>
  An \<open>asyncio.Queue\<close> with its readers: \<open>turns\<close> says who is at \<open>get\<close> next. A reader that finds the
  sentinel \<open>None\<close> has ended; one that finds the queue empty waits. The result is who got what, in order,
  who has ended, and what is left.
\<close>

fun hand_out :: "nat list \<Rightarrow> 'a option list \<Rightarrow> nat set \<Rightarrow> (nat \<times> 'a) list \<times> nat set \<times> 'a option list" where
  "hand_out [] queue ended = ([], ended, queue)"
| "hand_out (w # turns) queue ended =
     (if w \<in> ended then hand_out turns queue ended
      else
        (case queue of
           [] \<Rightarrow> hand_out turns [] ended
         | None # rest \<Rightarrow> hand_out turns rest (insert w ended)
         | Some x # rest \<Rightarrow>
             (case hand_out turns rest ended of (got, ended', left) \<Rightarrow> ((w, x) # got, ended', left))))"

text \<open>What \<open>run\<close> puts on a queue of \<open>n\<close> readers: the transactions, then a sentinel for each.\<close>

definition queue_of :: "'a list \<Rightarrow> nat \<Rightarrow> 'a option list" where
  "queue_of xs n = map Some xs @ replicate n None"

definition load_senders :: "load_args \<Rightarrow> nat" where
  "load_senders args = nat (la_concurrency args)"

definition load_flushers :: "load_args \<Rightarrow> nat" where
  "load_flushers args = nat (max (la_concurrency args div 4) 1)"

lemma hand_out_all:
  assumes "hand_out turns (queue_of xs k) ended = (got, ended', left)" and "set turns \<subseteq> {..<n}"
    and "ended \<subseteq> {..<n}" and "k + card ended = n" and "ended' = {..<n}" and "k = 0 \<longrightarrow> xs = []"
  shows "map snd got = xs \<and> left = []"
  using assms
proof (induction turns "queue_of xs k" ended arbitrary: xs k got left rule: hand_out.induct)
  case (1 ended)
  then have "k = 0" by simp
  then show ?case using 1 by (auto simp: queue_of_def)
next
  case (2 w turns ended)
  show ?case
  proof (cases "w \<in> ended")
    case True
    then show ?thesis using 2 by simp
  next
    case w: False
    note out = 2(5) [simplified hand_out.simps if_not_P [OF w]]
    have fin: "finite ended" using 2(7) finite_subset by auto
    show ?thesis
    proof (cases xs)
      case (Cons x xs')
      then have q: "queue_of xs k = Some x # queue_of xs' k" by (simp add: queue_of_def)
      obtain got' e l where more: "hand_out turns (queue_of xs' k) ended = (got', e, l)" by (metis prod_cases3)
      have shape: "got = (w, x) # got'" "ended' = e" "left = l" using out more by (simp_all add: q)
      have "k = 0 \<longrightarrow> xs' = []" using 2(10) Cons by simp
      then have "map snd got' = xs' \<and> l = []"
        using 2(4) [OF w q refl] more 2(6-9) shape(2) by simp
      then show ?thesis using shape Cons by simp
    next
      case Nil
      show ?thesis
      proof (cases k)
        case 0
        then have "ended = {..<n}" using 2(7,8) card_subset_eq [of "{..<n}" ended] by simp
        then show ?thesis using w 2(6) by auto
      next
        case (Suc k')
        then have q: "queue_of xs k = None # queue_of [] k'" by (simp add: queue_of_def Nil)
        have "hand_out turns (queue_of [] k') (insert w ended) = (got, ended', left)" using out by (simp add: q)
        moreover have "k' + card (insert w ended) = n" using 2(8) Suc w fin by simp
        ultimately show ?thesis using 2(3) [OF w q refl] 2(6,7,9,10) Nil by auto
      qed
    qed
  qed
qed

text \<open>
  Whatever the turns, once every reader has ended each planned transaction was handed out exactly once,
  in the order of the plan, and nothing is left in the queue.
\<close>

theorem all_handed_out:
  assumes "hand_out turns (queue_of xs n) {} = (got, {..<n}, left)" and "set turns \<subseteq> {..<n}" and "0 < n"
  shows "map snd got = xs \<and> left = []"
  using hand_out_all [OF assms(1,2)] assms(3) by simp

theorem all_handed_out_witness:
  "\<exists>got left. hand_out [0, 1, 1, 0, 1] (queue_of ''abc'' 2) {} = (got, {..<2}, left) \<and> map snd got = ''abc'' \<and> left = []"
proof -
  have "hand_out [0, 1, 1, 0, 1] (queue_of ''abc'' 2) {} =
      ([(0, CHR ''a''), (1, CHR ''b''), (1, CHR ''c'')], {..<2}, [])"
    by (auto simp: queue_of_def numeral_2_eq_2 lessThan_Suc)
  from all_handed_out [OF this] this show ?thesis by simp
qed

text \<open>
  \<open>--concurrency\<close> is not checked: at 0 there is no gateway sender, so whatever happens nothing is taken from
  its queue, while one flusher still posts the ledger side.
\<close>

theorem no_concurrency_sends_no_gateway:
  assumes "la_concurrency args = 0"
  shows "load_senders args = 0 \<and> load_flushers args = 1 \<and>
    (set turns \<subseteq> {..<load_senders args} \<longrightarrow> fst (hand_out turns (queue_of xs (load_senders args)) {}) = [])"
  using assms by (auto simp: load_senders_def load_flushers_def)

subsection \<open>The comparison that is printed\<close>

definition py_ljust :: "nat \<Rightarrow> string \<Rightarrow> string" where
  "py_ljust n s = s @ replicate (n - length s) CHR '' ''"

definition py_rjust :: "nat \<Rightarrow> string \<Rightarrow> string" where
  "py_rjust n s = replicate (n - length s) CHR '' '' @ s"

text \<open>A row of \<open>print_verification\<close>: what was injected, what the engine says, whether they agree.\<close>

definition verification_rows :: "ground_truth \<Rightarrow> stats_row \<Rightarrow> (string \<times> int \<times> int) list" where
  "verification_rows truth stats =
     [(''matched'', int (gt_matched truth), int (st_matched stats)),
      (''amount drift'', int (gt_amount_drift truth), int (st_drift stats)),
      (''unmatched'', int (gt_unmatched_gateway_only truth + gt_unmatched_ledger_only truth), int (st_unmatched stats)),
      (''duplicates'', int (gt_duplicates truth), int (st_duplicates stats))]"

definition verdict_of :: "int \<Rightarrow> string" where
  "verdict_of delta = (if delta = 0 then ''OK'' else ''MISMATCH'')"

definition verification_line :: "string \<times> int \<times> int \<Rightarrow> string" where
  "verification_line row =
     (case row of (label, expected, actual) \<Rightarrow>
        ''  '' @ py_ljust 24 label @ py_rjust 12 (thousands expected) @ py_rjust 12 (thousands actual) @
        py_rjust 10 (signed_thousands (actual - expected)) @ ''   '' @ verdict_of (actual - expected))"

definition print_verification :: "ground_truth \<Rightarrow> stats_row \<Rightarrow> string list \<times> string \<times> bool" where
  "print_verification truth stats =
     (let rows = verification_rows truth stats;
          ok = list_all (\<lambda>(_, expected, actual). actual - expected = 0) rows in
      (map verification_line rows,
       if ok then ''RESULT: ALL COUNTS MATCH'' else ''RESULT: MISMATCH -- investigate'', ok))"

text \<open>The printed result, the returned verdict and the lines agree: a line says OK exactly when its counts do.\<close>

theorem verification_prints_its_verdict:
  "snd (snd (print_verification truth stats)) = verification_ok truth stats \<and>
   (fst (snd (print_verification truth stats)) = ''RESULT: ALL COUNTS MATCH'' \<longleftrightarrow> verification_ok truth stats) \<and>
   (verification_ok truth stats \<longleftrightarrow>
      (\<forall>(_, expected, actual) \<in> set (verification_rows truth stats). verdict_of (actual - expected) = ''OK''))"
  by (auto simp: print_verification_def verification_rows_def verification_ok_def verdict_of_def Let_def)

text \<open>\<open>write_ground_truth\<close>, without the configuration and the rate, by key.\<close>

definition ground_truth_counts :: "ground_truth \<Rightarrow> (string \<times> nat) list" where
  "ground_truth_counts truth =
     [(''matched'', gt_matched truth), (''matched_exact'', gt_matched_exact truth),
      (''matched_time_drift'', gt_matched_time_drift truth), (''amount_drift'', gt_amount_drift truth),
      (''unmatched_gateway_only'', gt_unmatched_gateway_only truth),
      (''unmatched_ledger_only'', gt_unmatched_ledger_only truth), (''duplicates'', gt_duplicates truth),
      (''transactions'', gt_transactions_planned truth), (''expected_results'', expected_results truth),
      (''gateway_requests_sent'', gt_gateway_requests_sent truth),
      (''ledger_entries_sent'', gt_ledger_entries_sent truth)]"

text \<open>A consumer can recompute the number of results from the other counts of the file.\<close>

lemma ground_truth_counts_total:
  "map_of (ground_truth_counts truth) ''expected_results'' =
     Some (the (map_of (ground_truth_counts truth) ''matched'') + the (map_of (ground_truth_counts truth) ''amount_drift'') +
       the (map_of (ground_truth_counts truth) ''unmatched_gateway_only'') +
       the (map_of (ground_truth_counts truth) ''unmatched_ledger_only'') +
       the (map_of (ground_truth_counts truth) ''duplicates''))"
  by (simp add: ground_truth_counts_def expected_results_def)

text \<open>\<open>main_async\<close>: what is done with the truth of the run, and the exit code.\<close>

definition load_main :: "load_args \<Rightarrow> ground_truth \<Rightarrow> stats_row option \<Rightarrow> (string \<times> (string \<times> nat) list) option \<times> int" where
  "load_main args truth stats =
     (case load_args_error args of
        Some _ \<Rightarrow> (None, 2)
      | None \<Rightarrow>
          (case la_json_out args of
             None \<Rightarrow> None
           | Some path \<Rightarrow> if path = [] then None else Some (path, ground_truth_counts truth),
           exit_code (la_verify args) truth stats))"

end
