(* ===== verification/Spec2Isabelle.thy ===== *)
theory Spec2Isabelle
  imports Read_Laws Relay_Laws Access_Laws Webhook_Laws Load_Truth Migration_Laws
    Config_Validators Worker_Run_Laws Process_Laws Processes Routes_Ops Script_Commands
    Observability Db_Session Migration_Env Benchmark_Report Executions Load_Run
begin

text \<open>
  LedgerLoop, a payment reconciliation engine (\<open>src/backend/ledgerloop\<close>), as a shallow embedding.

  The program. A gateway posts transactions and a merchant posts ledger entries over HTTP. Ingestion
  writes each submission once per tenant and idempotency key, together with an outbox event in the same
  transaction; a relay moves outbox events to a Redis stream; matcher workers read the stream, look for
  the counterparty of a row and write at most one result per row, opening an exception where a person
  must look; a sweeper declares rows unmatched that waited too long; retention deletes idle demo
  tenants; the read side serves statistics, keyset pages and the closing of an exception. Every request
  is made for one tenant, found by its API key, its demo session or the default account, and writes are
  limited per minute. Stripe, Razorpay and custom providers deliver through signed webhooks.

  Which theory models which file (under \<open>src/backend/ledgerloop\<close>):

    \<^item> \<open>Prelude\<close>: lists as SQL tables (insert, update where, minimum by key), shared by all.
    \<^item> \<open>Decimal_Model\<close>, \<open>Float_Model\<close>, \<open>Py_Strings\<close>, \<open>Json_Model\<close>, \<open>Sha256\<close>: what the program uses of
      Python's library: \<open>Decimal\<close> with its 28-digit context, \<open>timedelta.total_seconds\<close> and its product
      in binary64, string methods and \<open>int(str)\<close> (with \<open>Py_Substrings\<close>: \<open>in\<close>, \<open>partition\<close>, \<open>replace\<close>, \<open>join\<close>),
      parsed JSON, SHA-256 and HMAC.
    \<^item> \<open>Db_Enums\<close> (\<open>db/enums.py\<close>), \<open>Settings\<close> and \<open>Config_Validators\<close> (\<open>config.py\<close>: the fields, and the
      validators that run before them), \<open>Db_Models\<close> (\<open>db/models.py\<close>) with the interface \<open>Unique_Index\<close>: the rows as records, the tables as lists in one record \<open>db\<close>, unique
      indexes as key functions, \<open>CHECK\<close>s as predicates an insert tests.
    \<^item> \<open>Matching_Core\<close> (\<open>matching/core.py\<close>): the pure matcher.
    \<^item> \<open>Api_Schemas\<close> (\<open>api/schemas.py\<close>), \<open>Tenancy\<close> (\<open>services/tenancy.py\<close>), \<open>Sources\<close>
      (\<open>services/sources.py\<close>, \<open>scripts/create_webhook_source.py\<close>), \<open>Ingest\<close> (\<open>services/ingest.py\<close>),
      \<open>Queries\<close> (\<open>services/queries.py\<close>).
    \<^item> \<open>Queue_Messages\<close>, \<open>Queue_Streams\<close>, \<open>Queue_Relay\<close> (\<open>queue/messages.py\<close>, \<open>queue/streams.py\<close>,
      \<open>queue/relay.py\<close>): messages and their fields, the stream client, one pass of the relay.
    \<^item> \<open>Worker_Persist\<close>, \<open>Worker_Loop\<close>, \<open>Worker_Sweeper\<close> (\<open>worker/persist.py\<close>, \<open>loop.py\<close>, \<open>sweeper.py\<close>):
      one message, one pass of the sweep, retention.
    \<^item> \<open>Worker_Run\<close> (\<open>MatcherWorker.run\<close> of \<open>worker/loop.py\<close>), \<open>Process_Loops\<close> (\<open>run_forever\<close> of
      \<open>queue/relay.py\<close> and of \<open>worker/sweeper.py\<close>, \<open>worker/sweep.py\<close>): the loops with their failures.
    \<^item> \<open>Processes\<close> (\<open>worker/main.py\<close>, \<open>worker/embedded.py\<close>, the lifespan of \<open>api/app.py\<close>): who hosts
      which loop, how it stops and what it exits with; the life of a process as a trace of events, with
      a monitor of what is open while a task runs.
    \<^item> \<open>Db_Session\<close> (\<open>db/session.py\<close>): the engine and the session factory a process keeps.
    \<^item> \<open>Observability\<close> (\<open>observability/metrics.py\<close>, \<open>logging.py\<close>): the collectors, what the components
      count into them, and the set-up of the log.
    \<^item> \<open>Signatures\<close>, \<open>Adapters\<close> (\<open>webhooks/signatures.py\<close>, \<open>adapters.py\<close>).
    \<^item> \<open>Api_Deps\<close> (\<open>api/deps.py\<close>, \<open>api/ratelimit.py\<close>), \<open>Routes_Ingest\<close>, \<open>Routes_Read\<close>
      (\<open>api/routes_ingest.py\<close>, \<open>api/routes_read.py\<close>): the handlers, with their answers as the flat
      records \<open>api/schemas.py\<close> puts on the wire; \<open>Routes_Ops\<close> (\<open>api/routes_ops.py\<close>): the probes and the scrape.
    \<^item> \<open>Migrations\<close>: what the DDL operations of \<open>src/backend/alembic/versions\<close> do to a schema and to
      the rows under it; \<open>Migration_Scripts\<close>: the upgrade and downgrade of the three revisions;
      \<open>Models_Schema\<close>: the schema \<open>db/models.py\<close> declares, named by the convention of \<open>db/base.py\<close>;
      \<open>Migration_Env\<close> (\<open>src/backend/alembic/env.py\<close>): the check the database URL passes.
    \<^item> \<open>Load_Generator\<close> (\<open>src/backend/scripts/generate_load.py\<close>, and the verdicts of
      \<open>src/backend/scripts/benchmark.py\<close>): the plan of a load run and the counts it predicts;
      \<open>Script_Commands\<close>: the commands under \<open>src/backend/scripts\<close>, from arguments to exit code;
      \<open>Load_Run\<close>: its arguments, its queues and senders, and the comparison it prints;
      \<open>Benchmark_Report\<close>: a run of the benchmark and the tables of its report.

  State and effects. An operation is a function from the database (and the readings of clocks and
  random tokens it makes) to the database it commits and its answer, or to the exception that rolls
  the transaction back, as a sum. \<open>System\<close> puts every process over one database: a step relation that
  interleaves them at the points where READ COMMITTED lets them, with reads, decisions and writes as
  separate steps, and with messages delivered any number of times, in any order.

  What the lemmas show:

    \<^item> \<open>Db_Invariant\<close>, \<open>Ingest_Laws\<close>, \<open>Worker_Laws\<close>: every operation keeps the invariant of the
      database; ingestion implements the interface \<open>counted_submissions\<close> on both sides, and the batch
      is the single submission repeated; the worker and the sweeper do not fail on such a database.
    \<^item> \<open>System\<close>, \<open>Guarantees\<close>: the invariant of the whole program by rule induction, and what follows:
      one result per row, what a status means, nothing lost, redelivery writes nothing, the sweep
      leaves nothing overdue and its draining loop stops.
    \<^item> \<open>Executions\<close>: every gateway row, and every ledger row submitted once, has a message that makes the worker
      look for its counterparty; once the pipeline is drained no pair that matches is left open, however
      the workers interleave. A batch that repeats a new key shows why the condition is there.
    \<^item> \<open>Refinement\<close>: what a request or a process commits, errors included, is reached by steps; so the
      guarantees hold of the handlers as they are composed.
    \<^item> \<open>Relay_Laws\<close>, \<open>Read_Laws\<close>, \<open>Access_Laws\<close>, \<open>Webhook_Laws\<close>: the outbox empties, pages enumerate a
      feed through the interface \<open>keyset_feed\<close>, keys and limits, signed deliveries.
    \<^item> \<open>Worker_Run\<close>, \<open>Worker_Run_Laws\<close>: whatever fails in a round, the worker goes on until it is stopped,
      cancelled or cannot make its group again; what it commits is reached by steps, and an entry it
      acknowledged has been answered.
    \<^item> \<open>Process_Loops\<close>, \<open>Process_Laws\<close>: the relay and the sweeper outlive failures, what they commit is
      reached by steps, and a relay whose Redis comes back empties the outbox.
    \<^item> \<open>Processes\<close>, \<open>Routes_Ops\<close>, \<open>Script_Commands\<close>, \<open>Config_Validators\<close>: exit codes and answers on every
      branch, the pinning of the database driver, the reading of a list of origins; in every life of a
      process that gets past its start, the connections outlive the tasks that use them.
    \<^item> \<open>Observability\<close>, \<open>Benchmark_Report\<close>: the counters of gateway rows, of processed messages and of the sweep
      agree with the tables, that of the batches stays behind them by the new keys a batch repeats; a
      run that reconciled wrongly shows in the report.
    \<^item> \<open>Db_Session\<close>, \<open>Migration_Env\<close>: one engine at a time unless two disposals overlap; the URLs that no
      migration can run against.
    \<^item> \<open>Load_Laws\<close>, \<open>Load_Truth\<close>, \<open>Load_Run\<close>: what the generator injects is what the matcher finds, a settled
      run reports the predicted counts, and every planned transaction is handed to one sender.
    \<^item> \<open>Migration_Chain\<close>, \<open>Migration_Laws\<close>: the upgrades end in the declared schema, the downgrades
      undo them, the tenancy migration keeps every row, and its downgrade refuses colliding keys.

  Bounds and fuel. \<open>match_latency_ms\<close> is a 4-byte column: \<open>max_wait\<close> (24.8 days) is the wait up to
  which a latency surely fits, and one theorem shows what happens beyond it. The sweep's pass budget,
  the number of requests a client walks a feed with and the number of relay batches are arguments; the
  theorems ask for more passes than waiting rows, more requests than items, and as many batches as the
  backlog needs. Row ids and counters are unbounded integers where the column is a \<open>bigint\<close>, except
  where a client supplies them (\<open>int8_ok\<close>).

  Parameters (code that is not part of the repository): the text of \<open>json.dumps\<close> and \<open>json.loads\<close>,
  \<open>isoformat\<close>, \<open>repr\<close>, pydantic's reading of a custom body, \<open>secrets.token_urlsafe\<close> and the clocks. Redis is a record of the
  commands the stream client sends, each a function of the server's state that answers or raises;
  what a theorem relies on it for (no command but \<open>XACK\<close> takes an entry off the pending list, a reply
  holds entries of the stream) is a hypothesis, and each has an example server that keeps it.

  Simplifications. Characters are those of Latin-1, so a text beyond it is outside the model. A
  quotient of the statistics is an exact rational, not a double. An index that is not unique has no
  state of its own in the database; the migrations keep it as a name in the schema. There, a
  \<open>CHECK\<close> and a partial index predicate are their texts and a cell of a row is an opaque value. The
  random draws of the load generator and its \<open>timedelta\<close>s are arguments, and the JSON text of the
  bodies it posts is not modelled. A list of rounds is a finite part of a loop's run; what interrupts
  a round is one of its readings. The intervals of the settings and the samples of a percentile are
  exact, not doubles. The wall-clock timings among the metrics and the text of the log lines are left
  out.

  Not modelled, and why. The signal handlers, the middleware, the table of routes, the handling of
  connections in \<open>env.py\<close> and the parsing of the scripts' arguments only configure and call libraries. The HTTP
  client, the pacing, the summaries \<open>generate_load.py\<close> and \<open>benchmark.py\<close> print, the latter's measurement of the request
  ceiling and the fixed text of its report have no outcome but their input and output.
\<close>

end
